(* ===== verification/Prelude.thy ===== *)
theory Prelude
  imports Main "HOL-Library.AList" "HOL-Library.Monad_Syntax" "HOL-Library.Sublist"
    "HOL-Library.Multiset"
begin

text \<open>
  Go values the whole development shares. A Go string is a list of bytes (\<open>string\<close>), so
  \<open>len\<close> is \<open>length\<close>. A Go map is an association list: its keys are distinct
  (\<open>wf_map\<close>), lookup is \<open>map_of\<close>, assignment \<open>AList.update\<close>, \<open>delete\<close> is
  \<open>AList.delete\<close>, \<open>len\<close> is \<open>length\<close> and a \<open>range\<close> loop walks the list; since
  every theorem quantifies over all such lists, every iteration order is covered. A run-time
  panic is the value \<open>None\<close> of an \<open>option\<close>, sequenced by the do-notation.
\<close>

named_theorems go_simps \<open>unfoldings of the Go string and slice helpers\<close>

type_synonym AppID = string
type_synonym SocketID = string
type_synonym ChannelName = string
type_synonym UserID = string
type_synonym ('k, 'v) gomap = "('k \<times> 'v) list"
type_synonym addr = nat

abbreviation mput :: "'k \<Rightarrow> 'v \<Rightarrow> ('k, 'v) gomap \<Rightarrow> ('k, 'v) gomap" where
  "mput k v m \<equiv> AList.update k v m"

abbreviation mdel :: "'k \<Rightarrow> ('k, 'v) gomap \<Rightarrow> ('k, 'v) gomap" where
  "mdel k m \<equiv> AList.delete k m"

definition mhas :: "('k, 'v) gomap \<Rightarrow> 'k \<Rightarrow> bool" where
  "mhas m k = (map_of m k \<noteq> None)"

definition wf_map :: "('k, 'v) gomap \<Rightarrow> bool" where
  "wf_map m = distinct (map fst m)"

text \<open>Reading a missing key of a map gives the zero value of the element type.\<close>

definition mget0 :: "'v \<Rightarrow> ('k, 'v) gomap \<Rightarrow> 'k \<Rightarrow> 'v" where
  "mget0 z m k = (case map_of m k of None \<Rightarrow> z | Some v \<Rightarrow> v)"

lemma mhas_iff: "mhas m k \<longleftrightarrow> k \<in> fst ` set m"
  by (auto simp: mhas_def map_of_eq_None_iff)

lemma mhas_mput [simp]: "mhas (mput k v m) k' \<longleftrightarrow> k' = k \<or> mhas m k'"
  by (simp add: mhas_def update_conv')

lemma mhas_mdel [simp]: "mhas (mdel k m) k' \<longleftrightarrow> k' \<noteq> k \<and> mhas m k'"
  by (simp add: mhas_def delete_conv')

lemma mhas_Nil [simp]: "\<not> mhas [] k"
  by (simp add: mhas_def)

lemma wf_map_Nil [simp, intro]: "wf_map []"
  by (simp add: wf_map_def)

lemma wf_map_mput [simp, intro]: "wf_map m \<Longrightarrow> wf_map (mput k v m)"
  by (simp add: wf_map_def distinct_update)

lemma wf_map_mdel [simp, intro]: "wf_map m \<Longrightarrow> wf_map (mdel k m)"
  by (simp add: wf_map_def distinct_delete)

lemma wf_map_filter [simp, intro]: "wf_map m \<Longrightarrow> wf_map (filter P m)"
  by (induction m) (auto simp: wf_map_def)

lemma wf_map_same_keys: "map fst m' = map fst m \<Longrightarrow> wf_map m \<Longrightarrow> wf_map m'"
  by (simp add: wf_map_def)

lemma map_of_mput [simp]: "map_of (mput k v m) k' = (if k' = k then Some v else map_of m k')"
  by (simp add: update_conv')

lemma map_of_mdel [simp]: "map_of (mdel k m) k' = (if k' = k then None else map_of m k')"
  by (simp add: delete_conv')

lemma map_of_filter_key:
  "map_of (filter (\<lambda>(k, v). P k) m) k = (if P k then map_of m k else None)"
  by (induction m) auto

lemma map_of_map_vals: "map_of (map (\<lambda>(k, v). (k, f v)) m) k = map_option f (map_of m k)"
  by (induction m) auto

lemma map_of_SomeD': "map_of m k = Some v \<Longrightarrow> (k, v) \<in> set m"
  by (rule map_of_SomeD)

lemma wf_map_of_iff: "wf_map m \<Longrightarrow> map_of m k = Some v \<longleftrightarrow> (k, v) \<in> set m"
  by (simp add: wf_map_def)

lemma length_keys: "wf_map m \<Longrightarrow> length m = card (fst ` set m)"
  by (metis distinct_card length_map list.set_map wf_map_def)

lemma length_mput: "length (mput k v m) = (if mhas m k then length m else Suc (length m))"
  by (metis length_append_singleton length_map list.set_map mhas_iff update_keys)

lemma in_mdel: "(k', p) \<in> set (mdel k m) \<Longrightarrow> (k', p) \<in> set m \<and> k' \<noteq> k"
  by (auto simp: AList.delete_eq)

lemma in_mput:
  assumes "wf_map m" and "(k', p) \<in> set (mput k v m)"
  shows "(k' = k \<and> p = v) \<or> (k' \<noteq> k \<and> (k', p) \<in> set m)"
proof -
  from assms(2) have "map_of (mput k v m) k' = Some p"
    by (simp only: wf_map_of_iff [OF wf_map_mput [OF assms(1)]])
  then show ?thesis by (auto split: if_splits dest: map_of_SomeD)
qed

text \<open>\<open>range\<close> with a nondeterministic order: any permutation of the entries.\<close>

lemma wf_map_mset_eq:
  assumes "mset m = mset m'" and "wf_map m"
  shows "wf_map m'" and "map_of m = map_of m'"
proof -
  from assms(1) have "mset (map fst m) = mset (map fst m')" by (metis mset_map)
  with assms(2) show "wf_map m'" unfolding wf_map_def by (metis mset_eq_imp_distinct_iff)
  then show "map_of m = map_of m'"
    using assms by (metis map_of_inject_set mset_eq_setD wf_map_def)
qed

subsection \<open>Strings\<close>

definition HasPrefix :: "string \<Rightarrow> string \<Rightarrow> bool" where
  [go_simps]: "HasPrefix s p = prefix p s"

definition HasSuffix :: "string \<Rightarrow> string \<Rightarrow> bool" where
  [go_simps]: "HasSuffix s p = prefix (rev p) (rev s)"

definition TrimPrefix :: "string \<Rightarrow> string \<Rightarrow> string" where
  [go_simps]: "TrimPrefix s p = (if HasPrefix s p then drop (length p) s else s)"

text \<open>\<open>strings.Split\<close> for a separator of one byte: at least one piece.\<close>

fun Split :: "string \<Rightarrow> char \<Rightarrow> string list" where
  "Split [] c = [[]]"
| "Split (x # xs) c =
     (if x = c then [] # Split xs c
      else case Split xs c of [] \<Rightarrow> [[x]] | p # ps \<Rightarrow> (x # p) # ps)"

fun Join :: "string list \<Rightarrow> string \<Rightarrow> string" where
  "Join [] sep = []"
| "Join [p] sep = p"
| "Join (p # q # ps) sep = p @ sep @ Join (q # ps) sep"

lemma HasSuffix_iff: "HasSuffix s p \<longleftrightarrow> suffix p s"
  by (simp add: HasSuffix_def suffix_to_prefix)

lemma HasPrefix_append [simp]: "HasPrefix (p @ s) p"
  by (simp add: HasPrefix_def)

lemma HasPrefix_mono: "HasPrefix s (p @ q) \<Longrightarrow> HasPrefix s p"
  by (auto simp: HasPrefix_def prefix_def)

lemma HasPrefix_drop: "HasPrefix s p \<Longrightarrow> s = p @ drop (length p) s"
  by (auto simp: HasPrefix_def prefix_def)

lemma Split_nonempty [simp]: "Split s c \<noteq> []"
  by (induction s c rule: Split.induct) (auto split: list.splits)

lemma Split_no_sep: "c \<notin> set s \<Longrightarrow> Split s c = [s]"
  by (induction s) auto

lemma Split_append_sep: "c \<notin> set p \<Longrightarrow> Split (p @ c # s) c = p # Split s c"
  by (induction p) auto

lemma Join_Split: "Join (Split s c) [c] = s"
proof (induction s c rule: Split.induct)
  case (2 x xs c)
  then show ?case
  proof (cases "Split xs c")
    case (Cons p ps)
    with 2 show ?thesis by (cases ps) auto
  qed simp
qed simp

lemma Split_pieces: "p \<in> set (Split s c) \<Longrightarrow> c \<notin> set p"
  by (induction s c arbitrary: p rule: Split.induct) (auto split: list.splits if_splits)

lemma Split_eq_two: "Split s c = [a, b] \<longleftrightarrow> s = a @ c # b \<and> c \<notin> set a \<and> c \<notin> set b"
proof
  assume h: "Split s c = [a, b]"
  with Join_Split [of s c] have "s = a @ c # b" by simp
  moreover from h Split_pieces [of _ s c] have "c \<notin> set a" "c \<notin> set b" by auto
  ultimately show "s = a @ c # b \<and> c \<notin> set a \<and> c \<notin> set b" by simp
next
  assume "s = a @ c # b \<and> c \<notin> set a \<and> c \<notin> set b"
  then show "Split s c = [a, b]" by (simp add: Split_append_sep Split_no_sep)
qed

text \<open>Two strings with the same separator-free head before the separator agree.\<close>

lemma sep_unique:
  assumes "a @ c # b = a' @ c # b'" and "c \<notin> set a" and "c \<notin> set a'"
  shows "a = a' \<and> b = b'"
  using assms
proof (induction a arbitrary: a')
  case Nil
  then show ?case by (cases a') auto
next
  case (Cons x a)
  then show ?case by (cases a') auto
qed

subsection \<open>Decimal rendering\<close>

definition digit_char :: "nat \<Rightarrow> char" where
  "digit_char n = char_of (48 + n)"

fun dec_nat :: "nat \<Rightarrow> string" where
  "dec_nat n = (if n < 10 then [digit_char n] else dec_nat (n div 10) @ [digit_char (n mod 10)])"

declare dec_nat.simps [simp del]

text \<open>\<open>fmt.Sprintf("%d", n)\<close>, \<open>strconv.Itoa\<close>.\<close>

definition Itoa :: "int \<Rightarrow> string" where
  "Itoa n = (if n < 0 then CHR ''-'' # dec_nat (nat (- n)) else dec_nat (nat n))"

definition is_digit :: "char \<Rightarrow> bool" where
  "is_digit c = (48 \<le> (of_char c :: nat) \<and> (of_char c :: nat) \<le> 57)"

definition digit_val :: "char \<Rightarrow> nat" where
  "digit_val c = of_char c - 48"

definition undec :: "string \<Rightarrow> nat" where
  "undec s = foldl (\<lambda>a c. 10 * a + digit_val c) 0 s"

lemma of_digit_char: "n < 10 \<Longrightarrow> (of_char (digit_char n) :: nat) = 48 + n"
  by (simp add: digit_char_def)

lemma digit_char_props [simp]:
  "n < 10 \<Longrightarrow> is_digit (digit_char n)" "n < 10 \<Longrightarrow> digit_val (digit_char n) = n"
  by (simp_all add: is_digit_def digit_val_def of_digit_char)

lemma dec_nat_digits: "c \<in> set (dec_nat n) \<Longrightarrow> is_digit c"
proof (induction n rule: dec_nat.induct)
  case (1 n)
  then show ?case by (subst (asm) (2) dec_nat.simps) (auto split: if_splits)
qed

lemma dec_nat_nonempty [simp]: "dec_nat n \<noteq> []"
  by (subst dec_nat.simps) simp

lemma undec_snoc: "undec (s @ [c]) = 10 * undec s + digit_val c"
  by (simp add: undec_def)

lemma undec_dec_nat [simp]: "undec (dec_nat n) = n"
proof (induction n rule: dec_nat.induct)
  case (1 n)
  show ?case
  proof (cases "n < 10")
    case True
    then show ?thesis by (subst dec_nat.simps) (simp add: undec_def)
  next
    case False
    with 1 show ?thesis by (subst dec_nat.simps) (simp add: undec_snoc)
  qed
qed

lemma dec_nat_inject [simp]: "dec_nat m = dec_nat n \<longleftrightarrow> m = n"
  by (metis undec_dec_nat)

lemma not_digit_minus: "\<not> is_digit (CHR ''-'')" "\<not> is_digit (CHR '':'')" "\<not> is_digit (CHR ''.'')"
  by (simp_all add: is_digit_def)

lemma Itoa_no: "c \<in> set (Itoa n) \<Longrightarrow> is_digit c \<or> c = CHR ''-''"
  by (auto simp: Itoa_def dest: dec_nat_digits split: if_splits)

subsection \<open>Slices\<close>

text \<open>
  \<open>make([]T, 0, c)\<close> panics when the capacity \<open>c\<close> is negative; the code asks for
  \<open>len(xs)-1\<close>.
\<close>

definition make_cap :: "int \<Rightarrow> unit option" where
  "make_cap c = (if c < 0 then None else Some ())"

definition remove_id :: "SocketID list \<Rightarrow> SocketID \<Rightarrow> SocketID list option" where
  "remove_id ids x = do { make_cap (int (length ids) - 1); Some (filter (\<lambda>i. i \<noteq> x) ids) }"

lemma remove_id_Some: "remove_id ids x = Some r \<longleftrightarrow> ids \<noteq> [] \<and> r = filter (\<lambda>i. i \<noteq> x) ids"
  by (cases ids) (auto simp: remove_id_def make_cap_def)

lemma remove_id_None: "remove_id ids x = None \<longleftrightarrow> ids = []"
  by (cases ids) (auto simp: remove_id_def make_cap_def)

subsection \<open>Refinement\<close>

text \<open>
  The contract of a component whose operations may panic: on well-formed states every valid
  operation returns, keeps the state well formed and does to the abstract state what the
  specification says. Then so does every sequence of operations.
\<close>

fun run_opt :: "('op \<Rightarrow> 's \<Rightarrow> 's option) \<Rightarrow> 'op list \<Rightarrow> 's \<Rightarrow> 's option" where
  "run_opt exec [] s = Some s"
| "run_opt exec (x # xs) s = do { s' \<leftarrow> exec x s; run_opt exec xs s' }"

locale total_refinement =
  fixes wf :: "'s \<Rightarrow> bool"
    and abs :: "'s \<Rightarrow> 'a"
    and valid :: "'op \<Rightarrow> bool"
    and exec :: "'op \<Rightarrow> 's \<Rightarrow> 's option"
    and spec :: "'op \<Rightarrow> 'a \<Rightarrow> 'a"
  assumes step: "wf s \<Longrightarrow> valid x \<Longrightarrow> \<exists>s'. exec x s = Some s' \<and> wf s' \<and> abs s' = spec x (abs s)"
begin

lemma run:
  "wf s \<Longrightarrow> list_all valid xs \<Longrightarrow>
     \<exists>s'. run_opt exec xs s = Some s' \<and> wf s' \<and> abs s' = fold spec xs (abs s)"
proof (induction xs arbitrary: s)
  case (Cons x xs)
  then obtain s1 where s1: "exec x s = Some s1" "wf s1" "abs s1 = spec x (abs s)"
    using step [of s x] by auto
  from Cons.IH [OF s1(2)] Cons.prems s1 show ?case by simp
qed simp

lemma no_panic: "wf s \<Longrightarrow> list_all valid xs \<Longrightarrow> run_opt exec xs s \<noteq> None"
  using run [of s xs] by auto

end

end
