(* ===== verification/Crypto.thy ===== *)
theory Crypto
  imports Prelude "HOL-Library.Word"
begin

unbundle bit_operations_syntax

text \<open>
  The part of Go's \<open>crypto/sha256\<close>, \<open>crypto/hmac\<close> and \<open>encoding/hex\<close> that
  \<open>internal/util/signature.go\<close> calls, executable on byte strings: SHA-256 over 32-bit
  words, HMAC with a 64-byte block, lower-case hexadecimal. The facts the other theories use are
  that a hexadecimal digest has 64 characters, all from \<open>0-9a-f\<close>.
\<close>

type_synonym u32 = "32 word"

definition rotr32 :: "nat \<Rightarrow> u32 \<Rightarrow> u32" where
  "rotr32 n x = (drop_bit n x OR push_bit (32 - n) x)"

text \<open>
  The constants are computed as the standard defines them: the first 32 bits of the fractional
  parts of the cube roots (round constants) and the square roots (initial state) of the first
  primes. \<open>root_floor e n k acc\<close> finds the largest number below \<open>acc + 2 ^ k\<close>
  whose \<open>e\<close>-th power is at most \<open>n\<close>, bit by bit; \<open>word_of_int\<close> drops the integer part.
\<close>

fun root_floor :: "nat \<Rightarrow> int \<Rightarrow> nat \<Rightarrow> int \<Rightarrow> int" where
  "root_floor e n 0 acc = acc"
| "root_floor e n (Suc k) acc =
     (let t = acc + 2 ^ k in root_floor e n k (if t ^ e \<le> n then t else acc))"

definition primes_upto :: "int \<Rightarrow> int list" where
  "primes_upto b = filter (\<lambda>p. list_all (\<lambda>d. p mod d \<noteq> 0) [2..p - 1]) [2..b]"

definition sha_K :: "u32 list" where
  "sha_K = map (\<lambda>p. word_of_int (root_floor 3 (p * 2 ^ 96) 35 0)) (primes_upto 311)"

definition sha_H0 :: "u32 list" where
  "sha_H0 = map (\<lambda>p. word_of_int (root_floor 2 (p * 2 ^ 64) 35 0)) (primes_upto 19)"

text \<open>Padding: a 1 bit, zeros, and the bit length in 64 bits, to a multiple of 64 bytes.\<close>

fun be_bytes :: "nat \<Rightarrow> nat \<Rightarrow> nat list" where
  "be_bytes 0 n = []"
| "be_bytes (Suc k) n = be_bytes k (n div 256) @ [n mod 256]"

definition sha_pad :: "nat list \<Rightarrow> nat list" where
  "sha_pad m = m @ [128] @ replicate ((119 - length m mod 64) mod 64) 0 @ be_bytes 8 (8 * length m)"

fun be_words :: "nat list \<Rightarrow> u32 list" where
  "be_words (a # b # c # d # bs) =
     of_nat (((a * 256 + b) * 256 + c) * 256 + d) # be_words bs"
| "be_words _ = []"

fun sha_blocks :: "nat \<Rightarrow> u32 list \<Rightarrow> u32 list list" where
  "sha_blocks 0 ws = []"
| "sha_blocks (Suc n) ws = take 16 ws # sha_blocks n (drop 16 ws)"

text \<open>The message schedule, newest word first.\<close>

fun sha_schedule :: "nat \<Rightarrow> u32 list \<Rightarrow> u32 list" where
  "sha_schedule 0 ws = ws"
| "sha_schedule (Suc n) ws =
     (let x = ws ! 1; y = ws ! 14;
          s1 = (rotr32 17 x XOR rotr32 19 x XOR drop_bit 10 x);
          s0 = (rotr32 7 y XOR rotr32 18 y XOR drop_bit 3 y)
      in sha_schedule n ((ws ! 15 + s0 + ws ! 6 + s1) # ws))"

fun sha_round :: "u32 list \<Rightarrow> u32 \<times> u32 \<Rightarrow> u32 list" where
  "sha_round [a, b, c, d, e, f, g, h] (k, w) =
     (let S1 = (rotr32 6 e XOR rotr32 11 e XOR rotr32 25 e);
          ch = ((e AND f) XOR (NOT e AND g));
          t1 = h + S1 + ch + k + w;
          S0 = (rotr32 2 a XOR rotr32 13 a XOR rotr32 22 a);
          maj = ((a AND b) XOR (a AND c) XOR (b AND c))
      in [t1 + S0 + maj, a, b, c, d + t1, e, f, g])"
| "sha_round st kw = st"

definition sha_block :: "u32 list \<Rightarrow> u32 list \<Rightarrow> u32 list" where
  "sha_block H b =
     map2 (+) H (foldl sha_round H (zip sha_K (rev (sha_schedule 48 (rev b)))))"

definition sha256_words :: "nat list \<Rightarrow> u32 list" where
  "sha256_words m = (let p = sha_pad m in foldl sha_block sha_H0 (sha_blocks (length p div 64) (be_words p)))"

definition sha256 :: "nat list \<Rightarrow> nat list" where
  "sha256 m = concat (map (\<lambda>w. be_bytes 4 (unat w)) (sha256_words m))"

definition hmac_sha256 :: "nat list \<Rightarrow> nat list \<Rightarrow> nat list" where
  "hmac_sha256 key msg =
     (let k = (if length key > 64 then sha256 key else key);
          kp = k @ replicate (64 - length k) 0;
          x = (\<lambda>p. map (\<lambda>b. unat (of_nat b XOR p :: 8 word)) kp)
      in sha256 (x 0x5c @ sha256 (x 0x36 @ msg)))"

definition hex_digit :: "nat \<Rightarrow> char" where
  "hex_digit n = (if n < 10 then char_of (48 + n) else char_of (87 + n))"

definition hex_encode :: "nat list \<Rightarrow> string" where
  "hex_encode bs = concat (map (\<lambda>b. [hex_digit (b div 16 mod 16), hex_digit (b mod 16)]) bs)"

definition bytes_of :: "string \<Rightarrow> nat list" where
  "bytes_of s = map of_char s"

definition is_hex :: "char \<Rightarrow> bool" where
  "is_hex c = (let n = (of_char c :: nat) in (48 \<le> n \<and> n \<le> 57) \<or> (97 \<le> n \<and> n \<le> 102))"

lemma hex_digit_is_hex: "n < 16 \<Longrightarrow> is_hex (hex_digit n)"
  by (auto simp: is_hex_def hex_digit_def Let_def)

lemma hex_encode_is_hex: "c \<in> set (hex_encode bs) \<Longrightarrow> is_hex c"
  by (auto simp: hex_encode_def hex_digit_is_hex)

lemma hex_not_colon: "\<not> is_hex (CHR '':'')"
  by (simp add: is_hex_def)

lemma length_be_bytes [simp]: "length (be_bytes k n) = k"
  by (induction k arbitrary: n) auto

lemma length_sha_round: "length st = 8 \<Longrightarrow> length (sha_round st kw) = 8"
  by (cases "(st, kw)" rule: sha_round.cases) (auto simp: Let_def)

lemma length_sha_rounds: "length st = 8 \<Longrightarrow> length (foldl sha_round st kws) = 8"
  by (induction kws arbitrary: st) (auto simp: length_sha_round)

lemma length_sha_block: "length H = 8 \<Longrightarrow> length (sha_block H b) = 8"
  by (simp add: sha_block_def length_sha_rounds)

lemma length_sha_blocks: "length H = 8 \<Longrightarrow> length (foldl sha_block H bs) = 8"
  by (induction bs arbitrary: H) (auto simp: length_sha_block)

lemma length_sha_H0 [simp]: "length sha_H0 = 8"
proof -
  have "primes_upto 19 = [2, 3, 5, 7, 11, 13, 17, 19]" by code_simp
  then show ?thesis by (simp add: sha_H0_def)
qed

lemma length_sha256: "length (sha256 m) = 32"
proof -
  have w: "length (sha256_words m) = 8"
    unfolding sha256_words_def Let_def by (rule length_sha_blocks) simp
  have "length (concat (map (\<lambda>w. be_bytes 4 (unat w)) ws)) = 4 * length ws" for ws :: "u32 list"
    by (induction ws) auto
  with w show ?thesis by (simp add: sha256_def)
qed

lemma length_hmac_sha256: "length (hmac_sha256 key msg) = 32"
  by (simp add: hmac_sha256_def Let_def length_sha256)

lemma length_hex_encode: "length (hex_encode bs) = 2 * length bs"
  unfolding hex_encode_def by (induction bs) auto

end
