(* ===== verification/Util.thy ===== *)
theory Util
  imports Crypto
begin

text \<open>
  \<open>internal/util/utils.go\<close>, \<open>internal/util/errors.go\<close> and the constants of
  \<open>internal/constants/constants.go\<close>: error codes and their texts, channel-name predicates,
  the channel-name check of the two entry points, and the channel authorisation token.
\<close>

subsection \<open>Error codes (errors.go)\<close>

datatype ErrorCode =
    ErrCodeSSLRequired | ErrCodeAppNotExist | ErrCodeAppDisabled | ErrCodeOverQuota
  | ErrCodePathNotFound | ErrCodeInvalidVersionString | ErrCodeUnsupportedProtocolVersion
  | ErrCodeNoProtocolVersion | ErrCodeUnauthorizedConnection | ErroCodeInternalServerError
  | ErrCodeOverCapacity | ErrCodeServerShuttingDown
  | ErrCodeGenericReconnect | ErrCodePongNotReceived | ErrCodeClosedAfterInactivity
  | ErrCodeCloseExpected
  | ErrCodeClientEventRejected | ErrCodeInvalidPayload | ErrCodeInvalidChannel
  | ErrCodeAlreadySubscribed | ErrCodeMaxPresenceSubscribers | ErrCodePresenceUserDataTooMuch
  | ErrCodePresenceUserIDTooLong | ErrCodeNotSubscribed
  | ErrCodeClientOnlySupportsPrivatePresence | ErrCodeSubscriptionAccessDenied
  | ErrCodeWebsocketAbnormalClosure | ErrCodeGoRoutineExited
  | ErrCodeUnknown \<comment> \<open>the literal 9999 of \<open>NewUnknownError\<close>\<close>

fun code_int :: "ErrorCode \<Rightarrow> int" where
  "code_int ErrCodeSSLRequired = 4000"
| "code_int ErrCodeAppNotExist = 4001"
| "code_int ErrCodeAppDisabled = 4003"
| "code_int ErrCodeOverQuota = 4004"
| "code_int ErrCodePathNotFound = 4005"
| "code_int ErrCodeInvalidVersionString = 4006"
| "code_int ErrCodeUnsupportedProtocolVersion = 4007"
| "code_int ErrCodeNoProtocolVersion = 4008"
| "code_int ErrCodeUnauthorizedConnection = 4009"
| "code_int ErroCodeInternalServerError = 4050"
| "code_int ErrCodeOverCapacity = 4100"
| "code_int ErrCodeServerShuttingDown = 4105"
| "code_int ErrCodeGenericReconnect = 4200"
| "code_int ErrCodePongNotReceived = 4201"
| "code_int ErrCodeClosedAfterInactivity = 4202"
| "code_int ErrCodeCloseExpected = 4203"
| "code_int ErrCodeClientEventRejected = 4301"
| "code_int ErrCodeInvalidPayload = 4310"
| "code_int ErrCodeInvalidChannel = 4311"
| "code_int ErrCodeAlreadySubscribed = 4312"
| "code_int ErrCodeMaxPresenceSubscribers = 4313"
| "code_int ErrCodePresenceUserDataTooMuch = 4314"
| "code_int ErrCodePresenceUserIDTooLong = 4315"
| "code_int ErrCodeNotSubscribed = 4316"
| "code_int ErrCodeClientOnlySupportsPrivatePresence = 4317"
| "code_int ErrCodeSubscriptionAccessDenied = 4318"
| "code_int ErrCodeWebsocketAbnormalClosure = 4400"
| "code_int ErrCodeGoRoutineExited = 4401"
| "code_int ErrCodeUnknown = 9999"

fun ErrorCode_Error :: "ErrorCode \<Rightarrow> string" where
  "ErrorCode_Error ErrCodeSSLRequired = ''Application only accepts SSL connections, reconnect using wss://''"
| "ErrorCode_Error ErrCodeAppNotExist = ''Application does not exist''"
| "ErrorCode_Error ErrCodeAppDisabled = ''Application disabled''"
| "ErrorCode_Error ErrCodeOverQuota = ''Application is over connection quota''"
| "ErrorCode_Error ErrCodePathNotFound = ''Path not found''"
| "ErrorCode_Error ErrCodeInvalidVersionString = ''Invalid version string format''"
| "ErrorCode_Error ErrCodeUnsupportedProtocolVersion = ''Unsupported protocol version''"
| "ErrorCode_Error ErrCodeNoProtocolVersion = ''No protocol version supplied''"
| "ErrorCode_Error ErrCodeUnauthorizedConnection = ''Connection is unauthorized''"
| "ErrorCode_Error ErrCodeInvalidPayload = ''Invalid payload''"
| "ErrorCode_Error ErrCodeInvalidChannel = ''Invalid channel''"
| "ErrorCode_Error ErrCodeAlreadySubscribed = ''Already subscribed''"
| "ErrorCode_Error ErrCodeMaxPresenceSubscribers = ''presence channel user limit reached''"
| "ErrorCode_Error ErrCodePresenceUserDataTooMuch =
     ''presence channel user data exceeds limit (APP_MAX_PRESENCE_USER_DATA_KB)''"
| "ErrorCode_Error ErrCodePresenceUserIDTooLong = ''presence channel limit to 128 characters user id''"
| "ErrorCode_Error ErrCodeNotSubscribed = ''Not subscribed''"
| "ErrorCode_Error ErroCodeInternalServerError = ''Internal server error''"
| "ErrorCode_Error ErrCodeClientOnlySupportsPrivatePresence =
     ''Client only supports private and presence channels''"
| "ErrorCode_Error ErrCodeSubscriptionAccessDenied = ''Subscription access denied''"
| "ErrorCode_Error ErrCodeServerShuttingDown = ''Server shutting down''"
| "ErrorCode_Error ErrCodeGoRoutineExited = ''Go routine exited''"
| "ErrorCode_Error ErrCodeOverCapacity = ''Over capacity''"
| "ErrorCode_Error ErrCodeGenericReconnect = ''Generic reconnect immediately''"
| "ErrorCode_Error ErrCodePongNotReceived =
     ''Pong reply not received: ping was sent to the client, but no reply was received - see ping and pong messages''"
| "ErrorCode_Error ErrCodeClosedAfterInactivity =
     ''Closed after inactivity: Client has been inactive for a long time (currently 24 hours) and client does not support ping. Please upgrade to a newer WebSocket draft or implement version 5 or above of this protocol''"
| "ErrorCode_Error ErrCodeCloseExpected = ''Close expected''"
| "ErrorCode_Error ErrCodeClientEventRejected = ''Client event rejected due to rate limit''"
| "ErrorCode_Error ErrCodeWebsocketAbnormalClosure = ''Websocket abnormal closure''"
| "ErrorCode_Error ErrCodeUnknown = ''Unknown error''"

record UError =
  ue_Code :: ErrorCode
  ue_Message :: string

definition NewError :: "ErrorCode \<Rightarrow> string list \<Rightarrow> UError" where
  "NewError code appendToMessage =
     \<lparr>ue_Code = code,
      ue_Message = foldl (\<lambda>m a. m @ '' : '' @ a) (ErrorCode_Error code) appendToMessage\<rparr>"

definition NewUnknownError :: "string \<Rightarrow> UError" where
  "NewUnknownError message = \<lparr>ue_Code = ErrCodeUnknown, ue_Message = message\<rparr>"

lemma code_int_inject: "code_int a = code_int b \<longleftrightarrow> a = b"
  by (cases a; cases b; simp)

lemma NewError_Code [simp]: "ue_Code (NewError c ms) = c"
  by (simp add: NewError_def)

subsection \<open>Channel names (utils.go)\<close>

definition SocketRushServerToUserPrefix :: string where
  [go_simps]: "SocketRushServerToUserPrefix = ''#server-to-user-''"

definition IsPresenceChannel :: "ChannelName \<Rightarrow> bool" where
  "IsPresenceChannel channel =
     (HasPrefix channel ''presence-'' \<or> HasPrefix channel ''presence-cache-'')"

definition IsPrivateChannel :: "ChannelName \<Rightarrow> bool" where
  "IsPrivateChannel channel =
     (HasPrefix channel ''private-'' \<or> HasPrefix channel ''private-cache-''
      \<or> HasPrefix channel ''#server-to-user-'')"

definition IsPrivateEncryptedChannel :: "ChannelName \<Rightarrow> bool" where
  "IsPrivateEncryptedChannel channel =
     (HasPrefix channel ''private-encrypted-'' \<or> HasPrefix channel ''private-encrypted-cache-'')"

definition IsCacheChannel :: "ChannelName \<Rightarrow> bool" where
  "IsCacheChannel channel =
     (HasPrefix channel ''cache-'' \<or> HasPrefix channel ''presence-cache-''
      \<or> HasPrefix channel ''private-cache-'' \<or> HasPrefix channel ''private-encrypted-cache-'')"

definition IsClientEvent :: "string \<Rightarrow> bool" where
  "IsClientEvent event = HasPrefix event ''client-''"

lemmas channel_kind_defs = IsPresenceChannel_def IsPrivateChannel_def IsPrivateEncryptedChannel_def
  IsCacheChannel_def IsClientEvent_def HasPrefix_def prefix_def

text \<open>
  The regular expression \<^verbatim>\<open>^(#server-to-user-)?[-a-zA-Z0-9_=@,.;]+$\<close>. The optional group is
  taken exactly when the text starts with it, since \<open>#\<close> is not in the class.
\<close>

definition channel_char :: "char \<Rightarrow> bool" where
  "channel_char c =
     (let n = (of_char c :: nat) in
       (97 \<le> n \<and> n \<le> 122) \<or> (65 \<le> n \<and> n \<le> 90) \<or> (48 \<le> n \<and> n \<le> 57) \<or> c \<in> set ''-_=@,.;'')"

definition channelValidationRegex :: "string \<Rightarrow> bool" where
  "channelValidationRegex s =
     (let body = TrimPrefix s SocketRushServerToUserPrefix
      in body \<noteq> [] \<and> list_all channel_char body)"

definition ValidChannel :: "ChannelName \<Rightarrow> int \<Rightarrow> bool" where
  "ValidChannel channel maxChannelNameLength =
     (if int (length channel) > maxChannelNameLength \<or> \<not> channelValidationRegex channel
      then False else True)"

definition ValidateChannelName :: "ChannelName \<Rightarrow> int \<Rightarrow> string option" where
  "ValidateChannelName channel maxChannelNameLength =
     (if int (length channel) > maxChannelNameLength
      then Some (''channel name too long, max length is '' @ Itoa maxChannelNameLength)
      else if \<not> channelValidationRegex channel
      then Some ''invalid characters in channel name''
      else None)"

definition validAppIDRegex :: "string \<Rightarrow> bool" where
  "validAppIDRegex s = (s \<noteq> [] \<and> list_all is_digit s)"

definition ValidAppID :: "string \<Rightarrow> bool" where
  "ValidAppID appID = validAppIDRegex appID"

text \<open>The two random draws of \<open>rand.Intn(math.MaxInt32)\<close> are the arguments.\<close>

definition GenerateSocketID :: "nat \<Rightarrow> nat \<Rightarrow> SocketID" where
  "GenerateSocketID r1 r2 = Itoa (int r1) @ ''.'' @ Itoa (int r2)"

lemma ValidateChannelName_None: "ValidateChannelName c n = None \<longleftrightarrow> ValidChannel c n"
  by (auto simp: ValidateChannelName_def ValidChannel_def)

lemma channel_char_not_colon: "\<not> channel_char (CHR '':'')" "\<not> channel_char (CHR ''#'')"
  by (simp_all add: channel_char_def)

lemma channelValidationRegex_no_colon:
  assumes "channelValidationRegex s"
  shows "CHR '':'' \<notin> set s"
proof
  assume c: "CHR '':'' \<in> set s"
  let ?p = SocketRushServerToUserPrefix
  from assms have body: "list_all channel_char (TrimPrefix s ?p)"
    by (simp add: channelValidationRegex_def Let_def)
  have p: "CHR '':'' \<notin> set ?p" by (simp add: SocketRushServerToUserPrefix_def)
  show False
  proof (cases "HasPrefix s ?p")
    case True
    then have "s = ?p @ TrimPrefix s ?p" by (simp add: TrimPrefix_def HasPrefix_drop)
    with c p have "CHR '':'' \<in> set (TrimPrefix s ?p)" by (metis Un_iff set_append)
    with body show False by (auto simp: list_all_iff channel_char_not_colon)
  next
    case False
    with c body show False by (auto simp: TrimPrefix_def list_all_iff channel_char_not_colon)
  qed
qed

text \<open>A channel of one kind is not of another: the prefixes exclude each other.\<close>

lemma presence_not_private: "IsPresenceChannel c \<Longrightarrow> \<not> IsPrivateChannel c \<and> \<not> IsPrivateEncryptedChannel c"
  by (cases c) (auto simp: channel_kind_defs)

lemma encrypted_is_private: "IsPrivateEncryptedChannel c \<Longrightarrow> IsPrivateChannel c"
  by (auto simp: channel_kind_defs)

subsection \<open>Channel authorisation (utils.go, signature.go)\<close>

definition HmacBytes :: "nat list \<Rightarrow> nat list \<Rightarrow> nat list" where
  "HmacBytes toSign secret = hmac_sha256 secret toSign"

definition HmacSignature :: "string \<Rightarrow> string \<Rightarrow> string" where
  "HmacSignature toSign secret = hex_encode (HmacBytes (bytes_of toSign) (bytes_of secret))"

definition ValidateChannelAuth ::
  "string \<Rightarrow> string \<Rightarrow> SocketID \<Rightarrow> ChannelName \<Rightarrow> string \<Rightarrow> bool" where
  "ValidateChannelAuth authToken appSecret socketId channel channelData =
     (if authToken = [] then False
      else
        let authParts = Split authToken (CHR '':'') in
        if length authParts \<noteq> 2 then False
        else
          let key = authParts ! 0; signature = authParts ! 1 in
          if key = [] then False
          else
            let parts = [socketId, channel];
                parts = (if channelData \<noteq> [] then parts @ [channelData] else parts);
                reconstructedString = Join parts '':'';
                expected = HmacSignature reconstructedString appSecret
            in signature = expected)"

lemma HmacSignature_no_colon: "CHR '':'' \<notin> set (HmacSignature s k)"
  by (metis HmacSignature_def hex_encode_is_hex hex_not_colon)

lemma length_HmacSignature: "length (HmacSignature s k) = 64"
  by (simp add: HmacSignature_def HmacBytes_def length_hex_encode length_hmac_sha256)

text \<open>The string that is signed for a subscription.\<close>

definition auth_string :: "SocketID \<Rightarrow> ChannelName \<Rightarrow> string \<Rightarrow> string" where
  "auth_string socketId channel channelData =
     socketId @ '':'' @ channel @ (if channelData = [] then [] else CHR '':'' # channelData)"

lemma length2_conv: "length xs = 2 \<longleftrightarrow> (\<exists>a b. xs = [a, b])"
  by (metis length_0_conv length_Suc_conv numeral_2_eq_2)

text \<open>Exactly the tokens \<open>key:signature\<close> with a non-empty key and the expected signature pass.\<close>

lemma ValidateChannelAuth_iff:
  "ValidateChannelAuth tok secret sid ch data \<longleftrightarrow>
     (\<exists>key. key \<noteq> [] \<and> CHR '':'' \<notin> set key
        \<and> tok = key @ '':'' @ HmacSignature (auth_string sid ch data) secret)"
    (is "_ \<longleftrightarrow> ?ok")
proof -
  let ?sig = "HmacSignature (auth_string sid ch data) secret"
  have js: "Join (if data \<noteq> [] then [sid, ch] @ [data] else [sid, ch]) '':'' = auth_string sid ch data"
    by (simp add: auth_string_def)
  have len: "ValidateChannelAuth tok secret sid ch data \<longleftrightarrow>
      tok \<noteq> [] \<and> length (Split tok (CHR '':'')) = 2 \<and> Split tok (CHR '':'') ! 0 \<noteq> []
      \<and> Split tok (CHR '':'') ! 1 = ?sig"
    unfolding ValidateChannelAuth_def Let_def js by simp
  show ?thesis
  proof
    assume "ValidateChannelAuth tok secret sid ch data"
    then obtain key where "Split tok (CHR '':'') = [key, ?sig]" "key \<noteq> []"
      unfolding len length2_conv by auto
    then show ?ok unfolding Split_eq_two by auto
  next
    assume ?ok
    then obtain key where k: "key \<noteq> []" "CHR '':'' \<notin> set key" "tok = key @ CHR '':'' # ?sig"
      by auto
    then have "Split tok (CHR '':'') = [key, ?sig]"
      unfolding Split_eq_two using HmacSignature_no_colon by simp
    with k show "ValidateChannelAuth tok secret sid ch data" unfolding len by simp
  qed
qed

text \<open>
  The signed string determines what it authorises: for a socket id without a colon and channel
  names that pass the validation, no two different (socket, channel, data) share a string.
\<close>

lemma auth_string_inject:
  assumes "CHR '':'' \<notin> set sid" "CHR '':'' \<notin> set sid'"
    and "channelValidationRegex ch" "channelValidationRegex ch'"
    and eq: "auth_string sid ch data = auth_string sid' ch' data'"
  shows "sid = sid' \<and> ch = ch' \<and> data = data'"
proof -
  let ?t = "\<lambda>c d. c @ (if d = [] then [] else CHR '':'' # d)"
  from eq have "sid @ CHR '':'' # ?t ch data = sid' @ CHR '':'' # ?t ch' data'"
    by (simp add: auth_string_def)
  from sep_unique [OF this assms(1,2)]
  have s: "sid = sid'" and t: "?t ch data = ?t ch' data'" by simp_all
  have c: "CHR '':'' \<notin> set ch" "CHR '':'' \<notin> set ch'"
    using assms(3,4) channelValidationRegex_no_colon by auto
  have "ch = ch' \<and> data = data'"
  proof (cases "data = []"; cases "data' = []")
    assume "data \<noteq> []" "data' \<noteq> []"
    with t c sep_unique [of ch "CHR '':''" data ch' data'] show ?thesis by simp
  next
    assume d: "data = []" "data' \<noteq> []"
    with t have "ch = ch' @ CHR '':'' # data'" by simp
    with c show ?thesis by auto
  next
    assume d: "data \<noteq> []" "data' = []"
    with t have "ch' = ch @ CHR '':'' # data" by simp
    with c show ?thesis by auto
  qed (use t in simp)
  with s show ?thesis by simp
qed

lemma GenerateSocketID_no_colon: "CHR '':'' \<notin> set (GenerateSocketID r1 r2)"
  using Itoa_no not_digit_minus(2) by (auto simp: GenerateSocketID_def)

lemma GenerateSocketID_inject:
  assumes "GenerateSocketID a b = GenerateSocketID c d"
  shows "a = c \<and> b = d"
proof -
  have nd: "CHR ''.'' \<notin> set (dec_nat n)" for n
    using dec_nat_digits not_digit_minus(3) by blast
  from assms have "dec_nat a @ CHR ''.'' # dec_nat b = dec_nat c @ CHR ''.'' # dec_nat d"
    by (simp add: GenerateSocketID_def Itoa_def)
  from sep_unique [OF this nd nd] have "dec_nat a = dec_nat c \<and> dec_nat b = dec_nat d" .
  then show ?thesis by simp
qed

end
