(* ===== verification/Signature.thy ===== *)
theory Signature
  imports Util "HOL-Library.List_Lexorder" "HOL-Library.Char_ord"
begin

text \<open>
  \<open>internal/util/signature.go\<close> and the number parsing of \<open>utils.go\<close>: the check of a
  signed REST request. A request is its method, its path and its parsed query
  (\<open>url.Values\<close>: a map from a key to the list of its values); \<open>time.Now().Unix()\<close> is an
  argument. Timestamps are Go's \<open>int64\<close>, so their arithmetic wraps. \<open>strings.ToLower\<close>
  and \<open>ToUpper\<close> are those of ASCII letters.
\<close>

type_synonym int64 = "64 word"
type_synonym Values = "(string, string list) gomap"

record HttpRequest =
  rq_Method :: string
  rq_Path :: string
  rq_Query :: Values

definition to_lower :: "char \<Rightarrow> char" where
  "to_lower c = (let n = (of_char c :: nat) in if 65 \<le> n \<and> n \<le> 90 then char_of (n + 32) else c)"

definition to_upper :: "char \<Rightarrow> char" where
  "to_upper c = (let n = (of_char c :: nat) in if 97 \<le> n \<and> n \<le> 122 then char_of (n - 32) else c)"

definition ToLower :: "string \<Rightarrow> string" where "ToLower s = map to_lower s"
definition ToUpper :: "string \<Rightarrow> string" where "ToUpper s = map to_upper s"

definition Values_Get :: "Values \<Rightarrow> string \<Rightarrow> string" where
  "Values_Get v key = (case map_of v key of Some (x # _) \<Rightarrow> x | _ \<Rightarrow> [])"

text \<open>\<open>strconv.ParseInt(s, 10, 64)\<close>: an optional sign, decimal digits, the range of \<open>int64\<close>.\<close>

fun split_sign :: "string \<Rightarrow> bool \<times> string" where
  "split_sign [] = (False, [])"
| "split_sign (c # cs) =
     (if c = CHR ''+'' then (False, cs) else if c = CHR ''-'' then (True, cs) else (False, c # cs))"

definition ParseInt :: "string \<Rightarrow> int option" where
  "ParseInt s =
     (case split_sign s of (neg, ds) \<Rightarrow>
        if ds = [] \<or> \<not> list_all is_digit ds then None
        else let n = int (undec ds) in
          if \<not> neg \<and> n \<ge> 2 ^ 63 then None
          else if neg \<and> n > 2 ^ 63 then None
          else Some (if neg then - n else n))"

text \<open>\<open>Str2Int64\<close> and \<open>Str2Int\<close> return 0 beside the error.\<close>

definition Str2Int64 :: "string \<Rightarrow> int64 \<times> bool" where
  "Str2Int64 a = (case ParseInt a of None \<Rightarrow> (0, False) | Some b \<Rightarrow> (word_of_int b, True))"

definition Str2Int :: "string \<Rightarrow> int64 \<times> bool" where
  "Str2Int a = (case ParseInt a of None \<Rightarrow> (0, False) | Some b \<Rightarrow> (word_of_int b, True))"

definition checkVersion :: "string \<Rightarrow> bool" where
  "checkVersion version = (version = ''1.0'')"

definition checkTimestamp :: "int64 \<Rightarrow> int64 \<Rightarrow> int64 \<Rightarrow> bool" where
  "checkTimestamp now timestamp grace =
     (sint (now - timestamp) < sint grace \<and> sint (now + 5) \<ge> sint timestamp)"

definition prepareQueryString :: "Values \<Rightarrow> string" where
  "prepareQueryString params =
     (let keys = sort (map (\<lambda>(key, _). ToLower key) params);
          pieces = map (\<lambda>key. key @ ''='' @ Values_Get params key) keys
      in Join pieces ''&'')"

definition stringToSign :: "HttpRequest \<Rightarrow> string" where
  "stringToSign r =
     Join [ToUpper (rq_Method r), rq_Path r, prepareQueryString (mdel ''auth_signature'' (rq_Query r))]
       [CHR 0x0A]"

text \<open>\<open>(true, nil)\<close> is \<open>Inr ()\<close>, \<open>(false, err)\<close> is \<open>Inl err\<close>.\<close>

definition Verify :: "int64 \<Rightarrow> HttpRequest \<Rightarrow> AppID \<Rightarrow> string \<Rightarrow> string + unit" where
  "Verify now r appID appSecret =
     (if \<not> checkVersion (Values_Get (rq_Query r) ''auth_version'') then Inl ''invalid version''
      else
        let timestamp = fst (Str2Int64 (Values_Get (rq_Query r) ''auth_timestamp'')) in
        if \<not> checkTimestamp now timestamp 600 then Inl ''invalid timestamp''
        else
          let signature = Values_Get (rq_Query r) ''auth_signature'' in
          if HmacSignature (stringToSign r) appSecret \<noteq> signature then Inl ''invalid signature''
          else Inr ())"

subsection \<open>Parsing numbers\<close>

lemma split_sign_dec_nat: "split_sign (dec_nat n) = (False, dec_nat n)"
proof (cases "dec_nat n")
  case (Cons c cs)
  then have "is_digit c" using dec_nat_digits by (metis list.set_intros(1))
  then have "c \<noteq> CHR ''+''" "c \<noteq> CHR ''-''" by (auto simp: is_digit_def)
  with Cons show ?thesis by simp
qed simp

lemma dec_nat_all_digits: "list_all is_digit (dec_nat n)"
  by (auto simp: list_all_iff dec_nat_digits)

lemma ParseInt_Itoa: "- (2 ^ 63) \<le> i \<Longrightarrow> i < 2 ^ 63 \<Longrightarrow> ParseInt (Itoa i) = Some i"
  by (auto simp: ParseInt_def Itoa_def split_sign_dec_nat dec_nat_all_digits Let_def)

lemma ParseInt_range: "ParseInt s = Some i \<Longrightarrow> - (2 ^ 63) \<le> i \<and> i < 2 ^ 63"
  by (auto simp: ParseInt_def Let_def split: prod.splits if_splits)

lemma sint_word_of_int_64:
  assumes "- (2 ^ 63) \<le> i" "i < 2 ^ 63"
  shows "sint (word_of_int i :: int64) = i"
  using assms by (simp add: sint_sbintrunc' signed_take_bit_int_eq_self)

lemma sint_Str2Int64:
  "ParseInt s = Some i \<Longrightarrow> sint (fst (Str2Int64 s)) = i"
  using ParseInt_range [of s i] by (simp add: Str2Int64_def sint_word_of_int_64)

subsection \<open>The timestamp window\<close>

lemma sint_64_bounds: "- (2 ^ 63) \<le> sint (x :: int64)" "sint (x :: int64) < 2 ^ 63"
  using sint_ge [of x] sint_lt [of x] by simp_all

lemma sint_sub_no_wrap:
  fixes a b :: int64
  assumes "- (2 ^ 63) \<le> sint a - sint b" "sint a - sint b < 2 ^ 63"
  shows "sint (a - b) = sint a - sint b"
proof -
  have "a - b = word_of_int (sint a - sint b)" by simp
  with assms show ?thesis by (metis sint_word_of_int_64)
qed

lemma sint_add_no_wrap:
  fixes a b :: int64
  assumes "- (2 ^ 63) \<le> sint a + sint b" "sint a + sint b < 2 ^ 63"
  shows "sint (a + b) = sint a + sint b"
proof -
  have "a + b = word_of_int (sint a + sint b)" by simp
  with assms show ?thesis by (metis sint_word_of_int_64)
qed

lemma sint_numerals_64 [simp]: "sint (5 :: int64) = 5" "sint (600 :: int64) = 600"
  by simp_all

text \<open>Where neither operation overflows, the check is the window it is meant to be.\<close>

lemma checkTimestamp_window:
  assumes now: "0 \<le> sint now" "sint now < 2 ^ 62"
    and ts: "- (2 ^ 62) \<le> sint ts"
  shows "checkTimestamp now ts grace \<longleftrightarrow> sint now - sint ts < sint grace \<and> sint ts \<le> sint now + 5"
proof -
  have p: "(2::int) ^ 63 = 2 * 2 ^ 62" by simp
  have "sint (now - ts) = sint now - sint ts"
    using now ts sint_64_bounds [of ts] p by (intro sint_sub_no_wrap) linarith+
  moreover have "sint (now + 5) = sint now + 5"
    using now p sint_add_no_wrap [of now 5] by simp
  ultimately show ?thesis by (simp add: checkTimestamp_def)
qed

text \<open>A timestamp so old that the subtraction wraps to a negative number passes.\<close>

lemma checkTimestamp_wraps:
  assumes now: "0 \<le> sint now" "sint now < 2 ^ 62"
    and ts: "sint ts < sint now - 2 ^ 63" and g: "0 \<le> sint grace"
  shows "checkTimestamp now ts grace"
proof -
  have p: "(2::int) ^ 64 = 2 * 2 ^ 63" "(2::int) ^ 63 = 2 * 2 ^ 62" by simp_all
  have "now - ts = word_of_int (sint now - sint ts)" by simp
  also have "\<dots> = word_of_int (sint now - sint ts - 2 ^ 64)"
    by simp
  finally have e: "now - ts = word_of_int (sint now - sint ts - 2 ^ 64)" .
  have "sint (now - ts) = sint now - sint ts - 2 ^ 64"
    unfolding e using now ts sint_64_bounds [of ts] p by (intro sint_word_of_int_64) linarith+
  with now ts sint_64_bounds [of ts] p have neg: "sint (now - ts) < 0" by linarith
  have "sint (now + 5) = sint now + 5"
    using now p sint_add_no_wrap [of now 5] by simp
  with now ts p have "sint ts \<le> sint (now + 5)" by linarith
  with neg g show ?thesis by (simp add: checkTimestamp_def)
qed

subsection \<open>The canonical query string\<close>

lemma sort_mset_cong: "mset xs = mset ys \<Longrightarrow> sort xs = sort ys"
  by (metis mset_sort properties_for_sort sorted_sort)

lemma prepareQueryString_order:
  assumes "mset p = mset p'" and "wf_map p"
  shows "prepareQueryString p = prepareQueryString p'"
proof -
  have "map_of p = map_of p'" using assms by (rule wf_map_mset_eq(2))
  then have g: "Values_Get p = Values_Get p'" by (auto simp: Values_Get_def fun_eq_iff)
  have "mset (map (\<lambda>(key, _). ToLower key) p) = mset (map (\<lambda>(key, _). ToLower key) p')"
    using assms(1) by simp
  then have "sort (map (\<lambda>(key, _). ToLower key) p) = sort (map (\<lambda>(key, _). ToLower key) p')"
    by (rule sort_mset_cong)
  with g show ?thesis by (simp add: prepareQueryString_def Let_def)
qed

lemma mdel_mset: "mset p = mset p' \<Longrightarrow> mset (mdel k p) = mset (mdel k p')"
  by (simp add: AList.delete_eq)

lemma Values_Get_cong: "map_of p = map_of p' \<Longrightarrow> Values_Get p = Values_Get p'"
  by (auto simp: Values_Get_def fun_eq_iff)

subsection \<open>Verification of a request\<close>

definition with_query :: "HttpRequest \<Rightarrow> Values \<Rightarrow> HttpRequest" where
  "with_query r q = r\<lparr>rq_Query := q\<rparr>"

lemma stringToSign_order:
  assumes "mset q = mset (rq_Query r)" and "wf_map (rq_Query r)"
  shows "stringToSign (with_query r q) = stringToSign r"
  using prepareQueryString_order [OF mdel_mset [OF assms(1) [symmetric]] wf_map_mdel [OF assms(2)],
      of "''auth_signature''"]
  by (simp add: stringToSign_def with_query_def)

lemma Verify_Inr:
  "Verify now r appID appSecret = Inr () \<longleftrightarrow>
     Values_Get (rq_Query r) ''auth_version'' = ''1.0''
     \<and> checkTimestamp now (fst (Str2Int64 (Values_Get (rq_Query r) ''auth_timestamp''))) 600
     \<and> Values_Get (rq_Query r) ''auth_signature'' = HmacSignature (stringToSign r) appSecret"
  by (auto simp: Verify_def checkVersion_def Let_def)

text \<open>
  The verdict on a signed request does not depend on the order in which the map of query
  parameters is walked: the key list is sorted before it is signed.
\<close>
theorem Verify_order:
  assumes "mset q = mset (rq_Query r)" and "wf_map (rq_Query r)"
  shows "Verify now (with_query r q) appID appSecret = Verify now r appID appSecret"
proof -
  have "map_of q = map_of (rq_Query r)"
    using wf_map_mset_eq(2) [OF assms(1) [symmetric] assms(2)] by simp
  then have "Values_Get q = Values_Get (rq_Query r)" by (rule Values_Get_cong)
  then show ?thesis
    using stringToSign_order [OF assms] by (simp add: Verify_def with_query_def)
qed

theorem Verify_order_witness:
  "Verify 0 (with_query \<lparr>rq_Method = ''GET'', rq_Path = ''/p'', rq_Query = [(''a'', [''1'']), (''b'', [])]\<rparr>
        [(''b'', []), (''a'', [''1''])]) ''1'' ''s''
   = Verify 0 \<lparr>rq_Method = ''GET'', rq_Path = ''/p'', rq_Query = [(''a'', [''1'']), (''b'', [])]\<rparr> ''1'' ''s''"
  by (rule Verify_order) (simp_all add: wf_map_def add_mset_commute)

text \<open>C31
  With a clock in range, a request whose timestamp lies between now minus 2^62 seconds and the
  far future is accepted exactly when it carries version 1.0, is less than ten minutes old and at
  most five seconds ahead of the clock, and its signature is the HMAC of the canonical request.
\<close>
theorem Verify_accepts:
  assumes "0 \<le> sint now" "sint now < 2 ^ 62"
    and "ParseInt (Values_Get (rq_Query r) ''auth_timestamp'') = Some ts" "- (2 ^ 62) \<le> ts"
  shows "Verify now r appID appSecret = Inr () \<longleftrightarrow>
     Values_Get (rq_Query r) ''auth_version'' = ''1.0''
     \<and> sint now - ts < 600 \<and> ts \<le> sint now + 5
     \<and> Values_Get (rq_Query r) ''auth_signature'' = HmacSignature (stringToSign r) appSecret"
  using checkTimestamp_window [OF assms(1,2), of "fst (Str2Int64 (Values_Get (rq_Query r) ''auth_timestamp''))" 600]
    sint_Str2Int64 [OF assms(3)] assms(4)
  by (simp add: Verify_Inr)

theorem Verify_accepts_witness:
  "Verify 1000 \<lparr>rq_Method = ''GET'', rq_Path = ''/p'', rq_Query = [(''auth_timestamp'', [''300''])]\<rparr> ''1'' ''s''
     = Inr () \<longleftrightarrow> False"
  using Verify_accepts [of 1000 "\<lparr>rq_Method = ''GET'', rq_Path = ''/p'', rq_Query = [(''auth_timestamp'', [''300''])]\<rparr>" 300 "''1''" "''s''"]
  by (simp add: Values_Get_def ParseInt_def is_digit_def undec_def digit_val_def)

text \<open>C32
  The subtraction of the timestamp check wraps: a timestamp more than 2^63 seconds in the past
  passes the check, whatever the (non-negative) grace period.
\<close>
theorem ancient_timestamp_passes:
  assumes "0 \<le> sint now" "sint now < 2 ^ 62" "sint ts < sint now - 2 ^ 63" "0 \<le> sint grace"
  shows "checkTimestamp now ts grace"
  using assms by (rule checkTimestamp_wraps)

theorem ancient_timestamp_passes_witness:
  "checkTimestamp 1000 (word_of_int (- (2 ^ 63))) 600"
  by (rule ancient_timestamp_passes) simp_all

end
