(* ===== verification/Json.thy ===== *)
theory Json
  imports Signature
begin

text \<open>
  The part of Go's \<open>encoding/json\<close> the program uses: values, the compact encoder with HTML
  escaping (\<open>marshal\<close>), the decoder's grammar (\<open>json_parse\<close>, with the library's nesting
  limit of 10000), compaction of a raw message, and the decoding of an object into a struct (keys
  match a field exactly or up to ASCII case, a later key overwrites an earlier one, \<open>null\<close>
  leaves a field unchanged, a value of another type is an error). Strings are bytes; bytes from
  \<open>0x80\<close> on are copied, as the library does for valid UTF-8 (its special cases for invalid
  UTF-8 and for U+2028 and U+2029 are outside the model).
\<close>

datatype json =
    JNull
  | JBool bool
  | JNum string \<comment> \<open>the literal, as written\<close>
  | JStr string
  | JArr "json list"
  | JObj "(string \<times> json) list"

subsection \<open>Encoding\<close>

definition hex4 :: "nat \<Rightarrow> string" where
  "hex4 n = [hex_digit (n div 4096 mod 16), hex_digit (n div 256 mod 16),
             hex_digit (n div 16 mod 16), hex_digit (n mod 16)]"

definition escape_char :: "char \<Rightarrow> string" where
  "escape_char c =
     (let n = (of_char c :: nat) in
      if n = 92 \<or> n = 34 then [CHR 92, c]
      else if n = 8 then [CHR 92, CHR ''b'']
      else if n = 12 then [CHR 92, CHR ''f'']
      else if n = 10 then [CHR 92, CHR ''n'']
      else if n = 13 then [CHR 92, CHR ''r'']
      else if n = 9 then [CHR 92, CHR ''t'']
      else if n < 32 \<or> n = 60 \<or> n = 62 \<or> n = 38 then CHR 92 # CHR ''u'' # hex4 n
      else [c])"

definition marshal_string :: "string \<Rightarrow> string" where
  "marshal_string s = CHR 34 # concat (map escape_char s) @ [CHR 34]"

fun marshal :: "json \<Rightarrow> string" where
  "marshal JNull = ''null''"
| "marshal (JBool b) = (if b then ''true'' else ''false'')"
| "marshal (JNum s) = s"
| "marshal (JStr s) = marshal_string s"
| "marshal (JArr vs) = ''['' @ Join (map marshal vs) '','' @ '']''"
| "marshal (JObj kvs) =
     ''{'' @ Join (map (\<lambda>(k, v). marshal_string k @ '':'' @ marshal v) kvs) '','' @ ''}''"

subsection \<open>Decoding\<close>

definition is_ws :: "char \<Rightarrow> bool" where
  "is_ws c = (let n = (of_char c :: nat) in n = 32 \<or> n = 9 \<or> n = 10 \<or> n = 13)"

definition skip_ws :: "string \<Rightarrow> string" where
  "skip_ws s = dropWhile is_ws s"

definition hex_val :: "char \<Rightarrow> nat option" where
  "hex_val c =
     (let n = (of_char c :: nat) in
      if 48 \<le> n \<and> n \<le> 57 then Some (n - 48)
      else if 97 \<le> n \<and> n \<le> 102 then Some (n - 87)
      else if 65 \<le> n \<and> n \<le> 70 then Some (n - 55)
      else None)"

definition hex4_val :: "char \<Rightarrow> char \<Rightarrow> char \<Rightarrow> char \<Rightarrow> nat option" where
  "hex4_val a b c d =
     do { w \<leftarrow> hex_val a; x \<leftarrow> hex_val b; y \<leftarrow> hex_val c; z \<leftarrow> hex_val d;
          Some (((w * 16 + x) * 16 + y) * 16 + z) }"

definition utf8 :: "nat \<Rightarrow> string" where
  "utf8 n =
     (if n < 128 then [char_of n]
      else if n < 2048 then map char_of [192 + n div 64, 128 + n mod 64]
      else if n < 65536 then map char_of [224 + n div 4096, 128 + n div 64 mod 64, 128 + n mod 64]
      else map char_of [240 + n div 262144, 128 + n div 4096 mod 64, 128 + n div 64 mod 64,
                        128 + n mod 64])"

definition simple_escape :: "char \<Rightarrow> char option" where
  "simple_escape c =
     (let n = (of_char c :: nat) in
      if n = 34 \<or> n = 92 \<or> n = 47 then Some c
      else if c = CHR ''b'' then Some (CHR 8)
      else if c = CHR ''f'' then Some (CHR 12)
      else if c = CHR ''n'' then Some (CHR 10)
      else if c = CHR ''r'' then Some (CHR 13)
      else if c = CHR ''t'' then Some (CHR 9)
      else None)"

definition low_surrogate :: "string \<Rightarrow> (nat \<times> string) option" where
  "low_surrogate s =
     (case s of
        b # u # p # q # r # t # rest \<Rightarrow>
          if b = CHR 92 \<and> u = CHR ''u'' then
            (case hex4_val p q r t of
               Some l \<Rightarrow> if 56320 \<le> l \<and> l < 57344 then Some (l, rest) else None
             | None \<Rightarrow> None)
          else None
      | _ \<Rightarrow> None)"

lemma low_surrogate_length: "low_surrogate s = Some (l, r) \<Longrightarrow> length r < length s"
  by (auto simp: low_surrogate_def split: list.splits if_splits option.splits)

text \<open>The rest of a string after its opening quote: the decoded bytes and the input that follows.\<close>

function parse_chars :: "string \<Rightarrow> (string \<times> string) option" where
  "parse_chars [] = None"
| "parse_chars (c # s) =
     (if c = CHR 34 then Some ([], s)
      else if c = CHR 92 then
        (case s of
           [] \<Rightarrow> None
         | e # s1 \<Rightarrow>
             if e = CHR ''u'' then
               (case s1 of
                  p # q # r # t # s2 \<Rightarrow>
                    (case hex4_val p q r t of
                       None \<Rightarrow> None
                     | Some n \<Rightarrow>
                         if 55296 \<le> n \<and> n < 56320 then
                           (case low_surrogate s2 of
                              Some (l, s3) \<Rightarrow>
                                map_option (apfst ((@) (utf8 (65536 + (n - 55296) * 1024 + (l - 56320)))))
                                  (parse_chars s3)
                            | None \<Rightarrow> map_option (apfst ((@) (utf8 65533))) (parse_chars s2))
                         else if 56320 \<le> n \<and> n < 57344
                         then map_option (apfst ((@) (utf8 65533))) (parse_chars s2)
                         else map_option (apfst ((@) (utf8 n))) (parse_chars s2))
                | _ \<Rightarrow> None)
             else
               (case simple_escape e of
                  None \<Rightarrow> None
                | Some x \<Rightarrow> map_option (apfst ((#) x)) (parse_chars s1)))
      else if (of_char c :: nat) < 32 then None
      else map_option (apfst ((#) c)) (parse_chars s))"
  by pat_completeness auto
termination
  by (relation "measure length") (auto dest: low_surrogate_length)

declare parse_chars.simps [simp del]

text \<open>A number literal: sign, integer part, fraction, exponent.\<close>

definition digits1 :: "string \<Rightarrow> (string \<times> string) option" where
  "digits1 s = (let d = takeWhile is_digit s in if d = [] then None else Some (d, dropWhile is_digit s))"

definition parse_int_part :: "string \<Rightarrow> (string \<times> string) option" where
  "parse_int_part s =
     (case s of c # r \<Rightarrow> if c = CHR ''0'' then Some ([c], r) else digits1 s | [] \<Rightarrow> None)"

definition parse_frac :: "string \<Rightarrow> (string \<times> string) option" where
  "parse_frac s =
     (case s of
        c # r \<Rightarrow> if c = CHR ''.'' then map_option (apfst ((#) c)) (digits1 r) else Some ([], s)
      | [] \<Rightarrow> Some ([], s))"

definition parse_exp :: "string \<Rightarrow> (string \<times> string) option" where
  "parse_exp s =
     (case s of
        c # r \<Rightarrow>
          if c = CHR ''e'' \<or> c = CHR ''E'' then
            (case r of
               g # r' \<Rightarrow> if g = CHR ''+'' \<or> g = CHR ''-'' then map_option (apfst (\<lambda>d. c # g # d)) (digits1 r')
                         else map_option (apfst ((#) c)) (digits1 r)
             | [] \<Rightarrow> None)
          else Some ([], s)
      | [] \<Rightarrow> Some ([], s))"

definition parse_number :: "string \<Rightarrow> (string \<times> string) option" where
  "parse_number s =
     (let (sg, s0) = (case s of c # r \<Rightarrow> if c = CHR ''-'' then ([c], r) else ([], s) | [] \<Rightarrow> ([], s))
      in do { (i, s1) \<leftarrow> parse_int_part s0; (f, s2) \<leftarrow> parse_frac s1; (e, s3) \<leftarrow> parse_exp s2;
              Some (sg @ i @ f @ e, s3) })"

definition parse_lit :: "string \<Rightarrow> json \<Rightarrow> string \<Rightarrow> (json \<times> string) option" where
  "parse_lit w v s = (if HasPrefix s w then Some (v, drop (length w) s) else None)"

definition parse_scalar :: "string \<Rightarrow> (json \<times> string) option" where
  "parse_scalar s =
     (case s of
        [] \<Rightarrow> None
      | c # r \<Rightarrow>
          if c = CHR 34 then map_option (apfst JStr) (parse_chars r)
          else if c = CHR ''n'' then parse_lit ''null'' JNull s
          else if c = CHR ''t'' then parse_lit ''true'' (JBool True) s
          else if c = CHR ''f'' then parse_lit ''false'' (JBool False) s
          else map_option (apfst JNum) (parse_number s))"

text \<open>
  The items of an array or object after its opening bracket, separated by commas, up to the
  closing bracket. Each item takes at least one byte, so the length of the input bounds the loop.
\<close>

fun parse_items ::
  "nat \<Rightarrow> char \<Rightarrow> (string \<Rightarrow> ('a \<times> string) option) \<Rightarrow> string \<Rightarrow> ('a list \<times> string) option" where
  "parse_items 0 close p s = None"
| "parse_items (Suc n) close p s =
     (case p s of
        None \<Rightarrow> None
      | Some (v, r) \<Rightarrow>
          (case skip_ws r of
             [] \<Rightarrow> None
           | c # r' \<Rightarrow>
               if c = close then Some ([v], r')
               else if c = CHR '','' then map_option (apfst ((#) v)) (parse_items n close p r')
               else None))"

definition parse_group ::
  "char \<Rightarrow> (string \<Rightarrow> ('a \<times> string) option) \<Rightarrow> string \<Rightarrow> ('a list \<times> string) option" where
  "parse_group close p s =
     (case skip_ws s of
        [] \<Rightarrow> None
      | c # r \<Rightarrow> if c = close then Some ([], r) else parse_items (length s) close p s)"

definition parse_member ::
  "(string \<Rightarrow> ('a \<times> string) option) \<Rightarrow> string \<Rightarrow> ((string \<times> 'a) \<times> string) option" where
  "parse_member p s =
     (case skip_ws s of
        [] \<Rightarrow> None
      | c # r \<Rightarrow>
          if c \<noteq> CHR 34 then None
          else
            (case parse_chars r of
               None \<Rightarrow> None
             | Some (k, r1) \<Rightarrow>
                 (case skip_ws r1 of
                    [] \<Rightarrow> None
                  | c' # r2 \<Rightarrow>
                      if c' = CHR '':'' then map_option (apfst (Pair k)) (p r2) else None)))"

text \<open>The first argument is the nesting depth still allowed.\<close>

fun parse_value :: "nat \<Rightarrow> string \<Rightarrow> (json \<times> string) option" where
  "parse_value d s =
     (case skip_ws s of
        [] \<Rightarrow> None
      | c # r \<Rightarrow>
          if c = CHR ''['' then
            (if d = 0 then None
             else map_option (apfst JArr) (parse_group (CHR '']'') (\<lambda>x. parse_value (d - 1) x) r))
          else if c = CHR ''{'' then
            (if d = 0 then None
             else map_option (apfst JObj)
                    (parse_group (CHR ''}'') (parse_member (\<lambda>x. parse_value (d - 1) x)) r))
          else parse_scalar (c # r))"

declare parse_value.simps [simp del]

definition max_depth :: nat where "max_depth = 10000"

definition json_parse :: "string \<Rightarrow> json option" where
  "json_parse s =
     (case parse_value max_depth s of
        None \<Rightarrow> None
      | Some (v, r) \<Rightarrow> if skip_ws r = [] then Some v else None)"


text \<open>
  A value together with its text (\<open>json.RawMessage\<close> keeps the text), and the members of a
  message that is an object.
\<close>

definition parse_raw :: "nat \<Rightarrow> string \<Rightarrow> ((json \<times> string) \<times> string) option" where
  "parse_raw d s =
     (let t = skip_ws s in
      map_option (\<lambda>(v, r). ((v, take (length t - length r) t), r)) (parse_value d t))"

definition object_members :: "string \<Rightarrow> (string \<times> json \<times> string) list option" where
  "object_members s =
     (case skip_ws s of
        [] \<Rightarrow> None
      | c # r \<Rightarrow>
          if c \<noteq> CHR ''{'' then None
          else
            (case parse_group (CHR ''}'') (parse_member (parse_raw (max_depth - 1))) r of
               None \<Rightarrow> None
             | Some (ms, r') \<Rightarrow> if skip_ws r' = [] then Some ms else None))"

text \<open>\<open>json.Marshal\<close> of a \<open>RawMessage\<close>: white space outside strings goes, HTML is escaped.\<close>

definition html_escape :: "char \<Rightarrow> string" where
  "html_escape c =
     (let n = (of_char c :: nat) in
      if n = 60 \<or> n = 62 \<or> n = 38 then CHR 92 # CHR ''u'' # hex4 n else [c])"

fun compact :: "string \<Rightarrow> string" and compact_in :: "string \<Rightarrow> string" where
  "compact [] = []"
| "compact (c # s) =
     (if is_ws c then compact s
      else if c = CHR 34 then c # compact_in s
      else html_escape c @ compact s)"
| "compact_in [] = []"
| "compact_in [c] = html_escape c"
| "compact_in (c # e # s) =
     (if c = CHR 92 then c # html_escape e @ compact_in s
      else if c = CHR 34 then c # compact (e # s)
      else html_escape c @ compact_in (e # s))"

subsection \<open>Decoding into structs\<close>

definition fold_key :: "string \<Rightarrow> string" where
  "fold_key k = ToUpper k"

text \<open>Does an object key select the struct field with this JSON name?\<close>

definition key_matches :: "string \<Rightarrow> string \<Rightarrow> bool" where
  "key_matches name k = (k = name \<or> fold_key k = fold_key name)"

fun set_str :: "json \<Rightarrow> string \<Rightarrow> string option" where
  "set_str (JStr s) old = Some s"
| "set_str JNull old = Some old"
| "set_str _ old = None"

text \<open>Decode the keys of an object in order into a state with a setter for each key.\<close>

fun decode_keys :: "(string \<Rightarrow> 'v \<Rightarrow> 's \<Rightarrow> 's option) \<Rightarrow> (string \<times> 'v) list \<Rightarrow> 's \<Rightarrow> 's option" where
  "decode_keys f [] st = Some st"
| "decode_keys f ((k, v) # kvs) st =
     (case f k v st of None \<Rightarrow> None | Some st' \<Rightarrow> decode_keys f kvs st')"

text \<open>A struct value: an object is decoded key by key, \<open>null\<close> changes nothing.\<close>

definition decode_obj :: "(string \<Rightarrow> json \<Rightarrow> 's \<Rightarrow> 's option) \<Rightarrow> json \<Rightarrow> 's \<Rightarrow> 's option" where
  "decode_obj f v st =
     (case v of JObj kvs \<Rightarrow> decode_keys f kvs st | JNull \<Rightarrow> Some st | _ \<Rightarrow> None)"

end
