(* ===== verification/Json_Roundtrip.thy ===== *)
theory Json_Roundtrip
  imports Json
begin

text \<open>
  The decoder reads back what the encoder writes: \<open>json_parse (marshal j) = Some j\<close> for every
  value whose numbers are integers and whose nesting is within the library's limit.
\<close>

text \<open>The value nests at most \<open>d\<close> deep, and its numbers are integers.\<close>

fun encodable :: "nat \<Rightarrow> json \<Rightarrow> bool" where
  "encodable d (JNum s) = (\<exists>i. s = Itoa i)"
| "encodable d (JArr vs) = (d \<noteq> 0 \<and> (\<forall>v \<in> set vs. encodable (d - 1) v))"
| "encodable d (JObj kvs) = (d \<noteq> 0 \<and> (\<forall>kv \<in> set kvs. encodable (d - 1) (snd kv)))"
| "encodable d _ = True"

subsection \<open>Strings\<close>

lemma hex_val_digit: "n < 16 \<Longrightarrow> hex_val (hex_digit n) = Some n"
  by (auto simp: hex_val_def hex_digit_def Let_def)

lemma hex4_val_hex4:
  assumes "n < 128"
  shows "hex4_val (hex_digit (n div 4096 mod 16)) (hex_digit (n div 256 mod 16))
           (hex_digit (n div 16 mod 16)) (hex_digit (n mod 16)) = Some n"
proof -
  have "n div 16 < 16" using assms by simp
  then have "n div 16 mod 16 * 16 + n mod 16 = n" by simp
  moreover have "n div 4096 = 0" "n div 256 = 0" using assms by simp_all
  ultimately show ?thesis by (simp add: hex4_val_def hex_val_digit)
qed

lemma parse_chars_u:
  assumes "hex4_val a b c d = Some n" and "n < 128"
  shows "parse_chars (CHR 92 # CHR ''u'' # a # b # c # d # t)
       = map_option (apfst ((#) (char_of n))) (parse_chars t)"
proof -
  have "(@) [char_of n :: char] = (#) (char_of n)" by auto
  with assms show ?thesis by (subst parse_chars.simps) (simp add: utf8_def)
qed

lemma parse_chars_hex4:
  assumes "n < 128"
  shows "parse_chars (CHR 92 # CHR ''u'' # hex4 n @ t)
       = map_option (apfst ((#) (char_of n))) (parse_chars t)"
  unfolding hex4_def append_Cons append_Nil
  by (rule parse_chars_u [OF hex4_val_hex4 [OF assms] assms])

lemma char_by_code: "(of_char c :: nat) = of_char d \<Longrightarrow> c = d"
  by (simp only: of_char_eq_iff)

lemma of_char_special:
  "(of_char c :: nat) = 92 \<longleftrightarrow> c = CHR 92" "(of_char c :: nat) = 34 \<longleftrightarrow> c = CHR 34"
  "(of_char c :: nat) = 8 \<longleftrightarrow> c = CHR 8" "(of_char c :: nat) = 12 \<longleftrightarrow> c = CHR 12"
  "(of_char c :: nat) = 10 \<longleftrightarrow> c = CHR 10" "(of_char c :: nat) = 13 \<longleftrightarrow> c = CHR 13"
  "(of_char c :: nat) = 9 \<longleftrightarrow> c = CHR 9"
  by (rule iffI, rule char_by_code, simp, simp)+

lemma parse_chars_escape:
  "parse_chars (escape_char c @ t) = map_option (apfst ((#) c)) (parse_chars t)"
proof -
  let ?n = "of_char c :: nat"
  let ?S = "{CHR 92, CHR 34, CHR 8, CHR 12, CHR 10, CHR 13, CHR 9}"
  consider (s) "c \<in> ?S"
    | (u) "c \<notin> ?S" "?n < 32 \<or> ?n = 60 \<or> ?n = 62 \<or> ?n = 38"
    | (plain) "c \<notin> ?S" "\<not> (?n < 32 \<or> ?n = 60 \<or> ?n = 62 \<or> ?n = 38)"
    by blast
  then show ?thesis
  proof cases
    case s
    then show ?thesis
      by (elim insertE emptyE)
        (simp_all add: escape_char_def parse_chars.simps simple_escape_def)
  next
    case u
    then have "escape_char c = CHR 92 # CHR ''u'' # hex4 ?n"
      by (simp add: escape_char_def Let_def of_char_special)
    moreover from u have "?n < 128" by auto
    ultimately show ?thesis using parse_chars_hex4 [of ?n t] by simp
  next
    case plain
    then have "escape_char c = [c]" by (simp add: escape_char_def Let_def of_char_special)
    with plain show ?thesis by (simp add: parse_chars.simps)
  qed
qed

lemma parse_chars_string:
  "parse_chars (concat (map escape_char s) @ CHR 34 # t) = Some (s, t)"
  by (induction s) (auto simp: parse_chars_escape parse_chars.simps)

subsection \<open>Numbers\<close>

text \<open>What may follow a value inside a message.\<close>

definition delim :: "string \<Rightarrow> bool" where
  "delim r = (case r of [] \<Rightarrow> True | c # _ \<Rightarrow> c \<in> {CHR '','', CHR '']'', CHR ''}''})"

lemma digit_char_0: "k < 10 \<Longrightarrow> digit_char k = CHR ''0'' \<longleftrightarrow> k = 0"
proof -
  assume k: "k < 10"
  have "digit_char k = CHR ''0'' \<longleftrightarrow> (of_char (digit_char k) :: nat) = of_char (CHR ''0'')"
    by (simp only: of_char_eq_iff)
  with k show ?thesis by (simp add: of_digit_char)
qed

lemma dec_nat_hd: "n \<noteq> 0 \<Longrightarrow> hd (dec_nat n) \<noteq> CHR ''0''"
proof (induction n rule: dec_nat.induct)
  case (1 n)
  show ?case
  proof (cases "n < 10")
    case True
    with 1 show ?thesis by (subst dec_nat.simps) (simp add: digit_char_0)
  next
    case False
    with 1 have "hd (dec_nat (n div 10)) \<noteq> CHR ''0''" by auto
    with False show ?thesis by (subst dec_nat.simps) (simp add: hd_append)
  qed
qed

lemma digits1_append:
  assumes "ds \<noteq> []" "list_all is_digit ds" "delim r"
  shows "digits1 (ds @ r) = Some (ds, r)"
proof -
  have "takeWhile is_digit r = []" "dropWhile is_digit r = r"
    using assms(3) by (auto simp: delim_def is_digit_def split: list.splits)
  with assms show ?thesis
    by (simp add: digits1_def Let_def list_all_iff takeWhile_append dropWhile_append)
qed

lemma parse_int_part_dec_nat: "delim r \<Longrightarrow> parse_int_part (dec_nat n @ r) = Some (dec_nat n, r)"
proof (cases "n = 0")
  case True
  have "dec_nat 0 = [CHR ''0'']" by (subst dec_nat.simps) (simp add: digit_char_0)
  with True show ?thesis by (simp only: parse_int_part_def append_Cons append_Nil list.case refl if_True)
next
  case False
  assume r: "delim r"
  obtain c cs where c: "dec_nat n = c # cs" by (cases "dec_nat n") auto
  with False dec_nat_hd [of n] have ne: "c \<noteq> CHR ''0''" by simp
  have "digits1 ((c # cs) @ r) = Some (c # cs, r)"
    using digits1_append [of "c # cs" r] dec_nat_all_digits [of n] c r by simp
  with c ne show ?thesis by (simp add: parse_int_part_def)
qed

lemma parse_frac_delim: "delim r \<Longrightarrow> parse_frac r = Some ([], r)"
  by (cases r) (auto simp: parse_frac_def delim_def)

lemma parse_exp_delim: "delim r \<Longrightarrow> parse_exp r = Some ([], r)"
  by (cases r) (auto simp: parse_exp_def delim_def)

lemma parse_number_unsigned:
  assumes "c \<noteq> CHR ''-''"
  shows "parse_number (c # s) = (do { (i, s1) \<leftarrow> parse_int_part (c # s); (f, s2) \<leftarrow> parse_frac s1;
           (e, s3) \<leftarrow> parse_exp s2; Some (i @ f @ e, s3) })"
  using assms by (simp add: parse_number_def)

lemma parse_number_minus:
  "parse_number (CHR ''-'' # s) = (do { (i, s1) \<leftarrow> parse_int_part s; (f, s2) \<leftarrow> parse_frac s1;
     (e, s3) \<leftarrow> parse_exp s2; Some (CHR ''-'' # i @ f @ e, s3) })"
  by (simp add: parse_number_def)

lemma parse_number_Itoa:
  assumes r: "delim r"
  shows "parse_number (Itoa i @ r) = Some (Itoa i, r)"
proof -
  have f: "parse_frac r = Some ([], r)" and e: "parse_exp r = Some ([], r)"
    using r by (simp_all add: parse_frac_delim parse_exp_delim)
  note steps = f e parse_int_part_dec_nat [OF r]
  show ?thesis
  proof (cases "i < 0")
    case True
    then have "Itoa i = CHR ''-'' # dec_nat (nat (- i))" by (simp add: Itoa_def)
    then show ?thesis by (simp add: parse_number_minus steps)
  next
    case False
    then have i: "Itoa i = dec_nat (nat i)" by (simp add: Itoa_def)
    obtain c cs where c: "dec_nat (nat i) = c # cs" by (cases "dec_nat (nat i)") auto
    then have "is_digit c" using dec_nat_digits by (metis list.set_intros(1))
    then have "c \<noteq> CHR ''-''" using not_digit_minus by blast
    then have "parse_number ((c # cs) @ r) = Some (dec_nat (nat i), r)"
      using steps(3) [of "nat i"] by (simp add: parse_number_unsigned c steps(1,2))
    with i c show ?thesis by simp
  qed
qed

subsection \<open>Items\<close>

lemma skip_ws_plain: "\<not> is_ws c \<Longrightarrow> skip_ws (c # s) = c # s"
  by (simp add: skip_ws_def)

lemma parse_items_Join:
  assumes p: "\<And>v r. v \<in> set vs \<Longrightarrow> delim r \<Longrightarrow> p (f v @ r) = Some (g v, r)"
    and c: "close = CHR '']'' \<or> close = CHR ''}''"
    and n: "length vs \<le> n" and ne: "vs \<noteq> []"
  shows "parse_items n close p (Join (map f vs) '','' @ close # rest) = Some (map g vs, rest)"
  using p n ne
proof (induction vs arbitrary: n)
  case (Cons v vs)
  then obtain m where m: "n = Suc m" by (cases n) auto
  have w: "\<not> is_ws close" "\<not> is_ws (CHR '','')" "delim (close # rest)" "close \<noteq> CHR '',''"
    using c by (auto simp: is_ws_def delim_def)
  show ?case
  proof (cases vs)
    case Nil
    with Cons.prems(1) [of v] w m show ?thesis by (simp add: skip_ws_plain)
  next
    case (Cons v' vs')
    have "parse_items m close p (Join (map f vs) '','' @ close # rest) = Some (map g vs, rest)"
      using Cons Cons.prems m by (intro Cons.IH) auto
    moreover have "p (f v @ CHR '','' # t) = Some (g v, CHR '','' # t)" for t
      using Cons.prems(1) [of v "CHR '','' # t"] by (simp add: delim_def)
    ultimately show ?thesis using Cons m w by (simp add: skip_ws_plain)
  qed
qed simp

text \<open>The first byte of an encoded value is neither white space nor a closing bracket.\<close>

definition starts_value :: "string \<Rightarrow> bool" where
  "starts_value s = (\<exists>c t. s = c # t \<and> \<not> is_ws c \<and> c \<noteq> CHR '']'' \<and> c \<noteq> CHR ''}'')"

lemma starts_Itoa: "\<exists>c t. Itoa i = c # t \<and> (is_digit c \<or> c = CHR ''-'')"
proof (cases "Itoa i")
  case Nil
  then show ?thesis by (simp add: Itoa_def split: if_splits)
next
  case (Cons c t)
  with Itoa_no [of c i] show ?thesis by simp
qed

lemma num_start_facts:
  assumes "is_digit c \<or> c = CHR ''-''"
  shows "\<not> is_ws c" "c \<noteq> CHR '']''" "c \<noteq> CHR ''}''" "c \<noteq> CHR ''[''" "c \<noteq> CHR ''{''"
    "c \<noteq> CHR 34" "c \<noteq> CHR ''n''" "c \<noteq> CHR ''t''" "c \<noteq> CHR ''f''"
  using assms by (auto simp: is_digit_def is_ws_def Let_def)

lemma starts_marshal: "encodable d j \<Longrightarrow> starts_value (marshal j @ r)"
proof (cases j)
  case (JNum s)
  assume "encodable d j"
  with JNum obtain i where "s = Itoa i" by auto
  moreover obtain c t where "Itoa i = c # t" "is_digit c \<or> c = CHR ''-''" using starts_Itoa by blast
  ultimately show ?thesis using JNum num_start_facts(1,2,3) [of c] by (simp add: starts_value_def)
qed (auto simp: starts_value_def is_ws_def marshal_string_def)

lemma starts_Join: "vs \<noteq> [] \<Longrightarrow> (\<And>v r. v \<in> set vs \<Longrightarrow> starts_value (f v @ r))
    \<Longrightarrow> starts_value (Join (map f vs) '','' @ r)"
proof (cases vs)
  case (Cons v vs')
  assume h: "\<And>v r. v \<in> set vs \<Longrightarrow> starts_value (f v @ r)"
  show ?thesis using h [of v] Cons by (cases vs') auto
qed simp

lemma length_Join: "(\<And>v. v \<in> set vs \<Longrightarrow> f v \<noteq> []) \<Longrightarrow> length vs \<le> length (Join (map f vs) '','')"
proof (induction vs)
  case (Cons v vs)
  have "length vs \<le> length (Join (map f vs) '','')" by (rule Cons.IH) (simp add: Cons.prems)
  moreover have "1 \<le> length (f v)" using Cons.prems [of v] by (cases "f v") auto
  ultimately show ?case by (cases vs) auto
qed simp

lemma parse_group_Join:
  assumes p: "\<And>v r. v \<in> set vs \<Longrightarrow> delim r \<Longrightarrow> p (f v @ r) = Some (g v, r)"
    and c: "close = CHR '']'' \<or> close = CHR ''}''"
    and st: "\<And>v r. v \<in> set vs \<Longrightarrow> starts_value (f v @ r)"
  shows "parse_group close p (Join (map f vs) '','' @ close # rest) = Some (map g vs, rest)"
proof (cases "vs = []")
  case True
  have "\<not> is_ws close" using c by (auto simp: is_ws_def)
  with True show ?thesis by (simp add: parse_group_def skip_ws_plain)
next
  case False
  let ?s = "Join (map f vs) '','' @ close # rest"
  have "starts_value ?s" by (rule starts_Join [OF False]) (rule st)
  then obtain c t
    where s: "?s = c # t" "\<not> is_ws c" "c \<noteq> CHR '']''" "c \<noteq> CHR ''}''"
    unfolding starts_value_def by blast
  have "length vs \<le> length (Join (map f vs) '','')"
    using st [where r = "[]"] by (intro length_Join) (fastforce simp: starts_value_def)
  then have "parse_items (length ?s) close p ?s = Some (map g vs, rest)"
    by (intro parse_items_Join p c False) auto
  with s c show ?thesis by (auto simp: parse_group_def skip_ws_plain)
qed

subsection \<open>Values\<close>

lemma parse_value_string: "parse_value d (marshal_string s @ r) = Some (JStr s, r)"
  by (simp add: parse_value.simps marshal_string_def skip_ws_plain is_ws_def parse_scalar_def
      parse_chars_string)

lemma parse_value_Itoa: "delim r \<Longrightarrow> parse_value d (Itoa i @ r) = Some (JNum (Itoa i), r)"
proof -
  assume r: "delim r"
  obtain c t where i: "Itoa i = c # t" "is_digit c \<or> c = CHR ''-''" using starts_Itoa by blast
  note n = num_start_facts [OF i(2)]
  have "parse_value d ((c # t) @ r) = map_option (apfst JNum) (parse_number ((c # t) @ r))"
    using n by (simp add: parse_value.simps skip_ws_plain parse_scalar_def)
  with i(1) parse_number_Itoa [OF r, of i] show ?thesis by simp
qed

lemma parse_member_marshal:
  assumes "p (t @ r) = Some (v, r)"
  shows "parse_member p (marshal_string k @ CHR '':'' # t @ r) = Some ((k, v), r)"
  using assms by (simp add: parse_member_def marshal_string_def skip_ws_plain is_ws_def
      parse_chars_string)

lemma parse_value_open:
  "parse_value (Suc d) (CHR ''['' # s)
     = map_option (apfst JArr) (parse_group (CHR '']'') (parse_value d) s)"
  "parse_value (Suc d) (CHR ''{'' # s)
     = map_option (apfst JObj) (parse_group (CHR ''}'') (parse_member (parse_value d)) s)"
  by (simp_all add: parse_value.simps [of "Suc d"] skip_ws_plain is_ws_def)

lemma parse_value_lit:
  "parse_value d (''null'' @ r) = Some (JNull, r)"
  "parse_value d (''true'' @ r) = Some (JBool True, r)"
  "parse_value d (''false'' @ r) = Some (JBool False, r)"
  by (simp_all add: parse_value.simps skip_ws_plain is_ws_def parse_scalar_def parse_lit_def
      HasPrefix_def)

lemmas parse_value_leaf = parse_value_string parse_value_Itoa parse_value_lit [simplified]

theorem parse_value_marshal:
  "encodable d j \<Longrightarrow> delim r \<Longrightarrow> parse_value d (marshal j @ r) = Some (j, r)"
proof (induction d arbitrary: j r rule: nat.induct)
  case zero
  then show ?case
    by (cases j) (auto simp: parse_value_leaf)
next
  case (Suc d)
  show ?case
  proof (cases j)
    case (JArr vs)
    with Suc.prems have "encodable d v" if "v \<in> set vs" for v using that by simp
    then have "parse_group (CHR '']'') (parse_value d) (Join (map marshal vs) '','' @ CHR '']'' # r)
        = Some (map (\<lambda>v. v) vs, r)"
      using Suc.IH by (intro parse_group_Join) (auto intro: starts_marshal)
    with JArr show ?thesis by (simp add: parse_value_open)
  next
    case (JObj kvs)
    let ?f = "\<lambda>(k, v). marshal_string k @ '':'' @ marshal v"
    from JObj Suc.prems have e: "encodable d (snd kv)" if "kv \<in> set kvs" for kv using that by simp
    have "parse_member (parse_value d) (?f kv @ r) = Some (kv, r)"
      if "kv \<in> set kvs" "delim r" for kv r
      using parse_member_marshal [where p = "parse_value d" and t = "marshal (snd kv)" and r = r
          and k = "fst kv", OF Suc.IH [OF e [OF that(1)] that(2)]]
      by (cases kv) simp
    moreover have "starts_value (?f kv @ r)" for kv r
      by (cases kv) (auto simp: starts_value_def marshal_string_def is_ws_def)
    ultimately have "parse_group (CHR ''}'') (parse_member (parse_value d))
        (Join (map ?f kvs) '','' @ CHR ''}'' # r) = Some (map (\<lambda>v. v) kvs, r)"
      by (intro parse_group_Join) auto
    with JObj show ?thesis by (simp add: parse_value_open)
  qed (use Suc.prems in \<open>auto simp: parse_value_leaf\<close>)
qed

theorem json_parse_marshal: "encodable max_depth j \<Longrightarrow> json_parse (marshal j) = Some j"
  using parse_value_marshal [of max_depth j "[]"]
  by (simp add: json_parse_def delim_def skip_ws_def)

text \<open>Two values with the same text are the same value.\<close>

corollary marshal_inject:
  "encodable max_depth j \<Longrightarrow> encodable max_depth k \<Longrightarrow> marshal j = marshal k \<longleftrightarrow> j = k"
  by (metis json_parse_marshal option.inject)

subsection \<open>Members with their text\<close>

lemma parse_raw_marshal:
  assumes "encodable d j" "delim r"
  shows "parse_raw d (marshal j @ r) = Some ((j, marshal j), r)"
proof -
  from starts_marshal [OF assms(1)] obtain c t where c: "marshal j @ r = c # t" "\<not> is_ws c"
    unfolding starts_value_def by blast
  then have "skip_ws (marshal j @ r) = marshal j @ r" by (simp add: skip_ws_plain)
  with parse_value_marshal [OF assms] show ?thesis by (simp add: parse_raw_def)
qed

lemma object_members_marshal:
  assumes "encodable max_depth (JObj kvs)"
  shows "object_members (marshal (JObj kvs)) = Some (map (\<lambda>(k, v). (k, v, marshal v)) kvs)"
proof -
  let ?f = "\<lambda>(k, v). marshal_string k @ '':'' @ marshal v"
  have e: "encodable (max_depth - 1) (snd kv)" if "kv \<in> set kvs" for kv
    using assms that by simp
  have "parse_member (parse_raw (max_depth - 1)) (?f kv @ r) = Some ((case kv of (k, v) \<Rightarrow> (k, v, marshal v)), r)"
    if "kv \<in> set kvs" "delim r" for kv r
    using parse_member_marshal [where p = "parse_raw (max_depth - 1)" and t = "marshal (snd kv)" and r = r
        and k = "fst kv", OF parse_raw_marshal [OF e [OF that(1)] that(2)]]
    by (cases kv) simp
  moreover have "starts_value (?f kv @ r)" for kv r
    by (cases kv) (auto simp: starts_value_def marshal_string_def is_ws_def)
  ultimately have "parse_group (CHR ''}'') (parse_member (parse_raw (max_depth - 1)))
      (Join (map ?f kvs) '','' @ CHR ''}'' # []) = Some (map (\<lambda>kv. case kv of (k, v) \<Rightarrow> (k, v, marshal v)) kvs, [])"
    by (intro parse_group_Join) auto
  then show ?thesis by (simp add: object_members_def skip_ws_plain is_ws_def skip_ws_def)
qed

end
