(* ===== verification/Payloads.thy ===== *)
theory Payloads
  imports Json_Roundtrip
begin

text \<open>
  \<open>internal/payloads/payload.go\<close>: the messages between server and client, encoded and decoded.
  Encoding a struct of strings and integers cannot fail, so only \<open>ToJson\<close> keeps its error
  branches. The types \<open>MemberData\<close> and \<open>WebhookEvent\<close> come from the Pusher client library,
  which is not part of the repository: \<open>MemberData\<close> holds the two fields the code reads, and
  its JSON form is given by two parameters, collected in the record \<open>Lib\<close>.
\<close>

record MemberData =
  md_UserID :: UserID
  md_UserInfo :: "(string, string) gomap option" \<comment> \<open>\<open>None\<close> is the nil map\<close>

text \<open>
  \<open>unmarshal_member s\<close> is the pointer that \<open>json.Unmarshal([]byte(s), &member)\<close> leaves in a
  nil \<open>*MemberData\<close>: it stays nil for a text that is not a JSON value or is \<open>null\<close>.
\<close>

record Lib =
  unmarshal_member :: "string \<Rightarrow> MemberData option"
  marshal_member :: "MemberData option \<Rightarrow> string"
  json_error_text :: "string \<Rightarrow> string" \<comment> \<open>the message of the decoding error of a text\<close>

subsection \<open>Server to client\<close>

definition PayloadPack :: "string \<Rightarrow> string \<Rightarrow> string" where
  "PayloadPack event data = marshal (JObj [(''event'', JStr event), (''data'', JStr data)])"

definition EstablishPack :: "SocketID \<Rightarrow> int \<Rightarrow> string" where
  "EstablishPack socketID timeout =
     PayloadPack ''pusher:connection_established''
       (marshal (JObj [(''socket_id'', JStr socketID), (''activity_timeout'', JNum (Itoa timeout))]))"

definition PongPack :: string where
  "PongPack = marshal (JObj [(''event'', JStr ''pusher:pong'')])"

definition channel_message :: "string \<Rightarrow> ChannelName \<Rightarrow> string \<Rightarrow> string" where
  "channel_message event channel data =
     marshal (JObj [(''event'', JStr event), (''channel'', JStr channel), (''data'', JStr data)])"

definition SubscriptionSucceededPack :: "ChannelName \<Rightarrow> string \<Rightarrow> string" where
  "SubscriptionSucceededPack channel data =
     channel_message ''pusher_internal:subscription_succeeded'' channel data"

definition SubscriptionErrPack :: "ChannelName \<Rightarrow> string \<Rightarrow> string \<Rightarrow> int \<Rightarrow> string" where
  "SubscriptionErrPack channelName errType message code =
     channel_message ''pusher:subscription_error'' channelName
       (marshal (JObj [(''type'', JStr errType), (''error'', JStr message), (''status'', JNum (Itoa code))]))"

text \<open>The encoder sorts the keys of a map.\<close>

definition sorted_obj :: "(string \<times> json) list \<Rightarrow> json" where
  "sorted_obj kvs = JObj (sort_key fst kvs)"

definition json_string_map :: "(string, string) gomap option \<Rightarrow> json" where
  "json_string_map m =
     (case m of None \<Rightarrow> JNull | Some kvs \<Rightarrow> sorted_obj (map (\<lambda>(k, v). (k, JStr v)) kvs))"

record PresenceData =
  pd_IDs :: "string list"
  pd_Hash :: "(string, (string, string) gomap option) gomap"
  pd_Count :: int

definition json_presence :: "PresenceData \<Rightarrow> json" where
  "json_presence p =
     JObj [(''ids'', JArr (map JStr (pd_IDs p))),
           (''hash'', sorted_obj (map (\<lambda>(k, v). (k, json_string_map v)) (pd_Hash p))),
           (''count'', JNum (Itoa (pd_Count p)))]"

text \<open>\<open>ErrorPack\<close> with its optional channel; an empty channel is left out (\<open>omitempty\<close>).\<close>

definition omitempty :: "string \<Rightarrow> string \<Rightarrow> (string \<times> json) list" where
  "omitempty key s = (if s = [] then [] else [(key, JStr s)])"

definition json_error_data :: "int \<Rightarrow> string \<Rightarrow> json" where
  "json_error_data code message = JObj [(''code'', JNum (Itoa code)), (''message'', JStr message)]"

definition ErrorPack :: "ErrorCode \<Rightarrow> string \<Rightarrow> ChannelName \<Rightarrow> string" where
  "ErrorPack code message channel =
     marshal (JObj ([(''event'', JStr ''pusher:error''),
                     (''data'', JStr (marshal (json_error_data (code_int code) message)))]
                    @ omitempty ''channel'' channel))"

subsection \<open>Channel events\<close>

text \<open>The dynamic types the code puts into the field \<open>Data any\<close> of a \<open>ChannelEvent\<close>.\<close>

datatype EventData =
    DStr string                  \<comment> \<open>a string\<close>
  | DRaw "string option"         \<comment> \<open>a \<open>json.RawMessage\<close>, \<open>None\<close> is the nil slice\<close>
  | DError int string            \<comment> \<open>\<open>ChannelErrorData\<close>\<close>
  | DMember "MemberData option"  \<comment> \<open>a pointer to \<open>*MemberData\<close>\<close>
  | DUserID string               \<comment> \<open>the anonymous struct of \<open>member_removed\<close>\<close>

record ChannelEvent =
  ce_Event :: string
  ce_Data :: EventData
  ce_Channel :: ChannelName
  ce_UserID :: string
  ce_SocketID :: SocketID

text \<open>\<open>json.Marshal\<close> of the data: \<open>None\<close> is an error.\<close>

fun marshal_data :: "Lib \<Rightarrow> EventData \<Rightarrow> string option" where
  "marshal_data lib (DStr s) = Some (marshal (JStr s))"
| "marshal_data lib (DRaw None) = Some ''null''"
| "marshal_data lib (DRaw (Some raw)) = (if json_parse raw = None then None else Some (compact raw))"
| "marshal_data lib (DError code message) = Some (marshal (json_error_data code message))"
| "marshal_data lib (DMember m) = Some (marshal_member lib m)"
| "marshal_data lib (DUserID u) = Some (marshal (JObj [(''user_id'', JStr u)]))"

definition marshal_event :: "Lib \<Rightarrow> ChannelEvent \<Rightarrow> string option" where
  "marshal_event lib ce =
     do { d \<leftarrow> marshal_data lib (ce_Data ce);
          let rest = omitempty ''channel'' (ce_Channel ce) @ omitempty ''user_id'' (ce_UserID ce)
                     @ omitempty ''socket_id'' (ce_SocketID ce);
          Some (''{'' @ marshal_string ''event'' @ '':'' @ marshal_string (ce_Event ce)
                @ '','' @ marshal_string ''data'' @ '':'' @ d
                @ concat (map (\<lambda>(k, v). '','' @ marshal_string k @ '':'' @ marshal v) rest) @ ''}'') }"

definition serialization_error :: "ChannelEvent \<Rightarrow> string" where
  "serialization_error ce =
     ErrorPack ErrCodeInvalidPayload ''Error serializing event data'' (ce_Channel ce)"

definition ToJson :: "Lib \<Rightarrow> bool \<Rightarrow> ChannelEvent \<Rightarrow> string" where
  "ToJson lib marshalDataProperty ce =
     (case (if marshalDataProperty
            then map_option (\<lambda>d. ce\<lparr>ce_Data := DStr d\<rparr>) (marshal_data lib (ce_Data ce))
            else Some ce) of
        None \<Rightarrow> serialization_error ce
      | Some ce' \<Rightarrow>
          (case marshal_event lib ce' of
             None \<Rightarrow> serialization_error ce'
           | Some payload \<Rightarrow> payload))"

subsection \<open>Client to server\<close>

record SubscribePayload =
  sp_Event :: string
  sp_Channel :: ChannelName
  sp_Auth :: string
  sp_ChannelData :: string

record ClientChannelEvent =
  cce_Event :: string
  cce_Data :: "string option" \<comment> \<open>\<open>json.RawMessage\<close>\<close>
  cce_Channel :: ChannelName

record UserSigninPayload =
  us_Event :: string
  us_UserData :: string
  us_Auth :: string

record AuthDataUserData =
  ud_ID :: string
  ud_Name :: string
  ud_Watchlist :: "string list"

record PusherApiMessage =
  am_Name :: string
  am_Data :: string
  am_Channel :: ChannelName
  am_Channels :: "ChannelName list option"
  am_SocketID :: SocketID

text \<open>A setter of one string field of a struct; other keys are skipped.\<close>

definition field_str ::
  "string \<Rightarrow> ('s \<Rightarrow> string) \<Rightarrow> ((string \<Rightarrow> string) \<Rightarrow> 's \<Rightarrow> 's) \<Rightarrow> json \<Rightarrow> 's \<Rightarrow> 's option" where
  "field_str name get upd v st = map_option (\<lambda>s. upd (\<lambda>_. s) st) (set_str v (get st))"

text \<open>\<open>RequestEvent\<close>: the event name; the data may be any value.\<close>

definition decode_request_event :: "string \<Rightarrow> string option" where
  "decode_request_event msgRaw =
     do { v \<leftarrow> json_parse msgRaw;
          decode_obj (\<lambda>k v ev. if key_matches ''event'' k then set_str v ev else Some ev) v [] }"

definition decode_subscribe_data :: "json \<Rightarrow> SubscribePayload \<Rightarrow> SubscribePayload option" where
  "decode_subscribe_data =
     decode_obj (\<lambda>k v st.
       if key_matches ''channel'' k then field_str k sp_Channel sp_Channel_update v st
       else if key_matches ''auth'' k then field_str k sp_Auth sp_Auth_update v st
       else if key_matches ''channel_data'' k then field_str k sp_ChannelData sp_ChannelData_update v st
       else Some st)"

definition decode_subscribe :: "string \<Rightarrow> SubscribePayload option" where
  "decode_subscribe msgRaw =
     do { v \<leftarrow> json_parse msgRaw;
          decode_obj (\<lambda>k v st.
            if key_matches ''event'' k then field_str k sp_Event sp_Event_update v st
            else if key_matches ''data'' k then decode_subscribe_data v st
            else Some st) v
            \<lparr>sp_Event = [], sp_Channel = [], sp_Auth = [], sp_ChannelData = []\<rparr> }"

text \<open>\<open>UnsubscribePayload\<close>: only the channel is used.\<close>

definition decode_unsubscribe :: "string \<Rightarrow> ChannelName option" where
  "decode_unsubscribe msgRaw =
     do { v \<leftarrow> json_parse msgRaw;
          map_option snd (decode_obj (\<lambda>k v (ev, ch).
            if key_matches ''event'' k then map_option (\<lambda>e. (e, ch)) (set_str v ev)
            else if key_matches ''data'' k then
              map_option (Pair ev)
                (decode_obj (\<lambda>k v ch. if key_matches ''channel'' k then set_str v ch else Some ch) v ch)
            else Some (ev, ch)) v ([], [])) }"

text \<open>The raw text of \<open>data\<close> is kept; a value that is not an object is an error, \<open>null\<close> is empty.\<close>

definition decode_client_event :: "string \<Rightarrow> ClientChannelEvent option" where
  "decode_client_event msgRaw =
     do { v \<leftarrow> json_parse msgRaw;
          let st0 = \<lparr>cce_Event = [], cce_Data = None, cce_Channel = []\<rparr>;
          (case v of
             JNull \<Rightarrow> Some st0
           | JObj _ \<Rightarrow>
               do { ms \<leftarrow> object_members msgRaw;
                    decode_keys (\<lambda>k (v, raw) st.
                      if key_matches ''event'' k then field_str k cce_Event cce_Event_update v st
                      else if key_matches ''data'' k then Some (st\<lparr>cce_Data := Some raw\<rparr>)
                      else if key_matches ''channel'' k then field_str k cce_Channel cce_Channel_update v st
                      else Some st) ms st0 }
           | _ \<Rightarrow> None) }"

text \<open>A pointer to a struct: \<open>null\<close> leaves it nil, here \<open>Some None\<close>; an error is \<open>None\<close>.\<close>

definition decode_ptr :: "('s \<Rightarrow> json \<Rightarrow> 's option) \<Rightarrow> 's \<Rightarrow> string \<Rightarrow> 's option option" where
  "decode_ptr f zero s =
     (case json_parse s of
        None \<Rightarrow> None
      | Some v \<Rightarrow> (case v of JNull \<Rightarrow> Some None | _ \<Rightarrow> map_option Some (f zero v)))"

definition decode_signin :: "string \<Rightarrow> UserSigninPayload option option" where
  "decode_signin =
     decode_ptr (\<lambda>z v. decode_obj (\<lambda>k v st.
         if key_matches ''event'' k then field_str k us_Event us_Event_update v st
         else if key_matches ''data'' k then
           decode_obj (\<lambda>k v st.
             if key_matches ''user_data'' k then field_str k us_UserData us_UserData_update v st
             else if key_matches ''auth'' k then field_str k us_Auth us_Auth_update v st
             else Some st) v st
         else Some st) v z)
       \<lparr>us_Event = [], us_UserData = [], us_Auth = []\<rparr>"

fun decode_strings :: "json list \<Rightarrow> string list option" where
  "decode_strings [] = Some []"
| "decode_strings (v # vs) =
     do { s \<leftarrow> set_str v []; ss \<leftarrow> decode_strings vs; Some (s # ss) }"

fun decode_string_list :: "json \<Rightarrow> string list option" where
  "decode_string_list JNull = Some []"
| "decode_string_list (JArr vs) = decode_strings vs"
| "decode_string_list _ = None"

definition decode_user_data :: "string \<Rightarrow> AuthDataUserData option option" where
  "decode_user_data =
     decode_ptr (\<lambda>z v. decode_obj (\<lambda>k v st.
         if key_matches ''id'' k then field_str k ud_ID ud_ID_update v st
         else if key_matches ''user_info'' k then
           decode_obj (\<lambda>k v st.
             if key_matches ''name'' k then field_str k ud_Name ud_Name_update v st
             else Some st) v st
         else if key_matches ''watchlist'' k then
           map_option (\<lambda>ws. st\<lparr>ud_Watchlist := ws\<rparr>) (decode_string_list v)
         else Some st) v z)
       \<lparr>ud_ID = [], ud_Name = [], ud_Watchlist = []\<rparr>"

subsection \<open>Properties\<close>

lemma depth_Suc: "max_depth = Suc (Suc 9998)"
  by (simp add: max_depth_def)

text \<open>
  What the server packs is JSON that reads back as it was meant: an event with its data, an event
  on a channel, and an error, whose data is the text of an object of its own.
\<close>
theorem packs_read_back:
  "json_parse (PayloadPack event data) = Some (JObj [(''event'', JStr event), (''data'', JStr data)])
   \<and> json_parse (channel_message event channel data) =
       Some (JObj [(''event'', JStr event), (''channel'', JStr channel), (''data'', JStr data)])
   \<and> json_parse (ErrorPack code message channel) =
       Some (JObj ([(''event'', JStr ''pusher:error''), (''data'', JStr (marshal (json_error_data (code_int code) message)))]
                   @ (if channel = [] then [] else [(''channel'', JStr channel)])))
   \<and> json_parse (marshal (json_error_data (code_int code) message)) =
       Some (JObj [(''code'', JNum (Itoa (code_int code))), (''message'', JStr message)])"
  unfolding PayloadPack_def channel_message_def ErrorPack_def json_error_data_def omitempty_def
  by (intro conjI) (subst json_parse_marshal; auto simp: depth_Suc)+

text \<open>The text a client sends to subscribe.\<close>

definition subscribe_request :: "SubscribePayload \<Rightarrow> string" where
  "subscribe_request sp =
     marshal (JObj [(''event'', JStr (sp_Event sp)),
       (''data'', JObj [(''channel'', JStr (sp_Channel sp)), (''auth'', JStr (sp_Auth sp)),
                        (''channel_data'', JStr (sp_ChannelData sp))])])"

lemma subscribe_request_parses:
  "json_parse (subscribe_request sp) = Some (JObj [(''event'', JStr (sp_Event sp)),
       (''data'', JObj [(''channel'', JStr (sp_Channel sp)), (''auth'', JStr (sp_Auth sp)),
                        (''channel_data'', JStr (sp_ChannelData sp))])])"
  unfolding subscribe_request_def by (subst json_parse_marshal) (auto simp: depth_Suc)

lemma key_matches_simps [simp]:
  "key_matches k k" "\<not> key_matches ''event'' ''data''" "\<not> key_matches ''channel'' ''auth''"
  "\<not> key_matches ''channel'' ''channel_data''" "\<not> key_matches ''auth'' ''channel_data''"
  "\<not> key_matches ''event'' ''channel''" "\<not> key_matches ''data'' ''channel''"
  "\<not> key_matches ''user_data'' ''auth''" "\<not> key_matches ''auth'' ''user_data''" "\<not> key_matches ''channel'' ''data''"
  by (simp add: key_matches_def) code_simp+

lemma decode_subscribe_request [simp]: "decode_subscribe (subscribe_request sp) = Some sp"
  by (cases sp) (simp add: decode_subscribe_def subscribe_request_parses decode_obj_def decode_subscribe_data_def field_str_def)

lemma decode_event_request [simp]: "decode_request_event (subscribe_request sp) = Some (sp_Event sp)"
  by (simp add: decode_request_event_def subscribe_request_parses decode_obj_def)

text \<open>The other requests of a client, as texts.\<close>

definition request :: "string \<Rightarrow> (string \<times> json) list \<Rightarrow> string" where
  "request event data = marshal (JObj [(''event'', JStr event), (''data'', JObj data)])"

definition client_event_request :: "string \<Rightarrow> ChannelName \<Rightarrow> json \<Rightarrow> string" where
  "client_event_request event channel data =
     marshal (JObj [(''event'', JStr event), (''channel'', JStr channel), (''data'', data)])"

lemma request_parses:
  assumes "\<forall>kv \<in> set data. \<exists>s. snd kv = JStr s"
  shows "json_parse (request event data) = Some (JObj [(''event'', JStr event), (''data'', JObj data)])"
  unfolding request_def by (subst json_parse_marshal) (use assms in \<open>fastforce simp: depth_Suc\<close>)+

lemma decode_unsubscribe_request [simp]:
  "decode_unsubscribe (request ''pusher:unsubscribe'' [(''channel'', JStr channel)]) = Some channel"
  by (simp add: decode_unsubscribe_def request_parses decode_obj_def)

lemma decode_signin_request [simp]:
  "decode_signin (request ''pusher:signin'' [(''auth'', JStr token), (''user_data'', JStr user)]) =
     Some (Some \<lparr>us_Event = ''pusher:signin'', us_UserData = user, us_Auth = token\<rparr>)"
  by (simp add: decode_signin_def decode_ptr_def request_parses decode_obj_def field_str_def)

lemma decode_client_event_request [simp]:
  "decode_client_event (client_event_request event channel (JStr str)) =
     Some \<lparr>cce_Event = event, cce_Data = Some (marshal (JStr str)), cce_Channel = channel\<rparr>"
proof -
  let ?kvs = "[(''event'', JStr event), (''channel'', JStr channel), (''data'', JStr str)]"
  have p: "json_parse (marshal (JObj ?kvs)) = Some (JObj ?kvs)" by (rule json_parse_marshal) (auto simp: depth_Suc)
  have m: "object_members (marshal (JObj ?kvs)) = Some (map (\<lambda>(k, v). (k, v, marshal v)) ?kvs)"
    by (rule object_members_marshal) (auto simp: depth_Suc)
  show ?thesis
    unfolding decode_client_event_def client_event_request_def p m by (simp add: field_str_def)
qed


text \<open>The text that \<open>ToJson\<close> assembles is that of an object.\<close>

lemma Join_Cons: "Join (x # xs) '','' = x @ concat (map (\<lambda>y. '','' @ y) xs)"
proof (induction xs arbitrary: x)
  case (Cons y xs)
  then show ?case by (cases xs) simp_all
qed simp

lemma ToJson_object:
  assumes "marshal_data lib (ce_Data ce) = Some d"
  shows "ToJson lib True ce = marshal (JObj ([(''event'', JStr (ce_Event ce)), (''data'', JStr d)]
    @ omitempty ''channel'' (ce_Channel ce) @ omitempty ''user_id'' (ce_UserID ce) @ omitempty ''socket_id'' (ce_SocketID ce)))"
  using assms by (simp add: ToJson_def marshal_event_def Join_Cons omitempty_def)

text \<open>
  An event whose data can be encoded goes out as one object: its data as a string that holds the
  encoding, and only those of channel, user id and socket id that are not empty. Data that is not
  JSON goes out as an error event instead.
\<close>
theorem ToJson_read_back:
  "(\<forall>d. marshal_data lib (ce_Data ce) = Some d \<longrightarrow> json_parse (ToJson lib True ce) =
      Some (JObj ([(''event'', JStr (ce_Event ce)), (''data'', JStr d)]
        @ omitempty ''channel'' (ce_Channel ce) @ omitempty ''user_id'' (ce_UserID ce) @ omitempty ''socket_id'' (ce_SocketID ce))))
   \<and> (marshal_data lib (ce_Data ce) = None \<longrightarrow> ToJson lib True ce = serialization_error ce)"
proof (intro conjI allI impI)
  fix d assume "marshal_data lib (ce_Data ce) = Some d"
  from ToJson_object [OF this] show "json_parse (ToJson lib True ce) =
      Some (JObj ([(''event'', JStr (ce_Event ce)), (''data'', JStr d)]
        @ omitempty ''channel'' (ce_Channel ce) @ omitempty ''user_id'' (ce_UserID ce) @ omitempty ''socket_id'' (ce_SocketID ce)))"
    by (simp only:) (rule json_parse_marshal, auto simp: depth_Suc omitempty_def)
qed (simp add: ToJson_def)

definition no_lib :: Lib where
  "no_lib = \<lparr>unmarshal_member = (\<lambda>_. None), marshal_member = (\<lambda>_. []), json_error_text = (\<lambda>_. [])\<rparr>"

theorem ToJson_read_back_witness:
  "json_parse (ToJson no_lib True \<lparr>ce_Event = ''e'', ce_Data = DStr ''x'', ce_Channel = ''c'', ce_UserID = [], ce_SocketID = []\<rparr>)
     = Some (JObj [(''event'', JStr ''e''), (''data'', JStr (marshal (JStr ''x''))), (''channel'', JStr ''c'')])"
  using ToJson_read_back [of no_lib "\<lparr>ce_Event = ''e'', ce_Data = DStr ''x'', ce_Channel = ''c'', ce_UserID = [], ce_SocketID = []\<rparr>"]
  by (simp add: omitempty_def)

end
