(* ===== verification/Apps.thy ===== *)
theory Apps
  imports Json_Roundtrip
begin

text \<open>
  \<open>internal/apps/app.go\<close> (an app and its defaults), \<open>internal/constants/typeDefinitions.go\<close>
  (webhooks) and \<open>internal/appManagerArray.go\<close> (the app manager). Durations are in nanoseconds.
  The limits are mathematical integers: the code only compares them with lengths.
\<close>

record WebhookFilters =
  wf_ChannelNameStartsWith :: string
  wf_ChannelNameEndsWith :: string

record LambdaConfig =
  lc_Async :: bool
  lc_Region :: string
  lc_ClientOptions :: string

record Webhook =
  wh_URL :: string
  wh_Headers :: "(string, string) gomap"
  wh_EventTypes :: "string list"
  wh_Filter :: WebhookFilters
  wh_LambdaFunction :: string
  wh_Lambda :: LambdaConfig
  wh_SNSTopicARN :: string

record App =
  app_ID :: AppID
  app_Key :: string
  app_Secret :: string
  app_ActivityTimeout :: int
  app_ReadTimeout :: int
  app_AuthorizationTimeoutSeconds :: int
  app_AuthorizationTimeout :: int
  app_MaxConnections :: int
  app_EnableClientMessages :: bool
  app_Enabled :: bool
  app_MaxBackendEventsPerSecond :: int
  app_MaxClientEventsPerSecond :: int
  app_MaxReadRequestsPerSecond :: int
  app_Webhooks :: "Webhook list option" \<comment> \<open>\<open>None\<close> is the nil slice\<close>
  app_MaxPresenceMembersPerChannel :: int
  app_MaxPresenceMemberSizeInKb :: int
  app_MaxChannelNameLength :: int
  app_MaxEventChannelsAtOnce :: int
  app_MaxEventNameLength :: int
  app_MaxEventPayloadInKb :: int
  app_MaxEventBatchSize :: int
  app_RequireChannelAuthorization :: bool
  app_HasClientEventWebhooks :: bool
  app_HasChannelOccupiedWebhooks :: bool
  app_HasChannelVacatedWebhooks :: bool
  app_HasMemberAddedWebhooks :: bool
  app_HasMemberRemovedWebhooks :: bool
  app_HasCacheMissWebhooks :: bool
  app_WebhookBatchingEnabled :: bool
  app_WebhooksEnabled :: bool
  app_WebhookURL :: string
  app_WebhookSNSRegion :: string
  app_WebhookSNSTopicARN :: string
  app_WebhookFilterPrefix :: string

text \<open>The zero value of the type is the first argument: the code's type switch selects it.\<close>

definition getValueOrFallback :: "'a \<Rightarrow> 'a \<Rightarrow> 'a \<Rightarrow> 'a" where
  "getValueOrFallback zero v fallback = (if v = zero then fallback else v)"

abbreviation orInt :: "int \<Rightarrow> int \<Rightarrow> int" where
  "orInt \<equiv> getValueOrFallback 0"

abbreviation orBool :: "bool \<Rightarrow> bool \<Rightarrow> bool" where
  "orBool \<equiv> getValueOrFallback False"

text \<open>
  \<open>math.Round(10 * x / 9)\<close>: no multiple of 1/9 lies halfway between two integers, so rounding
  is the nearest integer (the float arithmetic is exact enough below 2^48).
\<close>

definition round_10_9 :: "int \<Rightarrow> int" where
  "round_10_9 x = (20 * x + 9) div 18"

definition Second :: int where
  "Second = 1000000000"

definition SetMissingDefaults :: "App \<Rightarrow> App" where
  "SetMissingDefaults a =
     (let a = a\<lparr>app_ActivityTimeout := orInt (app_ActivityTimeout a) 60\<rparr>;
          activityTimeoutInt = round_10_9 (app_ActivityTimeout a);
          a = a\<lparr>app_ReadTimeout := activityTimeoutInt * Second\<rparr>;
          a = a\<lparr>app_AuthorizationTimeoutSeconds := orInt (app_AuthorizationTimeoutSeconds a) 5\<rparr>;
          a = a\<lparr>app_AuthorizationTimeout := app_AuthorizationTimeoutSeconds a * Second\<rparr>;
          a = a\<lparr>app_MaxConnections := orInt (app_MaxConnections a) (-1),
                app_EnableClientMessages := orBool (app_EnableClientMessages a) False,
                app_Enabled := orBool (app_Enabled a) True,
                app_MaxBackendEventsPerSecond := orInt (app_MaxBackendEventsPerSecond a) (-1),
                app_MaxClientEventsPerSecond := orInt (app_MaxClientEventsPerSecond a) (-1),
                app_MaxReadRequestsPerSecond := orInt (app_MaxReadRequestsPerSecond a) (-1),
                app_MaxPresenceMembersPerChannel := orInt (app_MaxPresenceMembersPerChannel a) 100,
                app_MaxPresenceMemberSizeInKb := orInt (app_MaxPresenceMemberSizeInKb a) 10,
                app_MaxChannelNameLength := orInt (app_MaxChannelNameLength a) 100,
                app_MaxEventChannelsAtOnce := orInt (app_MaxEventChannelsAtOnce a) 10,
                app_MaxEventNameLength := orInt (app_MaxEventNameLength a) 100,
                app_MaxEventPayloadInKb := orInt (app_MaxEventPayloadInKb a) 100,
                app_MaxEventBatchSize := orInt (app_MaxEventBatchSize a) 20\<rparr>;
          a = a\<lparr>app_RequireChannelAuthorization := orBool (app_RequireChannelAuthorization a) False,
                app_HasClientEventWebhooks := orBool (app_HasClientEventWebhooks a) False,
                app_HasChannelOccupiedWebhooks := orBool (app_HasChannelOccupiedWebhooks a) False,
                app_HasChannelVacatedWebhooks := orBool (app_HasChannelVacatedWebhooks a) False,
                app_HasMemberAddedWebhooks := orBool (app_HasMemberAddedWebhooks a) False,
                app_HasMemberRemovedWebhooks := orBool (app_HasMemberRemovedWebhooks a) False,
                app_HasCacheMissWebhooks := orBool (app_HasCacheMissWebhooks a) False,
                app_WebhookBatchingEnabled := orBool (app_WebhookBatchingEnabled a) False,
                app_WebhooksEnabled := orBool (app_WebhooksEnabled a) False\<rparr>
      in case app_Webhooks a of None \<Rightarrow> a\<lparr>app_Webhooks := Some []\<rparr> | Some _ \<Rightarrow> a)"

definition zero_app :: App where
  "zero_app =
     \<lparr>app_ID = [], app_Key = [], app_Secret = [], app_ActivityTimeout = 0, app_ReadTimeout = 0,
      app_AuthorizationTimeoutSeconds = 0, app_AuthorizationTimeout = 0, app_MaxConnections = 0,
      app_EnableClientMessages = False, app_Enabled = False, app_MaxBackendEventsPerSecond = 0,
      app_MaxClientEventsPerSecond = 0, app_MaxReadRequestsPerSecond = 0, app_Webhooks = None,
      app_MaxPresenceMembersPerChannel = 0, app_MaxPresenceMemberSizeInKb = 0,
      app_MaxChannelNameLength = 0, app_MaxEventChannelsAtOnce = 0, app_MaxEventNameLength = 0,
      app_MaxEventPayloadInKb = 0, app_MaxEventBatchSize = 0,
      app_RequireChannelAuthorization = False, app_HasClientEventWebhooks = False,
      app_HasChannelOccupiedWebhooks = False, app_HasChannelVacatedWebhooks = False,
      app_HasMemberAddedWebhooks = False, app_HasMemberRemovedWebhooks = False,
      app_HasCacheMissWebhooks = False, app_WebhookBatchingEnabled = False,
      app_WebhooksEnabled = False, app_WebhookURL = [], app_WebhookSNSRegion = [],
      app_WebhookSNSTopicARN = [], app_WebhookFilterPrefix = []\<rparr>"

text \<open>The webhooks that \<open>range app.Webhooks\<close> visits.\<close>

definition webhooks_of :: "App \<Rightarrow> Webhook list" where
  "webhooks_of a = (case app_Webhooks a of None \<Rightarrow> [] | Some ws \<Rightarrow> ws)"

subsection \<open>Defaults\<close>

lemma round_10_9_bounds: "0 \<le> x \<Longrightarrow> x \<le> round_10_9 x \<and> 9 * round_10_9 x \<le> 10 * x + 4"
  by (simp add: round_10_9_def) linarith

lemma round_10_9_nearest: "\<bar>9 * round_10_9 x - 10 * x\<bar> \<le> 4"
proof -
  have "20 * x + 9 = 18 * round_10_9 x + (20 * x + 9) mod 18"
    unfolding round_10_9_def by simp
  moreover have "0 \<le> (20 * x + 9) mod 18" "(20 * x + 9) mod 18 < 18" by simp_all
  ultimately show ?thesis by presburger
qed

lemma getValueOrFallback_idem:
  "getValueOrFallback z (getValueOrFallback z v f) f = getValueOrFallback z v f"
  by (simp add: getValueOrFallback_def)

lemma orBool_simps [simp]: "orBool v True = True" "orBool v False = v"
  by (cases v; simp add: getValueOrFallback_def)+

lemma SetMissingDefaults_Enabled [simp]: "app_Enabled (SetMissingDefaults a)"
  by (simp add: SetMissingDefaults_def Let_def split: option.split)

lemma SetMissingDefaults_keeps [simp]:
  "app_ID (SetMissingDefaults a) = app_ID a" "app_Key (SetMissingDefaults a) = app_Key a"
  "app_Secret (SetMissingDefaults a) = app_Secret a"
  by (simp_all add: SetMissingDefaults_def Let_def split: option.split)

subsection \<open>The app manager (appManagerArray.go)\<close>

type_synonym ArrayAppManager = "(AppID, App) gomap"

definition ArrayAppManager_Init :: "App list \<Rightarrow> ArrayAppManager \<times> string option" where
  "ArrayAppManager_Init appsFromConfig =
     (let m = foldl (\<lambda>m app. mput (app_ID app) app m) [] appsFromConfig
      in if length m = 0 then (m, Some ''no apps found'') else (m, None))"

definition GetAllApps :: "ArrayAppManager \<Rightarrow> App list" where
  "GetAllApps a = map snd a"

definition GetAppSecret :: "ArrayAppManager \<Rightarrow> AppID \<Rightarrow> string + string" where
  "GetAppSecret a i =
     (case map_of a i of Some app \<Rightarrow> Inr (app_Secret app) | None \<Rightarrow> Inl ''app not found'')"

definition FindByID :: "ArrayAppManager \<Rightarrow> AppID \<Rightarrow> string + App" where
  "FindByID a i = (case map_of a i of Some app \<Rightarrow> Inr app | None \<Rightarrow> Inl ''app not found'')"

fun FindByKey :: "ArrayAppManager \<Rightarrow> string \<Rightarrow> string + App" where
  "FindByKey [] key = Inl ''app not found''"
| "FindByKey ((i, app) # a) key = (if app_Key app = key then Inr app else FindByKey a key)"

definition wf_apps :: "ArrayAppManager \<Rightarrow> bool" where
  "wf_apps a = (wf_map a \<and> (\<forall>(i, app) \<in> set a. app_ID app = i))"

lemma wf_apps_put: "wf_apps m \<Longrightarrow> wf_apps (mput (app_ID app) app m)"
  unfolding wf_apps_def
proof (elim conjE, intro conjI ballI)
  fix p
  assume m: "wf_map m" "\<forall>(i, app) \<in> set m. app_ID app = i" and p: "p \<in> set (mput (app_ID app) app m)"
  obtain i a where [simp]: "p = (i, a)" by (cases p)
  from p have "map_of (mput (app_ID app) app m) i = Some a"
    by (simp only: wf_map_of_iff [OF wf_map_mput [OF m(1)]] \<open>p = (i, a)\<close>)
  then show "case p of (i, app) \<Rightarrow> app_ID app = i"
    using m(2) by (auto split: if_splits dest!: map_of_SomeD)
qed simp

lemma foldl_mput_apps:
  "wf_apps m \<Longrightarrow> wf_apps (foldl (\<lambda>m app. mput (app_ID app) app m) m apps)"
  by (induction apps arbitrary: m) (simp_all add: wf_apps_put)

lemma ArrayAppManager_Init_wf: "wf_apps (fst (ArrayAppManager_Init apps))"
  using foldl_mput_apps [of "[]" apps]
  by (simp add: ArrayAppManager_Init_def Let_def wf_apps_def)

lemma FindByKey_Inr: "FindByKey a key = Inr app \<Longrightarrow> app \<in> set (GetAllApps a) \<and> app_Key app = key"
  by (induction a key rule: FindByKey.induct) (auto simp: GetAllApps_def split: if_splits)

lemma FindByKey_Inl: "FindByKey a key = Inl e \<longleftrightarrow> e = ''app not found'' \<and> (\<forall>app \<in> set (GetAllApps a). app_Key app \<noteq> key)"
  by (induction a key rule: FindByKey.induct) (auto simp: GetAllApps_def split: if_splits)

end
