(* ===== verification/Flap.thy ===== *)
theory Flap
  imports Apps
begin

text \<open>
  \<open>internal/queues/flapDetector.go\<close>: opposite events for one key within a short window cancel
  each other. The goroutines that \<open>time.AfterFunc\<close> starts are explicit: a timer is armed, then
  started, then it has looked at its context and dispatched, and last it takes the lock and deletes
  the pending entry of its key. \<open>Stop\<close> removes a timer only while it is armed. Each of these is
  one step, so every interleaving with \<open>CheckForFlapping\<close> is covered. What \<open>dispatchFn\<close>
  receives is collected in a list.
\<close>

text \<open>The fields of \<open>pusher.WebhookEvent\<close> (of the Pusher client library) that the code sets.\<close>

record WebhookEvent =
  we_Name :: string
  we_Channel :: string
  we_Data :: string
  we_SocketID :: string
  we_UserID :: string

datatype EventType = Connect | Disconnect

datatype stage = Armed | Started | Dispatched

record Timer =
  tm_id :: nat
  tm_at :: int
  tm_key :: string
  tm_app :: App
  tm_event :: WebhookEvent
  tm_stage :: stage
  tm_cancelled :: bool

record pendingEvent =
  pe_eventType :: EventType
  pe_timer :: nat

record FlapDetector =
  fd_FlapEnabled :: bool
  fd_pending :: "(string, pendingEvent) gomap"
  fd_window :: int
  fd_timers :: "Timer list"
  fd_next :: nat

type_synonym dispatch = "App \<times> WebhookEvent"

definition FlapDetector_Init :: "FlapDetector \<Rightarrow> FlapDetector" where
  "FlapDetector_Init fd =
     (if \<not> fd_FlapEnabled fd then fd
      else let fd = fd\<lparr>fd_pending := []\<rparr>
           in if fd_window fd = 0 then fd\<lparr>fd_window := 3 * Second\<rparr> else fd)"

definition NewFlapDetector :: "bool \<Rightarrow> int \<Rightarrow> FlapDetector" where
  "NewFlapDetector enabled window =
     FlapDetector_Init \<lparr>fd_FlapEnabled = enabled, fd_pending = [], fd_window = window,
                        fd_timers = [], fd_next = 0\<rparr>"

fun opposite :: "EventType \<Rightarrow> EventType" where
  "opposite Connect = Disconnect"
| "opposite Disconnect = Connect"

text \<open>\<open>existing.cancel(); existing.timer.Stop()\<close>\<close>

definition cancel_timer :: "nat \<Rightarrow> Timer list \<Rightarrow> Timer list" where
  "cancel_timer i ts =
     filter (\<lambda>t. \<not> (tm_id t = i \<and> tm_stage t = Armed))
       (map (\<lambda>t. if tm_id t = i then t\<lparr>tm_cancelled := True\<rparr> else t) ts)"

definition CheckForFlapping ::
  "int \<Rightarrow> App \<Rightarrow> string \<Rightarrow> EventType \<Rightarrow> WebhookEvent \<Rightarrow> FlapDetector \<Rightarrow> dispatch list \<times> FlapDetector" where
  "CheckForFlapping now app key event webhookEvent fd =
     (if \<not> fd_FlapEnabled fd then ([(app, webhookEvent)], fd)
      else
        case (case map_of (fd_pending fd) key of
                None \<Rightarrow> None
              | Some existing \<Rightarrow> if pe_eventType existing = opposite event then Some existing else None) of
          Some existing \<Rightarrow>
            ([], fd\<lparr>fd_timers := cancel_timer (pe_timer existing) (fd_timers fd),
                    fd_pending := mdel key (fd_pending fd)\<rparr>)
        | None \<Rightarrow>
            (let timer = \<lparr>tm_id = fd_next fd, tm_at = now + fd_window fd, tm_key = key, tm_app = app,
                          tm_event = webhookEvent, tm_stage = Armed, tm_cancelled = False\<rparr>
             in ([], fd\<lparr>fd_timers := fd_timers fd @ [timer], fd_next := fd_next fd + 1,
                        fd_pending := mput key \<lparr>pe_eventType = event, pe_timer = fd_next fd\<rparr>
                          (fd_pending fd)\<rparr>)))"

subsection \<open>The timer goroutines\<close>

definition find_timer :: "nat \<Rightarrow> FlapDetector \<Rightarrow> Timer option" where
  "find_timer i fd = find (\<lambda>t. tm_id t = i) (fd_timers fd)"

definition set_stage :: "nat \<Rightarrow> stage \<Rightarrow> FlapDetector \<Rightarrow> FlapDetector" where
  "set_stage i s fd =
     fd\<lparr>fd_timers := map (\<lambda>t. if tm_id t = i then t\<lparr>tm_stage := s\<rparr> else t) (fd_timers fd)\<rparr>"

definition drop_timer :: "nat \<Rightarrow> FlapDetector \<Rightarrow> FlapDetector" where
  "drop_timer i fd = fd\<lparr>fd_timers := filter (\<lambda>t. tm_id t \<noteq> i) (fd_timers fd)\<rparr>"

text \<open>
  One step of the goroutine of timer \<open>i\<close>: it starts when its time has come; it returns without a
  trace when its context is cancelled, and dispatches otherwise; then it deletes the pending entry.
\<close>

definition timer_step :: "int \<Rightarrow> nat \<Rightarrow> FlapDetector \<Rightarrow> dispatch list \<times> FlapDetector" where
  "timer_step now i fd =
     (case find_timer i fd of
        None \<Rightarrow> ([], fd)
      | Some t \<Rightarrow>
          (case tm_stage t of
             Armed \<Rightarrow> if tm_at t \<le> now then ([], set_stage i Started fd) else ([], fd)
           | Started \<Rightarrow>
               if tm_cancelled t then ([], drop_timer i fd)
               else ([(tm_app t, tm_event t)], set_stage i Dispatched fd)
           | Dispatched \<Rightarrow>
               ([], (drop_timer i fd)\<lparr>fd_pending := mdel (tm_key t) (fd_pending fd)\<rparr>)))"

datatype flap_action =
    FEvent int App string EventType WebhookEvent
  | FTimer int nat

fun flap_step :: "flap_action \<Rightarrow> FlapDetector \<Rightarrow> dispatch list \<times> FlapDetector" where
  "flap_step (FEvent now app key event we) fd = CheckForFlapping now app key event we fd"
| "flap_step (FTimer now i) fd = timer_step now i fd"

fun flap_run :: "flap_action list \<Rightarrow> FlapDetector \<Rightarrow> dispatch list \<times> FlapDetector" where
  "flap_run [] fd = ([], fd)"
| "flap_run (a # as) fd =
     (let (out1, fd1) = flap_step a fd; (out2, fd2) = flap_run as fd1 in (out1 @ out2, fd2))"

lemma flap_run_append:
  "flap_run (as @ bs) fd =
     (let (o1, f1) = flap_run as fd; (o2, f2) = flap_run bs f1 in (o1 @ o2, f2))"
  by (induction as arbitrary: fd) (auto simp: Let_def split: prod.splits)

subsection \<open>Invariants\<close>

text \<open>
  Timer numbers are fresh and unique; a pending entry belongs to a timer of its key that is still
  there and not cancelled, or to one that has finished.
\<close>

definition flap_inv :: "FlapDetector \<Rightarrow> bool" where
  "flap_inv fd =
     (wf_map (fd_pending fd)
      \<and> distinct (map tm_id (fd_timers fd))
      \<and> (\<forall>t \<in> set (fd_timers fd). tm_id t < fd_next fd)
      \<and> (\<forall>t \<in> set (fd_timers fd). tm_stage t = Armed \<longrightarrow> \<not> tm_cancelled t)
      \<and> (\<forall>(k, p) \<in> set (fd_pending fd). pe_timer p < fd_next fd)
      \<and> (\<forall>(k, p) \<in> set (fd_pending fd). \<forall>t \<in> set (fd_timers fd).
           tm_id t = pe_timer p \<longrightarrow> tm_key t = k \<and> \<not> tm_cancelled t))"

lemma flap_inv_Init: "flap_inv (NewFlapDetector enabled window)"
  by (simp add: flap_inv_def NewFlapDetector_def FlapDetector_Init_def Let_def)

lemma set_cancel_timer:
  "t' \<in> set (cancel_timer i ts) \<longleftrightarrow>
     (\<exists>t \<in> set ts. (tm_id t \<noteq> i \<and> t' = t)
        \<or> (tm_id t = i \<and> tm_stage t \<noteq> Armed \<and> t' = t\<lparr>tm_cancelled := True\<rparr>))"
  by (auto simp: cancel_timer_def)

lemma tm_ids_cancel: "distinct (map tm_id ts) \<Longrightarrow> distinct (map tm_id (cancel_timer i ts))"
proof -
  have "map tm_id (map (\<lambda>t. if tm_id t = i then t\<lparr>tm_cancelled := True\<rparr> else t) ts) = map tm_id ts"
    by (induction ts) auto
  then show "distinct (map tm_id ts) \<Longrightarrow> distinct (map tm_id (cancel_timer i ts))"
    unfolding cancel_timer_def by (simp only: distinct_map_filter)
qed

text \<open>The parts of the invariant, to be used one by one.\<close>

lemma flap_invD:
  assumes "flap_inv fd"
  shows "wf_map (fd_pending fd)" "distinct (map tm_id (fd_timers fd))"
    "t \<in> set (fd_timers fd) \<Longrightarrow> tm_id t < fd_next fd"
    "t \<in> set (fd_timers fd) \<Longrightarrow> tm_stage t = Armed \<Longrightarrow> \<not> tm_cancelled t"
    "(k, p) \<in> set (fd_pending fd) \<Longrightarrow> pe_timer p < fd_next fd"
    "(k, p) \<in> set (fd_pending fd) \<Longrightarrow> t \<in> set (fd_timers fd) \<Longrightarrow> tm_id t = pe_timer p \<Longrightarrow> tm_key t = k"
    "(k, p) \<in> set (fd_pending fd) \<Longrightarrow> t \<in> set (fd_timers fd) \<Longrightarrow> tm_id t = pe_timer p \<Longrightarrow> \<not> tm_cancelled t"
  using assms unfolding flap_inv_def by blast+

lemma CheckForFlapping_inv:
  assumes inv: "flap_inv fd"
  shows "flap_inv (snd (CheckForFlapping now app key event we fd))"
proof (cases "fd_FlapEnabled fd")
  case False
  with inv show ?thesis by (simp add: CheckForFlapping_def)
next
  case True
  note D = flap_invD [OF inv]
  show ?thesis
  proof (cases "\<exists>e. map_of (fd_pending fd) key = Some e \<and> pe_eventType e = opposite event")
    case True
    then obtain e where e: "map_of (fd_pending fd) key = Some e" "pe_eventType e = opposite event" by blast
    then have ein: "(key, e) \<in> set (fd_pending fd)" by (simp add: map_of_SomeD)
    have key: "tm_key t = key" if "t \<in> set (fd_timers fd)" "tm_id t = pe_timer e" for t
      using D(6) [OF ein that] .
    let ?fd = "fd\<lparr>fd_timers := cancel_timer (pe_timer e) (fd_timers fd), fd_pending := mdel key (fd_pending fd)\<rparr>"
    have "flap_inv ?fd"
      unfolding flap_inv_def
    proof (intro conjI)
      show "\<forall>t \<in> set (fd_timers ?fd). tm_id t < fd_next ?fd"
        using D(3) by (fastforce simp: set_cancel_timer)
      show "\<forall>(k, p) \<in> set (fd_pending ?fd). \<forall>t \<in> set (fd_timers ?fd).
          tm_id t = pe_timer p \<longrightarrow> tm_key t = k \<and> \<not> tm_cancelled t"
        using D(6,7) key by (fastforce simp: set_cancel_timer dest!: in_mdel)
    qed (use D(1,2,4,5) in \<open>auto simp: tm_ids_cancel set_cancel_timer dest!: in_mdel\<close>)
    with True e \<open>fd_FlapEnabled fd\<close> show ?thesis by (simp add: CheckForFlapping_def)
  next
    case False
    let ?t = "\<lparr>tm_id = fd_next fd, tm_at = now + fd_window fd, tm_key = key, tm_app = app,
               tm_event = we, tm_stage = Armed, tm_cancelled = False\<rparr>"
    let ?fd = "fd\<lparr>fd_timers := fd_timers fd @ [?t], fd_next := fd_next fd + 1,
        fd_pending := mput key \<lparr>pe_eventType = event, pe_timer = fd_next fd\<rparr> (fd_pending fd)\<rparr>"
    have nid: "tm_id t \<noteq> fd_next fd" if "t \<in> set (fd_timers fd)" for t using D(3) [OF that] by simp
    have nip: "pe_timer p \<noteq> fd_next fd" if "(k, p) \<in> set (fd_pending fd)" for k p using D(5) [OF that] by simp
    have "flap_inv ?fd"
      unfolding flap_inv_def
    proof (intro conjI)
      show "\<forall>t \<in> set (fd_timers ?fd). tm_id t < fd_next ?fd" using D(3) by fastforce
      show "\<forall>(k, p) \<in> set (fd_pending ?fd). pe_timer p < fd_next ?fd"
        using D(5) by (fastforce dest!: in_mput [OF D(1)])
      show "\<forall>(k, p) \<in> set (fd_pending ?fd). \<forall>t \<in> set (fd_timers ?fd).
          tm_id t = pe_timer p \<longrightarrow> tm_key t = k \<and> \<not> tm_cancelled t"
        using D(6,7) nid nip by (fastforce dest!: in_mput [OF D(1)])
      show "distinct (map tm_id (fd_timers ?fd))" using D(2) nid by fastforce
    qed (use D(1,4) in auto)
    moreover have "snd (CheckForFlapping now app key event we fd) = ?fd"
      using False \<open>fd_FlapEnabled fd\<close>
      by (auto simp: CheckForFlapping_def Let_def split: option.splits)
    ultimately show ?thesis by simp
  qed
qed

lemma timer_step_inv:
  assumes inv: "flap_inv fd"
  shows "flap_inv (snd (timer_step now i fd))"
proof -
  note D = flap_invD [OF inv]
  have ids: "map (tm_id \<circ> (\<lambda>t. if tm_id t = i then t\<lparr>tm_stage := s\<rparr> else t)) ts = map tm_id ts"
    for s and ts :: "Timer list"
    by (induction ts) auto
  have stage: "flap_inv (set_stage i s fd)" if "s \<noteq> Armed" for s
    unfolding flap_inv_def
  proof (intro conjI)
    have "map tm_id (fd_timers (set_stage i s fd)) = map tm_id (fd_timers fd)"
      using ids [of s "fd_timers fd"] by (simp add: set_stage_def del: map_eq_conv)
    with D(2) show "distinct (map tm_id (fd_timers (set_stage i s fd)))" by simp
    show "\<forall>(k, p) \<in> set (fd_pending (set_stage i s fd)). \<forall>t \<in> set (fd_timers (set_stage i s fd)).
        tm_id t = pe_timer p \<longrightarrow> tm_key t = k \<and> \<not> tm_cancelled t"
      using D(6,7) by (fastforce simp: set_stage_def)
  qed (use D(1,3,4,5) that in \<open>auto simp: set_stage_def\<close>)
  have drop: "flap_inv (drop_timer i fd)"
    unfolding flap_inv_def using inv
    by (auto simp: flap_inv_def drop_timer_def distinct_map_filter)
  have del: "flap_inv (f\<lparr>fd_pending := mdel k (fd_pending f)\<rparr>)" if "flap_inv f" for f k
    using that unfolding flap_inv_def by (auto dest!: in_mdel)
  show ?thesis
    using inv stage [of Started] stage [of Dispatched] drop del [OF drop]
    by (auto simp: timer_step_def drop_timer_def split: option.splits stage.splits)
qed

lemma flap_run_inv: "flap_inv fd \<Longrightarrow> flap_inv (snd (flap_run as fd))"
proof (induction as arbitrary: fd)
  case (Cons a as)
  have "flap_inv (snd (flap_step a fd))"
    using Cons.prems by (cases a) (simp_all add: CheckForFlapping_inv timer_step_inv)
  then show ?case using Cons.IH [of "snd (flap_step a fd)"] by (simp add: split_beta)
qed simp

subsection \<open>No event is invented or sent twice\<close>

definition payload :: "Timer \<Rightarrow> dispatch" where
  "payload t = (tm_app t, tm_event t)"

text \<open>The events that timers still have to dispatch.\<close>

definition owed :: "FlapDetector \<Rightarrow> dispatch multiset" where
  "owed fd = mset (map payload (filter (\<lambda>t. tm_stage t \<noteq> Dispatched) (fd_timers fd)))"

fun action_events :: "flap_action \<Rightarrow> dispatch multiset" where
  "action_events (FEvent now app key event we) = {#(app, we)#}"
| "action_events (FTimer now i) = {#}"

lemma timer_split:
  assumes "flap_inv fd" and "find_timer i fd = Some t"
  obtains xs ys where "fd_timers fd = xs @ t # ys" "tm_id t = i" "\<forall>u \<in> set xs \<union> set ys. tm_id u \<noteq> i"
proof -
  from assms(2) have t: "t \<in> set (fd_timers fd)" "tm_id t = i"
    by (auto simp: find_timer_def find_Some_iff)
  obtain xs ys where xy: "fd_timers fd = xs @ t # ys" using split_list [OF t(1)] by blast
  have "distinct (map tm_id xs @ tm_id t # map tm_id ys)"
    using flap_invD(2) [OF assms(1)] unfolding xy by simp
  with t(2) have "\<forall>u \<in> set xs \<union> set ys. tm_id u \<noteq> i" by (auto simp: image_iff)
  with xy t(2) that show thesis by blast
qed

lemma map_other_ids: "\<forall>u \<in> set us. tm_id u \<noteq> i \<Longrightarrow> map (\<lambda>t. if tm_id t = i then f t else t) us = us"
  by (induction us) auto

lemma set_stage_split:
  assumes "fd_timers fd = xs @ t # ys" "tm_id t = i" "\<forall>u \<in> set xs \<union> set ys. tm_id u \<noteq> i"
  shows "fd_timers (set_stage i s fd) = xs @ t\<lparr>tm_stage := s\<rparr> # ys"
    and "fd_timers (drop_timer i fd) = xs @ ys"
  using assms by (simp_all add: set_stage_def drop_timer_def map_other_ids filter_id_conv)

lemma cancel_timer_Cons:
  "cancel_timer i [] = []"
  "cancel_timer i (t # ts) =
     (if tm_id t \<noteq> i then t # cancel_timer i ts
      else if tm_stage t = Armed then cancel_timer i ts
      else t\<lparr>tm_cancelled := True\<rparr> # cancel_timer i ts)"
  by (simp_all add: cancel_timer_def)

lemma payload_cancelled [simp]: "payload (t\<lparr>tm_cancelled := c\<rparr>) = payload t"
  by (simp add: payload_def)

lemma mset_le_add_mset: "A \<subseteq># add_mset x A"
  by (simp add: subset_mset.add_increasing2 flip: add_mset_add_single)

lemma owed_cancel:
  "mset (map payload (filter (\<lambda>t. tm_stage t \<noteq> Dispatched) (cancel_timer i ts)))
     \<subseteq># mset (map payload (filter (\<lambda>t. tm_stage t \<noteq> Dispatched) ts))"
  by (induction ts)
    (auto simp: cancel_timer_Cons intro: subset_mset.order_trans [OF _ mset_le_add_mset])

lemma flap_step_conserves:
  assumes inv: "flap_inv fd"
  shows "mset (fst (flap_step a fd)) + owed (snd (flap_step a fd)) \<subseteq># owed fd + action_events a"
proof (cases a)
  case (FEvent now app key event we)
  have "owed (fd\<lparr>fd_timers := cancel_timer i (fd_timers fd), fd_pending := p\<rparr>) \<subseteq># owed fd" for i p
    using owed_cancel by (simp add: owed_def)
  then have c: "owed (fd\<lparr>fd_timers := cancel_timer i (fd_timers fd), fd_pending := p\<rparr>)
      \<subseteq># owed fd + {#(app, we)#}" for i p
    by (meson subset_mset.add_increasing2 empty_le subset_mset.order_trans mset_subset_eq_add_left)
  show ?thesis
    using FEvent c
    by (auto simp: CheckForFlapping_def Let_def owed_def payload_def split: option.splits)
next
  case (FTimer now i)
  show ?thesis
  proof (cases "find_timer i fd")
    case None
    with FTimer show ?thesis by (simp add: timer_step_def)
  next
    case (Some t)
    from timer_split [OF inv Some] obtain xs ys
      where t: "fd_timers fd = xs @ t # ys" "tm_id t = i" "\<forall>u \<in> set xs \<union> set ys. tm_id u \<noteq> i" .
    note s = set_stage_split [OF t]
    have p: "payload (t\<lparr>tm_stage := s\<rparr>) = payload t" for s by (simp add: payload_def)
    show ?thesis
      using FTimer Some s t(1)
      by (cases "tm_stage t") (auto simp: timer_step_def owed_def p payload_def [symmetric])
  qed
qed

lemma flap_run_conserves:
  "flap_inv fd \<Longrightarrow> mset (fst (flap_run as fd)) + owed (snd (flap_run as fd))
     \<subseteq># owed fd + sum_list (map action_events as)"
proof (induction as arbitrary: fd)
  case (Cons a as)
  let ?f = "snd (flap_step a fd)"
  have "flap_inv ?f" using flap_run_inv [OF Cons.prems, of "[a]"] by (simp add: split_beta)
  from Cons.IH [OF this]
  have "mset (fst (flap_run as ?f)) + owed (snd (flap_run as ?f))
      \<subseteq># owed ?f + sum_list (map action_events as)" .
  then have "mset (fst (flap_step a fd)) + (mset (fst (flap_run as ?f)) + owed (snd (flap_run as ?f)))
      \<subseteq># (mset (fst (flap_step a fd)) + owed ?f) + sum_list (map action_events as)"
    by (simp add: add.assoc)
  also have "\<dots> \<subseteq># owed fd + action_events a + sum_list (map action_events as)"
    using flap_step_conserves [OF Cons.prems, of a] by simp
  finally show ?case by (simp add: split_beta add.assoc)
qed simp

lemma mdel_mput_new: "map_of m k = None \<Longrightarrow> mdel k (mput k v m) = m"
  by (induction m) (auto simp: AList.delete_eq filter_id_conv map_of_eq_None_iff split: if_splits)

subsection \<open>A burst of alternating events\<close>

text \<open>The events of a burst: time, kind, event.\<close>

type_synonym burst = "(int \<times> EventType \<times> WebhookEvent) list"

fun alternating :: "burst \<Rightarrow> bool" where
  "alternating ((t, e, w) # (t', e', w') # b) \<longleftrightarrow> e' = opposite e \<and> alternating ((t', e', w') # b)"
| "alternating _ \<longleftrightarrow> True"

definition burst_actions :: "App \<Rightarrow> string \<Rightarrow> burst \<Rightarrow> flap_action list" where
  "burst_actions app key b = map (\<lambda>(t, e, w). FEvent t app key e w) b"

definition burst_timer :: "App \<Rightarrow> string \<Rightarrow> int \<times> EventType \<times> WebhookEvent \<Rightarrow> FlapDetector \<Rightarrow> nat \<Rightarrow> Timer" where
  "burst_timer app key ev fd i =
     \<lparr>tm_id = i, tm_at = fst ev + fd_window fd, tm_key = key, tm_app = app,
      tm_event = snd (snd ev), tm_stage = Armed, tm_cancelled = False\<rparr>"

lemma cancel_fresh:
  assumes "\<forall>u \<in> set ts. tm_id u < i"
  shows "cancel_timer i (ts @ [t\<lparr>tm_id := i, tm_stage := Armed\<rparr>]) = ts"
proof -
  have n: "\<forall>u \<in> set ts. tm_id u \<noteq> i" using assms by blast
  then have "map (\<lambda>t. if tm_id t = i then t\<lparr>tm_cancelled := True\<rparr> else t) ts = ts"
    by (rule map_other_ids)
  with n show ?thesis by (simp add: cancel_timer_def filter_id_conv)
qed

text \<open>Two opposite events leave only a used timer number behind.\<close>

lemma opposite_pair:
  assumes "fd_FlapEnabled fd" "\<forall>u \<in> set (fd_timers fd). tm_id u < fd_next fd" "\<not> mhas (fd_pending fd) key"
  shows "flap_run [FEvent t app key e w, FEvent t' app key (opposite e) w'] fd
     = ([], fd\<lparr>fd_next := fd_next fd + 1\<rparr>)"
proof -
  have o: "opposite (opposite e) = e" by (cases e) simp_all
  have ne: "e \<noteq> opposite e" by (cases e) simp_all
  have n: "map_of (fd_pending fd) key = None" using assms(3) by (simp add: mhas_def)
  then have d: "mdel key (mput key p (fd_pending fd)) = fd_pending fd" for p
    by (rule mdel_mput_new)
  show ?thesis
    using assms(1,2) n o ne d cancel_fresh [of "fd_timers fd" "fd_next fd"
        "burst_timer app key (t, e, w) fd (fd_next fd)"]
    by (simp add: CheckForFlapping_def burst_timer_def)
qed

lemma alternating_tl: "alternating (x # b) \<Longrightarrow> alternating b"
  by (cases x; cases b) auto

lemma burst_even:
  assumes "fd_FlapEnabled fd" "\<forall>u \<in> set (fd_timers fd). tm_id u < fd_next fd"
    and "\<not> mhas (fd_pending fd) key" "alternating b" "even (length b)"
  shows "flap_run (burst_actions app key b) fd = ([], fd\<lparr>fd_next := fd_next fd + length b div 2\<rparr>)"
  using assms
proof (induction b arbitrary: fd rule: induct_list012)
  case (3 x y b)
  obtain t e w t' e' w' where xy: "x = (t, e, w)" "y = (t', e', w')" by (cases x; cases y)
  let ?f = "fd\<lparr>fd_next := fd_next fd + 1\<rparr>"
  from 3(6) xy have o: "e' = opposite e" and a: "alternating b" by (auto dest: alternating_tl)
  have "flap_run (burst_actions app key b) ?f = ([], ?f\<lparr>fd_next := fd_next ?f + length b div 2\<rparr>)"
    using 3(3,4,5,7) a by (intro 3(1)) (auto intro: less_SucI)
  moreover have "burst_actions app key (x # y # b)
      = [FEvent t app key e w, FEvent t' app key (opposite e) w'] @ burst_actions app key b"
    using xy o by (simp add: burst_actions_def)
  ultimately show ?case
    using opposite_pair [OF 3(3,4,5), of t app e w t' w'] by (simp only: flap_run_append) simp
qed (simp_all add: burst_actions_def)

lemma lone_event:
  assumes "fd_FlapEnabled fd" "\<not> mhas (fd_pending fd) key"
  shows "flap_run (burst_actions app key [(t, e, w)]) fd
     = ([], fd\<lparr>fd_timers := fd_timers fd @ [burst_timer app key (t, e, w) fd (fd_next fd)],
              fd_next := fd_next fd + 1,
              fd_pending := mput key \<lparr>pe_eventType = e, pe_timer = fd_next fd\<rparr> (fd_pending fd)\<rparr>)"
  using assms by (simp add: burst_actions_def CheckForFlapping_def burst_timer_def mhas_def)

text \<open>The three steps of a timer whose time has come and that nobody cancels.\<close>

lemma timer_runs:
  assumes "\<forall>u \<in> set ts. tm_id u \<noteq> i" "fd_timers fd = ts @ [burst_timer app key ev fd0 i]"
    and "fst ev + fd_window fd0 \<le> now"
  shows "flap_run [FTimer now i, FTimer now i, FTimer now i] fd
     = ([(app, snd (snd ev))], fd\<lparr>fd_timers := ts, fd_pending := mdel key (fd_pending fd)\<rparr>)"
proof -
  have m: "map (\<lambda>t. if tm_id t = i then t\<lparr>tm_stage := s\<rparr> else t) ts = ts" for s
    using assms(1) by (rule map_other_ids)
  have f: "find (\<lambda>t. tm_id t = i) (ts @ us) = find (\<lambda>t. tm_id t = i) us" for us
    using assms(1) by (induction ts) auto
  have fl: "filter (\<lambda>t. tm_id t \<noteq> i) ts = ts" using assms(1) by (simp add: filter_id_conv)
  show ?thesis
    using assms(2,3)
    by (simp add: timer_step_def find_timer_def f set_stage_def m drop_timer_def fl burst_timer_def)
qed

definition plain_event :: "string \<Rightarrow> WebhookEvent" where
  "plain_event name = \<lparr>we_Name = name, we_Channel = [], we_Data = [], we_SocketID = [], we_UserID = []\<rparr>"

lemma dispatched_silent:
  "\<forall>t \<in> set (fd_timers fd). tm_stage t = Dispatched \<Longrightarrow> fst (flap_run (map (\<lambda>(n, i). FTimer n i) ts) fd) = []"
proof (induction ts arbitrary: fd)
  case (Cons a ts)
  obtain n i where a: "a = (n, i)" by (cases a)
  have "fst (timer_step n i fd) = [] \<and> (\<forall>t \<in> set (fd_timers (snd (timer_step n i fd))). tm_stage t = Dispatched)"
    using Cons.prems
    by (auto simp: timer_step_def drop_timer_def find_timer_def find_Some_iff split: option.splits stage.splits)
  with Cons.IH [of "snd (timer_step n i fd)"] show ?case by (simp add: a split_beta)
qed simp

text \<open>C38
  The flap detector neither invents nor duplicates webhook events: whatever the interleaving of
  incoming events and timer goroutines, the multiset of events a new detector hands on is contained
  in the multiset of the events it was given.
\<close>
theorem flap_no_invention:
  "mset (fst (flap_run acts (NewFlapDetector enabled window))) \<subseteq># sum_list (map action_events acts)"
proof -
  let ?fd = "NewFlapDetector enabled window"
  have "owed ?fd = {#}"
    by (simp add: owed_def NewFlapDetector_def FlapDetector_Init_def Let_def)
  with flap_run_conserves [OF flap_inv_Init, of acts enabled window]
  have "mset (fst (flap_run acts ?fd)) + owed (snd (flap_run acts ?fd)) \<subseteq># sum_list (map action_events acts)"
    by simp
  then show ?thesis by (rule subset_mset.order_trans [rotated]) simp
qed

text \<open>
  A burst of alternating events for one key that ends before its first timer starts is reduced to
  its net effect: an even burst sends nothing, and after an odd one, once the remaining timer has
  run, exactly the last event has been sent and the detector has no entry for the key.
\<close>
theorem burst_net_effect:
  assumes "fd_FlapEnabled fd" "flap_inv fd" "\<not> mhas (fd_pending fd) key" "alternating b"
    and "b \<noteq> []" "fst (last b) + fd_window fd \<le> now"
  defines "i \<equiv> fd_next fd + length b div 2"
  shows "flap_run (burst_actions app key b @ [FTimer now i, FTimer now i, FTimer now i]) fd
     = (if even (length b) then ([], fd\<lparr>fd_next := i\<rparr>)
        else ([(app, snd (snd (last b)))], fd\<lparr>fd_next := i + 1\<rparr>))"
proof (cases "even (length b)")
  have lt: "\<forall>u \<in> set (fd_timers fd). tm_id u < fd_next fd" using flap_invD(3) [OF assms(2)] by blast
  {
    case True
    have "\<forall>u \<in> set (fd_timers fd). tm_id u \<noteq> i" using lt by (auto simp: i_def)
    then have "find (\<lambda>t. tm_id t = i) (fd_timers fd) = None" by (simp add: find_None_iff)
    then have "timer_step now i (fd\<lparr>fd_next := i\<rparr>) = ([], fd\<lparr>fd_next := i\<rparr>)"
      by (simp add: timer_step_def find_timer_def)
    with True burst_even [OF assms(1) lt assms(3,4) True, of app] show ?thesis
      by (simp add: flap_run_append i_def)
  next
    case False
    obtain b0 ev where b: "b = b0 @ [ev]" using \<open>b \<noteq> []\<close> by (cases b rule: rev_cases) auto
    have al: "alternating (xs @ ys) \<Longrightarrow> alternating xs" for xs ys
      by (induction xs rule: alternating.induct) (auto intro: alternating.simps)
    let ?f = "fd\<lparr>fd_next := i\<rparr>"
    have d: "length b div 2 = length b0 div 2" "even (length b0)" using False b by auto
    have run0: "flap_run (burst_actions app key b0) fd = ([], ?f)"
      using burst_even [OF assms(1) lt assms(3) al d(2)] assms(4) b d(1) by (simp add: i_def)
    obtain t e w where ev: "ev = (t, e, w)" by (cases ev)
    have run1: "flap_run (burst_actions app key [ev]) ?f
       = ([], ?f\<lparr>fd_timers := fd_timers fd @ [burst_timer app key ev ?f i], fd_next := i + 1,
              fd_pending := mput key \<lparr>pe_eventType = e, pe_timer = i\<rparr> (fd_pending fd)\<rparr>)"
      using lone_event [of ?f key app t e w] assms(1,3) ev by simp
    have n: "map_of (fd_pending fd) key = None" using assms(3) by (simp add: mhas_def)
    have "burst_actions app key b = burst_actions app key b0 @ burst_actions app key [ev]"
      using b by (simp add: burst_actions_def)
    moreover have "\<forall>u \<in> set (fd_timers fd). tm_id u \<noteq> i" using lt by (auto simp: i_def)
    ultimately show ?thesis
      using False b assms(6) timer_runs [of "fd_timers fd" i _ app key ev ?f now]
      by (simp add: flap_run_append run0 run1 mdel_mput_new [OF n] del: flap_run.simps)
  }
qed

theorem burst_net_effect_witness:
  "flap_run (burst_actions zero_app ''k'' [(0, Connect, plain_event ''a''), (1, Disconnect, plain_event ''b'')]
      @ [FTimer 9 1, FTimer 9 1, FTimer 9 1]) (NewFlapDetector True 3)
   = ([], (NewFlapDetector True 3)\<lparr>fd_next := 1\<rparr>)"
  using burst_net_effect [of "NewFlapDetector True 3" "''k''"
      "[(0, Connect, plain_event ''a''), (1, Disconnect, plain_event ''b'')]" 9 zero_app]
  by (simp add: flap_inv_Init) (simp add: NewFlapDetector_def FlapDetector_Init_def)

text \<open>
  A second event of the same kind replaces the pending entry without stopping the first timer: the
  opposite event then cancels only the second timer, and the first event is sent although the
  client has already left.
\<close>
theorem repeated_event_escapes:
  assumes "0 < window" "t1 + window \<le> now"
  shows "fst (flap_run ([FEvent t1 app key Connect w1, FEvent t2 app key Connect w2,
        FEvent t3 app key Disconnect w3, FTimer now 0, FTimer now 0, FTimer now 0]
        @ map (\<lambda>(n, i). FTimer n i) ts) (NewFlapDetector True window)) = [(app, w1)]"
proof -
  let ?fd = "NewFlapDetector True window"
  let ?f1 = "?fd\<lparr>fd_timers := [burst_timer app key (t1, Connect, w1) ?fd 0], fd_next := 2, fd_pending := []\<rparr>"
  have fd: "?fd = \<lparr>fd_FlapEnabled = True, fd_pending = [], fd_window = window, fd_timers = [], fd_next = 0\<rparr>"
    using assms(1) by (simp add: NewFlapDetector_def FlapDetector_Init_def)
  have "flap_run [FEvent t1 app key Connect w1, FEvent t2 app key Connect w2,
        FEvent t3 app key Disconnect w3] ?fd = ([], ?f1)"
    unfolding fd by (simp add: CheckForFlapping_def cancel_timer_def burst_timer_def)
  moreover have "flap_run [FTimer now 0, FTimer now 0, FTimer now 0] ?f1
      = ([(app, w1)], ?f1\<lparr>fd_timers := [], fd_pending := []\<rparr>)"
    using timer_runs [of "[]" 0 ?f1 app key "(t1, Connect, w1)" ?fd now] assms by (simp add: fd del: flap_run.simps)
  moreover have "fst (flap_run (map (\<lambda>(n, i). FTimer n i) ts) (?f1\<lparr>fd_timers := [], fd_pending := []\<rparr>)) = []"
    by (rule dispatched_silent) simp
  ultimately have "fst (flap_run ([FEvent t1 app key Connect w1, FEvent t2 app key Connect w2,
        FEvent t3 app key Disconnect w3] @ [FTimer now 0, FTimer now 0, FTimer now 0]
        @ map (\<lambda>(n, i). FTimer n i) ts) ?fd) = [(app, w1)]"
    by (simp only: flap_run_append) (simp add: split_beta)
  then show ?thesis by simp
qed

theorem repeated_event_escapes_witness:
  "fst (flap_run ([FEvent 0 zero_app ''k'' Connect (plain_event ''a''), FEvent 1 zero_app ''k'' Connect (plain_event ''b''),
        FEvent 2 zero_app ''k'' Disconnect (plain_event ''c''), FTimer 3 0, FTimer 3 0, FTimer 3 0]
        @ map (\<lambda>(n, i). FTimer n i) [(9, 1)]) (NewFlapDetector True 3)) = [(zero_app, plain_event ''a'')]"
  by (rule repeated_event_escapes) simp_all

text \<open>
  An opposite event that arrives after the timer has dispatched but before it has deleted its
  pending entry is taken for a flap and lost: the connect event is sent, the disconnect never is.
\<close>
theorem late_opposite_lost:
  assumes "0 < window" "t1 + window \<le> now"
  shows "fst (flap_run ([FEvent t1 app key Connect w1, FTimer now 0, FTimer now 0,
        FEvent t2 app key Disconnect w2] @ map (\<lambda>(n, i). FTimer n i) ts) (NewFlapDetector True window))
      = [(app, w1)]"
  using assms dispatched_silent
  by (simp add: NewFlapDetector_def FlapDetector_Init_def CheckForFlapping_def cancel_timer_def
      timer_step_def find_timer_def set_stage_def drop_timer_def split_beta)

theorem late_opposite_lost_witness:
  "fst (flap_run ([FEvent 0 zero_app ''k'' Connect (plain_event ''a''), FTimer 3 0, FTimer 3 0,
        FEvent 4 zero_app ''k'' Disconnect (plain_event ''b'')] @ map (\<lambda>(n, i). FTimer n i) [(9, 0)])
        (NewFlapDetector True 3)) = [(zero_app, plain_event ''a'')]"
  by (rule late_opposite_lost) simp_all

end
