(* ===== verification/Queues.thy ===== *)
theory Queues
  imports Flap
begin

text \<open>
  \<open>internal/queues/queueAbstract.go\<close>: which events become jobs, through the flap detector. \<open>q_jobs\<close> lists
  the jobs handed to \<open>addToQueue\<close>, in order; the queues behind it are in Sync_Queue and Redis_Queue.
\<close>

record QueuedJobData =
  jd_Webhook :: Webhook
  jd_Payload :: WebhookEvent
  jd_AppID :: AppID
  jd_AppKey :: string
  jd_AppSecret :: string

record Queue =
  q_webhookSender :: bool \<comment> \<open>is there a sender?\<close>
  q_flap :: FlapDetector
  q_jobs :: "QueuedJobData list"

subsection \<open>AbstractQueue\<close>

definition NewAbstractQueue :: "bool \<Rightarrow> bool \<Rightarrow> bool \<Rightarrow> bool \<Rightarrow> int \<Rightarrow> string option \<Rightarrow> string + Queue" where
  "NewAbstractQueue ctx queueImpl sender enableFlap window init_err =
     (if \<not> queueImpl then Inl ''queue implementation is nil''
      else if \<not> ctx then Inl ''context is nil''
      else case init_err of
             Some err \<Rightarrow> Inl err
           | None \<Rightarrow> Inr \<lparr>q_webhookSender = sender, q_flap = NewFlapDetector enableFlap window, q_jobs = []\<rparr>)"

text \<open>Does the filter of a webhook let the event through?\<close>

definition webhook_wants :: "WebhookEvent \<Rightarrow> Webhook \<Rightarrow> bool" where
  "webhook_wants event webhook =
     (let f = wh_Filter webhook in
      if wf_ChannelNameStartsWith f \<noteq> [] \<and> \<not> HasPrefix (we_Channel event) (wf_ChannelNameStartsWith f)
      then False
      else if wf_ChannelNameEndsWith f \<noteq> [] \<and> \<not> HasSuffix (we_Channel event) (wf_ChannelNameEndsWith f)
      then False
      else True)"

definition prepareQueuedMessages :: "App \<Rightarrow> WebhookEvent \<Rightarrow> Queue \<Rightarrow> Queue" where
  "prepareQueuedMessages app event q =
     q\<lparr>q_jobs := q_jobs q @
        map (\<lambda>webhook. \<lparr>jd_Webhook = webhook, jd_Payload = event, jd_AppID = app_ID app,
                        jd_AppKey = app_Key app, jd_AppSecret = app_Secret app\<rparr>)
          (filter (webhook_wants event) (webhooks_of app))\<rparr>"

definition channel_key :: "AppID \<Rightarrow> ChannelName \<Rightarrow> string" where
  "channel_key app channel = ''app:'' @ app @ '':channel:'' @ channel"

definition member_key :: "AppID \<Rightarrow> ChannelName \<Rightarrow> UserID \<Rightarrow> string" where
  "member_key app channel user = ''app:'' @ app @ '':channel:'' @ channel @ '':member:'' @ user"

definition flap_class :: "App \<Rightarrow> WebhookEvent \<Rightarrow> (EventType \<times> string) option" where
  "flap_class app event =
     (if we_Name event = ''channel_occupied''
      then Some (Connect, channel_key (app_ID app) (we_Channel event))
      else if we_Name event = ''channel_vacated''
      then Some (Disconnect, channel_key (app_ID app) (we_Channel event))
      else if we_Name event = ''member_added''
      then Some (Connect, member_key (app_ID app) (we_Channel event) (we_UserID event))
      else if we_Name event = ''member_removed''
      then Some (Disconnect, member_key (app_ID app) (we_Channel event) (we_UserID event))
      else None)"

fun deliver :: "dispatch list \<Rightarrow> Queue \<Rightarrow> Queue" where
  "deliver [] q = q"
| "deliver ((app, event) # ds) q = deliver ds (prepareQueuedMessages app event q)"

definition queue_Send :: "int \<Rightarrow> App \<Rightarrow> WebhookEvent \<Rightarrow> Queue \<Rightarrow> Queue" where
  "queue_Send now app event q =
     (if \<not> q_webhookSender q \<or> \<not> app_WebhooksEnabled app then q
      else
        case (if fd_FlapEnabled (q_flap q) then flap_class app event else None) of
          Some (eventType, key) \<Rightarrow>
            (let (out, fd) = CheckForFlapping now app key eventType event (q_flap q)
             in deliver out (q\<lparr>q_flap := fd\<rparr>))
        | None \<Rightarrow> prepareQueuedMessages app event q)"

text \<open>A step of one of the detector's timers.\<close>

definition queue_timer :: "int \<Rightarrow> nat \<Rightarrow> Queue \<Rightarrow> Queue" where
  "queue_timer now i q =
     (let (out, fd) = timer_step now i (q_flap q) in deliver out (q\<lparr>q_flap := fd\<rparr>))"

definition SendClientEvent ::
  "int \<Rightarrow> App \<Rightarrow> ChannelName \<Rightarrow> string \<Rightarrow> string \<Rightarrow> SocketID \<Rightarrow> UserID \<Rightarrow> Queue \<Rightarrow> Queue" where
  "SendClientEvent now app channel event data socketID userID q =
     (if \<not> app_HasClientEventWebhooks app then q
      else queue_Send now app
        \<lparr>we_Name = event, we_Channel = channel, we_Data = data, we_SocketID = socketID,
         we_UserID = userID\<rparr> q)"

definition SendMemberAdded :: "int \<Rightarrow> App \<Rightarrow> ChannelName \<Rightarrow> UserID \<Rightarrow> Queue \<Rightarrow> Queue" where
  "SendMemberAdded now app channel userID q =
     (if \<not> app_HasMemberAddedWebhooks app then q
      else queue_Send now app
        \<lparr>we_Name = ''member_added'', we_Channel = channel, we_Data = [], we_SocketID = [],
         we_UserID = userID\<rparr> q)"

definition SendMemberRemoved :: "int \<Rightarrow> App \<Rightarrow> ChannelName \<Rightarrow> UserID \<Rightarrow> Queue \<Rightarrow> Queue" where
  "SendMemberRemoved now app channel userID q =
     (if \<not> app_HasMemberRemovedWebhooks app then q
      else queue_Send now app
        \<lparr>we_Name = ''member_removed'', we_Channel = channel, we_Data = [], we_SocketID = [],
         we_UserID = userID\<rparr> q)"

definition SendChannelVacated :: "int \<Rightarrow> App \<Rightarrow> ChannelName \<Rightarrow> Queue \<Rightarrow> Queue" where
  "SendChannelVacated now app channel q =
     (if \<not> app_HasChannelVacatedWebhooks app then q
      else queue_Send now app
        \<lparr>we_Name = ''channel_vacated'', we_Channel = channel, we_Data = [], we_SocketID = [],
         we_UserID = []\<rparr> q)"

definition SendChannelOccupied :: "int \<Rightarrow> App \<Rightarrow> ChannelName \<Rightarrow> Queue \<Rightarrow> Queue" where
  "SendChannelOccupied now app channel q =
     (if \<not> app_HasChannelOccupiedWebhooks app then q
      else queue_Send now app
        \<lparr>we_Name = ''channel_occupied'', we_Channel = channel, we_Data = [], we_SocketID = [],
         we_UserID = []\<rparr> q)"

definition SendCacheMissed :: "int \<Rightarrow> App \<Rightarrow> ChannelName \<Rightarrow> Queue \<Rightarrow> Queue" where
  "SendCacheMissed now app channel q =
     (if \<not> app_HasCacheMissWebhooks app then q
      else queue_Send now app
        \<lparr>we_Name = ''cache_miss'', we_Channel = channel, we_Data = [], we_SocketID = [],
         we_UserID = []\<rparr> q)"

subsection \<open>Keys and jobs\<close>

lemma prepare_simps [simp]:
  "q_flap (prepareQueuedMessages app e q) = q_flap q"
  "q_webhookSender (prepareQueuedMessages app e q) = q_webhookSender q"
  by (simp_all add: prepareQueuedMessages_def)

lemma deliver_simps [simp]:
  "q_flap (deliver ds q) = q_flap q" "q_webhookSender (deliver ds q) = q_webhookSender q"
  by (induction ds q rule: deliver.induct) auto

definition jobs_of :: "dispatch \<Rightarrow> QueuedJobData list" where
  "jobs_of d = (case d of (app, event) \<Rightarrow>
     map (\<lambda>webhook. \<lparr>jd_Webhook = webhook, jd_Payload = event, jd_AppID = app_ID app,
            jd_AppKey = app_Key app, jd_AppSecret = app_Secret app\<rparr>)
       (filter (webhook_wants event) (webhooks_of app)))"

lemma q_jobs_deliver: "q_jobs (deliver ds q) = q_jobs q @ concat (map jobs_of ds)"
  by (induction ds q rule: deliver.induct) (auto simp: prepareQueuedMessages_def jobs_of_def)

lemma webhook_wants_iff:
  "webhook_wants event wh \<longleftrightarrow>
     (wf_ChannelNameStartsWith (wh_Filter wh) = [] \<or> HasPrefix (we_Channel event) (wf_ChannelNameStartsWith (wh_Filter wh)))
     \<and> (wf_ChannelNameEndsWith (wh_Filter wh) = [] \<or> HasSuffix (we_Channel event) (wf_ChannelNameEndsWith (wh_Filter wh)))"
  by (auto simp: webhook_wants_def Let_def)

text \<open>Application ids and channel names have no colon, so the keys never mix up two subjects.\<close>

lemma channel_key_eq:
  assumes "CHR '':'' \<notin> set a" "CHR '':'' \<notin> set a'"
  shows "channel_key a c = channel_key a' c' \<longleftrightarrow> a = a' \<and> c = c'"
  using sep_unique [of a "CHR '':''" "''channel:'' @ c" a' "''channel:'' @ c'"] assms
  by (auto simp: channel_key_def)

lemma member_key_eq:
  assumes "CHR '':'' \<notin> set a" "CHR '':'' \<notin> set a'" "CHR '':'' \<notin> set c" "CHR '':'' \<notin> set c'"
  shows "member_key a c u = member_key a' c' u' \<longleftrightarrow> a = a' \<and> c = c' \<and> u = u'"
  using sep_unique [of a "CHR '':''" "''channel:'' @ c @ '':member:'' @ u" a' "''channel:'' @ c' @ '':member:'' @ u'"]
    sep_unique [of c "CHR '':''" "''member:'' @ u" c' "''member:'' @ u'"] assms
  by (auto simp: member_key_def)

lemma channel_key_not_member_key:
  assumes "CHR '':'' \<notin> set a" "CHR '':'' \<notin> set a'" "CHR '':'' \<notin> set c"
  shows "channel_key a c \<noteq> member_key a' c' u"
proof
  assume "channel_key a c = member_key a' c' u"
  with sep_unique [of a "CHR '':''" "''channel:'' @ c" a' "''channel:'' @ c' @ '':member:'' @ u"] assms(1,2)
  have "c = c' @ '':member:'' @ u" by (auto simp: channel_key_def member_key_def)
  then have "CHR '':'' \<in> set c" by simp
  with assms(3) show False by simp
qed

end
