(* ===== verification/Cache.thy ===== *)
theory Cache
  imports Json_Roundtrip
begin

text \<open>
  \<open>internal/cache\<close>: the contract of a cache and the in-memory implementation
  (\<open>localCache.go\<close>). The clock \<open>time.Now()\<close> is an argument (nanoseconds). The contract is a
  locale over an abstract view of the cache, what \<open>Get\<close> would answer at a given time; it is
  interpreted on the operations of \<open>LocalCache\<close>.
\<close>

record localCacheItem =
  ci_data :: string
  ci_expireAt :: "int option"

type_synonym LocalCache = "(string, localCacheItem) gomap"

definition GetChannelCacheKey :: "AppID \<Rightarrow> ChannelName \<Rightarrow> string" where
  "GetChannelCacheKey appID channelName = ''app#'' @ appID @ ''#channel#'' @ channelName"

definition cache_Init :: LocalCache where
  "cache_Init = []"

text \<open>One tick of the cleanup job.\<close>

definition cleanupJob :: "int \<Rightarrow> LocalCache \<Rightarrow> LocalCache" where
  "cleanupJob now l =
     filter (\<lambda>(key, item). \<not> (case ci_expireAt item of None \<Rightarrow> False | Some e \<Rightarrow> now > e)) l"

definition existsAndNotExpired :: "int \<Rightarrow> LocalCache \<Rightarrow> string \<Rightarrow> localCacheItem option" where
  "existsAndNotExpired now l key =
     (case map_of l key of
        None \<Rightarrow> None
      | Some item \<Rightarrow>
          (case ci_expireAt item of
             None \<Rightarrow> Some item
           | Some e \<Rightarrow> if now < e then Some item else None))"

definition cache_Get :: "int \<Rightarrow> LocalCache \<Rightarrow> string \<Rightarrow> string option" where
  "cache_Get now l key = map_option ci_data (existsAndNotExpired now l key)"

definition cache_Set :: "LocalCache \<Rightarrow> string \<Rightarrow> string \<Rightarrow> LocalCache" where
  "cache_Set l key v = mput key \<lparr>ci_data = v, ci_expireAt = None\<rparr> l"

definition cache_SetEx :: "int \<Rightarrow> LocalCache \<Rightarrow> string \<Rightarrow> string \<Rightarrow> int \<Rightarrow> LocalCache" where
  "cache_SetEx now l key v ttl = mput key \<lparr>ci_data = v, ci_expireAt = Some (now + ttl)\<rparr> l"

definition cache_Delete :: "LocalCache \<Rightarrow> string \<Rightarrow> LocalCache" where
  "cache_Delete l key = (if mhas l key then mdel key l else l)"

text \<open>
  \<open>Remember\<close>: the callback's result (an error or a value) is an argument, used on a miss; the
  time to live is in seconds.
\<close>

definition cache_Remember ::
  "int \<Rightarrow> LocalCache \<Rightarrow> string \<Rightarrow> int \<Rightarrow> string + string \<Rightarrow> (string + string) \<times> LocalCache" where
  "cache_Remember now l key ttl callback =
     (case existsAndNotExpired now l key of
        Some item \<Rightarrow> (Inr (ci_data item), l)
      | None \<Rightarrow>
          (case callback of
             Inl err \<Rightarrow> (Inl err, l)
           | Inr val \<Rightarrow> (Inr val, cache_SetEx now l key val (ttl * 1000000000))))"

definition cache_Has :: "int \<Rightarrow> LocalCache \<Rightarrow> string \<Rightarrow> bool" where
  "cache_Has now l key = (existsAndNotExpired now l key \<noteq> None)"

definition cache_Update :: "int \<Rightarrow> LocalCache \<Rightarrow> string \<Rightarrow> string \<Rightarrow> LocalCache" where
  "cache_Update now l key v = (if existsAndNotExpired now l key \<noteq> None then cache_Set l key v else l)"

subsection \<open>The contract\<close>

text \<open>
  What a client of a cache may rely on: \<open>Get\<close> after a write answers the written value until the
  time to live is over, a write to one key changes no other, and an expired entry stays expired.
\<close>

locale cache_contract =
  fixes get :: "int \<Rightarrow> 'c \<Rightarrow> string \<Rightarrow> string option"
    and put :: "'c \<Rightarrow> string \<Rightarrow> string \<Rightarrow> 'c"
    and setex :: "int \<Rightarrow> 'c \<Rightarrow> string \<Rightarrow> string \<Rightarrow> int \<Rightarrow> 'c"
    and delete :: "'c \<Rightarrow> string \<Rightarrow> 'c"
  assumes get_put: "get t (put c k v) k' = (if k' = k then Some v else get t c k')"
    and get_setex: "get t (setex now c k v ttl) k' =
      (if k' = k then (if t < now + ttl then Some v else None) else get t c k')"
    and get_delete: "get t (delete c k) k' = (if k' = k then None else get t c k')"
    and get_expires: "t \<le> t' \<Longrightarrow> get t c k = None \<Longrightarrow> get t' c k = None"
    and get_keeps: "get t c k = Some v \<Longrightarrow> t' \<le> t \<Longrightarrow> get t' c k = Some v"
begin

lemma last_write_wins: "get t (put (setex now c k v ttl) k w) k = Some w"
  by (simp add: get_put)

lemma writes_commute:
  "k \<noteq> k' \<Longrightarrow> get t (setex now (setex now c k v ttl) k' v' ttl')
     = get t (setex now (setex now c k' v' ttl') k v ttl)"
  by (auto simp: get_setex fun_eq_iff)

text \<open>What was written is read back at any time within the time to live, whatever was written to
  other keys in between.\<close>

lemma read_back:
  assumes "k \<notin> fst ` set ws"
    and "t < now + ttl"
  shows "get t (foldl (\<lambda>c (k', v', ttl'). setex now' c k' v' ttl') (setex now c k v ttl) ws) k = Some v"
proof -
  have "get t (foldl (\<lambda>c (k', v', ttl'). setex now' c k' v' ttl') d ws) k = get t d k" for d
    using assms(1) by (induction ws arbitrary: d) (auto simp: get_setex)
  with assms(2) show ?thesis by (simp add: get_setex)
qed

end

lemma existsAndNotExpired_put:
  "existsAndNotExpired t (mput k i l) k' =
     (if k' = k then (case ci_expireAt i of None \<Rightarrow> Some i | Some e \<Rightarrow> if t < e then Some i else None)
      else existsAndNotExpired t l k')"
  by (simp add: existsAndNotExpired_def)

lemma Get_Some:
  "cache_Get t l k = Some v \<longleftrightarrow>
     (\<exists>i. map_of l k = Some i \<and> ci_data i = v \<and> (\<forall>e. ci_expireAt i = Some e \<longrightarrow> t < e))"
  by (auto simp: cache_Get_def existsAndNotExpired_def split: option.splits if_splits)

interpretation lc: cache_contract cache_Get cache_Set cache_SetEx cache_Delete
proof
  show "cache_Get t (cache_Set c k v) k' = (if k' = k then Some v else cache_Get t c k')" for t c k v k'
    by (simp add: cache_Get_def cache_Set_def existsAndNotExpired_put)
  show "cache_Get t (cache_SetEx now c k v ttl) k' =
      (if k' = k then (if t < now + ttl then Some v else None) else cache_Get t c k')"
    for t now c k v ttl k'
    by (simp add: cache_Get_def cache_SetEx_def existsAndNotExpired_put)
  show "cache_Get t (cache_Delete c k) k' = (if k' = k then None else cache_Get t c k')" for t c k k'
    by (auto simp: cache_Get_def cache_Delete_def existsAndNotExpired_def mhas_def)
  show keeps: "cache_Get t' c k = Some v" if "cache_Get t c k = Some v" "t' \<le> t" for t t' c k v
    using that unfolding Get_Some by force
  show "cache_Get t' c k = None" if "t \<le> t'" "cache_Get t c k = None" for t t' c k
    using that keeps [of t' c k _ t] by (cases "cache_Get t' c k") auto
qed

subsection \<open>The other operations\<close>

text \<open>The cleanup job is invisible: it removes only what \<open>Get\<close> no longer answers.\<close>

lemma cleanupJob_invisible:
  assumes "wf_map l" and "now \<le> t"
  shows "cache_Get t (cleanupJob now l) k = cache_Get t l k"
proof -
  let ?keep = "\<lambda>item. \<not> (case ci_expireAt item of None \<Rightarrow> False | Some e \<Rightarrow> now > e)"
  have "map_of (cleanupJob now l) k = (case map_of l k of None \<Rightarrow> None
      | Some i \<Rightarrow> if ?keep i then Some i else None)"
    using assms(1) unfolding cleanupJob_def wf_map_def
    by (induction l) (auto simp: map_of_eq_None_iff image_iff split: option.splits)
  then show ?thesis using assms(2)
    by (auto simp: cache_Get_def existsAndNotExpired_def split: option.splits)
qed

lemma cleanupJob_removes: "(k, i) \<in> set (cleanupJob now l) \<Longrightarrow> ci_expireAt i = Some e \<Longrightarrow> now \<le> e"
  by (auto simp: cleanupJob_def)

lemma cache_Remember_spec:
  assumes "0 < ttl"
  shows "cache_Get now l key = Some v \<Longrightarrow> cache_Remember now l key ttl cb = (Inr v, l)"
    and "cache_Get now l key = None \<Longrightarrow> cb = Inr w \<Longrightarrow>
      fst (cache_Remember now l key ttl cb) = Inr w
      \<and> cache_Get now (snd (cache_Remember now l key ttl cb)) key = Some w"
    and "cache_Get now l key = None \<Longrightarrow> cb = Inl e \<Longrightarrow> cache_Remember now l key ttl cb = (Inl e, l)"
proof -
  show "cache_Get now l key = Some v \<Longrightarrow> cache_Remember now l key ttl cb = (Inr v, l)"
    by (auto simp: cache_Get_def cache_Remember_def)
  show "cache_Get now l key = None \<Longrightarrow> cb = Inl e \<Longrightarrow> cache_Remember now l key ttl cb = (Inl e, l)"
    by (auto simp: cache_Get_def cache_Remember_def)
  assume "cache_Get now l key = None" "cb = Inr w"
  then have "cache_Remember now l key ttl cb = (Inr w, cache_SetEx now l key w (ttl * 1000000000))"
    by (auto simp: cache_Get_def cache_Remember_def)
  with assms show "fst (cache_Remember now l key ttl cb) = Inr w
      \<and> cache_Get now (snd (cache_Remember now l key ttl cb)) key = Some w"
    by (simp add: lc.get_setex)
qed

lemma cache_wf [simp, intro]:
  "wf_map l \<Longrightarrow> wf_map (cache_Set l k v)" "wf_map l \<Longrightarrow> wf_map (cache_SetEx now l k v ttl)"
  "wf_map l \<Longrightarrow> wf_map (cache_Delete l k)" "wf_map l \<Longrightarrow> wf_map (cleanupJob now l)"
  "wf_map l \<Longrightarrow> wf_map (cache_Update now l k v)"
  by (simp_all add: cache_Set_def cache_SetEx_def cache_Delete_def cleanupJob_def cache_Update_def)

text \<open>
  The periodic cleanup of the local cache is invisible: at any later time every key reads exactly
  as it would have without it.
\<close>
theorem cleanup_unobservable:
  assumes "wf_map l" and "now \<le> t"
  shows "cache_Get t (cleanupJob now l) k = cache_Get t l k"
  using assms by (rule cleanupJob_invisible)

theorem cleanup_unobservable_witness:
  "cache_Get 7 (cleanupJob 6 (cache_SetEx 0 [] ''k'' ''v'' 5)) ''k'' = cache_Get 7 (cache_SetEx 0 [] ''k'' ''v'' 5) ''k''"
  by (rule cleanup_unobservable) simp_all

text \<open>
  \<open>Update\<close> of a live entry makes it permanent: the time to live given by \<open>SetEx\<close> is lost, so the
  updated value is still answered at every later time.
\<close>
theorem Update_drops_ttl:
  assumes "0 < ttl" and "now \<le> t" and "t < now + ttl"
  shows "cache_Get later (cache_Update t (cache_SetEx now l k v ttl) k w) k = Some w"
proof -
  have "cache_Get t (cache_SetEx now l k v ttl) k = Some v"
    using assms by (simp add: lc.get_setex)
  then have "existsAndNotExpired t (cache_SetEx now l k v ttl) k \<noteq> None" by (auto simp: cache_Get_def)
  then show ?thesis by (simp add: cache_Update_def lc.get_put)
qed

theorem Update_drops_ttl_witness:
  "cache_Get 1000 (cache_Update 3 (cache_SetEx 0 [] ''k'' ''v'' 5) ''k'' ''w'') ''k'' = Some ''w''"
  by (rule Update_drops_ttl) simp_all

end
