(* ===== verification/Metrics.thy ===== *)
theory Metrics
  imports Json_Roundtrip
begin

text \<open>
  \<open>internal/metrics\<close>: the metrics interface with its two implementations, the no-op one and
  the Prometheus one. A counter or gauge holds a whole number (the code's \<open>float64\<close> adds 1 and
  stores lengths, exact below 2^53), a histogram the list of its observations, a labelled counter
  a map from its label values. The Prometheus library is not modelled: registering a metric is a
  parameter of \<open>initializeMetrics\<close>.
\<close>

type_synonym labelled = "((string \<times> string), int) gomap"

datatype MetricKind = Counter | Gauge | Histogram | CounterVec "string list"

record MetricOpts =
  mo_Namespace :: string
  mo_Subsystem :: string
  mo_Name :: string
  mo_Labels :: "(string, string) gomap"
  mo_Kind :: MetricKind

record PrometheusMetrics =
  pm_namespace :: string
  pm_subsystem :: string
  pm_labels :: "(string, string) gomap"
  pm_registry :: "MetricOpts list"
  pm_connectionsTotal :: int
  pm_disconnectionsTotal :: int
  pm_activeConnections :: int
  pm_apiMessagesTotal :: int
  pm_wsMessagesSentTotal :: int
  pm_wsMessagesReceivedTotal :: int
  pm_requestsTotal :: int
  pm_requestsReceived :: int
  pm_resolveTime :: "int list"
  pm_resolvedPromises :: int
  pm_failedPromises :: int
  pm_channelsTotal :: int
  pm_presenceChannels :: int
  pm_privateChannels :: int
  pm_publicChannels :: int
  pm_eventsTotal :: int
  pm_eventsByType :: labelled
  pm_eventsByChannel :: labelled
  pm_errorsTotal :: int
  pm_errorsByType :: labelled
  pm_responseTime :: "int list"
  pm_requestSize :: "int list"
  pm_responseSize :: "int list"
  pm_goroutinesTotal :: int

datatype MetricsManager = NoOpMetrics | Prometheus PrometheusMetrics

definition inc_label :: "string \<times> string \<Rightarrow> labelled \<Rightarrow> labelled" where
  "inc_label l m = mput l (mget0 0 m l + 1) m"

subsection \<open>Registration (initializeMetrics)\<close>

definition metric :: "PrometheusMetrics \<Rightarrow> string \<Rightarrow> MetricKind \<Rightarrow> MetricOpts" where
  "metric pm name kind =
     \<lparr>mo_Namespace = pm_namespace pm, mo_Subsystem = pm_subsystem pm, mo_Name = name,
      mo_Labels = pm_labels pm, mo_Kind = kind\<rparr>"

definition connection_metrics :: "PrometheusMetrics \<Rightarrow> MetricOpts list" where
  "connection_metrics pm =
     [metric pm ''connections_total'' Counter, metric pm ''disconnections_total'' Counter,
      metric pm ''active_connections'' Gauge]"

definition api_metrics :: "PrometheusMetrics \<Rightarrow> MetricOpts list" where
  "api_metrics pm =
     [metric pm ''api_messages_total'' Counter, metric pm ''api_messages_failed_total'' Counter,
      metric pm ''api_message_duration_seconds'' Histogram]"

definition ws_metrics :: "PrometheusMetrics \<Rightarrow> MetricOpts list" where
  "ws_metrics pm =
     [metric pm ''ws_messages_sent_total'' Counter, metric pm ''ws_messages_received_total'' Counter,
      metric pm ''ws_message_duration_seconds'' Histogram]"

definition horizontal_metrics :: "PrometheusMetrics \<Rightarrow> MetricOpts list" where
  "horizontal_metrics pm =
     [metric pm ''horizontal_adapter_requests_total'' Counter,
      metric pm ''horizontal_adapter_requests_received_total'' Counter,
      metric pm ''horizontal_adapter_resolve_duration_seconds'' Histogram,
      metric pm ''horizontal_adapter_resolved_promises_total'' Counter,
      metric pm ''horizontal_adapter_failed_promises_total'' Counter]"

definition channel_metrics :: "PrometheusMetrics \<Rightarrow> MetricOpts list" where
  "channel_metrics pm =
     [metric pm ''channels_total'' Gauge, metric pm ''presence_channels_total'' Gauge,
      metric pm ''private_channels_total'' Gauge, metric pm ''public_channels_total'' Gauge]"

definition event_metrics :: "PrometheusMetrics \<Rightarrow> MetricOpts list" where
  "event_metrics pm =
     [metric pm ''events_total'' Counter,
      metric pm ''events_by_type_total'' (CounterVec [''event_type'', ''app_id'']),
      metric pm ''events_by_channel_total'' (CounterVec [''channel'', ''app_id''])]"

definition error_metrics :: "PrometheusMetrics \<Rightarrow> MetricOpts list" where
  "error_metrics pm =
     [metric pm ''errors_total'' Counter,
      metric pm ''errors_by_type_total'' (CounterVec [''error_type'', ''app_id''])]"

definition performance_metrics :: "PrometheusMetrics \<Rightarrow> MetricOpts list" where
  "performance_metrics pm =
     [metric pm ''response_duration_seconds'' Histogram, metric pm ''request_size_bytes'' Histogram,
      metric pm ''response_size_bytes'' Histogram]"

definition resource_metrics :: "PrometheusMetrics \<Rightarrow> MetricOpts list" where
  "resource_metrics pm =
     [metric pm ''memory_usage_bytes'' Gauge, metric pm ''cpu_usage_percent'' Gauge,
      metric pm ''goroutines_total'' Gauge]"

text \<open>\<open>must_register\<close> stands for the library's \<open>MustRegister\<close>, which may panic.\<close>

type_synonym register = "MetricOpts \<Rightarrow> MetricOpts list \<Rightarrow> MetricOpts list option"

fun register_all :: "register \<Rightarrow> MetricOpts list \<Rightarrow> MetricOpts list \<Rightarrow> MetricOpts list option" where
  "register_all must_register [] reg = Some reg"
| "register_all must_register (m # ms) reg =
     do { reg' \<leftarrow> must_register m reg; register_all must_register ms reg' }"

definition initializeMetrics :: "register \<Rightarrow> PrometheusMetrics \<Rightarrow> PrometheusMetrics option" where
  "initializeMetrics must_register pm =
     do { reg \<leftarrow> register_all must_register
            (connection_metrics pm @ api_metrics pm @ ws_metrics pm @ horizontal_metrics pm
             @ channel_metrics pm @ event_metrics pm @ error_metrics pm @ performance_metrics pm
             @ resource_metrics pm) (pm_registry pm);
          Some (pm\<lparr>pm_registry := reg\<rparr>) }"

definition blank_metrics :: "string \<Rightarrow> string \<Rightarrow> PrometheusMetrics" where
  "blank_metrics namespace subsystem =
     \<lparr>pm_namespace = namespace, pm_subsystem = subsystem, pm_labels = [], pm_registry = [],
      pm_connectionsTotal = 0, pm_disconnectionsTotal = 0, pm_activeConnections = 0,
      pm_apiMessagesTotal = 0, pm_wsMessagesSentTotal = 0, pm_wsMessagesReceivedTotal = 0,
      pm_requestsTotal = 0, pm_requestsReceived = 0, pm_resolveTime = [], pm_resolvedPromises = 0,
      pm_failedPromises = 0, pm_channelsTotal = 0, pm_presenceChannels = 0, pm_privateChannels = 0,
      pm_publicChannels = 0, pm_eventsTotal = 0, pm_eventsByType = [], pm_eventsByChannel = [],
      pm_errorsTotal = 0, pm_errorsByType = [], pm_responseTime = [], pm_requestSize = [],
      pm_responseSize = [], pm_goroutinesTotal = 0\<rparr>"

definition NewPrometheusMetrics ::
  "register \<Rightarrow> string \<Rightarrow> string \<Rightarrow> PrometheusMetrics option" where
  "NewPrometheusMetrics must_register namespace subsystem =
     initializeMetrics must_register (blank_metrics namespace subsystem)"

text \<open>The labels are stored after the metrics have been created without them.\<close>

definition NewPrometheusMetricsWithLabels ::
  "register \<Rightarrow> string \<Rightarrow> string \<Rightarrow> (string, string) gomap \<Rightarrow> PrometheusMetrics option" where
  "NewPrometheusMetricsWithLabels must_register namespace subsystem labels =
     do { pm \<leftarrow> NewPrometheusMetrics must_register namespace subsystem;
          Some (pm\<lparr>pm_labels := labels\<rparr>) }"

lemmas metric_groups = connection_metrics_def api_metrics_def ws_metrics_def horizontal_metrics_def
  channel_metrics_def event_metrics_def error_metrics_def performance_metrics_def
  resource_metrics_def

subsection \<open>The Prometheus operations\<close>

definition pm_MarkNewConnection :: "PrometheusMetrics \<Rightarrow> PrometheusMetrics" where
  "pm_MarkNewConnection pm =
     pm\<lparr>pm_connectionsTotal := pm_connectionsTotal pm + 1,
        pm_activeConnections := pm_activeConnections pm + 1\<rparr>"

definition pm_MarkDisconnection :: "PrometheusMetrics \<Rightarrow> PrometheusMetrics" where
  "pm_MarkDisconnection pm =
     pm\<lparr>pm_disconnectionsTotal := pm_disconnectionsTotal pm + 1,
        pm_activeConnections := pm_activeConnections pm - 1\<rparr>"

text \<open>The incoming message is given by its event name and its channel.\<close>

definition pm_MarkApiMessage ::
  "AppID \<Rightarrow> (string \<times> ChannelName) option \<Rightarrow> PrometheusMetrics \<Rightarrow> PrometheusMetrics" where
  "pm_MarkApiMessage appId incomingMessage pm =
     (let pm = pm\<lparr>pm_apiMessagesTotal := pm_apiMessagesTotal pm + 1\<rparr>;
          pm = (case incomingMessage of
                  None \<Rightarrow> pm
                | Some (name, channel) \<Rightarrow>
                    pm\<lparr>pm_eventsByType := inc_label (name, appId) (pm_eventsByType pm),
                       pm_eventsByChannel := inc_label (channel, appId) (pm_eventsByChannel pm)\<rparr>)
      in pm\<lparr>pm_eventsTotal := pm_eventsTotal pm + 1\<rparr>)"

definition pm_MarkWsMessageSent :: "PrometheusMetrics \<Rightarrow> PrometheusMetrics" where
  "pm_MarkWsMessageSent pm = pm\<lparr>pm_wsMessagesSentTotal := pm_wsMessagesSentTotal pm + 1\<rparr>"

definition pm_MarkWsMessageReceived :: "PrometheusMetrics \<Rightarrow> PrometheusMetrics" where
  "pm_MarkWsMessageReceived pm = pm\<lparr>pm_wsMessagesReceivedTotal := pm_wsMessagesReceivedTotal pm + 1\<rparr>"

definition pm_TrackHorizontalAdapterResolveTime :: "int \<Rightarrow> PrometheusMetrics \<Rightarrow> PrometheusMetrics" where
  "pm_TrackHorizontalAdapterResolveTime nanos pm = pm\<lparr>pm_resolveTime := pm_resolveTime pm @ [nanos]\<rparr>"

definition pm_TrackHorizontalAdapterResolvedPromises ::
  "bool \<Rightarrow> PrometheusMetrics \<Rightarrow> PrometheusMetrics" where
  "pm_TrackHorizontalAdapterResolvedPromises resolved pm =
     (if resolved then pm\<lparr>pm_resolvedPromises := pm_resolvedPromises pm + 1\<rparr>
      else pm\<lparr>pm_failedPromises := pm_failedPromises pm + 1\<rparr>)"

definition pm_MarkHorizontalAdapterRequestSent :: "PrometheusMetrics \<Rightarrow> PrometheusMetrics" where
  "pm_MarkHorizontalAdapterRequestSent pm = pm\<lparr>pm_requestsTotal := pm_requestsTotal pm + 1\<rparr>"

definition pm_MarkHorizontalAdapterRequestReceived :: "PrometheusMetrics \<Rightarrow> PrometheusMetrics" where
  "pm_MarkHorizontalAdapterRequestReceived pm = pm\<lparr>pm_requestsReceived := pm_requestsReceived pm + 1\<rparr>"

definition pm_Clear :: "PrometheusMetrics \<Rightarrow> PrometheusMetrics" where
  "pm_Clear pm =
     pm\<lparr>pm_activeConnections := 0, pm_channelsTotal := 0, pm_presenceChannels := 0,
        pm_privateChannels := 0, pm_publicChannels := 0\<rparr>"

definition pm_SetActiveConnections :: "int \<Rightarrow> PrometheusMetrics \<Rightarrow> PrometheusMetrics" where
  "pm_SetActiveConnections cnt pm = pm\<lparr>pm_activeConnections := cnt\<rparr>"

definition pm_MarkError :: "string \<Rightarrow> AppID \<Rightarrow> PrometheusMetrics \<Rightarrow> PrometheusMetrics" where
  "pm_MarkError errorType appId pm =
     pm\<lparr>pm_errorsTotal := pm_errorsTotal pm + 1,
        pm_errorsByType := inc_label (errorType, appId) (pm_errorsByType pm)\<rparr>"

definition pm_ObserveResponseTime :: "int \<Rightarrow> PrometheusMetrics \<Rightarrow> PrometheusMetrics" where
  "pm_ObserveResponseTime duration pm = pm\<lparr>pm_responseTime := pm_responseTime pm @ [duration]\<rparr>"

definition pm_ObserveRequestSize :: "int \<Rightarrow> PrometheusMetrics \<Rightarrow> PrometheusMetrics" where
  "pm_ObserveRequestSize sz pm = pm\<lparr>pm_requestSize := pm_requestSize pm @ [sz]\<rparr>"

definition pm_ObserveResponseSize :: "int \<Rightarrow> PrometheusMetrics \<Rightarrow> PrometheusMetrics" where
  "pm_ObserveResponseSize sz pm = pm\<lparr>pm_responseSize := pm_responseSize pm @ [sz]\<rparr>"

text \<open>\<open>runtime.NumGoroutine()\<close> is the argument.\<close>

definition pm_UpdateResourceMetrics :: "int \<Rightarrow> PrometheusMetrics \<Rightarrow> PrometheusMetrics" where
  "pm_UpdateResourceMetrics n pm = pm\<lparr>pm_goroutinesTotal := n\<rparr>"

text \<open>\<open>GetMetricsAsJson\<close>: the keys of the Go map are written in sorted order.\<close>

definition pm_GetMetricsAsJson :: "int \<Rightarrow> PrometheusMetrics \<Rightarrow> string" where
  "pm_GetMetricsAsJson now pm =
     marshal (JObj [(''namespace'', JStr (pm_namespace pm)), (''subsystem'', JStr (pm_subsystem pm)),
                    (''timestamp'', JNum (Itoa now))])"

subsection \<open>The interface\<close>

fun on_pm :: "(PrometheusMetrics \<Rightarrow> PrometheusMetrics) \<Rightarrow> MetricsManager \<Rightarrow> MetricsManager" where
  "on_pm f NoOpMetrics = NoOpMetrics"
| "on_pm f (Prometheus pm) = Prometheus (f pm)"

definition MarkNewConnection :: "AppID \<Rightarrow> MetricsManager \<Rightarrow> MetricsManager" where
  "MarkNewConnection appId = on_pm pm_MarkNewConnection"

definition MarkDisconnection :: "AppID \<Rightarrow> MetricsManager \<Rightarrow> MetricsManager" where
  "MarkDisconnection appId = on_pm pm_MarkDisconnection"

definition MarkApiMessage ::
  "AppID \<Rightarrow> (string \<times> ChannelName) option \<Rightarrow> MetricsManager \<Rightarrow> MetricsManager" where
  "MarkApiMessage appId incomingMessage = on_pm (pm_MarkApiMessage appId incomingMessage)"

definition MarkWsMessageSent :: "AppID \<Rightarrow> MetricsManager \<Rightarrow> MetricsManager" where
  "MarkWsMessageSent appId = on_pm pm_MarkWsMessageSent"

definition MarkWsMessageReceived :: "AppID \<Rightarrow> MetricsManager \<Rightarrow> MetricsManager" where
  "MarkWsMessageReceived appId = on_pm pm_MarkWsMessageReceived"

definition TrackHorizontalAdapterResolveTime :: "AppID \<Rightarrow> int \<Rightarrow> MetricsManager \<Rightarrow> MetricsManager" where
  "TrackHorizontalAdapterResolveTime appId nanos = on_pm (pm_TrackHorizontalAdapterResolveTime nanos)"

definition TrackHorizontalAdapterResolvedPromises ::
  "AppID \<Rightarrow> bool \<Rightarrow> MetricsManager \<Rightarrow> MetricsManager" where
  "TrackHorizontalAdapterResolvedPromises appId resolved =
     on_pm (pm_TrackHorizontalAdapterResolvedPromises resolved)"

definition MarkHorizontalAdapterRequestSent :: "AppID \<Rightarrow> MetricsManager \<Rightarrow> MetricsManager" where
  "MarkHorizontalAdapterRequestSent appId = on_pm pm_MarkHorizontalAdapterRequestSent"

definition MarkHorizontalAdapterRequestReceived :: "AppID \<Rightarrow> MetricsManager \<Rightarrow> MetricsManager" where
  "MarkHorizontalAdapterRequestReceived appId = on_pm pm_MarkHorizontalAdapterRequestReceived"

definition SetChannelsTotal :: "int \<Rightarrow> MetricsManager \<Rightarrow> MetricsManager" where
  "SetChannelsTotal cnt = on_pm (\<lambda>pm. pm\<lparr>pm_channelsTotal := cnt\<rparr>)"

definition SetPresenceChannels :: "int \<Rightarrow> MetricsManager \<Rightarrow> MetricsManager" where
  "SetPresenceChannels cnt = on_pm (\<lambda>pm. pm\<lparr>pm_presenceChannels := cnt\<rparr>)"

definition SetPrivateChannels :: "int \<Rightarrow> MetricsManager \<Rightarrow> MetricsManager" where
  "SetPrivateChannels cnt = on_pm (\<lambda>pm. pm\<lparr>pm_privateChannels := cnt\<rparr>)"

definition SetPublicChannels :: "int \<Rightarrow> MetricsManager \<Rightarrow> MetricsManager" where
  "SetPublicChannels cnt = on_pm (\<lambda>pm. pm\<lparr>pm_publicChannels := cnt\<rparr>)"

definition MarkError :: "string \<Rightarrow> AppID \<Rightarrow> MetricsManager \<Rightarrow> MetricsManager" where
  "MarkError errorType appId = on_pm (pm_MarkError errorType appId)"

fun GetMetricsAsJson :: "int \<Rightarrow> MetricsManager \<Rightarrow> string" where
  "GetMetricsAsJson now NoOpMetrics = ''{}''"
| "GetMetricsAsJson now (Prometheus pm) = pm_GetMetricsAsJson now pm"

definition MetricsClear :: "MetricsManager \<Rightarrow> MetricsManager" where
  "MetricsClear = on_pm pm_Clear"

lemma on_pm_compose [simp]: "on_pm f (on_pm g mm) = on_pm (\<lambda>pm. f (g pm)) mm"
  by (cases mm) auto

subsection \<open>Registration never collides\<close>

lemma register_all_distinct:
  assumes reg: "\<And>m r. mo_Name m \<notin> mo_Name ` set r \<Longrightarrow> must_register m r = Some (r @ [m])"
  shows "distinct (map mo_Name (r @ ms)) \<Longrightarrow> register_all must_register ms r = Some (r @ ms)"
proof (induction ms arbitrary: r)
  case (Cons m ms)
  then have "mo_Name m \<notin> mo_Name ` set r" by auto
  then have "must_register m r = Some (r @ [m])" by (rule reg)
  moreover have "register_all must_register ms (r @ [m]) = Some ((r @ [m]) @ ms)"
    using Cons by (intro Cons.IH) auto
  ultimately show ?case by simp
qed simp

lemma active_connections_balance:
  "pm_activeConnections (fold (\<lambda>up. if up then pm_MarkNewConnection else pm_MarkDisconnection) ups pm)
     = pm_activeConnections pm + int (length (filter id ups)) - int (length (filter Not ups))"
  by (induction ups arbitrary: pm)
    (auto simp: pm_MarkNewConnection_def pm_MarkDisconnection_def)

lemma totals_balance:
  "pm_connectionsTotal (fold (\<lambda>up. if up then pm_MarkNewConnection else pm_MarkDisconnection) ups pm)
     = pm_connectionsTotal pm + int (length (filter id ups))"
  "pm_disconnectionsTotal (fold (\<lambda>up. if up then pm_MarkNewConnection else pm_MarkDisconnection) ups pm)
     = pm_disconnectionsTotal pm + int (length (filter Not ups))"
  by (induction ups arbitrary: pm)
    (auto simp: pm_MarkNewConnection_def pm_MarkDisconnection_def)

end
