(* ===== verification/Types.thy ===== *)
theory Types
  imports Payloads Queues Cache Metrics
begin

text \<open>
  The data of the connection layer: a channel (\<open>internal/channels.go\<close>), a socket
  (\<open>internal/websocket.go\<close>), a namespace (\<open>internal/namespace.go\<close>) and the server with
  everything its handlers share (\<open>internal/server.go\<close>). Sockets are shared, mutable objects: they
  live in a heap and every map holds their address; 0 is the nil pointer. Channels, apps and member
  data never change after they are built, so they are values. Mutexes are not modelled: each
  operation is atomic, as the locks make it.
\<close>

subsection \<open>Channels\<close>

datatype ChannelType =
  ChannelTypePresence | ChannelTypePrivate | ChannelTypePrivateEncrypted | ChannelTypePublic

record Channel =
  ch_App :: App
  ch_Name :: ChannelName
  ch_Connections :: "(SocketID, bool) gomap"
  ch_Type :: ChannelType
  ch_RequiresAuth :: bool
  ch_IsCache :: bool
  ch_IsEncrypted :: bool

definition CreateChannelFromString :: "App \<Rightarrow> ChannelName \<Rightarrow> Channel" where
  "CreateChannelFromString app channelName =
     (let channel = \<lparr>ch_App = app, ch_Name = channelName, ch_Connections = [],
                     ch_Type = ChannelTypePrivate, ch_RequiresAuth = False, ch_IsCache = False,
                     ch_IsEncrypted = False\<rparr>
      in if IsPresenceChannel (ch_Name channel) then
           channel\<lparr>ch_Type := ChannelTypePresence, ch_RequiresAuth := True,
                   ch_IsCache := HasPrefix (ch_Name channel) ''presence-cache-''\<rparr>
         else if IsPrivateEncryptedChannel (ch_Name channel) then
           channel\<lparr>ch_Type := ChannelTypePrivateEncrypted, ch_RequiresAuth := True,
                   ch_IsEncrypted := True,
                   ch_IsCache := HasPrefix (ch_Name channel) ''private-encrypted-cache-''\<rparr>
         else if IsPrivateChannel (ch_Name channel) then
           channel\<lparr>ch_Type := ChannelTypePrivate, ch_RequiresAuth := True,
                   ch_IsCache := HasPrefix (ch_Name channel) ''private-cache-''\<rparr>
         else
           channel\<lparr>ch_Type := ChannelTypePublic, ch_RequiresAuth := False,
                   ch_IsCache := HasPrefix (ch_Name channel) ''cache-''\<rparr>)"

lemma CreateChannel_simps [simp]:
  "ch_Name (CreateChannelFromString app c) = c" "ch_App (CreateChannelFromString app c) = app"
  by (simp_all add: CreateChannelFromString_def Let_def)

lemma CreateChannel_Type:
  "ch_Type (CreateChannelFromString app c) = ChannelTypePresence \<longleftrightarrow> IsPresenceChannel c"
  "ch_Type (CreateChannelFromString app c) = ChannelTypePrivateEncrypted \<longleftrightarrow> IsPrivateEncryptedChannel c"
  "ch_Type (CreateChannelFromString app c) = ChannelTypePrivate
     \<longleftrightarrow> IsPrivateChannel c \<and> \<not> IsPrivateEncryptedChannel c"
  "ch_RequiresAuth (CreateChannelFromString app c) \<longleftrightarrow> IsPresenceChannel c \<or> IsPrivateChannel c"
  using presence_not_private [of c] encrypted_is_private [of c]
  by (auto simp: CreateChannelFromString_def Let_def)

lemma CreateChannel_IsCache: "ch_IsCache (CreateChannelFromString app c) \<longleftrightarrow> IsCacheChannel c"
proof -
  have k: "HasPrefix c ''presence-cache-'' \<Longrightarrow> IsPresenceChannel c"
    "HasPrefix c ''private-cache-'' \<Longrightarrow> IsPrivateChannel c \<and> \<not> IsPrivateEncryptedChannel c"
    "HasPrefix c ''private-encrypted-cache-'' \<Longrightarrow> IsPrivateEncryptedChannel c"
    "HasPrefix c ''cache-'' \<Longrightarrow> \<not> IsPresenceChannel c \<and> \<not> IsPrivateChannel c"
    by (auto simp: channel_kind_defs)
  with presence_not_private [of c] encrypted_is_private [of c] show ?thesis
    by (auto simp: CreateChannelFromString_def Let_def IsCacheChannel_def)
qed

subsection \<open>Sockets\<close>

text \<open>
  The network side of a socket: what has been written to it, whether writing and closing succeed,
  and the read deadline.
\<close>

record Conn =
  cn_wire :: "string list"
  cn_write_ok :: bool
  cn_close_ok :: bool
  cn_readDeadline :: "int option"

record WebSocket =
  ws_ID :: SocketID
  ws_app :: "App option"
  ws_SubscribedChannels :: "(ChannelName, Channel) gomap option"
  ws_PresenceData :: "(ChannelName, MemberData option) gomap option"
  ws_conn :: "Conn option"
  ws_closed :: bool
  ws_server :: bool
  ws_userID :: UserID
  ws_userAuthChannel :: "bool list option" \<comment> \<open>the buffer of the channel, capacity 1\<close>
  ws_userHasAuthorized :: bool

record Namespace =
  ns_Channels :: "(ChannelName, SocketID list) gomap"
  ns_Sockets :: "(SocketID, addr) gomap"
  ns_Users :: "(UserID, SocketID list) gomap"

type_synonym heap = "addr \<Rightarrow> WebSocket"

record World =
  w_heap :: heap
  w_Namespaces :: "(AppID, Namespace) gomap option"
  w_metrics :: MetricsManager
  w_cache :: LocalCache
  w_queue :: Queue
  w_apps :: ArrayAppManager
  w_Closing :: bool
  w_now :: int
  w_lib :: Lib

text \<open>Dereferencing a pointer; nil panics.\<close>

definition deref :: "heap \<Rightarrow> addr \<Rightarrow> WebSocket option" where
  "deref h a = (if a = 0 then None else Some (h a))"

definition upd_ws :: "addr \<Rightarrow> (WebSocket \<Rightarrow> WebSocket) \<Rightarrow> World \<Rightarrow> World" where
  "upd_ws a f w = w\<lparr>w_heap := (w_heap w)(a := f (w_heap w a))\<rparr>"

lemma deref_Some [simp]: "deref h a = Some s \<longleftrightarrow> a \<noteq> 0 \<and> s = h a"
  by (auto simp: deref_def)

lemma deref_pos [simp]: "0 < a \<Longrightarrow> deref h a = Some (h a)" "deref h 0 = None"
  by (simp_all add: deref_def)

lemma upd_ws_simps [simp]:
  "w_heap (upd_ws a f w) b = (if b = a then f (w_heap w a) else w_heap w b)"
  "w_Namespaces (upd_ws a f w) = w_Namespaces w" "w_metrics (upd_ws a f w) = w_metrics w"
  "w_cache (upd_ws a f w) = w_cache w" "w_queue (upd_ws a f w) = w_queue w"
  "w_apps (upd_ws a f w) = w_apps w" "w_Closing (upd_ws a f w) = w_Closing w"
  "w_now (upd_ws a f w) = w_now w" "w_lib (upd_ws a f w) = w_lib w"
  by (simp_all add: upd_ws_def)

definition Time_Second :: int where
  "Time_Second = Second"

subsection \<open>Send and the read timeout (websocket.go)\<close>

definition resetReadTimeout :: "addr \<Rightarrow> World \<Rightarrow> World option" where
  "resetReadTimeout a w =
     (case ws_conn (w_heap w a) of
        None \<Rightarrow> Some w
      | Some conn \<Rightarrow>
          do { app \<leftarrow> ws_app (w_heap w a);
               Some (upd_ws a (\<lambda>s. s\<lparr>ws_conn := Some (conn\<lparr>cn_readDeadline :=
                        Some (w_now w + app_ReadTimeout app)\<rparr>)\<rparr>) w) })"

text \<open>
  A failed write marks the socket closed; the nil server or app of a socket that is being cleaned
  up panics.
\<close>

definition ws_Send :: "addr \<Rightarrow> string \<Rightarrow> World \<Rightarrow> World option" where
  "ws_Send a msg w =
     do { s \<leftarrow> deref (w_heap w) a;
          (case ws_conn s of
             None \<Rightarrow> Some w
           | Some conn \<Rightarrow>
               if ws_closed s then Some w
               else if \<not> cn_write_ok conn then Some (upd_ws a (\<lambda>s. s\<lparr>ws_closed := True\<rparr>) w)
               else if \<not> ws_server s then None
               else
                 do { app \<leftarrow> ws_app s;
                      let w = upd_ws a (\<lambda>s. s\<lparr>ws_conn := Some (conn\<lparr>cn_wire := cn_wire conn @ [msg]\<rparr>)\<rparr>) w;
                      let w = w\<lparr>w_metrics := MarkWsMessageSent (app_ID app) (w_metrics w)\<rparr>;
                      resetReadTimeout a w }) }"

text \<open>Everything a client has been sent.\<close>

definition wire :: "World \<Rightarrow> addr \<Rightarrow> string list" where
  "wire w a = (case ws_conn (w_heap w a) of None \<Rightarrow> [] | Some conn \<Rightarrow> cn_wire conn)"

text \<open>A socket in service: connected, open, and with its app and server.\<close>

definition live :: "World \<Rightarrow> addr \<Rightarrow> bool" where
  "live w a = (a \<noteq> 0 \<and> \<not> ws_closed (w_heap w a) \<and> ws_server (w_heap w a) \<and> ws_app (w_heap w a) \<noteq> None
     \<and> (\<exists>conn. ws_conn (w_heap w a) = Some conn \<and> cn_write_ok conn))"

text \<open>A socket that \<open>Send\<close> cannot make panic: open ones have their server and app.\<close>

definition sane :: "World \<Rightarrow> addr \<Rightarrow> bool" where
  "sane w a = (a \<noteq> 0 \<and> (ws_closed (w_heap w a) \<or> (ws_server (w_heap w a) \<and> ws_app (w_heap w a) \<noteq> None)))"

lemma ws_Send_live:
  assumes "live w a"
  shows "\<exists>w'. ws_Send a msg w = Some w' \<and> wire w' a = wire w a @ [msg]
     \<and> (\<forall>b. b \<noteq> a \<longrightarrow> w_heap w' b = w_heap w b) \<and> live w' a"
  using assms
  by (auto simp: live_def ws_Send_def resetReadTimeout_def wire_def)

text \<open>What \<open>Send\<close> leaves alone.\<close>

definition same_but_wire :: "WebSocket \<Rightarrow> WebSocket \<Rightarrow> bool" where
  "same_but_wire s t = (ws_ID s = ws_ID t \<and> ws_app s = ws_app t
     \<and> ws_SubscribedChannels s = ws_SubscribedChannels t \<and> ws_PresenceData s = ws_PresenceData t
     \<and> ws_server s = ws_server t \<and> ws_userID s = ws_userID t
     \<and> ws_userAuthChannel s = ws_userAuthChannel t \<and> ws_userHasAuthorized s = ws_userHasAuthorized t
     \<and> (ws_closed t \<longrightarrow> ws_closed s) \<and> (ws_conn s = None \<longleftrightarrow> ws_conn t = None))"

definition send_frame :: "World \<Rightarrow> World \<Rightarrow> bool" where
  "send_frame w' w = ((\<forall>a. same_but_wire (w_heap w' a) (w_heap w a))
     \<and> w_Namespaces w' = w_Namespaces w \<and> w_cache w' = w_cache w \<and> w_queue w' = w_queue w
     \<and> w_apps w' = w_apps w \<and> w_Closing w' = w_Closing w \<and> w_now w' = w_now w \<and> w_lib w' = w_lib w)"

lemma same_but_wire_refl [simp]: "same_but_wire s s"
  by (simp add: same_but_wire_def)

lemma send_frame_refl [simp]: "send_frame w w"
  by (simp add: send_frame_def)

lemma send_frame_trans: "send_frame w2 w1 \<Longrightarrow> send_frame w1 w0 \<Longrightarrow> send_frame w2 w0"
  unfolding send_frame_def same_but_wire_def by (metis (no_types))

lemma ws_Send_frame: "ws_Send a msg w = Some w' \<Longrightarrow> send_frame w' w"
  by (auto simp: ws_Send_def resetReadTimeout_def send_frame_def same_but_wire_def bind_eq_Some_conv
      split: option.splits if_splits)

lemma ws_Send_sane: "sane w a \<Longrightarrow> \<exists>w'. ws_Send a msg w = Some w'"
  by (auto simp: sane_def ws_Send_def resetReadTimeout_def split: option.splits)

lemma ws_Send_keeps_sane: "ws_Send a msg w = Some w' \<Longrightarrow> sane w b \<Longrightarrow> sane w' b"
  using ws_Send_frame [of a msg w w']
  by (auto simp: send_frame_def same_but_wire_def sane_def)

lemma ws_Send_others: "ws_Send a msg w = Some w' \<Longrightarrow> b \<noteq> a \<Longrightarrow> w_heap w' b = w_heap w b"
  by (auto simp: ws_Send_def resetReadTimeout_def bind_eq_Some_conv split: option.splits if_splits)

lemma ws_Send_dead:
  assumes "sane w a" "\<not> live w a" "ws_Send a msg w = Some w'"
  shows "wire w' a = wire w a" "\<not> live w' a"
  using assms
  by (auto simp: sane_def live_def ws_Send_def resetReadTimeout_def wire_def bind_eq_Some_conv
      split: option.splits if_splits)

lemma live_cong: "w_heap w' b = w_heap w b \<Longrightarrow> live w' b = live w b \<and> sane w' b = sane w b \<and> wire w' b = wire w b"
  by (simp add: live_def sane_def wire_def)

text \<open>One send: the message is appended to the wire of the socket exactly when it is live.\<close>

lemma ws_Send_effect:
  assumes "sane w a"
  obtains w' where "ws_Send a msg w = Some w'" "send_frame w' w"
    "\<And>b. wire w' b = wire w b @ (if b = a \<and> live w b then [msg] else [])"
    "\<And>b. live w' b = live w b" "\<And>b. sane w b \<Longrightarrow> sane w' b"
proof -
  from ws_Send_sane [OF assms, of msg] obtain w' where s: "ws_Send a msg w = Some w'" by blast
  have o: "live w' b = live w b \<and> sane w' b = sane w b \<and> wire w' b = wire w b" if "b \<noteq> a" for b
    using live_cong [OF ws_Send_others [OF s that]] .
  have a: "live w' a = live w a \<and> wire w' a = wire w a @ (if live w a then [msg] else [])"
    using ws_Send_live [of w a msg] ws_Send_dead [OF assms _ s] s by (cases "live w a") auto
  show thesis
  proof (rule that [OF s ws_Send_frame [OF s]])
    show "wire w' b = wire w b @ (if b = a \<and> live w b then [msg] else [])" for b
      using o a by (cases "b = a") auto
    show "live w' b = live w b" for b using o a by (cases "b = a") auto
    show "sane w' b" if "sane w b" for b using ws_Send_keeps_sane [OF s that] .
  qed
qed

end
