(* ===== verification/NamespaceM.thy ===== *)
theory NamespaceM
  imports Types
begin

text \<open>
  \<open>internal/namespace.go\<close>: the channels, sockets and users of one app, as functions on the record
  \<open>Namespace\<close> that read the heap of sockets. \<open>TerminateUserConnections\<close> closes sockets and is in
  the theory of the websocket handlers. The abstract view of a namespace is its subscription
  relation; every operation is shown to implement the obvious operation on that relation.
\<close>

definition blankNamespace :: Namespace where
  "blankNamespace = \<lparr>ns_Channels = [], ns_Sockets = [], ns_Users = []\<rparr>"

definition n_GetSockets :: "Namespace \<Rightarrow> (SocketID, addr) gomap" where
  "n_GetSockets n = ns_Sockets n"

definition n_GetChannels :: "Namespace \<Rightarrow> (ChannelName, SocketID list) gomap" where
  "n_GetChannels n = ns_Channels n"

definition n_GetChannelsWithSocketsCount :: "Namespace \<Rightarrow> (ChannelName, int) gomap" where
  "n_GetChannelsWithSocketsCount n = map (\<lambda>(channel, sockets). (channel, int (length sockets))) (n_GetChannels n)"

text \<open>The loop of \<open>GetChannelSockets\<close> fills a map: a socket listed twice counts once.\<close>

definition n_GetChannelSockets :: "Namespace \<Rightarrow> ChannelName \<Rightarrow> (SocketID, addr) gomap" where
  "n_GetChannelSockets n channelName =
     (case map_of (ns_Channels n) channelName of
        None \<Rightarrow> []
      | Some socketIds \<Rightarrow>
          foldl (\<lambda>m socketId. case map_of (ns_Sockets n) socketId of
                                None \<Rightarrow> m | Some a \<Rightarrow> mput socketId a m) [] socketIds)"

text \<open>\<open>getPresenceDataForChannel\<close> of websocket.go: the stored pointer or nil.\<close>

definition getPresenceDataForChannel :: "WebSocket \<Rightarrow> ChannelName \<Rightarrow> MemberData option" where
  "getPresenceDataForChannel s channel =
     (case ws_PresenceData s of
        None \<Rightarrow> None
      | Some m \<Rightarrow> (case map_of m channel of None \<Rightarrow> None | Some v \<Rightarrow> v))"

fun collect_members ::
  "heap \<Rightarrow> ChannelName \<Rightarrow> (SocketID, addr) gomap \<Rightarrow> (UserID, MemberData) gomap \<Rightarrow> (UserID, MemberData) gomap option" where
  "collect_members h channelName [] members = Some members"
| "collect_members h channelName ((i, a) # sockets) members =
     do { s \<leftarrow> deref h a;
          collect_members h channelName sockets
            (case getPresenceDataForChannel s channelName of
               None \<Rightarrow> members
             | Some val \<Rightarrow> mput (md_UserID val) val members) }"

definition n_GetChannelMembers ::
  "heap \<Rightarrow> Namespace \<Rightarrow> ChannelName \<Rightarrow> (UserID, MemberData) gomap option" where
  "n_GetChannelMembers h n channelName = collect_members h channelName (n_GetChannelSockets n channelName) []"

fun presence_counts ::
  "heap \<Rightarrow> Namespace \<Rightarrow> (ChannelName, SocketID list) gomap \<Rightarrow> (ChannelName, int) gomap option" where
  "presence_counts h n [] = Some []"
| "presence_counts h n ((channel, ids) # channels) =
     do { rest \<leftarrow> presence_counts h n channels;
          if IsPresenceChannel channel
          then do { members \<leftarrow> n_GetChannelMembers h n channel; Some ((channel, int (length members)) # rest) }
          else Some rest }"

definition n_GetPresenceChannelsWithUsersCount :: "heap \<Rightarrow> Namespace \<Rightarrow> (ChannelName, int) gomap option" where
  "n_GetPresenceChannelsWithUsersCount h n = presence_counts h n (n_GetChannels n)"

definition n_CompactMaps :: "Namespace \<Rightarrow> Namespace" where
  "n_CompactMaps n =
     n\<lparr>ns_Channels := filter (\<lambda>(channel, sockets). length sockets > 0) (ns_Channels n),
       ns_Sockets := filter (\<lambda>(socketID, socket). socket \<noteq> 0) (ns_Sockets n),
       ns_Users := filter (\<lambda>(userID, socketIDs). length socketIDs > 0) (ns_Users n)\<rparr>"

definition n_AddSocket :: "heap \<Rightarrow> addr \<Rightarrow> Namespace \<Rightarrow> (bool \<times> Namespace) option" where
  "n_AddSocket h a n =
     do { ws \<leftarrow> deref h a;
          if mhas (ns_Sockets n) (ws_ID ws) then Some (False, n)
          else Some (True, n\<lparr>ns_Sockets := mput (ws_ID ws) a (ns_Sockets n)\<rparr>) }"

text \<open>Remove an id from the list stored under a key; an empty list is deleted with its key.\<close>

definition remove_under :: "'k \<Rightarrow> SocketID \<Rightarrow> ('k, SocketID list) gomap \<Rightarrow> ('k, SocketID list) gomap option" where
  "remove_under k x m =
     (case map_of m k of
        None \<Rightarrow> Some m
      | Some ids \<Rightarrow>
          do { newSockets \<leftarrow> remove_id ids x;
               Some (if length newSockets = 0 then mdel k m else mput k newSockets m) })"

fun remove_everywhere :: "SocketID \<Rightarrow> ('k, SocketID list) gomap \<Rightarrow> ('k, SocketID list) gomap option" where
  "remove_everywhere x [] = Some []"
| "remove_everywhere x ((k, ids) # m) =
     do { newSockets \<leftarrow> remove_id ids x;
          m' \<leftarrow> remove_everywhere x m;
          Some (if length newSockets = 0 then m' else (k, newSockets) # m') }"

definition n_RemoveSocket :: "heap \<Rightarrow> SocketID \<Rightarrow> Namespace \<Rightarrow> Namespace option" where
  "n_RemoveSocket h wsID n =
     (case map_of (ns_Sockets n) wsID of
        None \<Rightarrow> Some n
      | Some a \<Rightarrow>
          do { let n = n\<lparr>ns_Sockets := mdel wsID (ns_Sockets n)\<rparr>;
               socket \<leftarrow> deref h a;
               users \<leftarrow> (if ws_userID socket \<noteq> [] then remove_under (ws_userID socket) wsID (ns_Users n)
                         else Some (ns_Users n));
               let n = n\<lparr>ns_Users := users\<rparr>;
               channels \<leftarrow> remove_everywhere wsID (ns_Channels n);
               Some (n\<lparr>ns_Channels := channels\<rparr>) })"

definition n_AddToChannel :: "heap \<Rightarrow> addr \<Rightarrow> ChannelName \<Rightarrow> Namespace \<Rightarrow> (int \<times> Namespace) option" where
  "n_AddToChannel h a channel n =
     do { ws \<leftarrow> deref h a;
          let n = (if mhas (ns_Channels n) channel then n
                   else n\<lparr>ns_Channels := mput channel [] (ns_Channels n)\<rparr>);
          let ids = mget0 [] (ns_Channels n) channel @ [ws_ID ws];
          Some (int (length ids), n\<lparr>ns_Channels := mput channel ids (ns_Channels n)\<rparr>) }"

text \<open>The closure \<open>remove\<close> and the loop over the channels of \<open>RemoveFromChannel\<close>.\<close>

definition remove_channel :: "SocketID \<Rightarrow> ChannelName \<Rightarrow> Namespace \<Rightarrow> (int \<times> Namespace) option" where
  "remove_channel websocketId channel n =
     do { m \<leftarrow> remove_under channel websocketId (ns_Channels n);
          Some (int (length (mget0 [] m channel)), n\<lparr>ns_Channels := m\<rparr>) }"

fun remove_channels ::
  "SocketID \<Rightarrow> ChannelName list \<Rightarrow> (ChannelName, int) gomap \<Rightarrow> Namespace \<Rightarrow>
     ((ChannelName, int) gomap \<times> Namespace) option" where
  "remove_channels websocketId [] removeResults n = Some (removeResults, n)"
| "remove_channels websocketId (channel # channels) removeResults n =
     (if mhas (ns_Channels n) channel
      then do { (r, n) \<leftarrow> remove_channel websocketId channel n;
                remove_channels websocketId channels (mput channel r removeResults) n }
      else remove_channels websocketId channels removeResults n)"

definition n_RemoveFromChannel ::
  "SocketID \<Rightarrow> ChannelName list \<Rightarrow> Namespace \<Rightarrow> (int \<times> Namespace) option" where
  "n_RemoveFromChannel websocketId channels n =
     do { (removeResults, n) \<leftarrow> remove_channels websocketId channels [] n;
          Some (case channels of
                  [channel] \<Rightarrow> (mget0 0 removeResults channel, n)
                | _ \<Rightarrow> (0, n)) }"

definition n_IsInChannel :: "Namespace \<Rightarrow> SocketID \<Rightarrow> ChannelName \<Rightarrow> bool" where
  "n_IsInChannel n wsID channelName =
     (case map_of (ns_Channels n) channelName of None \<Rightarrow> False | Some ids \<Rightarrow> wsID \<in> set ids)"

definition n_AddUser :: "heap \<Rightarrow> addr \<Rightarrow> Namespace \<Rightarrow> Namespace option" where
  "n_AddUser h a n =
     do { ws \<leftarrow> deref h a;
          if ws_userID ws = [] then Some n
          else
            do { let n = (if mhas (ns_Users n) (ws_userID ws) then n
                          else n\<lparr>ns_Users := mput (ws_userID ws) [] (ns_Users n)\<rparr>);
                 let ids = mget0 [] (ns_Users n) (ws_userID ws);
                 Some (if ws_ID ws \<in> set ids then n
                       else n\<lparr>ns_Users := mput (ws_userID ws) (ids @ [ws_ID ws]) (ns_Users n)\<rparr>) } }"

definition n_RemoveUser :: "heap \<Rightarrow> addr \<Rightarrow> Namespace \<Rightarrow> Namespace option" where
  "n_RemoveUser h a n =
     do { ws \<leftarrow> deref h a;
          if ws_userID ws = [] then Some n
          else do { users \<leftarrow> remove_under (ws_userID ws) (ws_ID ws) (ns_Users n);
                    Some (n\<lparr>ns_Users := users\<rparr>) } }"

definition n_GetUserSockets :: "Namespace \<Rightarrow> UserID \<Rightarrow> addr list" where
  "n_GetUserSockets n userID =
     (case map_of (ns_Users n) userID of
        None \<Rightarrow> []
      | Some websocketIDs \<Rightarrow> List.map_filter (map_of (ns_Sockets n)) websocketIDs)"

subsection \<open>Well-formed namespaces\<close>

definition no_empty :: "('k, 'v list) gomap \<Rightarrow> bool" where
  "no_empty m = (\<forall>(k, ids) \<in> set m. ids \<noteq> [])"

definition ns_wf :: "Namespace \<Rightarrow> bool" where
  "ns_wf n = (wf_map (ns_Channels n) \<and> wf_map (ns_Sockets n) \<and> wf_map (ns_Users n)
     \<and> no_empty (ns_Channels n) \<and> no_empty (ns_Users n) \<and> (\<forall>(i, a) \<in> set (ns_Sockets n). a \<noteq> 0))"

lemma ns_wfD:
  assumes "ns_wf n"
  shows "wf_map (ns_Channels n)" "wf_map (ns_Sockets n)" "wf_map (ns_Users n)"
    "no_empty (ns_Channels n)" "no_empty (ns_Users n)"
    "map_of (ns_Sockets n) i = Some a \<Longrightarrow> a \<noteq> 0"
  using assms by (auto simp: ns_wf_def dest: map_of_SomeD)

lemma no_empty_Nil [simp]: "no_empty []"
  by (simp add: no_empty_def)

lemma no_empty_Cons [simp]: "no_empty ((k, ids) # m) \<longleftrightarrow> ids \<noteq> [] \<and> no_empty m"
  by (auto simp: no_empty_def)

lemma no_empty_mput: "wf_map m \<Longrightarrow> no_empty m \<Longrightarrow> ids \<noteq> [] \<Longrightarrow> no_empty (mput k ids m)"
  unfolding no_empty_def using in_mput [of m _ _ k ids] by blast

lemma no_empty_mdel: "no_empty m \<Longrightarrow> no_empty (mdel k m)"
  by (auto simp: no_empty_def dest!: in_mdel)

lemma no_emptyD: "no_empty m \<Longrightarrow> map_of m k = Some ids \<Longrightarrow> ids \<noteq> []"
  by (auto simp: no_empty_def dest: map_of_SomeD)

text \<open>Removing is total on maps without empty lists, and keeps them so.\<close>

lemma remove_under_Some:
  assumes "no_empty m"
  obtains m' where "remove_under k x m = Some m'"
proof (cases "map_of m k")
  case None
  with that show thesis by (simp add: remove_under_def)
next
  case (Some ids)
  with no_emptyD [OF assms] have "remove_id ids x = Some (filter (\<lambda>i. i \<noteq> x) ids)"
    by (simp add: remove_id_Some)
  with Some that show thesis by (simp add: remove_under_def)
qed

lemma remove_under_map_of:
  assumes "remove_under k x m = Some m'"
  shows "map_of m' k' =
    (if k' = k then (case map_of m k of None \<Rightarrow> None
       | Some ids \<Rightarrow> (let r = filter (\<lambda>i. i \<noteq> x) ids in if r = [] then None else Some r))
     else map_of m k')"
  using assms
  by (auto simp: remove_under_def bind_eq_Some_conv remove_id_Some Let_def split: option.splits if_splits)

lemma remove_under_wf:
  assumes "remove_under k x m = Some m'" "wf_map m" "no_empty m"
  shows "wf_map m'" "no_empty m'"
proof -
  have "wf_map m' \<and> no_empty m'"
  proof (cases "map_of m k")
    case None
    with assms show ?thesis by (simp add: remove_under_def)
  next
    case (Some ids)
    let ?r = "filter (\<lambda>i. i \<noteq> x) ids"
    have "remove_id ids x = Some ?r" using no_emptyD [OF assms(3) Some] by (simp add: remove_id_Some)
    with assms(1) Some have "m' = (if ?r = [] then mdel k m else mput k ?r m)"
      by (simp add: remove_under_def)
    with assms(2,3) show ?thesis by (simp add: no_empty_mput no_empty_mdel)
  qed
  then show "wf_map m'" "no_empty m'" by simp_all
qed

lemma remove_everywhere_eq:
  "no_empty m \<Longrightarrow> remove_everywhere x m =
     Some (filter (\<lambda>(k, ids). ids \<noteq> []) (map (\<lambda>(k, ids). (k, filter (\<lambda>i. i \<noteq> x) ids)) m))"
proof (induction m)
  case (Cons p m)
  obtain k ids where p: "p = (k, ids)" by (cases p)
  with Cons.prems have "remove_id ids x = Some (filter (\<lambda>i. i \<noteq> x) ids)"
    by (simp add: remove_id_Some)
  with Cons p show ?case by simp
qed simp

lemma wf_map_vals: "wf_map m \<Longrightarrow> wf_map (map (\<lambda>(k, v). (k, f v)) m)"
  by (rule wf_map_same_keys) (auto simp: wf_map_def)

lemma map_of_filter_wf:
  "wf_map m \<Longrightarrow> map_of (filter (\<lambda>(k, v). P v) m) k =
     (case map_of m k of None \<Rightarrow> None | Some v \<Rightarrow> if P v then Some v else None)"
  by (induction m) (auto simp: wf_map_def map_of_eq_None_iff image_iff split: option.splits)

lemma remove_everywhere_map_of:
  assumes "wf_map m" "no_empty m" "remove_everywhere x m = Some m'"
  shows "map_of m' k = (case map_of m k of None \<Rightarrow> None
       | Some ids \<Rightarrow> (let r = filter (\<lambda>i. i \<noteq> x) ids in if r = [] then None else Some r))"
    and "wf_map m'" and "no_empty m'"
proof -
  from assms(2,3) have m': "m' = filter (\<lambda>(k, ids). ids \<noteq> []) (map (\<lambda>(k, ids). (k, filter (\<lambda>i. i \<noteq> x) ids)) m)"
    by (simp add: remove_everywhere_eq)
  show "map_of m' k = (case map_of m k of None \<Rightarrow> None
       | Some ids \<Rightarrow> (let r = filter (\<lambda>i. i \<noteq> x) ids in if r = [] then None else Some r))"
    unfolding m' map_of_filter_wf [OF wf_map_vals [OF assms(1)]] map_of_map_vals
    by (simp add: Let_def split: option.split)
  show "wf_map m'" unfolding m' by (intro wf_map_filter wf_map_vals assms(1))
  show "no_empty m'" by (auto simp: m' no_empty_def)
qed

subsection \<open>The abstract namespace\<close>

text \<open>
  Which socket ids are connected and where their sockets are, who is subscribed to what, and which
  socket belongs to which user.
\<close>

record AbsNs =
  a_socks :: "SocketID \<Rightarrow> addr option"
  a_subs :: "(ChannelName \<times> SocketID) set"
  a_users :: "(UserID \<times> SocketID) set"

definition rel_of :: "('k, 'v list) gomap \<Rightarrow> ('k \<times> 'v) set" where
  "rel_of m = {(k, v). \<exists>ids. map_of m k = Some ids \<and> v \<in> set ids}"

definition abs_ns :: "Namespace \<Rightarrow> AbsNs" where
  "abs_ns n = \<lparr>a_socks = map_of (ns_Sockets n), a_subs = rel_of (ns_Channels n),
              a_users = rel_of (ns_Users n)\<rparr>"

datatype ns_op =
    OpAddSocket heap addr
  | OpRemoveSocket heap SocketID
  | OpAddToChannel heap addr ChannelName
  | OpRemoveFromChannel SocketID "ChannelName list"
  | OpAddUser heap addr
  | OpRemoveUser heap addr
  | OpCompact

fun ns_valid :: "ns_op \<Rightarrow> bool" where
  "ns_valid (OpAddSocket h a) = (a \<noteq> 0)"
| "ns_valid (OpAddToChannel h a c) = (a \<noteq> 0)"
| "ns_valid (OpAddUser h a) = (a \<noteq> 0)"
| "ns_valid (OpRemoveUser h a) = (a \<noteq> 0)"
| "ns_valid _ = True"

fun ns_exec :: "ns_op \<Rightarrow> Namespace \<Rightarrow> Namespace option" where
  "ns_exec (OpAddSocket h a) n = map_option snd (n_AddSocket h a n)"
| "ns_exec (OpRemoveSocket h i) n = n_RemoveSocket h i n"
| "ns_exec (OpAddToChannel h a c) n = map_option snd (n_AddToChannel h a c n)"
| "ns_exec (OpRemoveFromChannel i cs) n = map_option snd (n_RemoveFromChannel i cs n)"
| "ns_exec (OpAddUser h a) n = n_AddUser h a n"
| "ns_exec (OpRemoveUser h a) n = n_RemoveUser h a n"
| "ns_exec OpCompact n = Some (n_CompactMaps n)"

text \<open>
  The specification. Removing a socket ends all its subscriptions, and its membership of the user
  it has at that moment.
\<close>

fun ns_spec :: "ns_op \<Rightarrow> AbsNs \<Rightarrow> AbsNs" where
  "ns_spec (OpAddSocket h a) s =
     (if a_socks s (ws_ID (h a)) = None then s\<lparr>a_socks := (a_socks s)(ws_ID (h a) \<mapsto> a)\<rparr> else s)"
| "ns_spec (OpRemoveSocket h i) s =
     (case a_socks s i of
        None \<Rightarrow> s
      | Some a \<Rightarrow> s\<lparr>a_socks := (a_socks s)(i := None),
                    a_subs := {(c, j) \<in> a_subs s. j \<noteq> i},
                    a_users := (if ws_userID (h a) = [] then a_users s
                                else a_users s - {(ws_userID (h a), i)})\<rparr>)"
| "ns_spec (OpAddToChannel h a c) s = s\<lparr>a_subs := insert (c, ws_ID (h a)) (a_subs s)\<rparr>"
| "ns_spec (OpRemoveFromChannel i cs) s = s\<lparr>a_subs := {(c, j) \<in> a_subs s. \<not> (j = i \<and> c \<in> set cs)}\<rparr>"
| "ns_spec (OpAddUser h a) s =
     (if ws_userID (h a) = [] then s
      else s\<lparr>a_users := insert (ws_userID (h a), ws_ID (h a)) (a_users s)\<rparr>)"
| "ns_spec (OpRemoveUser h a) s =
     (if ws_userID (h a) = [] then s
      else s\<lparr>a_users := a_users s - {(ws_userID (h a), ws_ID (h a))}\<rparr>)"
| "ns_spec OpCompact s = s"

lemma rel_of_mput: "rel_of (mput k ids m) = {(k', v) \<in> rel_of m. k' \<noteq> k} \<union> {k} \<times> set ids"
  by (auto simp: rel_of_def split: if_splits)

lemma rel_of_snoc: "rel_of (mput k (mget0 [] m k @ [v]) m) = insert (k, v) (rel_of m)"
  by (auto simp: rel_of_def mget0_def split: option.splits if_splits)

lemma remove_under_rel: "remove_under k x m = Some m' \<Longrightarrow> rel_of m' = rel_of m - {(k, x)}"
  by (auto simp: rel_of_def remove_under_map_of Let_def filter_empty_conv split: option.splits if_splits)

lemma remove_everywhere_rel:
  assumes "wf_map m" "no_empty m" "remove_everywhere x m = Some m'"
  shows "rel_of m' = {(k, j) \<in> rel_of m. j \<noteq> x}"
  using remove_everywhere_map_of (1) [OF assms]
  by (auto simp: rel_of_def Let_def filter_empty_conv split: option.splits if_splits)

lemma remove_channels_spec:
  assumes "ns_wf n"
  shows "\<exists>rs n'. remove_channels i cs rs0 n = Some (rs, n') \<and> ns_wf n'
     \<and> abs_ns n' = (abs_ns n)\<lparr>a_subs := {(c, j) \<in> a_subs (abs_ns n). \<not> (j = i \<and> c \<in> set cs)}\<rparr>"
  using assms
proof (induction cs arbitrary: rs0 n)
  case (Cons c cs)
  show ?case
  proof (cases "mhas (ns_Channels n) c")
    case False
    then have "rel_of (ns_Channels n) \<inter> {c} \<times> UNIV = {}" by (auto simp: rel_of_def mhas_def)
    then show ?thesis using False Cons.IH [OF Cons.prems, of rs0] by (auto simp: abs_ns_def)
  next
    case True
    note D = ns_wfD [OF Cons.prems]
    from remove_under_Some [OF D(4)] obtain m where m: "remove_under c i (ns_Channels n) = Some m" .
    let ?n = "n\<lparr>ns_Channels := m\<rparr>"
    have wf: "ns_wf ?n"
      using remove_under_wf [OF m D(1,4)] Cons.prems by (simp add: ns_wf_def)
    have a: "a_subs (abs_ns ?n) = a_subs (abs_ns n) - {(c, i)}"
      using remove_under_rel [OF m] by (simp add: abs_ns_def)
    have r: "remove_channel i c n = Some (int (length (mget0 [] m c)), ?n)"
      using m by (simp add: remove_channel_def)
    from Cons.IH [OF wf, of "mput c (int (length (mget0 [] m c))) rs0"] r True a
    show ?thesis by (auto simp: abs_ns_def)
  qed
qed (auto simp: abs_ns_def)

lemma n_RemoveSocket_total:
  assumes "ns_wf n"
  obtains n' where "n_RemoveSocket h i n = Some n'" "ns_wf n'"
    "abs_ns n' = ns_spec (OpRemoveSocket h i) (abs_ns n)"
proof (cases "map_of (ns_Sockets n) i")
  case None
  with assms that show thesis by (simp add: n_RemoveSocket_def abs_ns_def)
next
  case (Some a)
  note D = ns_wfD [OF assms]
  from D(6) [OF Some] have a: "a \<noteq> 0" .
  have "\<exists>users. (if ws_userID (h a) \<noteq> [] then remove_under (ws_userID (h a)) i (ns_Users n) else Some (ns_Users n)) = Some users
      \<and> wf_map users \<and> no_empty users
      \<and> rel_of users = (if ws_userID (h a) = [] then rel_of (ns_Users n) else rel_of (ns_Users n) - {(ws_userID (h a), i)})"
  proof (cases "ws_userID (h a) = []")
    case False
    from remove_under_Some [OF D(5)] obtain u where u: "remove_under (ws_userID (h a)) i (ns_Users n) = Some u" .
    with False remove_under_wf [OF u D(3,5)] remove_under_rel [OF u] show ?thesis by simp
  qed (simp add: D)
  then obtain users where u: "(if ws_userID (h a) \<noteq> [] then remove_under (ws_userID (h a)) i (ns_Users n) else Some (ns_Users n)) = Some users"
    "wf_map users" "no_empty users"
    "rel_of users = (if ws_userID (h a) = [] then rel_of (ns_Users n) else rel_of (ns_Users n) - {(ws_userID (h a), i)})"
    by blast
  obtain m where m: "remove_everywhere i (ns_Channels n) = Some m"
    using remove_everywhere_eq [OF D(4)] by blast
  note mw = remove_everywhere_map_of(2,3) [OF D(1,4) m]
  let ?n = "\<lparr>ns_Channels = m, ns_Sockets = mdel i (ns_Sockets n), ns_Users = users\<rparr>"
  have "n_RemoveSocket h i n = Some ?n"
    using Some a u(1) m
    by (cases "ws_userID (h a) = []") (simp_all add: n_RemoveSocket_def)
  moreover have "ns_wf ?n"
    using assms mw u(2,3) unfolding ns_wf_def by (fastforce dest!: in_mdel)
  moreover have "abs_ns ?n = ns_spec (OpRemoveSocket h i) (abs_ns n)"
    using Some u(4) remove_everywhere_rel [OF D(1,4) m] by (auto simp: abs_ns_def fun_eq_iff)
  ultimately show thesis by (rule that)
qed

lemma no_empty_iff: "wf_map m \<Longrightarrow> no_empty m \<longleftrightarrow> (\<forall>k. map_of m k \<noteq> Some [])"
  unfolding no_empty_def by (auto simp: wf_map_of_iff)

text \<open>Appending to the list under a key, which is first created if need be.\<close>

lemma append_under:
  assumes "wf_map m" "no_empty m"
  shows "wf_map (mput k (mget0 [] m k @ [v]) (if mhas m k then m else mput k [] m))"
    and "no_empty (mput k (mget0 [] m k @ [v]) (if mhas m k then m else mput k [] m))"
    and "rel_of (mput k (mget0 [] m k @ [v]) (if mhas m k then m else mput k [] m)) = insert (k, v) (rel_of m)"
proof -
  let ?m = "mput k (mget0 [] m k @ [v]) (if mhas m k then m else mput k [] m)"
  show w: "wf_map ?m" using assms(1) by simp
  have l: "map_of ?m k' = (if k' = k then Some (mget0 [] m k @ [v]) else map_of m k')" for k'
    by simp
  from assms show "no_empty ?m" unfolding no_empty_iff [OF w] no_empty_iff [OF assms(1)] l by simp
  show "rel_of ?m = insert (k, v) (rel_of m)"
    unfolding rel_of_def l by (auto simp: mget0_def split: option.splits if_splits)
qed

lemma mget0_created: "mget0 [] (if mhas m k then m else mput k [] m) k = mget0 [] m k"
  by (simp add: mget0_def mhas_def)

lemma ns_step:
  assumes wf: "ns_wf n" and v: "ns_valid x"
  shows "\<exists>n'. ns_exec x n = Some n' \<and> ns_wf n' \<and> abs_ns n' = ns_spec x (abs_ns n)"
proof (cases x)
  case (OpAddSocket h a)
  have "\<forall>(i, b) \<in> set (mput (ws_ID (h a)) a (ns_Sockets n)). b \<noteq> 0"
    using wf v OpAddSocket in_mput [OF ns_wfD(2) [OF wf]] by (fastforce simp: ns_wf_def)
  with OpAddSocket wf v show ?thesis
    by (auto simp: n_AddSocket_def mhas_def abs_ns_def ns_wf_def fun_upd_def fun_eq_iff
        intro: exI [of _ True] exI [of _ False])
next
  case (OpRemoveSocket h i)
  from n_RemoveSocket_total [OF wf, of h i] show ?thesis unfolding OpRemoveSocket by auto
next
  case (OpAddToChannel h a c)
  note A = append_under [OF ns_wfD(1,4) [OF wf], of c "ws_ID (h a)"]
  let ?n = "n\<lparr>ns_Channels := mput c (mget0 [] (ns_Channels n) c @ [ws_ID (h a)])
      (if mhas (ns_Channels n) c then ns_Channels n else mput c [] (ns_Channels n))\<rparr>"
  have e: "ns_exec x n = Some ?n"
    using v OpAddToChannel by (simp add: n_AddToChannel_def Let_def mget0_def mhas_def)
  have "ns_wf ?n" using A wf by (simp add: ns_wf_def)
  moreover have "abs_ns ?n = ns_spec x (abs_ns n)" using A OpAddToChannel by (simp add: abs_ns_def)
  ultimately show ?thesis using e by blast
next
  case (OpRemoveFromChannel i cs)
  from remove_channels_spec [OF wf, of i cs "[]"] obtain rs n'
    where r: "remove_channels i cs [] n = Some (rs, n')" "ns_wf n'"
      "abs_ns n' = (abs_ns n)\<lparr>a_subs := {(c, j) \<in> a_subs (abs_ns n). \<not> (j = i \<and> c \<in> set cs)}\<rparr>"
    by blast
  then have "ns_exec x n = Some n'"
    using OpRemoveFromChannel by (simp add: n_RemoveFromChannel_def split: list.split)
  moreover have "abs_ns n' = ns_spec x (abs_ns n)" using r(3) OpRemoveFromChannel by simp
  ultimately show ?thesis using r(2) by blast
next
  case (OpAddUser h a)
  show ?thesis
  proof (cases "ws_userID (h a) = []")
    case True
    with OpAddUser wf v show ?thesis by (simp add: n_AddUser_def)
  next
    case False
    let ?u = "ws_userID (h a)" and ?i = "ws_ID (h a)"
    let ?m0 = "if mhas (ns_Users n) ?u then ns_Users n else mput ?u [] (ns_Users n)"
    note A = append_under [OF ns_wfD(3,5) [OF wf], of ?u ?i]
    have g: "mget0 [] ?m0 ?u = mget0 [] (ns_Users n) ?u" by (rule mget0_created)
    have e: "ns_exec x n = Some (if ?i \<in> set (mget0 [] (ns_Users n) ?u) then n\<lparr>ns_Users := ?m0\<rparr>
        else n\<lparr>ns_Users := mput ?u (mget0 [] (ns_Users n) ?u @ [?i]) ?m0\<rparr>)"
      using v OpAddUser False g by (simp add: n_AddUser_def Let_def split: if_splits)
    show ?thesis
    proof (cases "?i \<in> set (mget0 [] (ns_Users n) ?u)")
      case True
      then obtain ids where ids: "map_of (ns_Users n) ?u = Some ids" "?i \<in> set ids"
        by (cases "map_of (ns_Users n) ?u") (auto simp: mget0_def)
      then have "(?u, ?i) \<in> rel_of (ns_Users n)" by (auto simp: rel_of_def)
      moreover have "?m0 = ns_Users n" using ids by (simp add: mhas_def)
      ultimately show ?thesis using e True wf OpAddUser False by (simp add: abs_ns_def insert_absorb)
    next
      case not: False
      let ?n = "n\<lparr>ns_Users := mput ?u (mget0 [] (ns_Users n) ?u @ [?i]) ?m0\<rparr>"
      have "ns_wf ?n" using A wf by (simp add: ns_wf_def)
      moreover have "abs_ns ?n = ns_spec x (abs_ns n)"
        using A OpAddUser False by (simp add: abs_ns_def)
      ultimately show ?thesis using e not by simp
    qed
  qed
next
  case (OpRemoveUser h a)
  from remove_under_Some [OF ns_wfD(5) [OF wf]] obtain u
    where u: "remove_under (ws_userID (h a)) (ws_ID (h a)) (ns_Users n) = Some u" .
  with OpRemoveUser v wf remove_under_wf [OF u ns_wfD(3,5) [OF wf]] remove_under_rel [OF u] show ?thesis
    by (auto simp: n_RemoveUser_def deref_def ns_wf_def abs_ns_def)
next
  case OpCompact
  have "filter (\<lambda>(k, ids). length ids > 0) m = m" if "no_empty m" for m :: "(string, SocketID list) gomap"
    using that by (induction m) (auto simp: no_empty_def)
  moreover have "filter (\<lambda>(k, a). a \<noteq> (0::nat)) (ns_Sockets n) = ns_Sockets n"
    using wf by (auto simp: ns_wf_def filter_id_conv)
  ultimately show ?thesis using wf OpCompact ns_wfD(4,5) [OF wf] by (simp add: n_CompactMaps_def)
qed

interpretation ns: total_refinement ns_wf abs_ns ns_valid ns_exec ns_spec
  by unfold_locales (rule ns_step)

lemma ns_wf_blank [simp]: "ns_wf blankNamespace"
  by (simp add: ns_wf_def blankNamespace_def)

definition blank_abs :: AbsNs where
  "blank_abs = \<lparr>a_socks = (\<lambda>_. None), a_subs = {}, a_users = {}\<rparr>"

lemma abs_blank [simp]: "abs_ns blankNamespace = blank_abs"
  by (simp add: abs_ns_def blankNamespace_def blank_abs_def rel_of_def)

subsection \<open>What the queries answer\<close>

lemma n_IsInChannel_iff: "n_IsInChannel n i c \<longleftrightarrow> (c, i) \<in> a_subs (abs_ns n)"
  by (auto simp: n_IsInChannel_def abs_ns_def rel_of_def split: option.splits)

lemma foldl_sockets:
  "wf_map m0 \<Longrightarrow>
   wf_map (foldl (\<lambda>m i. case map_of S i of None \<Rightarrow> m | Some a \<Rightarrow> mput i a m) m0 ids)
   \<and> map_of (foldl (\<lambda>m i. case map_of S i of None \<Rightarrow> m | Some a \<Rightarrow> mput i a m) m0 ids) i
     = (if i \<in> set ids \<and> map_of S i \<noteq> None then map_of S i else map_of m0 i)"
proof (induction ids arbitrary: m0)
  case (Cons j ids)
  show ?case
  proof (cases "map_of S j")
    case None
    with Cons show ?thesis by auto
  next
    case (Some a)
    have "wf_map (mput j a m0)" using Cons.prems by simp
    from Cons.IH [OF this] Some show ?thesis by auto
  qed
qed simp

text \<open>\<open>GetChannelSockets\<close>: the connected sockets among the subscribers, each once.\<close>

lemma GetChannelSockets_spec:
  "wf_map (n_GetChannelSockets n c)"
  "map_of (n_GetChannelSockets n c) i = (if n_IsInChannel n i c then map_of (ns_Sockets n) i else None)"
proof -
  have "wf_map (n_GetChannelSockets n c) \<and>
    map_of (n_GetChannelSockets n c) i = (if n_IsInChannel n i c then map_of (ns_Sockets n) i else None)"
  proof (cases "map_of (ns_Channels n) c")
    case None
    then show ?thesis by (simp add: n_GetChannelSockets_def n_IsInChannel_def)
  next
    case (Some ids)
    with foldl_sockets [of "[]" "ns_Sockets n" ids i] show ?thesis
      by (simp add: n_GetChannelSockets_def n_IsInChannel_def)
  qed
  then show "wf_map (n_GetChannelSockets n c)"
    "map_of (n_GetChannelSockets n c) i = (if n_IsInChannel n i c then map_of (ns_Sockets n) i else None)"
    by simp_all
qed

lemma GetChannelSockets_in:
  "(i, a) \<in> set (n_GetChannelSockets n c) \<longleftrightarrow> n_IsInChannel n i c \<and> map_of (ns_Sockets n) i = Some a"
  by (simp add: wf_map_of_iff [OF GetChannelSockets_spec(1), symmetric] GetChannelSockets_spec(2))

lemma GetChannelSockets_count:
  "length (n_GetChannelSockets n c) = card {i. n_IsInChannel n i c \<and> mhas (ns_Sockets n) i}"
proof -
  have "fst ` set (n_GetChannelSockets n c) = {i. n_IsInChannel n i c \<and> mhas (ns_Sockets n) i}"
  proof (intro set_eqI iffI)
    fix i
    assume "i \<in> fst ` set (n_GetChannelSockets n c)"
    then obtain a where "(i, a) \<in> set (n_GetChannelSockets n c)" by force
    then show "i \<in> {i. n_IsInChannel n i c \<and> mhas (ns_Sockets n) i}"
      by (simp add: GetChannelSockets_in mhas_def)
  next
    fix i
    assume "i \<in> {i. n_IsInChannel n i c \<and> mhas (ns_Sockets n) i}"
    then obtain a where "(i, a) \<in> set (n_GetChannelSockets n c)"
      by (auto simp: GetChannelSockets_in mhas_def)
    then show "i \<in> fst ` set (n_GetChannelSockets n c)" by force
  qed
  then show ?thesis using length_keys [OF GetChannelSockets_spec(1), of n c] by simp
qed

text \<open>\<open>GetChannelMembers\<close>: one entry per user with presence data on a connected subscriber.\<close>

lemma collect_members_spec:
  assumes "\<forall>(i, a) \<in> set ss. a \<noteq> 0" "wf_map m0"
  shows "\<exists>m. collect_members h c ss m0 = Some m \<and> wf_map m
    \<and> (\<forall>u. mhas m u \<longleftrightarrow> mhas m0 u \<or> (\<exists>(i, a) \<in> set ss. \<exists>d. getPresenceDataForChannel (h a) c = Some d \<and> md_UserID d = u))
    \<and> ((\<forall>(u, d) \<in> set m0. md_UserID d = u) \<longrightarrow> (\<forall>(u, d) \<in> set m. md_UserID d = u))"
  using assms
proof (induction ss arbitrary: m0)
  case (Cons p ss)
  obtain i a where p: "p = (i, a)" by (cases p)
  show ?case
  proof (cases "getPresenceDataForChannel (h a) c")
    case None
    with Cons.IH [of m0] Cons.prems p show ?thesis by (auto simp: deref_def)
  next
    case (Some d)
    have w: "wf_map (mput (md_UserID d) d m0)" using Cons.prems by simp
    have k: "(\<forall>(u, d) \<in> set m0. md_UserID d = u) \<Longrightarrow> (\<forall>(u, d) \<in> set (mput (md_UserID d) d m0). md_UserID d = u)"
      using in_mput [OF Cons.prems(2)] by fastforce
    from Cons.IH [OF _ w] Cons.prems(1) p obtain m where
      m: "collect_members h c ss (mput (md_UserID d) d m0) = Some m" "wf_map m"
        "\<forall>u. mhas m u \<longleftrightarrow> mhas (mput (md_UserID d) d m0) u
            \<or> (\<exists>(i, a) \<in> set ss. \<exists>d. getPresenceDataForChannel (h a) c = Some d \<and> md_UserID d = u)"
        "(\<forall>(u, d) \<in> set (mput (md_UserID d) d m0). md_UserID d = u) \<longrightarrow> (\<forall>(u, d) \<in> set m. md_UserID d = u)"
      by auto
    from m(1) Some Cons.prems(1) p have "collect_members h c (p # ss) m0 = Some m" by (simp add: deref_def)
    moreover from m(3) Some p have "mhas m u \<longleftrightarrow> mhas m0 u
        \<or> (\<exists>(i, a) \<in> set (p # ss). \<exists>d. getPresenceDataForChannel (h a) c = Some d \<and> md_UserID d = u)" for u
      by auto
    ultimately show ?thesis using m(2,4) k by blast
  qed
qed auto

lemma GetChannelMembers_spec:
  assumes "ns_wf n"
  obtains m where "n_GetChannelMembers h n c = Some m" "wf_map m"
    "\<And>u. mhas m u \<longleftrightarrow> (\<exists>i a d. n_IsInChannel n i c \<and> map_of (ns_Sockets n) i = Some a
        \<and> getPresenceDataForChannel (h a) c = Some d \<and> md_UserID d = u)"
    "\<forall>(u, d) \<in> set m. md_UserID d = u"
proof -
  note s = GetChannelSockets_in
  have nz: "\<forall>(i, a) \<in> set (n_GetChannelSockets n c). a \<noteq> 0" using s ns_wfD(6) [OF assms] by blast
  from collect_members_spec [OF nz wf_map_Nil, of h c] obtain m
    where m: "collect_members h c (n_GetChannelSockets n c) [] = Some m" "wf_map m"
      "\<forall>u. mhas m u \<longleftrightarrow> (\<exists>(i, a) \<in> set (n_GetChannelSockets n c). \<exists>d. getPresenceDataForChannel (h a) c = Some d \<and> md_UserID d = u)"
      "\<forall>(u, d) \<in> set m. md_UserID d = u" by auto
  show thesis
  proof (rule that [OF _ m(2) _ m(4)])
    show "n_GetChannelMembers h n c = Some m" using m(1) by (simp add: n_GetChannelMembers_def)
    show "mhas m u \<longleftrightarrow> (\<exists>i a d. n_IsInChannel n i c \<and> map_of (ns_Sockets n) i = Some a
        \<and> getPresenceDataForChannel (h a) c = Some d \<and> md_UserID d = u)" for u
    proof -
      have "(\<exists>x \<in> set (n_GetChannelSockets n c). case x of (i, a) \<Rightarrow> P a) \<longleftrightarrow>
          (\<exists>i a. n_IsInChannel n i c \<and> map_of (ns_Sockets n) i = Some a \<and> P a)" for P
        by (simp add: Bex_def s)
      with m(3) show ?thesis by simp
    qed
  qed
qed

subsection \<open>Properties\<close>

text \<open>C12
  Any sequence of namespace operations, each with its own snapshot of the sockets, runs without a
  panic from a blank namespace, keeps every map free of duplicate keys and of empty entries, and
  computes exactly the connected sockets, the subscription relation and the user relation that the
  specification gives. In particular the memory compaction changes nothing that can be observed.
\<close>
theorem namespace_refines:
  assumes "list_all ns_valid ops"
  shows "\<exists>n. run_opt ns_exec ops blankNamespace = Some n \<and> ns_wf n
     \<and> abs_ns n = fold ns_spec ops blank_abs"
  using ns.run [OF ns_wf_blank assms] by simp

definition blank_socket :: WebSocket where
  "blank_socket = \<lparr>ws_ID = [], ws_app = None, ws_SubscribedChannels = Some [], ws_PresenceData = Some [],
     ws_conn = None, ws_closed = False, ws_server = True, ws_userID = [], ws_userAuthChannel = None,
     ws_userHasAuthorized = False\<rparr>"

theorem namespace_refines_witness:
  "\<exists>n. run_opt ns_exec [OpAddSocket (\<lambda>_. blank_socket) 1, OpAddToChannel (\<lambda>_. blank_socket) 1 ''c'',
          OpRemoveSocket (\<lambda>_. blank_socket) []] blankNamespace = Some n \<and> ns_wf n
     \<and> abs_ns n = fold ns_spec [OpAddSocket (\<lambda>_. blank_socket) 1, OpAddToChannel (\<lambda>_. blank_socket) 1 ''c'',
          OpRemoveSocket (\<lambda>_. blank_socket) []] blank_abs"
  by (rule namespace_refines) simp

text \<open>
  The members of a presence channel are counted per user: the member map has one entry for each
  user that has presence data on some connected subscriber, keyed by that user, however many
  sockets the user has.
\<close>
theorem members_are_users:
  assumes "ns_wf n"
  shows "\<exists>m. n_GetChannelMembers h n c = Some m \<and> wf_map m
     \<and> length m = card {u. \<exists>i a d. n_IsInChannel n i c \<and> map_of (ns_Sockets n) i = Some a
         \<and> getPresenceDataForChannel (h a) c = Some d \<and> md_UserID d = u}
     \<and> (\<forall>(u, d) \<in> set m. md_UserID d = u)"
proof -
  from GetChannelMembers_spec [OF assms, of h c] obtain m where m:
    "n_GetChannelMembers h n c = Some m" "wf_map m"
    "\<And>u. mhas m u \<longleftrightarrow> (\<exists>i a d. n_IsInChannel n i c \<and> map_of (ns_Sockets n) i = Some a
        \<and> getPresenceDataForChannel (h a) c = Some d \<and> md_UserID d = u)"
    "\<forall>(u, d) \<in> set m. md_UserID d = u" by blast
  have "fst ` set m = {u. mhas m u}" by (auto simp: mhas_iff)
  with m length_keys [OF m(2)] show ?thesis by simp
qed

theorem members_are_users_witness:
  "\<exists>m. n_GetChannelMembers (\<lambda>_. blank_socket) blankNamespace ''presence-x'' = Some m \<and> wf_map m
     \<and> length m = card {u. \<exists>i a d. n_IsInChannel blankNamespace i ''presence-x'' \<and> map_of (ns_Sockets blankNamespace) i = Some a
         \<and> getPresenceDataForChannel blank_socket ''presence-x'' = Some d \<and> md_UserID d = u}
     \<and> (\<forall>(u, d) \<in> set m. md_UserID d = u)"
  using members_are_users [OF ns_wf_blank, of "\<lambda>_. blank_socket" "''presence-x''"] .

end
