(* ===== verification/Local_Adapter.thy ===== *)
theory Local_Adapter
  imports NamespaceM
begin

text \<open>
  \<open>internal/adaptersLocal.go\<close>: the adapter of a single node, on the namespaces of the state
  \<open>World\<close>. An operation that can dereference nil or allocate a negative capacity returns an
  \<open>option\<close>; its error value is a message. The compaction goroutine a new namespace starts is the
  operation \<open>CompactMaps\<close> of the namespace theory; starting it has no other effect.
\<close>

definition namespaces :: "World \<Rightarrow> (AppID, Namespace) gomap" where
  "namespaces w = (case w_Namespaces w of None \<Rightarrow> [] | Some m \<Rightarrow> m)"

definition ns_of :: "World \<Rightarrow> AppID \<Rightarrow> Namespace option" where
  "ns_of w appID = map_of (namespaces w) appID"

text \<open>Assigning to an entry of a nil map panics.\<close>

definition put_ns :: "AppID \<Rightarrow> Namespace \<Rightarrow> World \<Rightarrow> World option" where
  "put_ns appID n w =
     (case w_Namespaces w of None \<Rightarrow> None | Some m \<Rightarrow> Some (w\<lparr>w_Namespaces := Some (mput appID n m)\<rparr>))"

text \<open>The namespaces are pointers: a method called through the map changes the entry in place.\<close>

definition set_ns :: "AppID \<Rightarrow> Namespace \<Rightarrow> World \<Rightarrow> World" where
  "set_ns appID n w = w\<lparr>w_Namespaces := map_option (mput appID n) (w_Namespaces w)\<rparr>"

definition la_Init :: "World \<Rightarrow> World" where
  "la_Init w = w\<lparr>w_Namespaces := Some []\<rparr>"

definition la_GetNamespace :: "AppID \<Rightarrow> World \<Rightarrow> string + Namespace" where
  "la_GetNamespace appID w =
     (case ns_of w appID of Some ns \<Rightarrow> Inr ns | None \<Rightarrow> Inl ''namespace not found'')"

definition la_GetChannelsWithSocketsCount :: "AppID \<Rightarrow> World \<Rightarrow> (ChannelName, int) gomap" where
  "la_GetChannelsWithSocketsCount appID w =
     (case ns_of w appID of None \<Rightarrow> [] | Some n \<Rightarrow> n_GetChannelsWithSocketsCount n)"

definition updateChannelMetrics :: "AppID \<Rightarrow> World \<Rightarrow> World" where
  "updateChannelMetrics appID w =
     (let channels = la_GetChannelsWithSocketsCount appID w;
          names = map fst channels;
          presence = filter IsPresenceChannel names;
          private = filter (\<lambda>c. \<not> IsPresenceChannel c \<and> IsPrivateChannel c) names;
          public = filter (\<lambda>c. \<not> IsPresenceChannel c \<and> \<not> IsPrivateChannel c) names
      in w\<lparr>w_metrics :=
            SetPublicChannels (int (length public))
             (SetPrivateChannels (int (length private))
              (SetPresenceChannels (int (length presence))
               (SetChannelsTotal (int (length channels)) (w_metrics w))))\<rparr>)"

definition la_AddSocket :: "AppID \<Rightarrow> addr \<Rightarrow> World \<Rightarrow> (string option \<times> World) option" where
  "la_AddSocket appID a w =
     (if w_Namespaces w = None then Some (Some ''adapter not initialized'', w)
      else
        do { w \<leftarrow> (if ns_of w appID = None then put_ns appID blankNamespace w else Some w);
             n \<leftarrow> ns_of w appID;
             (added, n) \<leftarrow> n_AddSocket (w_heap w) a n;
             if \<not> added then Some (Some ''socket already exists'', w)
             else Some (None, updateChannelMetrics appID (set_ns appID n w)) })"

definition la_RemoveSocket :: "AppID \<Rightarrow> SocketID \<Rightarrow> World \<Rightarrow> World option" where
  "la_RemoveSocket appID wsID w =
     (case ns_of w appID of
        None \<Rightarrow> Some w
      | Some n \<Rightarrow>
          do { n \<leftarrow> n_RemoveSocket (w_heap w) wsID n;
               Some (updateChannelMetrics appID (set_ns appID n w)) })"

definition la_AddToChannel :: "AppID \<Rightarrow> ChannelName \<Rightarrow> addr \<Rightarrow> World \<Rightarrow> ((string + int) \<times> World) option" where
  "la_AddToChannel appID channel a w =
     (case ns_of w appID of
        None \<Rightarrow> Some (Inl ''namespace not found'', w)
      | Some n \<Rightarrow>
          do { (cnt, n) \<leftarrow> n_AddToChannel (w_heap w) a channel n;
               Some (Inr cnt, updateChannelMetrics appID (set_ns appID n w)) })"

definition la_RemoveFromChannel ::
  "AppID \<Rightarrow> ChannelName list \<Rightarrow> SocketID \<Rightarrow> World \<Rightarrow> (int \<times> World) option" where
  "la_RemoveFromChannel appID channels wsID w =
     (case ns_of w appID of
        None \<Rightarrow> Some (0, w)
      | Some n \<Rightarrow>
          do { (cnt, n) \<leftarrow> n_RemoveFromChannel wsID channels n;
               Some (cnt, updateChannelMetrics appID (set_ns appID n w)) })"

definition la_GetUserSockets :: "AppID \<Rightarrow> UserID \<Rightarrow> World \<Rightarrow> string + addr list" where
  "la_GetUserSockets appID userID w =
     (case ns_of w appID of None \<Rightarrow> Inl ''namespace not found'' | Some n \<Rightarrow> Inr (n_GetUserSockets n userID))"

fun send_all :: "string \<Rightarrow> addr list \<Rightarrow> World \<Rightarrow> World option" where
  "send_all data [] w = Some w"
| "send_all data (a # as) w = do { w \<leftarrow> ws_Send a data w; send_all data as w }"

text \<open>\<open>Send\<close>: the error, or nil. Messages for the channel of one user go to that user's sockets.\<close>

definition la_Send ::
  "AppID \<Rightarrow> ChannelName \<Rightarrow> string \<Rightarrow> SocketID list \<Rightarrow> World \<Rightarrow> (string option \<times> World) option" where
  "la_Send appID channel data exceptIDs w =
     (if HasPrefix channel SocketRushServerToUserPrefix then
        (case la_GetUserSockets appID (TrimPrefix channel SocketRushServerToUserPrefix) w of
           Inl err \<Rightarrow> Some (Some err, w)
         | Inr sockets \<Rightarrow> do { w \<leftarrow> send_all data sockets w; Some (None, w) })
      else
        case ns_of w appID of
          None \<Rightarrow> Some (Some ''namespace not found'', w)
        | Some n \<Rightarrow>
            (let sockets = n_GetChannelSockets n channel;
                 hasExceptingIds = (length exceptIDs > 0 \<and> exceptIDs ! 0 \<noteq> []);
                 targets = filter (\<lambda>(socketId, a). \<not> (hasExceptingIds \<and> socketId = exceptIDs ! 0)) sockets
             in do { w \<leftarrow> send_all data (map snd targets) w; Some (None, w) }))"

definition la_ClearNamespace :: "AppID \<Rightarrow> World \<Rightarrow> World" where
  "la_ClearNamespace appID w = (if ns_of w appID = None then w else set_ns appID blankNamespace w)"

definition la_ClearNamespaces :: "World \<Rightarrow> World" where
  "la_ClearNamespaces w = w\<lparr>w_Namespaces := Some []\<rparr>"

definition la_GetSockets :: "AppID \<Rightarrow> World \<Rightarrow> (SocketID, addr) gomap" where
  "la_GetSockets appID w = (case ns_of w appID of None \<Rightarrow> [] | Some n \<Rightarrow> n_GetSockets n)"

definition la_GetSocketsCount :: "AppID \<Rightarrow> World \<Rightarrow> int" where
  "la_GetSocketsCount appID w =
     (case ns_of w appID of None \<Rightarrow> 0 | Some n \<Rightarrow> int (length (n_GetSockets n)))"

definition la_GetChannels :: "AppID \<Rightarrow> World \<Rightarrow> (ChannelName, SocketID list) gomap option" where
  "la_GetChannels appID w = map_option n_GetChannels (ns_of w appID)"

definition la_GetChannelSockets :: "AppID \<Rightarrow> ChannelName \<Rightarrow> World \<Rightarrow> (SocketID, addr) gomap" where
  "la_GetChannelSockets appID channel w =
     (case ns_of w appID of None \<Rightarrow> [] | Some n \<Rightarrow> n_GetChannelSockets n channel)"

definition la_GetChannelSocketsCount :: "AppID \<Rightarrow> ChannelName \<Rightarrow> World \<Rightarrow> int" where
  "la_GetChannelSocketsCount appID channel w =
     (case ns_of w appID of None \<Rightarrow> 0 | Some n \<Rightarrow> int (length (n_GetChannelSockets n channel)))"

definition la_GetChannelMembers :: "AppID \<Rightarrow> ChannelName \<Rightarrow> World \<Rightarrow> (UserID, MemberData) gomap option" where
  "la_GetChannelMembers appID channel w =
     (case ns_of w appID of None \<Rightarrow> Some [] | Some n \<Rightarrow> n_GetChannelMembers (w_heap w) n channel)"

definition la_GetChannelMembersCount :: "AppID \<Rightarrow> ChannelName \<Rightarrow> World \<Rightarrow> int option" where
  "la_GetChannelMembersCount appID channel w =
     (case ns_of w appID of
        None \<Rightarrow> Some 0
      | Some n \<Rightarrow> map_option (\<lambda>m. int (length m)) (n_GetChannelMembers (w_heap w) n channel))"

definition la_IsInChannel :: "AppID \<Rightarrow> ChannelName \<Rightarrow> SocketID \<Rightarrow> World \<Rightarrow> bool" where
  "la_IsInChannel appID channel wsID w =
     (case ns_of w appID of None \<Rightarrow> False | Some n \<Rightarrow> n_IsInChannel n wsID channel)"

definition la_AddUser :: "AppID \<Rightarrow> addr \<Rightarrow> World \<Rightarrow> (string option \<times> World) option" where
  "la_AddUser appID a w =
     (case ns_of w appID of
        None \<Rightarrow> Some (Some ''namespace not found'', w)
      | Some n \<Rightarrow> do { n \<leftarrow> n_AddUser (w_heap w) a n; Some (None, set_ns appID n w) })"

definition la_RemoveUser :: "AppID \<Rightarrow> addr \<Rightarrow> World \<Rightarrow> (string option \<times> World) option" where
  "la_RemoveUser appID a w =
     (case ns_of w appID of
        None \<Rightarrow> Some (Some ''namespace not found'', w)
      | Some n \<Rightarrow> do { n \<leftarrow> n_RemoveUser (w_heap w) a n; Some (None, set_ns appID n w) })"

definition la_GetPresenceChannelsWithUsersCount :: "AppID \<Rightarrow> World \<Rightarrow> (ChannelName, int) gomap option" where
  "la_GetPresenceChannelsWithUsersCount appID w =
     (case ns_of w appID of
        None \<Rightarrow> Some [] | Some n \<Rightarrow> n_GetPresenceChannelsWithUsersCount (w_heap w) n)"

subsection \<open>Well-formed adapters\<close>

definition la_wf :: "World \<Rightarrow> bool" where
  "la_wf w = (w_Namespaces w \<noteq> None \<and> wf_map (namespaces w) \<and> (\<forall>(i, n) \<in> set (namespaces w). ns_wf n))"

lemma la_wf_ns: "la_wf w \<Longrightarrow> ns_of w appID = Some n \<Longrightarrow> ns_wf n"
  by (auto simp: la_wf_def ns_of_def dest!: map_of_SomeD)

lemma w_updates [simp]:
  "w_heap (set_ns appID n w) = w_heap w" "w_metrics (set_ns appID n w) = w_metrics w"
  "w_cache (set_ns appID n w) = w_cache w" "w_queue (set_ns appID n w) = w_queue w"
  "w_apps (set_ns appID n w) = w_apps w" "w_Closing (set_ns appID n w) = w_Closing w"
  "w_now (set_ns appID n w) = w_now w" "w_lib (set_ns appID n w) = w_lib w"
  "w_heap (updateChannelMetrics appID w) = w_heap w"
  "w_Namespaces (updateChannelMetrics appID w) = w_Namespaces w"
  "w_cache (updateChannelMetrics appID w) = w_cache w" "w_queue (updateChannelMetrics appID w) = w_queue w"
  "w_apps (updateChannelMetrics appID w) = w_apps w" "w_Closing (updateChannelMetrics appID w) = w_Closing w"
  "w_now (updateChannelMetrics appID w) = w_now w" "w_lib (updateChannelMetrics appID w) = w_lib w"
  by (simp_all add: set_ns_def updateChannelMetrics_def Let_def)

lemma ns_of_updates [simp]:
  "ns_of (updateChannelMetrics appID w) appID' = ns_of w appID'"
  "ns_of (upd_ws a f w) appID' = ns_of w appID'"
  by (simp_all add: ns_of_def namespaces_def)

lemma ns_of_set_ns:
  "w_Namespaces w \<noteq> None \<Longrightarrow> ns_of (set_ns appID n w) appID' = (if appID' = appID then Some n else ns_of w appID')"
  by (auto simp: ns_of_def namespaces_def set_ns_def)

lemma ns_of_Some_init: "ns_of w appID = Some n \<Longrightarrow> w_Namespaces w \<noteq> None"
  by (cases "w_Namespaces w") (auto simp: ns_of_def namespaces_def)

lemma la_wf_metrics [simp]: "la_wf (updateChannelMetrics appID w) = la_wf w"
  by (simp add: la_wf_def namespaces_def)

lemma la_wf_set_ns: "la_wf w \<Longrightarrow> ns_wf n \<Longrightarrow> la_wf (set_ns appID n w)"
  using in_mput [of "namespaces w" _ _ appID n]
  by (fastforce simp: la_wf_def namespaces_def set_ns_def)

lemma la_wf_same_namespaces: "w_Namespaces w' = w_Namespaces w \<Longrightarrow> la_wf w' = la_wf w"
  by (simp add: la_wf_def namespaces_def)

lemma ns_of_same_namespaces: "w_Namespaces w' = w_Namespaces w \<Longrightarrow> ns_of w' = ns_of w"
  by (simp add: ns_of_def namespaces_def fun_eq_iff)

text \<open>Everything but the namespaces and the metrics is as before.\<close>

definition la_frame :: "World \<Rightarrow> World \<Rightarrow> bool" where
  "la_frame w' w = (w_heap w' = w_heap w \<and> w_cache w' = w_cache w \<and> w_queue w' = w_queue w
     \<and> w_apps w' = w_apps w \<and> w_Closing w' = w_Closing w \<and> w_now w' = w_now w \<and> w_lib w' = w_lib w)"

lemma la_frame_simps [simp]:
  "la_frame w w" "la_frame (set_ns appID n w) w" "la_frame (updateChannelMetrics appID (set_ns appID n w)) w"
  by (simp_all add: la_frame_def)

text \<open>An operation on the namespace of one app, followed by the metrics update.\<close>

lemma ns_update:
  assumes wf: "la_wf w" and n: "ns_of w appID = Some n" and n': "ns_wf n'"
  shows "la_wf (updateChannelMetrics appID (set_ns appID n' w))"
    and "ns_of (updateChannelMetrics appID (set_ns appID n' w)) appID' = (if appID' = appID then Some n' else ns_of w appID')"
    and "la_wf (set_ns appID n' w)"
    and "ns_of (set_ns appID n' w) appID' = (if appID' = appID then Some n' else ns_of w appID')"
  using la_wf_set_ns [OF wf n'] ns_of_set_ns [OF ns_of_Some_init [OF n]] by simp_all

lemma exec_AddToChannel:
  assumes "ns_wf n" "a \<noteq> 0"
  obtains cnt n' where "n_AddToChannel h a c n = Some (cnt, n')" "ns_wf n'"
    "abs_ns n' = ns_spec (OpAddToChannel h a c) (abs_ns n)"
  using ns_step [OF assms(1), of "OpAddToChannel h a c"] assms(2) by auto

lemma exec_RemoveFromChannel:
  assumes "ns_wf n"
  obtains cnt n' where "n_RemoveFromChannel i cs n = Some (cnt, n')" "ns_wf n'"
    "abs_ns n' = ns_spec (OpRemoveFromChannel i cs) (abs_ns n)"
  using ns_step [OF assms(1), of "OpRemoveFromChannel i cs"] by auto

lemma la_AddToChannel_spec:
  assumes "la_wf w" "ns_of w appID = Some n" "a \<noteq> 0"
  obtains cnt w' n' where "la_AddToChannel appID c a w = Some (Inr cnt, w')" "la_wf w'" "la_frame w' w"
    "ns_of w' appID = Some n'" "abs_ns n' = ns_spec (OpAddToChannel (w_heap w) a c) (abs_ns n)"
    "\<And>app'. app' \<noteq> appID \<Longrightarrow> ns_of w' app' = ns_of w app'"
proof -
  from exec_AddToChannel [OF la_wf_ns [OF assms(1,2)] assms(3), of "w_heap w" c] obtain cnt n'
    where n': "n_AddToChannel (w_heap w) a c n = Some (cnt, n')" "ns_wf n'"
      "abs_ns n' = ns_spec (OpAddToChannel (w_heap w) a c) (abs_ns n)" .
  note u = ns_update [OF assms(1,2) n'(2)]
  show thesis
    by (rule that [of cnt "updateChannelMetrics appID (set_ns appID n' w)" n'])
      (use assms(2) n' u in \<open>simp_all add: la_AddToChannel_def\<close>)
qed

lemma la_RemoveFromChannel_spec:
  assumes "la_wf w" "ns_of w appID = Some n"
  obtains cnt w' n' where "la_RemoveFromChannel appID cs i w = Some (cnt, w')" "la_wf w'" "la_frame w' w"
    "ns_of w' appID = Some n'" "abs_ns n' = ns_spec (OpRemoveFromChannel i cs) (abs_ns n)"
    "\<And>app'. app' \<noteq> appID \<Longrightarrow> ns_of w' app' = ns_of w app'"
proof -
  from exec_RemoveFromChannel [OF la_wf_ns [OF assms(1,2)], of i cs] obtain cnt n'
    where n': "n_RemoveFromChannel i cs n = Some (cnt, n')" "ns_wf n'"
      "abs_ns n' = ns_spec (OpRemoveFromChannel i cs) (abs_ns n)" .
  note u = ns_update [OF assms(1,2) n'(2)]
  show thesis
    by (rule that [of cnt "updateChannelMetrics appID (set_ns appID n' w)" n'])
      (use assms(2) n' u in \<open>simp_all add: la_RemoveFromChannel_def\<close>)
qed

lemma la_RemoveSocket_spec:
  assumes "la_wf w"
  obtains w' where "la_RemoveSocket appID i w = Some w'" "la_wf w'" "la_frame w' w"
    "\<And>n. ns_of w appID = Some n \<Longrightarrow>
       \<exists>n'. ns_of w' appID = Some n' \<and> abs_ns n' = ns_spec (OpRemoveSocket (w_heap w) i) (abs_ns n)"
    "\<And>app'. app' \<noteq> appID \<Longrightarrow> ns_of w' app' = ns_of w app'"
proof (cases "ns_of w appID")
  case None
  with that assms show thesis by (simp add: la_RemoveSocket_def)
next
  case (Some n)
  from n_RemoveSocket_total [OF la_wf_ns [OF assms Some], of "w_heap w" i] obtain n'
    where n': "n_RemoveSocket (w_heap w) i n = Some n'" "ns_wf n'"
      "abs_ns n' = ns_spec (OpRemoveSocket (w_heap w) i) (abs_ns n)" .
  note u = ns_update [OF assms Some n'(2)]
  show thesis
    by (rule that [of "updateChannelMetrics appID (set_ns appID n' w)"])
      (use Some n' u in \<open>simp_all add: la_RemoveSocket_def\<close>)
qed

lemma la_AddSocket_spec:
  assumes "la_wf w" "a \<noteq> 0"
  obtains err w' where "la_AddSocket appID a w = Some (err, w')" "la_wf w'" "la_frame w' w"
    "ns_of w' appID \<noteq> None"
    "err = None \<longleftrightarrow> (case ns_of w appID of None \<Rightarrow> True | Some n \<Rightarrow> \<not> mhas (ns_Sockets n) (ws_ID (w_heap w a)))"
    "err = None \<longrightarrow> la_GetSocketsCount appID w' = la_GetSocketsCount appID w + 1"
    "err = None \<longrightarrow> (\<exists>n'. ns_of w' appID = Some n' \<and> ns_Sockets n' =
       mput (ws_ID (w_heap w a)) a (case ns_of w appID of None \<Rightarrow> [] | Some n \<Rightarrow> ns_Sockets n))"
    "err \<noteq> None \<longrightarrow> w' = w"
    "\<forall>app'. app' \<noteq> appID \<longrightarrow> ns_of w' app' = ns_of w app'"
proof -
  let ?i = "ws_ID (w_heap w a)"
  from assms(1) obtain m where m: "w_Namespaces w = Some m" by (auto simp: la_wf_def)
  define n where "n = (case ns_of w appID of None \<Rightarrow> blankNamespace | Some n \<Rightarrow> n)"
  have nwf: "ns_wf n" using la_wf_ns [OF assms(1), of appID] by (auto simp: n_def split: option.split)
  define w1 where "w1 = (if ns_of w appID = None then set_ns appID blankNamespace w else w)"
  have w1: "(if ns_of w appID = None then put_ns appID blankNamespace w else Some w) = Some w1"
    using m by (simp add: w1_def put_ns_def set_ns_def)
  have w1wf: "la_wf w1" using la_wf_set_ns [OF assms(1) ns_wf_blank] assms(1) by (simp add: w1_def)
  have w1n: "ns_of w1 appID = Some n" and w1o: "\<And>app'. app' \<noteq> appID \<Longrightarrow> ns_of w1 app' = ns_of w app'"
    and w1f: "la_frame w1 w"
    using m ns_of_set_ns [of w appID blankNamespace] by (auto simp: w1_def n_def)
  show thesis
  proof (cases "mhas (ns_Sockets n) ?i")
    case True
    then have s: "ns_of w appID \<noteq> None" by (cases "ns_of w appID") (auto simp: n_def blankNamespace_def)
    then have "w1 = w" by (auto simp: w1_def)
    have "la_AddSocket appID a w = Some (Some ''socket already exists'', w)"
      using m w1 w1n True assms(2) \<open>w1 = w\<close> by (simp add: la_AddSocket_def n_AddSocket_def deref_def)
    with that [of "Some ''socket already exists''" w] show thesis
      using assms(1) s True by (auto simp: n_def)
  next
    case False
    let ?n = "n\<lparr>ns_Sockets := mput ?i a (ns_Sockets n)\<rparr>"
    let ?w = "updateChannelMetrics appID (set_ns appID ?n w1)"
    have "n_AddSocket (w_heap w) a n = Some (True, ?n)"
      using False assms(2) by (simp add: n_AddSocket_def)
    moreover have nwf': "ns_wf ?n"
      using ns_step [OF nwf, of "OpAddSocket (w_heap w) a"] assms(2) calculation by simp
    ultimately have e: "la_AddSocket appID a w = Some (None, ?w)"
      using m w1 w1n w1f by (simp add: la_AddSocket_def la_frame_def)
    note u = ns_update [OF w1wf w1n nwf']
    have c: "la_GetSocketsCount appID ?w = la_GetSocketsCount appID w + 1"
      using u(2) [of appID] False
      by (auto simp: la_GetSocketsCount_def n_GetSockets_def length_mput n_def blankNamespace_def split: option.splits)
    have sk: "\<exists>n'. ns_of ?w appID = Some n' \<and> ns_Sockets n' =
       mput ?i a (case ns_of w appID of None \<Rightarrow> [] | Some n \<Rightarrow> ns_Sockets n)"
      using u(2) [of appID] by (auto simp: n_def blankNamespace_def split: option.split)
    have f: "la_frame ?w w" using w1f by (simp add: la_frame_def)
    have i: "case ns_of w appID of None \<Rightarrow> True | Some n \<Rightarrow> \<not> mhas (ns_Sockets n) ?i"
      using False by (simp add: n_def split: option.splits)
    show thesis
      by (rule that [OF e u(1) f]) (use u(2) c i w1o sk in simp_all)
  qed
qed

subsection \<open>Broadcasting\<close>

lemma send_all_effect:
  assumes "distinct as" "\<forall>a \<in> set as. sane w a"
  obtains w' where "send_all msg as w = Some w'" "send_frame w' w"
    "\<And>b. wire w' b = wire w b @ (if b \<in> set as \<and> live w b then [msg] else [])"
    "\<And>b. live w' b = live w b" "\<And>b. sane w b \<Longrightarrow> sane w' b"
proof -
  have "\<exists>w'. send_all msg as w = Some w' \<and> send_frame w' w
      \<and> (\<forall>b. wire w' b = wire w b @ (if b \<in> set as \<and> live w b then [msg] else []))
      \<and> (\<forall>b. live w' b = live w b) \<and> (\<forall>b. sane w b \<longrightarrow> sane w' b)"
    using assms
  proof (induction as arbitrary: w)
    case (Cons a as)
    from Cons.prems(2) have "sane w a" by simp
    from ws_Send_effect [OF this, of msg] obtain w1 where w1: "ws_Send a msg w = Some w1" "send_frame w1 w"
      "\<And>b. wire w1 b = wire w b @ (if b = a \<and> live w b then [msg] else [])"
      "\<And>b. live w1 b = live w b" "\<And>b. sane w b \<Longrightarrow> sane w1 b" by blast
    from Cons.IH [of w1] Cons.prems w1(5) obtain w' where w': "send_all msg as w1 = Some w'" "send_frame w' w1"
      "\<forall>b. wire w' b = wire w1 b @ (if b \<in> set as \<and> live w1 b then [msg] else [])"
      "\<forall>b. live w' b = live w1 b" "\<forall>b. sane w1 b \<longrightarrow> sane w' b" by auto
    have "wire w' b = wire w b @ (if b \<in> set (a # as) \<and> live w b then [msg] else [])" for b
      using w'(3) w1(3,4) Cons.prems(1) by auto
    with w1 w' send_frame_trans [OF w'(2) w1(2)] show ?case by auto
  qed simp
  then show thesis using that by blast
qed

text \<open>Every socket is stored under its own id, and no open one has lost its server or app.\<close>

definition sockets_ok :: "heap \<Rightarrow> Namespace \<Rightarrow> bool" where
  "sockets_ok h n = (\<forall>(i, a) \<in> set (ns_Sockets n). ws_ID (h a) = i)"

text \<open>The sockets a message for a channel goes to.\<close>

definition subscribers :: "Namespace \<Rightarrow> ChannelName \<Rightarrow> SocketID list \<Rightarrow> addr set" where
  "subscribers n c except =
     {a. \<exists>i. n_IsInChannel n i c \<and> map_of (ns_Sockets n) i = Some a \<and> \<not> (except \<noteq> [] \<and> hd except \<noteq> [] \<and> i = hd except)}"

lemma targets_distinct:
  assumes "sockets_ok h n"
  shows "distinct (map snd (filter P (n_GetChannelSockets n c)))"
proof -
  have k: "distinct (map fst (n_GetChannelSockets n c))"
    using GetChannelSockets_spec(1) [of n c] by (simp add: wf_map_def)
  have id: "ws_ID (h a) = i" if "(i, a) \<in> set (n_GetChannelSockets n c)" for i a
    using that assms by (auto simp: GetChannelSockets_in sockets_ok_def dest: map_of_SomeD)
  have "distinct (map snd ss)" if "distinct (map fst ss)" "\<forall>(i, a) \<in> set ss. ws_ID (h a) = i"
    for ss :: "(SocketID \<times> addr) list"
    using that by (induction ss) force+
  then have "distinct (map snd (n_GetChannelSockets n c))" using k id by blast
  then show ?thesis by (rule distinct_map_filter)
qed

lemma la_Send_channel:
  assumes "ns_of w appID = Some n" "sockets_ok (w_heap w) n" "\<not> HasPrefix c SocketRushServerToUserPrefix"
    and "\<forall>a \<in> subscribers n c except. sane w a"
  obtains w' where "la_Send appID c msg except w = Some (None, w')" "send_frame w' w"
    "\<And>b. wire w' b = wire w b @ (if b \<in> subscribers n c except \<and> live w b then [msg] else [])"
    "\<And>b. live w' b = live w b" "\<And>b. sane w b \<Longrightarrow> sane w' b"
proof -
  let ?P = "\<lambda>(socketId, a). \<not> ((length except > 0 \<and> except ! 0 \<noteq> []) \<and> socketId = except ! 0)"
  let ?as = "map snd (filter ?P (n_GetChannelSockets n c))"
  have s: "set ?as = subscribers n c except"
  proof (rule set_eqI)
    fix a
    have "a \<in> set ?as \<longleftrightarrow> (\<exists>i. (i, a) \<in> set (n_GetChannelSockets n c) \<and> ?P (i, a))" by force
    then show "a \<in> set ?as \<longleftrightarrow> a \<in> subscribers n c except"
      by (cases except) (auto simp: GetChannelSockets_in subscribers_def)
  qed
  have e: "la_Send appID c msg except w = do { w \<leftarrow> send_all msg ?as w; Some (None, w) }"
    using assms(1,3) by (simp only: la_Send_def Let_def if_False option.case)
  obtain w' where w': "send_all msg ?as w = Some w'" "send_frame w' w"
    "\<And>b. wire w' b = wire w b @ (if b \<in> set ?as \<and> live w b then [msg] else [])"
    "\<And>b. live w' b = live w b" "\<And>b. sane w b \<Longrightarrow> sane w' b"
    using send_all_effect [OF targets_distinct [OF assms(2), of ?P c], of w msg] assms(4) unfolding s by blast
  have "la_Send appID c msg except w = Some (None, w')" unfolding e w'(1) by simp
  from that [OF this w'(2) w'(3) [unfolded s] w'(4) w'(5)] show thesis .
qed

subsection \<open>Properties\<close>

text \<open>C13
  A message sent to a channel is written exactly once to every live socket that is subscribed to it
  and connected, except to the excluded one, and to no other socket; nobody else's connection and
  no part of the adapter's state changes.
\<close>
theorem broadcast_delivers:
  assumes "ns_of w appID = Some n" "sockets_ok (w_heap w) n"
    and "\<not> HasPrefix c SocketRushServerToUserPrefix" "\<forall>a \<in> subscribers n c except. sane w a"
  shows "\<exists>w'. la_Send appID c msg except w = Some (None, w')
    \<and> (\<forall>b. wire w' b = wire w b @ (if b \<in> subscribers n c except \<and> live w b then [msg] else []))
    \<and> w_Namespaces w' = w_Namespaces w"
  by (rule la_Send_channel [OF assms, where msg = msg]) (auto simp: send_frame_def)

definition blank_world :: World where
  "blank_world = \<lparr>w_heap = (\<lambda>_. blank_socket), w_Namespaces = Some [(''1'', blankNamespace)],
     w_metrics = NoOpMetrics, w_cache = [], w_queue = \<lparr>q_webhookSender = False,
     q_flap = NewFlapDetector False 0, q_jobs = []\<rparr>, w_apps = [], w_Closing = False, w_now = 0,
     w_lib = \<lparr>unmarshal_member = (\<lambda>_. None), marshal_member = (\<lambda>_. []), json_error_text = (\<lambda>_. [])\<rparr>\<rparr>"

definition demo_conn :: Conn where
  "demo_conn = \<lparr>cn_wire = [], cn_write_ok = True, cn_close_ok = True, cn_readDeadline = None\<rparr>"

definition demo_app :: App where
  "demo_app = zero_app\<lparr>app_ID := ''1'', app_Key := ''k'', app_Secret := ''s'', app_Enabled := True,
     app_EnableClientMessages := True, app_MaxConnections := -1, app_MaxPresenceMembersPerChannel := 100,
     app_MaxPresenceMemberSizeInKb := 10, app_MaxChannelNameLength := 100, app_MaxEventChannelsAtOnce := 10,
     app_MaxEventNameLength := 100, app_MaxEventPayloadInKb := 100\<rparr>"

definition demo_heap :: heap where
  "demo_heap a = blank_socket\<lparr>ws_ID := (if a = 1 then ''1.1'' else ''2.2''), ws_app := Some demo_app,
     ws_SubscribedChannels := Some [(''c'', CreateChannelFromString demo_app ''c'')],
     ws_conn := Some demo_conn\<rparr>"

definition demo_ns :: Namespace where
  "demo_ns = \<lparr>ns_Channels = [(''c'', [''1.1'', ''2.2''])], ns_Sockets = [(''1.1'', 1), (''2.2'', 2)], ns_Users = []\<rparr>"

definition demo_world :: World where
  "demo_world = blank_world\<lparr>w_heap := demo_heap, w_Namespaces := Some [(''1'', demo_ns)],
     w_apps := [(''1'', demo_app)]\<rparr>"

lemma demo_simps [simp]:
  "ns_of demo_world ''1'' = Some demo_ns" "w_heap demo_world = demo_heap"
  "a \<noteq> 0 \<Longrightarrow> sane demo_world a" "ns_wf demo_ns"
  by (simp_all add: demo_world_def demo_ns_def demo_heap_def sane_def ns_of_def
      namespaces_def blank_world_def blank_socket_def ns_wf_def no_empty_def wf_map_def)

lemma demo_sockets_ok [simp]: "sockets_ok demo_heap demo_ns"
  unfolding sockets_ok_def by (simp add: demo_ns_def demo_heap_def)

lemma demo_heap_simps [simp]:
  "ws_ID (demo_heap a) = (if a = 1 then ''1.1'' else ''2.2'')" "ws_app (demo_heap a) = Some demo_app"
  "ws_SubscribedChannels (demo_heap a) = Some [(''c'', CreateChannelFromString demo_app ''c'')]"
  "ws_PresenceData (demo_heap a) = Some []" "ws_conn (demo_heap a) = Some demo_conn"
  "\<not> ws_closed (demo_heap a)" "ws_server (demo_heap a)" "ws_userID (demo_heap a) = []"
  "ws_userAuthChannel (demo_heap a) = None"
  by (simp_all add: demo_heap_def blank_socket_def)

lemma demo_app_simps [simp]:
  "app_ID demo_app = ''1''" "app_Key demo_app = ''k''" "app_Secret demo_app = ''s''" "app_Enabled demo_app"
  "app_EnableClientMessages demo_app" "app_MaxConnections demo_app = -1" "app_MaxChannelNameLength demo_app = 100"
  "app_MaxPresenceMembersPerChannel demo_app = 100" "app_MaxPresenceMemberSizeInKb demo_app = 10"
  "app_MaxEventChannelsAtOnce demo_app = 10" "app_MaxEventNameLength demo_app = 100"
  "app_MaxEventPayloadInKb demo_app = 100" "app_RequireChannelAuthorization demo_app = False"
  by (simp_all add: demo_app_def zero_app_def)

lemma demo_world_simps [simp]:
  "w_lib demo_world = w_lib blank_world" "w_now demo_world = 0" "w_apps demo_world = [(''1'', demo_app)]"
  "w_Closing demo_world = False" "w_cache demo_world = []" "w_Namespaces demo_world = Some [(''1'', demo_ns)]"
  "w_metrics demo_world = NoOpMetrics"
  by (simp_all add: demo_world_def blank_world_def)

theorem broadcast_delivers_witness:
  "\<exists>w'. la_Send ''1'' ''c'' ''m'' [''1.1''] demo_world = Some (None, w')
    \<and> (\<forall>b. wire w' b = wire demo_world b @ (if b \<in> subscribers demo_ns ''c'' [''1.1''] \<and> live demo_world b then [''m''] else []))
    \<and> w_Namespaces w' = w_Namespaces demo_world"
proof (rule broadcast_delivers)
  show "\<not> HasPrefix ''c'' SocketRushServerToUserPrefix" by (simp add: go_simps prefix_def)
  show "\<forall>a \<in> subscribers demo_ns ''c'' [''1.1'']. sane demo_world a"
    by (auto simp: subscribers_def demo_ns_def split: if_splits intro!: demo_simps(3))
qed simp_all

end
