(* ===== verification/Channels.thy ===== *)
theory Channels
  imports Local_Adapter
begin

text \<open>
  \<open>internal/channels.go\<close>: joining and leaving a channel. \<open>Join\<close> and \<open>Leave\<close> take the adapter
  as an interface: a record of the four operations they call. What they rely on is the locale
  \<open>channel_adapter\<close>, in which their properties are proved; it is interpreted on the local adapter.
\<close>

record 'w AdapterInterface =
  ad_GetChannelMembersCount :: "AppID \<Rightarrow> ChannelName \<Rightarrow> 'w \<Rightarrow> int option"
  ad_AddToChannel :: "AppID \<Rightarrow> ChannelName \<Rightarrow> addr \<Rightarrow> 'w \<Rightarrow> ((string + int) \<times> 'w) option"
  ad_GetChannelSocketsCount :: "AppID \<Rightarrow> ChannelName \<Rightarrow> 'w \<Rightarrow> int"
  ad_RemoveFromChannel :: "AppID \<Rightarrow> ChannelName list \<Rightarrow> SocketID \<Rightarrow> 'w \<Rightarrow> (int \<times> 'w) option"

record ChannelJoinResponse =
  jr_Success :: bool
  jr_ErrorCode :: "ErrorCode option" \<comment> \<open>\<open>None\<close> is the zero value\<close>
  jr_Message :: string
  jr_Type :: string
  jr_ChannelConnections :: int
  jr_Member :: "MemberData option"

record ChannelLeaveResponse =
  lr_Success :: bool
  lr_RemainingConnections :: int
  lr_Member :: "MemberData option"

definition join_error :: "ErrorCode \<Rightarrow> string \<Rightarrow> string \<Rightarrow> ChannelJoinResponse" where
  "join_error code message type =
     \<lparr>jr_Success = False, jr_ErrorCode = Some code, jr_Message = message, jr_Type = type,
      jr_ChannelConnections = 0, jr_Member = None\<rparr>"

definition join_ok :: "int \<Rightarrow> MemberData option \<Rightarrow> ChannelJoinResponse" where
  "join_ok connections member =
     \<lparr>jr_Success = True, jr_ErrorCode = None, jr_Message = [], jr_Type = [],
      jr_ChannelConnections = connections, jr_Member = member\<rparr>"

definition joinPresenceChannel ::
  "Lib \<Rightarrow> 'w AdapterInterface \<Rightarrow> Channel \<Rightarrow> addr \<Rightarrow> SubscribePayload \<Rightarrow> 'w \<Rightarrow> (ChannelJoinResponse \<times> 'w) option" where
  "joinPresenceChannel lib adapter c ws message w =
     do { let app = ch_App c;
          full \<leftarrow> (if app_MaxPresenceMembersPerChannel app > 0
                   then map_option (\<lambda>memberCount. memberCount + 1 > app_MaxPresenceMembersPerChannel app)
                          (ad_GetChannelMembersCount adapter (app_ID app) (ch_Name c) w)
                   else Some False);
          if full then
            Some (join_error ErrCodeOverCapacity
                    ''The maximum number of members in this Channel has been reached'' ''LimitReached'', w)
          else if int (length (sp_ChannelData message)) div 1024 > app_MaxPresenceMemberSizeInKb app then
            Some (join_error ErrCodeClientEventRejected
                    (''The maximum size of the member data is '' @ Itoa (app_MaxPresenceMemberSizeInKb app) @ '' KB'')
                    ''LimitReached'', w)
          else
            do { let member = unmarshal_member lib (sp_ChannelData message);
                 (r, w) \<leftarrow> ad_AddToChannel adapter (app_ID app) (ch_Name c) ws w;
                 let connectionCount = ad_GetChannelSocketsCount adapter (app_ID app) (ch_Name c) w;
                 Some (case r of
                         Inl joinErr \<Rightarrow> (join_error ErroCodeInternalServerError
                                           (''Error joining Channel: '' @ joinErr) ''InternalError'', w)
                       | Inr _ \<Rightarrow> (join_ok connectionCount member, w)) } }"

definition joinNonPresenceChannel ::
  "'w AdapterInterface \<Rightarrow> Channel \<Rightarrow> addr \<Rightarrow> 'w \<Rightarrow> (ChannelJoinResponse \<times> 'w) option" where
  "joinNonPresenceChannel adapter c ws w =
     do { (r, w) \<leftarrow> ad_AddToChannel adapter (app_ID (ch_App c)) (ch_Name c) ws w;
          Some (case r of
                  Inl joinErr \<Rightarrow> (join_error ErroCodeInternalServerError
                                    (''Error joining Channel: '' @ joinErr) ''InternalError'', w)
                | Inr connections \<Rightarrow> (join_ok connections None, w)) }"

text \<open>\<open>Join\<close>; the id of the socket is the argument \<open>wsID\<close>.\<close>

definition Join_channel ::
  "Lib \<Rightarrow> 'w AdapterInterface option \<Rightarrow> Channel \<Rightarrow> addr \<Rightarrow> SocketID \<Rightarrow> SubscribePayload \<Rightarrow> 'w \<Rightarrow>
     (ChannelJoinResponse \<times> 'w) option" where
  "Join_channel lib adapter c ws wsID message w =
     (case adapter of
        None \<Rightarrow> Some (join_error ErroCodeInternalServerError ''No adapter provided to Join()'' ''InternalError'', w)
      | Some adapter \<Rightarrow>
          if ch_RequiresAuth c
             \<and> \<not> ValidateChannelAuth (sp_Auth message) (app_Secret (ch_App c)) wsID (ch_Name c) (sp_ChannelData message)
          then Some (join_error ErrCodeSubscriptionAccessDenied ''Invalid signature'' ''AuthError'', w)
          else if ch_Type c = ChannelTypePresence
          then joinPresenceChannel lib adapter c ws message w
          else joinNonPresenceChannel adapter c ws w)"

definition Leave_channel ::
  "'w AdapterInterface \<Rightarrow> Channel \<Rightarrow> WebSocket \<Rightarrow> 'w \<Rightarrow> (ChannelLeaveResponse \<times> 'w) option" where
  "Leave_channel adapter c s w =
     do { (_, w) \<leftarrow> ad_RemoveFromChannel adapter (app_ID (ch_App c)) [ch_Name c] (ws_ID s) w;
          let remaining = ad_GetChannelSocketsCount adapter (app_ID (ch_App c)) (ch_Name c) w;
          Some (\<lparr>lr_Success = True, lr_RemainingConnections = remaining,
                 lr_Member = (if ch_Type c = ChannelTypePresence
                              then getPresenceDataForChannel s (ch_Name c) else None)\<rparr>, w) }"

lemma join_simps [simp]:
  "jr_Success (join_error code m t) = False" "jr_Success (join_ok k mem) = True"
  "jr_ErrorCode (join_error code m t) = Some code" "jr_Member (join_ok k mem) = mem"
  "jr_ChannelConnections (join_ok k mem) = k"
  by (simp_all add: join_error_def join_ok_def)

subsection \<open>The contract of the adapter\<close>

locale channel_adapter =
  fixes A :: "'w AdapterInterface"
    and wf :: "'w \<Rightarrow> bool"
    and ready :: "AppID \<Rightarrow> 'w \<Rightarrow> bool"
    and subs :: "AppID \<Rightarrow> 'w \<Rightarrow> (ChannelName \<times> SocketID) set"
    and ident :: "'w \<Rightarrow> addr \<Rightarrow> SocketID"
  assumes members_total: "wf w \<Longrightarrow> \<exists>k. ad_GetChannelMembersCount A app c w = Some k"
    and add: "wf w \<Longrightarrow> ready app w \<Longrightarrow> a \<noteq> 0 \<Longrightarrow>
      \<exists>k w'. ad_AddToChannel A app c a w = Some (Inr k, w') \<and> wf w' \<and> ready app w'
        \<and> ident w' = ident w \<and> subs app w' = insert (c, ident w a) (subs app w)"
    and add_unready: "wf w \<Longrightarrow> \<not> ready app w \<Longrightarrow> \<exists>e. ad_AddToChannel A app c a w = Some (Inl e, w)"
    and remove: "wf w \<Longrightarrow> \<exists>k w'. ad_RemoveFromChannel A app [c] i w = Some (k, w') \<and> wf w'
        \<and> ident w' = ident w \<and> ready app w' = ready app w \<and> subs app w' = subs app w - {(c, i)}"
begin

text \<open>The guards of \<open>Join\<close>: what a subscription must satisfy to be let in.\<close>

definition admits :: "Channel \<Rightarrow> SocketID \<Rightarrow> SubscribePayload \<Rightarrow> 'w \<Rightarrow> bool" where
  "admits c wsID message w =
     ((ch_RequiresAuth c \<longrightarrow>
        ValidateChannelAuth (sp_Auth message) (app_Secret (ch_App c)) wsID (ch_Name c) (sp_ChannelData message))
      \<and> (ch_Type c = ChannelTypePresence \<longrightarrow>
          (app_MaxPresenceMembersPerChannel (ch_App c) > 0 \<longrightarrow>
             the (ad_GetChannelMembersCount A (app_ID (ch_App c)) (ch_Name c) w) + 1
               \<le> app_MaxPresenceMembersPerChannel (ch_App c))
          \<and> int (length (sp_ChannelData message)) div 1024 \<le> app_MaxPresenceMemberSizeInKb (ch_App c)))"

lemma join_admitted:
  assumes "wf w" "ready (app_ID (ch_App c)) w" "a \<noteq> 0" "admits c i message w"
  shows "\<exists>resp w'. Join_channel lib (Some A) c a i message w = Some (resp, w') \<and> jr_Success resp
    \<and> wf w' \<and> ready (app_ID (ch_App c)) w' \<and> ident w' = ident w
    \<and> subs (app_ID (ch_App c)) w' = insert (ch_Name c, ident w a) (subs (app_ID (ch_App c)) w)
    \<and> (ch_Type c = ChannelTypePresence \<longrightarrow> jr_Member resp = unmarshal_member lib (sp_ChannelData message))"
proof -
  from add [OF assms(1,2,3), of "ch_Name c"] obtain k w' where
    a: "ad_AddToChannel A (app_ID (ch_App c)) (ch_Name c) a w = Some (Inr k, w')" "wf w'"
      "ready (app_ID (ch_App c)) w'" "ident w' = ident w"
      "subs (app_ID (ch_App c)) w' = insert (ch_Name c, ident w a) (subs (app_ID (ch_App c)) w)"
    by blast
  from members_total [OF assms(1), of "app_ID (ch_App c)" "ch_Name c"] obtain m
    where m: "ad_GetChannelMembersCount A (app_ID (ch_App c)) (ch_Name c) w = Some m" by blast
  show ?thesis
    using assms(4) a m
    by (auto simp: admits_def Join_channel_def joinPresenceChannel_def joinNonPresenceChannel_def Let_def)
qed

lemma join_refused:
  assumes "wf w" "\<not> admits c i message w"
  shows "\<exists>resp. Join_channel lib (Some A) c a i message w = Some (resp, w) \<and> \<not> jr_Success resp
    \<and> jr_ErrorCode resp \<in> {Some ErrCodeSubscriptionAccessDenied, Some ErrCodeOverCapacity, Some ErrCodeClientEventRejected}"
proof -
  from members_total [OF assms(1), of "app_ID (ch_App c)" "ch_Name c"] obtain m
    where m: "ad_GetChannelMembersCount A (app_ID (ch_App c)) (ch_Name c) w = Some m" by blast
  show ?thesis
    using assms(2) m
    by (auto simp: admits_def Join_channel_def joinPresenceChannel_def Let_def)
qed

lemma join_unready:
  assumes "wf w" "\<not> ready (app_ID (ch_App c)) w"
  shows "\<exists>resp. Join_channel lib (Some A) c a i message w = Some (resp, w) \<and> \<not> jr_Success resp"
proof (cases "admits c i message w")
  case False
  with join_refused [OF assms(1)] show ?thesis by blast
next
  case True
  from add_unready [OF assms, of "ch_Name c" a] obtain e
    where e: "ad_AddToChannel A (app_ID (ch_App c)) (ch_Name c) a w = Some (Inl e, w)" by blast
  from members_total [OF assms(1), of "app_ID (ch_App c)" "ch_Name c"] obtain m
    where m: "ad_GetChannelMembersCount A (app_ID (ch_App c)) (ch_Name c) w = Some m" by blast
  show ?thesis
    using True e m
    by (auto simp: admits_def Join_channel_def joinPresenceChannel_def joinNonPresenceChannel_def Let_def)
qed

lemma leave:
  assumes "wf w"
  shows "\<exists>resp w'. Leave_channel A c s w = Some (resp, w') \<and> lr_Success resp \<and> wf w' \<and> ident w' = ident w
    \<and> subs (app_ID (ch_App c)) w' = subs (app_ID (ch_App c)) w - {(ch_Name c, ws_ID s)}"
  using remove [OF assms, of "app_ID (ch_App c)" "ch_Name c" "ws_ID s"]
  by (auto simp: Leave_channel_def Let_def)

text \<open>Joining a channel one is not in and leaving it again restores the subscriptions.\<close>

lemma join_leave:
  assumes "wf w" "ready (app_ID (ch_App c)) w" "a \<noteq> 0" "admits c i message w"
    and "ident w a = ws_ID s" "(ch_Name c, ws_ID s) \<notin> subs (app_ID (ch_App c)) w"
  shows "\<exists>r1 w1 r2 w2. Join_channel lib (Some A) c a i message w = Some (r1, w1)
    \<and> Leave_channel A c s w1 = Some (r2, w2)
    \<and> subs (app_ID (ch_App c)) w2 = subs (app_ID (ch_App c)) w"
proof -
  from join_admitted [OF assms(1-4), of lib] obtain r1 w1
    where j: "Join_channel lib (Some A) c a i message w = Some (r1, w1)" "wf w1"
      "subs (app_ID (ch_App c)) w1 = insert (ch_Name c, ident w a) (subs (app_ID (ch_App c)) w)" by blast
  from leave [OF j(2), of c s] obtain r2 w2 where "Leave_channel A c s w1 = Some (r2, w2)"
    "subs (app_ID (ch_App c)) w2 = subs (app_ID (ch_App c)) w1 - {(ch_Name c, ws_ID s)}" by blast
  with j assms(5,6) show ?thesis by auto
qed

end

subsection \<open>The local adapter provides it\<close>

definition local_adapter :: "World AdapterInterface" where
  "local_adapter =
     \<lparr>ad_GetChannelMembersCount = la_GetChannelMembersCount, ad_AddToChannel = la_AddToChannel,
      ad_GetChannelSocketsCount = la_GetChannelSocketsCount,
      ad_RemoveFromChannel = la_RemoveFromChannel\<rparr>"

definition la_subs :: "AppID \<Rightarrow> World \<Rightarrow> (ChannelName \<times> SocketID) set" where
  "la_subs appID w = (case ns_of w appID of None \<Rightarrow> {} | Some n \<Rightarrow> a_subs (abs_ns n))"

definition la_ident :: "World \<Rightarrow> addr \<Rightarrow> SocketID" where
  "la_ident w a = ws_ID (w_heap w a)"

lemma la_members_total:
  assumes "la_wf w"
  shows "\<exists>k. la_GetChannelMembersCount app c w = Some k"
proof (cases "ns_of w app")
  case (Some n)
  from GetChannelMembers_spec [OF la_wf_ns [OF assms Some], of "w_heap w" c] obtain m
    where "n_GetChannelMembers (w_heap w) n c = Some m" .
  with Some show ?thesis by (simp add: la_GetChannelMembersCount_def)
qed (simp add: la_GetChannelMembersCount_def)

interpretation la: channel_adapter local_adapter la_wf "\<lambda>app w. ns_of w app \<noteq> None" la_subs la_ident
proof
  show "\<exists>k. ad_GetChannelMembersCount local_adapter app c w = Some k" if "la_wf w" for w app c
    using la_members_total [OF that] by (simp add: local_adapter_def)
  show "\<exists>k w'. ad_AddToChannel local_adapter app c a w = Some (Inr k, w') \<and> la_wf w' \<and> ns_of w' app \<noteq> None
      \<and> la_ident w' = la_ident w \<and> la_subs app w' = insert (c, la_ident w a) (la_subs app w)"
    if wf: "la_wf w" and r: "ns_of w app \<noteq> None" and a: "a \<noteq> 0" for w app a c
  proof -
    from r obtain n where n: "ns_of w app = Some n" by blast
    from la_AddToChannel_spec [OF wf n a, of c] obtain k w' n' where
      "la_AddToChannel app c a w = Some (Inr k, w')" "la_wf w'" "la_frame w' w" "ns_of w' app = Some n'"
      "abs_ns n' = ns_spec (OpAddToChannel (w_heap w) a c) (abs_ns n)" .
    with n show ?thesis
      by (simp add: local_adapter_def la_subs_def la_ident_def la_frame_def fun_eq_iff)
  qed
  show "\<exists>e. ad_AddToChannel local_adapter app c a w = Some (Inl e, w)" if "la_wf w" "\<not> ns_of w app \<noteq> None" for w app c a
    using that by (simp add: local_adapter_def la_AddToChannel_def)
  show "\<exists>k w'. ad_RemoveFromChannel local_adapter app [c] i w = Some (k, w') \<and> la_wf w'
      \<and> la_ident w' = la_ident w \<and> (ns_of w' app \<noteq> None) = (ns_of w app \<noteq> None)
      \<and> la_subs app w' = la_subs app w - {(c, i)}" if wf: "la_wf w" for w app c i
  proof (cases "ns_of w app")
    case None
    with wf show ?thesis by (simp add: local_adapter_def la_RemoveFromChannel_def la_subs_def)
  next
    case (Some n)
    from la_RemoveFromChannel_spec [OF wf Some, of "[c]" i] obtain k w' n' where
      "la_RemoveFromChannel app [c] i w = Some (k, w')" "la_wf w'" "la_frame w' w" "ns_of w' app = Some n'"
      "abs_ns n' = ns_spec (OpRemoveFromChannel i [c]) (abs_ns n)" .
    with Some show ?thesis
      by (auto simp: local_adapter_def la_subs_def la_ident_def la_frame_def fun_eq_iff)
  qed
qed

end
