(* ===== verification/Websockets.thy ===== *)
theory Websockets
  imports Channels
begin

text \<open>
  \<open>internal/websocket.go\<close>: the handlers of a connected socket, over the local adapter. A handler
  takes the address of its socket and the state and returns the protocol error it reports (nil is
  \<open>None\<close>) with the new state; a panic is \<open>None\<close>. Waiting (the pauses of \<open>closeConnection\<close>) and
  logging have no effect in the model.
\<close>

type_synonym handler = "World \<Rightarrow> (UError option \<times> World) option"

text \<open>The fields \<open>w.app\<close> and \<open>w.server\<close>, whose use panics when they are nil.\<close>

definition app_of :: "addr \<Rightarrow> World \<Rightarrow> App option" where
  "app_of a w = ws_app (w_heap w a)"

definition server_of :: "addr \<Rightarrow> World \<Rightarrow> unit option" where
  "server_of a w = (if ws_server (w_heap w a) then Some () else None)"

definition on_queue :: "(Queue \<Rightarrow> Queue) \<Rightarrow> World \<Rightarrow> World" where
  "on_queue f w = w\<lparr>w_queue := f (w_queue w)\<rparr>"

definition event_msg :: "string \<Rightarrow> EventData \<Rightarrow> ChannelName \<Rightarrow> string \<Rightarrow> ChannelEvent" where
  "event_msg event data channel userId =
     \<lparr>ce_Event = event, ce_Data = data, ce_Channel = channel, ce_UserID = userId, ce_SocketID = []\<rparr>"

subsection \<open>Responses\<close>

definition sendChannelError :: "addr \<Rightarrow> ChannelName \<Rightarrow> ErrorCode \<Rightarrow> string \<Rightarrow> World \<Rightarrow> World option" where
  "sendChannelError a channel code message w =
     ws_Send a (ToJson (w_lib w) True (event_msg ''pusher:error'' (DError (code_int code) message) channel [])) w"

definition sendSubscriptionError ::
  "addr \<Rightarrow> ChannelName \<Rightarrow> string \<Rightarrow> string \<Rightarrow> int \<Rightarrow> World \<Rightarrow> World option" where
  "sendSubscriptionError a channel errorType message code w =
     ws_Send a (SubscriptionErrPack channel errorType message code) w"

definition presence_data :: "(UserID, MemberData) gomap \<Rightarrow> PresenceData" where
  "presence_data members =
     \<lparr>pd_IDs = map (\<lambda>(_, m). md_UserID m) members,
      pd_Hash = foldl (\<lambda>h (_, m). mput (md_UserID m) (md_UserInfo m) h) [] members,
      pd_Count = int (length members)\<rparr>"

definition sendPresenceSubscriptionSuccess ::
  "addr \<Rightarrow> Channel \<Rightarrow> (UserID, MemberData) gomap \<Rightarrow> World \<Rightarrow> World option" where
  "sendPresenceSubscriptionSuccess a channelObj members w =
     ws_Send a (SubscriptionSucceededPack (ch_Name channelObj)
       (marshal (JObj [(''presence'', json_presence (presence_data members))]))) w"

definition subscribeToUserChannel :: "addr \<Rightarrow> World \<Rightarrow> World option" where
  "subscribeToUserChannel a w =
     ws_Send a (SubscriptionSucceededPack (SocketRushServerToUserPrefix @ ws_userID (w_heap w a)) ''{}'') w"

definition sendCacheIfNeeded :: "addr \<Rightarrow> Channel \<Rightarrow> World \<Rightarrow> World option" where
  "sendCacheIfNeeded a channelObj w =
     (if \<not> ch_IsCache channelObj then Some w
      else
        do { app \<leftarrow> app_of a w;
             server_of a w;
             (case cache_Get (w_now w) (w_cache w) (GetChannelCacheKey (app_ID app) (ch_Name channelObj)) of
                Some cachedData \<Rightarrow> ws_Send a cachedData w
              | None \<Rightarrow>
                  do { w \<leftarrow> ws_Send a (PayloadPack ''pusher:cache_miss'' []) w;
                       Some (on_queue (SendCacheMissed (w_now w) app (ch_Name channelObj)) w) }) })"

subsection \<open>Client events\<close>

definition validateClientEvent :: "addr \<Rightarrow> ChannelName \<Rightarrow> string \<Rightarrow> string \<Rightarrow> handler" where
  "validateClientEvent a channel eventName msgRaw w =
     do { app \<leftarrow> app_of a w;
          if \<not> app_EnableClientMessages app then
            do { w \<leftarrow> sendChannelError a channel ErrCodeClientEventRejected
                         ''Client events are disabled for this app'' w;
                 Some (Some (NewError ErrCodeClientEventRejected []), w) }
          else if int (length eventName) > app_MaxEventNameLength app then
            do { w \<leftarrow> sendChannelError a channel ErrCodeClientEventRejected ''Event name is too long'' w;
                 Some (Some (NewError ErrCodeClientEventRejected []), w) }
          else if int (length msgRaw) div 1024 > app_MaxEventPayloadInKb app then
            do { w \<leftarrow> sendChannelError a channel ErrCodeClientEventRejected ''Payload is too big'' w;
                 Some (Some (NewError ErrCodeClientEventRejected []), w) }
          else Some (None, w) }"

text \<open>
  The user id that goes with a client event: that of the stored member on a presence channel. No
  entry stops the event, a nil entry panics.
\<close>

definition client_event_user :: "WebSocket \<Rightarrow> Channel \<Rightarrow> ChannelName \<Rightarrow> UserID option option" where
  "client_event_user s channelObj channel =
     (if ch_Type channelObj = ChannelTypePresence then
        (case (case ws_PresenceData s of None \<Rightarrow> None | Some m \<Rightarrow> map_of m channel) of
           None \<Rightarrow> Some None
         | Some None \<Rightarrow> None
         | Some (Some member) \<Rightarrow> Some (Some (md_UserID member)))
      else Some (Some []))"

definition subscription :: "WebSocket \<Rightarrow> ChannelName \<Rightarrow> Channel option" where
  "subscription s channel = (case ws_SubscribedChannels s of None \<Rightarrow> None | Some m \<Rightarrow> map_of m channel)"

text \<open>The last part of \<open>handleClientEvent\<close>, after the validation.\<close>

definition relayClientEvent :: "addr \<Rightarrow> Channel \<Rightarrow> ClientChannelEvent \<Rightarrow> handler" where
  "relayClientEvent a channelObj ev w =
     (let channel = cce_Channel ev; wsID = ws_ID (w_heap w a) in
      do { server_of a w;
           app \<leftarrow> app_of a w;
           if \<not> la_IsInChannel (app_ID app) channel wsID w then
             Some (Some \<lparr>ue_Code = ErrCodeNotSubscribed,
                         ue_Message = ''socket is not in channel '' @ channel\<rparr>, w)
           else
             do { user \<leftarrow> client_event_user (w_heap w a) channelObj channel;
                  (case user of
                     None \<Rightarrow> Some (None, w)
                   | Some userId \<Rightarrow>
                       do { let message = event_msg (cce_Event ev) (DRaw (cce_Data ev)) channel userId;
                            (_, w) \<leftarrow> la_Send (app_ID app) channel (ToJson (w_lib w) True message) [wsID] w;
                            let data = (case cce_Data ev of None \<Rightarrow> [] | Some d \<Rightarrow> d);
                            Some (None, on_queue (SendClientEvent (w_now w) app channel
                                    (cce_Event ev) data wsID userId) w) }) } })"

definition handleClientEvent :: "addr \<Rightarrow> string \<Rightarrow> handler" where
  "handleClientEvent a msgRaw w =
     (case decode_client_event msgRaw of
        None \<Rightarrow> Some (Some (NewError ErrCodeInvalidPayload [json_error_text (w_lib w) msgRaw]), w)
      | Some clientChannelEvent \<Rightarrow>
          (let channel = cce_Channel clientChannelEvent in
           case subscription (w_heap w a) channel of
             None \<Rightarrow>
               do { w \<leftarrow> sendChannelError a channel ErrCodeClientEventRejected
                            (''Client is not subscribed to '' @ channel) w;
                    Some (None, w) }
           | Some channelObj \<Rightarrow>
               do { (validationErr, w) \<leftarrow> validateClientEvent a channel (cce_Event clientChannelEvent) msgRaw w;
                    if validationErr \<noteq> None then Some (validationErr, w)
                    else relayClientEvent a channelObj clientChannelEvent w }))"

subsection \<open>Subscribing\<close>

text \<open>The map of members is updated in place; the new map is returned.\<close>

definition handleMemberAddedEvent ::
  "addr \<Rightarrow> Channel \<Rightarrow> MemberData \<Rightarrow> (UserID, MemberData) gomap \<Rightarrow> World \<Rightarrow>
     ((UserID, MemberData) gomap \<times> World) option" where
  "handleMemberAddedEvent a channelObj member members w =
     (if mhas members (md_UserID member) then Some (members, w)
      else
        do { app \<leftarrow> app_of a w;
             server_of a w;
             let w = on_queue (SendMemberAdded (w_now w) app (ch_Name channelObj) (md_UserID member)) w;
             let memberAdded = event_msg ''pusher_internal:member_added'' (DMember (Some member))
                                 (ch_Name channelObj) [];
             (_, w) \<leftarrow> la_Send (app_ID app) (ch_Name channelObj) (ToJson (w_lib w) True memberAdded)
                         [ws_ID (w_heap w a)] w;
             Some (mput (md_UserID member) member members, w) })"

text \<open>Assigning to \<open>w.PresenceData\<close> panics when the map is nil.\<close>

definition put_presence :: "addr \<Rightarrow> ChannelName \<Rightarrow> MemberData option \<Rightarrow> World \<Rightarrow> World option" where
  "put_presence a channel member w =
     map_option (\<lambda>m. upd_ws a (\<lambda>s. s\<lparr>ws_PresenceData := Some (mput channel member m)\<rparr>) w)
       (ws_PresenceData (w_heap w a))"

definition handlePresenceChannelSubscription :: "addr \<Rightarrow> Channel \<Rightarrow> ChannelJoinResponse \<Rightarrow> handler" where
  "handlePresenceChannelSubscription a channelObj joinResponse w =
     do { member \<leftarrow> jr_Member joinResponse;
          if md_UserID member = [] then Some (Some (NewError ErrCodeInvalidPayload []), w)
          else
            do { server_of a w;
                 app \<leftarrow> app_of a w;
                 members \<leftarrow> la_GetChannelMembers (app_ID app) (ch_Name channelObj) w;
                 w \<leftarrow> put_presence a (ch_Name channelObj) (Some member) w;
                 (members, w) \<leftarrow> handleMemberAddedEvent a channelObj member members w;
                 w \<leftarrow> sendPresenceSubscriptionSuccess a channelObj members w;
                 w \<leftarrow> sendCacheIfNeeded a channelObj w;
                 Some (None, w) } }"

text \<open>\<open>signalAuthenticated\<close>: a non-blocking send into the channel of capacity 1.\<close>

definition signalAuthenticated :: "addr \<Rightarrow> World \<Rightarrow> World" where
  "signalAuthenticated a w =
     (case ws_userAuthChannel (w_heap w a) of
        None \<Rightarrow> w
      | Some buf \<Rightarrow>
          if ws_userHasAuthorized (w_heap w a) then w
          else if length buf < 1 then upd_ws a (\<lambda>s. s\<lparr>ws_userAuthChannel := Some (buf @ [True])\<rparr>) w
          else w)"

text \<open>Remember the channel unless it is there already; assigning to a nil map panics.\<close>

definition track_channel :: "addr \<Rightarrow> Channel \<Rightarrow> World \<Rightarrow> World option" where
  "track_channel a channelObj w =
     (if subscription (w_heap w a) (ch_Name channelObj) \<noteq> None then Some w
      else map_option (\<lambda>m. upd_ws a (\<lambda>s. s\<lparr>ws_SubscribedChannels :=
                              Some (mput (ch_Name channelObj) channelObj m)\<rparr>) w)
             (ws_SubscribedChannels (w_heap w a)))"

text \<open>The user id a presence member gives to a socket that waits for its authorisation.\<close>

definition adopt_user :: "addr \<Rightarrow> Channel \<Rightarrow> ChannelJoinResponse \<Rightarrow> World \<Rightarrow> World" where
  "adopt_user a channelObj joinResponse w =
     (let s = w_heap w a;
          needsAuth = (ch_RequiresAuth channelObj \<and> \<not> ws_userHasAuthorized s \<and> ws_userAuthChannel s \<noteq> None)
      in if needsAuth then
           signalAuthenticated a
             (case jr_Member joinResponse of
                None \<Rightarrow> w
              | Some member \<Rightarrow>
                  if ws_userID s = [] \<and> md_UserID member \<noteq> []
                  then upd_ws a (\<lambda>s. s\<lparr>ws_userID := md_UserID member\<rparr>) w else w)
         else w)"

text \<open>The response to a subscription that has been let in.\<close>

definition confirm_subscription :: "addr \<Rightarrow> Channel \<Rightarrow> ChannelJoinResponse \<Rightarrow> handler" where
  "confirm_subscription a channelObj joinResponse w =
     (if ch_Type channelObj \<noteq> ChannelTypePresence then
        do { w \<leftarrow> ws_Send a (SubscriptionSucceededPack (ch_Name channelObj) ''{}'') w;
             w \<leftarrow> sendCacheIfNeeded a channelObj w;
             Some (None, w) }
      else handlePresenceChannelSubscription a channelObj joinResponse w)"

definition announce_occupied :: "App \<Rightarrow> Channel \<Rightarrow> ChannelJoinResponse \<Rightarrow> World \<Rightarrow> World" where
  "announce_occupied app channelObj joinResponse w =
     (if jr_ChannelConnections joinResponse = 1
      then on_queue (SendChannelOccupied (w_now w) app (ch_Name channelObj)) w else w)"

definition finish_subscription :: "addr \<Rightarrow> App \<Rightarrow> Channel \<Rightarrow> ChannelJoinResponse \<Rightarrow> handler" where
  "finish_subscription a app channelObj joinResponse w =
     do { w \<leftarrow> track_channel a channelObj w;
          confirm_subscription a channelObj joinResponse
            (announce_occupied app channelObj joinResponse (adopt_user a channelObj joinResponse w)) }"

definition refuse_subscription :: "addr \<Rightarrow> Channel \<Rightarrow> ChannelJoinResponse \<Rightarrow> handler" where
  "refuse_subscription a channelObj joinResponse w =
     (let code = (case jr_ErrorCode joinResponse of None \<Rightarrow> 0 | Some c \<Rightarrow> code_int c) in
      do { w \<leftarrow> sendSubscriptionError a (ch_Name channelObj) (jr_Type joinResponse) (jr_Message joinResponse) code w;
           if jr_ErrorCode joinResponse = Some ErrCodeSubscriptionAccessDenied then
             do { w \<leftarrow> sendSubscriptionError a (ch_Name channelObj) ''AuthError'' (jr_Message joinResponse) code w;
                  Some (Some (NewError ErrCodeSubscriptionAccessDenied []), w) }
           else
             do { w \<leftarrow> sendSubscriptionError a (ch_Name channelObj) ''Unknown'' (jr_Message joinResponse) code w;
                  Some (Some (NewError ErrCodeGenericReconnect []), w) } })"

definition handleSubscribeRequest :: "addr \<Rightarrow> string \<Rightarrow> handler" where
  "handleSubscribeRequest a msgRaw w =
     do { server_of a w;
          if w_Closing w then Some (Some (NewError ErrCodeGenericReconnect []), w)
          else
            (case decode_subscribe msgRaw of
               None \<Rightarrow> Some (Some (NewError ErrCodeInvalidPayload []), w)
             | Some subscribePayload \<Rightarrow>
                 (let channel = sp_Channel subscribePayload; s = w_heap w a in
                  if ws_userID s \<noteq> [] \<and> channel = SocketRushServerToUserPrefix @ ws_userID s then
                    do { w \<leftarrow> subscribeToUserChannel a w; Some (None, w) }
                  else
                    do { app \<leftarrow> app_of a w;
                         (case ValidateChannelName channel (app_MaxChannelNameLength app) of
                            Some channelErr \<Rightarrow>
                              do { w \<leftarrow> ws_Send a (ErrorPack ErrCodeUnauthorizedConnection channelErr []) w;
                                   Some (Some (NewError ErrCodeInvalidChannel []), w) }
                          | None \<Rightarrow>
                              do { let channelObj = CreateChannelFromString app channel;
                                   (joinResponse, w) \<leftarrow> Join_channel (w_lib w) (Some local_adapter) channelObj a
                                                           (ws_ID s) subscribePayload w;
                                   if \<not> jr_Success joinResponse
                                   then refuse_subscription a channelObj joinResponse w
                                   else finish_subscription a app channelObj joinResponse w }) })) }"

subsection \<open>Unsubscribing and closing\<close>

definition forget_presence :: "addr \<Rightarrow> ChannelName \<Rightarrow> World \<Rightarrow> World" where
  "forget_presence a channel w =
     upd_ws a (\<lambda>s. s\<lparr>ws_PresenceData := map_option (mdel channel) (ws_PresenceData s)\<rparr>) w"

definition untrack_channel :: "addr \<Rightarrow> ChannelName \<Rightarrow> World \<Rightarrow> World" where
  "untrack_channel a channel w =
     upd_ws a (\<lambda>s. s\<lparr>ws_SubscribedChannels := map_option (mdel channel) (ws_SubscribedChannels s)\<rparr>) w"

text \<open>The last part of \<open>unsubscribeFromChannel\<close>.\<close>

definition announce_vacated :: "App \<Rightarrow> Channel \<Rightarrow> ChannelLeaveResponse \<Rightarrow> World \<Rightarrow> World" where
  "announce_vacated app channelObj leaveResponse w =
     (if lr_RemainingConnections leaveResponse = 0
      then on_queue (SendChannelVacated (w_now w) app (ch_Name channelObj)) w else w)"

definition finish_unsubscribe :: "addr \<Rightarrow> App \<Rightarrow> Channel \<Rightarrow> ChannelLeaveResponse \<Rightarrow> World \<Rightarrow> World" where
  "finish_unsubscribe a app channelObj leaveResponse w =
     untrack_channel a (ch_Name channelObj) (announce_vacated app channelObj leaveResponse w)"

definition announce_member_removed ::
  "addr \<Rightarrow> App \<Rightarrow> Channel \<Rightarrow> MemberData \<Rightarrow> (UserID, MemberData) gomap \<Rightarrow> World \<Rightarrow> World option" where
  "announce_member_removed a app channelObj member members w =
     (if mhas members (md_UserID member) then Some w
      else
        do { let w = on_queue (SendMemberRemoved (w_now w) app (ch_Name channelObj) (md_UserID member)) w;
             (_, w) \<leftarrow> la_Send (app_ID app) (ch_Name channelObj)
                (ToJson (w_lib w) True (event_msg ''pusher_internal:member_removed''
                   (DUserID (md_UserID member)) (ch_Name channelObj) []))
                [ws_ID (w_heap w a)] w;
             Some w })"

text \<open>
  A presence channel without member data returns before the vacated event and the local
  bookkeeping.
\<close>

definition after_presence_leave :: "addr \<Rightarrow> Channel \<Rightarrow> ChannelLeaveResponse \<Rightarrow> World \<Rightarrow> World option" where
  "after_presence_leave a channelObj leaveResponse w =
     do { app \<leftarrow> app_of a w;
          members \<leftarrow> la_GetChannelMembers (app_ID app) (ch_Name channelObj) w;
          (case lr_Member leaveResponse of
             None \<Rightarrow> Some w
           | Some member \<Rightarrow>
               do { w \<leftarrow> announce_member_removed a app channelObj member members w;
                    Some (finish_unsubscribe a app channelObj leaveResponse w) }) }"

text \<open>The app of the socket is only read when the channel has become empty.\<close>

definition after_leave :: "addr \<Rightarrow> Channel \<Rightarrow> ChannelLeaveResponse \<Rightarrow> World \<Rightarrow> World option" where
  "after_leave a channelObj leaveResponse w =
     (if \<not> lr_Success leaveResponse then Some w
      else if ch_Type channelObj = ChannelTypePresence
      then after_presence_leave a channelObj leaveResponse (forget_presence a (ch_Name channelObj) w)
      else
        do { app \<leftarrow> (if lr_RemainingConnections leaveResponse = 0 then app_of a w
                      else Some (ch_App channelObj));
             Some (finish_unsubscribe a app channelObj leaveResponse w) })"

definition unsubscribeFromChannel :: "addr \<Rightarrow> Channel \<Rightarrow> World \<Rightarrow> World option" where
  "unsubscribeFromChannel a channelObj w =
     do { server_of a w;
          (leaveResponse, w) \<leftarrow> Leave_channel local_adapter channelObj (w_heap w a) w;
          after_leave a channelObj leaveResponse w }"

fun unsubscribe_each :: "addr \<Rightarrow> Channel list \<Rightarrow> World \<Rightarrow> World option" where
  "unsubscribe_each a [] w = Some w"
| "unsubscribe_each a (c # cs) w = do { w \<leftarrow> unsubscribeFromChannel a c w; unsubscribe_each a cs w }"

definition unsubscribeFromAllChannels :: "addr \<Rightarrow> World \<Rightarrow> World option" where
  "unsubscribeFromAllChannels a w =
     do { let channels = (case ws_SubscribedChannels (w_heap w a) of None \<Rightarrow> [] | Some m \<Rightarrow> map snd m);
          w \<leftarrow> unsubscribe_each a channels w;
          Some (upd_ws a (\<lambda>s. s\<lparr>ws_SubscribedChannels := None\<rparr>) w) }"

definition handleUnsubscribeRequest :: "addr \<Rightarrow> string \<Rightarrow> handler" where
  "handleUnsubscribeRequest a msgRaw w =
     (case decode_unsubscribe msgRaw of
        None \<Rightarrow> Some (Some (NewError ErrCodeInvalidPayload []), w)
      | Some channel \<Rightarrow>
          (case subscription (w_heap w a) channel of
             None \<Rightarrow> Some (Some (NewError ErrCodeInvalidPayload []), w)
           | Some channelObj \<Rightarrow> do { w \<leftarrow> unsubscribeFromChannel a channelObj w; Some (None, w) }))"

definition Cleanup :: "WebSocket \<Rightarrow> WebSocket" where
  "Cleanup s =
     s\<lparr>ws_userAuthChannel := None, ws_PresenceData := None, ws_SubscribedChannels := None, ws_ID := [],
       ws_app := None, ws_conn := None, ws_closed := True, ws_server := False, ws_userID := [],
       ws_userHasAuthorized := False\<rparr>"

text \<open>\<open>conn.Close()\<close>: on success the socket forgets its connection.\<close>

definition shut_conn :: "addr \<Rightarrow> World \<Rightarrow> World" where
  "shut_conn a w =
     upd_ws a (\<lambda>s. case ws_conn s of
                     None \<Rightarrow> s
                   | Some conn \<Rightarrow> if cn_close_ok conn then s\<lparr>ws_conn := None\<rparr> else s) w"

text \<open>The four parts of \<open>closeConnection\<close> after the channels have been left.\<close>

definition leave_adapter :: "addr \<Rightarrow> World \<Rightarrow> World option" where
  "leave_adapter a w =
     (case ws_app (w_heap w a) of
        None \<Rightarrow> Some w
      | Some app \<Rightarrow>
          if \<not> ws_server (w_heap w a) then Some w
          else do { w \<leftarrow> la_RemoveSocket (app_ID app) (ws_ID (w_heap w a)) w;
                    Some (w\<lparr>w_metrics := MarkDisconnection (app_ID app) (w_metrics w)\<rparr>) })"

definition leave_user :: "addr \<Rightarrow> World \<Rightarrow> World option" where
  "leave_user a w =
     (if ws_userID (w_heap w a) \<noteq> [] then
        do { server_of a w; app \<leftarrow> app_of a w;
             (_, w) \<leftarrow> la_RemoveUser (app_ID app) a w; Some w }
      else Some w)"

definition farewell :: "addr \<Rightarrow> ErrorCode \<Rightarrow> World \<Rightarrow> World option" where
  "farewell a code w =
     (if ws_conn (w_heap w a) \<noteq> None then
        do { w \<leftarrow> ws_Send a (ErrorPack code ''closing connection'' []) w; Some (shut_conn a w) }
      else Some w)"

definition mark_closed :: "addr \<Rightarrow> World \<Rightarrow> World" where
  "mark_closed a w =
     (if ws_closed (w_heap w a) then w else upd_ws a (\<lambda>s. Cleanup (s\<lparr>ws_closed := True\<rparr>)) w)"

definition closeConnection :: "addr \<Rightarrow> ErrorCode \<Rightarrow> World \<Rightarrow> World option" where
  "closeConnection a code w =
     do { deref (w_heap w) a;
          w \<leftarrow> unsubscribeFromAllChannels a w;
          w \<leftarrow> leave_adapter a w;
          w \<leftarrow> leave_user a w;
          w \<leftarrow> farewell a code w;
          Some (mark_closed a w) }"

definition ws_Close :: "addr \<Rightarrow> World \<Rightarrow> World option" where
  "ws_Close a w = closeConnection a ErrCodeServerShuttingDown w"

subsection \<open>Signing in\<close>

definition signin_string :: "SocketID \<Rightarrow> string \<Rightarrow> string" where
  "signin_string wsID userData = wsID @ ''::user::'' @ userData"

definition signinTokenIsValid :: "SocketID \<Rightarrow> App \<Rightarrow> string \<Rightarrow> string \<Rightarrow> bool" where
  "signinTokenIsValid wsID app userData signatureToCheck =
     (app_Key app @ '':'' @ HmacSignature (signin_string wsID userData) (app_Secret app) = signatureToCheck)"

text \<open>A valid token: the socket takes the identity of the user.\<close>

definition accept_signin :: "addr \<Rightarrow> App \<Rightarrow> UserID \<Rightarrow> string \<Rightarrow> handler" where
  "accept_signin a app userID userData w =
     do { let w = upd_ws a (\<lambda>s. s\<lparr>ws_userID := userID\<rparr>) w;
          server_of a w;
          (err, w) \<leftarrow> la_AddUser (app_ID app) a w;
          (case err of
             Some e \<Rightarrow> Some (Some (NewError ErrCodeInvalidPayload [e]), w)
           | None \<Rightarrow>
               do { w \<leftarrow> ws_Send a (PayloadPack ''pusher:signin_success''
                       (marshal (JObj [(''user_data'', JStr userData)]))) w;
                    Some (None, signalAuthenticated a w) }) }"

definition check_signin :: "addr \<Rightarrow> UserSigninPayload \<Rightarrow> UserID \<Rightarrow> handler" where
  "check_signin a signinPayload userID w =
     do { app \<leftarrow> app_of a w;
          if signinTokenIsValid (ws_ID (w_heap w a)) app (us_UserData signinPayload) (us_Auth signinPayload)
          then accept_signin a app userID (us_UserData signinPayload) w
          else
            do { w \<leftarrow> closeConnection a ErrCodeUnauthorizedConnection w;
                 Some (Some (NewError ErrCodeUnauthorizedConnection []), w) } }"

definition handleUserSignin :: "addr \<Rightarrow> string \<Rightarrow> handler" where
  "handleUserSignin a msgRaw w =
     (case decode_signin msgRaw of
        None \<Rightarrow> Some (Some (NewError ErrCodeInvalidPayload []), w)
      | Some signinPayload_ptr \<Rightarrow>
          do { signinPayload \<leftarrow> signinPayload_ptr;
               (case decode_user_data (us_UserData signinPayload) of
                  None \<Rightarrow> Some (Some (NewError ErrCodeInvalidPayload []), w)
                | Some None \<Rightarrow> Some (Some (NewError ErrCodeInvalidPayload [''ID must be present'']), w)
                | Some (Some userData) \<Rightarrow>
                    if ud_ID userData = [] then Some (Some (NewError ErrCodeInvalidPayload [''ID must be present'']), w)
                    else check_signin a signinPayload (ud_ID userData) w) })"

subsection \<open>Dispatch and the read loop\<close>

definition dispatch :: "addr \<Rightarrow> string \<Rightarrow> string \<Rightarrow> handler" where
  "dispatch a event msgRaw w =
     (if event = ''pusher:ping'' then do { w \<leftarrow> ws_Send a PongPack w; Some (None, w) }
      else if event = ''pusher:subscribe'' then handleSubscribeRequest a msgRaw w
      else if event = ''pusher:unsubscribe'' then handleUnsubscribeRequest a msgRaw w
      else if event = ''pusher:signin'' then handleUserSignin a msgRaw w
      else if IsClientEvent event then handleClientEvent a msgRaw w
      else Some (Some (NewError ErrCodeClientEventRejected []), w))"

text \<open>The metrics of a received message; the app is gone when the connection was closed.\<close>

definition mark_received :: "addr \<Rightarrow> World \<Rightarrow> World option" where
  "mark_received a w =
     (case ws_app (w_heap w a) of
        None \<Rightarrow> Some w
      | Some app \<Rightarrow>
          if app_ID app = [] then Some w
          else do { server_of a w;
                    Some (w\<lparr>w_metrics := MarkWsMessageReceived (app_ID app) (w_metrics w)\<rparr>) })"

definition parseIncomingPayload :: "addr \<Rightarrow> string \<Rightarrow> handler" where
  "parseIncomingPayload a msgRaw w =
     (case decode_request_event msgRaw of
        None \<Rightarrow> Some (Some (NewError ErrCodeInvalidPayload []), w)
      | Some event \<Rightarrow>
          do { (returnCode, w) \<leftarrow> dispatch a event msgRaw w;
               w \<leftarrow> mark_received a w;
               Some (returnCode, w) })"

text \<open>What the reader yields: a frame, or an error that is or is not an orderly end.\<close>

datatype read = Frame string | ReadEOF | ReadFailure

definition handleReadMessageError :: "addr \<Rightarrow> read \<Rightarrow> World \<Rightarrow> World option" where
  "handleReadMessageError a err w =
     do { server_of a w;
          app \<leftarrow> app_of a w;
          if err = ReadEOF then
            closeConnection a ErrCodeCloseExpected
              (w\<lparr>w_metrics := MarkError ''websocket_expected_closure'' (app_ID app) (w_metrics w)\<rparr>)
          else
            closeConnection a ErrCodeWebsocketAbnormalClosure
              (w\<lparr>w_metrics := MarkError ''websocket_abnormal_closure'' (app_ID app) (w_metrics w)\<rparr>) }"

definition MaxMessageSize :: nat where "MaxMessageSize = 20480"

text \<open>What \<open>Listen\<close> does with a payload it has read, and with the error that comes back.\<close>

definition count_frame :: "addr \<Rightarrow> World \<Rightarrow> World option" where
  "count_frame a w =
     (if ws_server (w_heap w a) then
        do { app \<leftarrow> app_of a w;
             Some (w\<lparr>w_metrics := MarkWsMessageReceived (app_ID app) (w_metrics w)\<rparr>) }
      else Some w)"

definition report_error :: "addr \<Rightarrow> UError option \<Rightarrow> World \<Rightarrow> World option" where
  "report_error a parseErr w =
     (case parseErr of None \<Rightarrow> Some w | Some e \<Rightarrow> ws_Send a (ErrorPack (ue_Code e) (ue_Message e) []) w)"

definition handle_frame :: "addr \<Rightarrow> string \<Rightarrow> World \<Rightarrow> World option" where
  "handle_frame a msg w =
     do { w \<leftarrow> resetReadTimeout a w;
          w \<leftarrow> count_frame a w;
          (parseErr, w) \<leftarrow> parseIncomingPayload a msg w;
          report_error a parseErr w }"

text \<open>One round of \<open>Listen\<close>: does the loop go on, and the new state.\<close>

definition listen_round :: "addr \<Rightarrow> read \<Rightarrow> World \<Rightarrow> (bool \<times> World) option" where
  "listen_round a r w =
     (if ws_closed (w_heap w a) \<or> ws_conn (w_heap w a) = None then Some (False, w)
      else case r of
        Frame msg \<Rightarrow>
          if length msg > MaxMessageSize then Some (False, w)
          else if length msg \<le> 2 then Some (True, w)
          else do { w \<leftarrow> handle_frame a msg w; Some (True, w) }
      | _ \<Rightarrow> do { w \<leftarrow> handleReadMessageError a r w; Some (False, w) })"

fun Listen :: "addr \<Rightarrow> read list \<Rightarrow> World \<Rightarrow> (bool \<times> World) option" where
  "Listen a [] w = Some (True, w)"
| "Listen a (r # rs) w =
     do { (go, w) \<leftarrow> listen_round a r w; if go then Listen a rs w else Some (False, w) }"

subsection \<open>Terminating a user's connections (namespace.go, adaptersLocal.go)\<close>

text \<open>
  The loop ranges over the live map of sockets, from which \<open>closeConnection\<close> deletes: a socket
  removed before its turn is not visited.
\<close>

fun terminate_each :: "AppID \<Rightarrow> UserID \<Rightarrow> SocketID list \<Rightarrow> World \<Rightarrow> World option" where
  "terminate_each appID userID [] w = Some w"
| "terminate_each appID userID (i # ids) w =
     (case (case ns_of w appID of None \<Rightarrow> None | Some n \<Rightarrow> map_of (ns_Sockets n) i) of
        None \<Rightarrow> terminate_each appID userID ids w
      | Some a \<Rightarrow>
          do { s \<leftarrow> deref (w_heap w) a;
               if ws_userID s = userID then
                 do { w \<leftarrow> ws_Send a (ToJson (w_lib w) True (event_msg ''pusher:error''
                              (DError (code_int ErrCodeUnauthorizedConnection)
                                 ''You have been disconnected by the app'') [] [])) w;
                      w \<leftarrow> closeConnection a ErrCodeUnauthorizedConnection w;
                      terminate_each appID userID ids w }
               else terminate_each appID userID ids w })"

definition la_TerminateUserConnections :: "AppID \<Rightarrow> UserID \<Rightarrow> World \<Rightarrow> World option" where
  "la_TerminateUserConnections appID userID w =
     (case ns_of w appID of
        None \<Rightarrow> Some w
      | Some n \<Rightarrow> terminate_each appID userID (map fst (n_GetSockets n)) w)"

end
