(* ===== verification/Sessions.thy ===== *)
theory Sessions
  imports Websockets
begin

text \<open>
  The invariant of the server that the handlers of \<open>internal/websocket.go\<close> rely on, and the proof
  that each of them keeps it and does not panic. \<open>world_ok\<close> says that every registered socket is
  registered under its own id, in the namespace of its own app, and still has its server;
  \<open>attached\<close> and \<open>session_ok\<close> describe a socket that can be served. The handlers are composed with
  the rules of \<open>runs\<close>: the computation returns, and its result satisfies the predicate.
\<close>

subsection \<open>Computations that return\<close>

definition runs :: "'r option \<Rightarrow> ('r \<Rightarrow> bool) \<Rightarrow> bool" where
  "runs m Q = (case m of None \<Rightarrow> False | Some r \<Rightarrow> Q r)"

lemma runs_simps [simp]:
  "runs (Some r) Q = Q r" "runs None Q = False"
  "runs (m \<bind> f) Q = runs m (\<lambda>r. runs (f r) Q)"
  by (simp_all add: runs_def split: option.split)

lemma runs_map [simp]: "runs (map_option f m) Q = runs m (\<lambda>r. Q (f r))"
  by (simp add: runs_def split: option.split)

lemma runs_iff: "runs m Q \<longleftrightarrow> (\<exists>r. m = Some r \<and> Q r)"
  by (simp add: runs_def split: option.split)

lemma runs_mono: "runs m P \<Longrightarrow> (\<And>r. P r \<Longrightarrow> Q r) \<Longrightarrow> runs m Q"
  by (simp add: runs_def split: option.splits)

lemma runs_E: "runs m Q \<Longrightarrow> (\<And>r. m = Some r \<Longrightarrow> Q r \<Longrightarrow> thesis) \<Longrightarrow> thesis"
  by (auto simp: runs_iff)

subsection \<open>Registered sockets\<close>

definition registered :: "World \<Rightarrow> AppID \<Rightarrow> SocketID \<Rightarrow> addr option" where
  "registered w appID i = (case ns_of w appID of None \<Rightarrow> None | Some n \<Rightarrow> map_of (ns_Sockets n) i)"

definition attached :: "World \<Rightarrow> addr \<Rightarrow> bool" where
  "attached w a = (a \<noteq> 0 \<and> ws_server (w_heap w a) \<and> ws_app (w_heap w a) \<noteq> None)"

definition reg_ok :: "World \<Rightarrow> AppID \<Rightarrow> SocketID \<Rightarrow> addr \<Rightarrow> bool" where
  "reg_ok w appID i a = (attached w a \<and> ws_ID (w_heap w a) = i
     \<and> map_option app_ID (ws_app (w_heap w a)) = Some appID)"

definition world_ok :: "World \<Rightarrow> bool" where
  "world_ok w = (la_wf w
     \<and> (\<forall>(appID, n) \<in> set (namespaces w). \<forall>(i, a) \<in> set (ns_Sockets n). reg_ok w appID i a))"

text \<open>A socket whose handlers can run: its maps exist and every presence entry is a member.\<close>

definition session_ok :: "World \<Rightarrow> addr \<Rightarrow> bool" where
  "session_ok w a = (attached w a \<and> ws_SubscribedChannels (w_heap w a) \<noteq> None
     \<and> (case ws_PresenceData (w_heap w a) of None \<Rightarrow> False | Some m \<Rightarrow> \<forall>c. map_of m c \<noteq> Some None))"

text \<open>A socket that has been closed: nothing is sent to it or read from it any more.\<close>

definition ended :: "World \<Rightarrow> addr \<Rightarrow> bool" where
  "ended w a = (a \<noteq> 0 \<and> ws_closed (w_heap w a)
     \<and> (ws_app (w_heap w a) = None \<or> ws_server (w_heap w a)))"

lemma world_ok_iff:
  "world_ok w \<longleftrightarrow> la_wf w \<and> (\<forall>appID i a. registered w appID i = Some a \<longrightarrow> reg_ok w appID i a)"
proof (cases "la_wf w")
  case True
  have ns: "(appID, n) \<in> set (namespaces w) \<longleftrightarrow> ns_of w appID = Some n" for appID n
    using True wf_map_of_iff [of "namespaces w" appID n] by (simp add: la_wf_def ns_of_def)
  have sk: "(i, a) \<in> set (ns_Sockets n) \<longleftrightarrow> map_of (ns_Sockets n) i = Some a" if "ns_of w appID = Some n" for appID n i a
    using wf_map_of_iff [of "ns_Sockets n" i a] la_wf_ns [OF True that] by (simp add: ns_wf_def)
  have "(\<forall>(appID, n) \<in> set (namespaces w). \<forall>(i, a) \<in> set (ns_Sockets n). reg_ok w appID i a)
    \<longleftrightarrow> (\<forall>appID n i a. ns_of w appID = Some n \<longrightarrow> map_of (ns_Sockets n) i = Some a \<longrightarrow> reg_ok w appID i a)"
    using ns sk by fastforce
  then show ?thesis using True by (auto simp: world_ok_def registered_def split: option.splits)
qed (simp add: world_ok_def)

lemma world_okD:
  assumes "world_ok w"
  shows "la_wf w" "registered w appID i = Some a \<Longrightarrow> reg_ok w appID i a"
    "registered w appID i = Some a \<Longrightarrow> sane w a"
  using assms by (auto simp: world_ok_iff reg_ok_def attached_def sane_def)

text \<open>No socket is registered twice.\<close>

lemma registered_unique:
  assumes "world_ok w" "registered w p i = Some a" "registered w q j = Some a"
  shows "p = q" "i = j"
  using world_okD(2) [OF assms(1,2)] world_okD(2) [OF assms(1,3)] by (auto simp: reg_ok_def)

text \<open>What \<open>reg_ok\<close> reads of a socket.\<close>

definition same_id :: "WebSocket \<Rightarrow> WebSocket \<Rightarrow> bool" where
  "same_id s t = (ws_ID s = ws_ID t \<and> ws_app s = ws_app t \<and> ws_server s = ws_server t)"

lemma world_ok_transfer:
  assumes "world_ok w" "la_wf w'" "\<And>p i a. registered w' p i = Some a \<Longrightarrow> registered w p i = Some a"
    and "\<And>p i b. registered w' p i = Some b \<Longrightarrow> same_id (w_heap w' b) (w_heap w b)"
  shows "world_ok w'"
proof -
  have "reg_ok w' p i a" if r: "registered w' p i = Some a" for p i a
    using world_okD(2) [OF assms(1) assms(3) [OF r]] assms(4) [OF r]
    by (simp add: reg_ok_def attached_def same_id_def)
  with assms(2) show ?thesis by (simp add: world_ok_iff)
qed

lemma same_namespaces:
  "w_Namespaces w' = w_Namespaces w \<Longrightarrow> registered w' = registered w \<and> la_wf w' = la_wf w \<and> ns_of w' = ns_of w"
proof -
  assume s: "w_Namespaces w' = w_Namespaces w"
  have "ns_of w' = ns_of w" by (rule ns_of_same_namespaces [OF s])
  then show ?thesis using la_wf_same_namespaces [OF s] by (simp add: registered_def fun_eq_iff)
qed

subsection \<open>Steps of a handler\<close>

text \<open>
  \<open>step a\<close> relates the states before and after something the handlers of the socket \<open>a\<close> do while
  it is in service: the invariants hold, nobody is registered or unregistered, and other sockets
  are only written to. \<open>quiet a\<close> is a step that leaves the user of the socket alone.
\<close>

definition step :: "addr \<Rightarrow> World \<Rightarrow> World \<Rightarrow> bool" where
  "step a w w' = (world_ok w' \<and> attached w' a \<and> (session_ok w a \<longrightarrow> session_ok w' a)
     \<and> same_id (w_heap w' a) (w_heap w a) \<and> w_lib w' = w_lib w \<and> registered w' = registered w
     \<and> (\<forall>b. b \<noteq> a \<longrightarrow> same_but_wire (w_heap w' b) (w_heap w b)))"

definition quiet :: "addr \<Rightarrow> World \<Rightarrow> World \<Rightarrow> bool" where
  "quiet a w w' = (step a w w' \<and> ws_userID (w_heap w' a) = ws_userID (w_heap w a))"

definition okay :: "addr \<Rightarrow> World \<Rightarrow> bool" where
  "okay a w = (world_ok w \<and> attached w a)"

lemma quiet_step: "quiet a w w' \<Longrightarrow> step a w w'"
  by (simp add: quiet_def)

lemma step_okay: "step a w w' \<Longrightarrow> okay a w'" "quiet a w w' \<Longrightarrow> okay a w'"
  by (simp_all add: okay_def quiet_def step_def)

lemma step_session: "step a w w' \<Longrightarrow> session_ok w a \<Longrightarrow> session_ok w' a"
  by (simp add: step_def)

lemma step_refl: "okay a w \<Longrightarrow> quiet a w w"
  by (simp add: okay_def quiet_def step_def same_id_def)

lemma same_but_wire_trans: "same_but_wire r s \<Longrightarrow> same_but_wire s t \<Longrightarrow> same_but_wire r t"
  unfolding same_but_wire_def by (metis (no_types))

lemma step_trans: "step a w w' \<Longrightarrow> step a w' w'' \<Longrightarrow> step a w w''"
  unfolding step_def same_id_def by (simp add: same_but_wire_trans) (blast intro: same_but_wire_trans)

lemma quiet_trans: "quiet a w w' \<Longrightarrow> quiet a w' w'' \<Longrightarrow> quiet a w w''"
  unfolding quiet_def using step_trans [of a w w' w''] by simp

lemma session_attached: "session_ok w a \<Longrightarrow> attached w a"
  by (simp add: session_ok_def)

text \<open>Steps that only touch the queue, the metrics or the cache.\<close>

definition background :: "World \<Rightarrow> World \<Rightarrow> bool" where
  "background w w' = (w_heap w' = w_heap w \<and> w_Namespaces w' = w_Namespaces w \<and> w_lib w' = w_lib w)"

lemma background_simps [simp]:
  "background w (on_queue f w)" "background w (w\<lparr>w_metrics := m\<rparr>)" "background w w"
  by (simp_all add: background_def on_queue_def)

lemma background_quiet:
  assumes "okay a w" "background w w'"
  shows "quiet a w w'"
proof -
  note n = same_namespaces [of w' w]
  have h: "w_heap w' = w_heap w" "w_Namespaces w' = w_Namespaces w" "w_lib w' = w_lib w"
    using assms(2) by (simp_all add: background_def)
  have "world_ok w'"
    using assms(1) n h by (simp add: okay_def world_ok_iff reg_ok_def attached_def)
  then show ?thesis using assms(1) h n
    by (simp add: quiet_def step_def okay_def attached_def session_ok_def same_id_def)
qed

lemma background_iff:
  assumes "background w w'"
  shows "step a w0 w' = step a w0 w" "quiet a w0 w' = quiet a w0 w" "session_ok w' a = session_ok w a"
    "okay a w' = okay a w"
proof -
  have h: "w_heap w' = w_heap w" "w_lib w' = w_lib w" and n: "registered w' = registered w" "la_wf w' = la_wf w"
    using assms same_namespaces [of w' w] by (simp_all add: background_def)
  then show "step a w0 w' = step a w0 w" "quiet a w0 w' = quiet a w0 w" "session_ok w' a = session_ok w a"
    "okay a w' = okay a w"
    by (simp_all add: quiet_def step_def okay_def world_ok_iff reg_ok_def attached_def session_ok_def)
qed

lemmas background_on_queue [simp] = background_iff [OF background_simps(1)]
lemmas background_metrics [simp] = background_iff [OF background_simps(2)]

text \<open>A change of the socket itself that keeps its identity.\<close>

lemma upd_step:
  assumes ok: "okay a w" and s: "same_id (f (w_heap w a)) (w_heap w a)"
    and m: "session_ok w a \<Longrightarrow> session_ok (upd_ws a f w) a"
  shows "step a w (upd_ws a f w)"
proof -
  note n = same_namespaces [of "upd_ws a f w" w, simplified]
  have i: "same_id (w_heap (upd_ws a f w) b) (w_heap w b)" for b
    using s by (simp add: same_id_def)
  have "world_ok (upd_ws a f w)"
    by (rule world_ok_transfer [of w]) (use ok n i in \<open>simp_all add: okay_def world_ok_iff\<close>)
  with ok s m n show ?thesis by (simp add: step_def okay_def attached_def same_id_def)
qed

lemma send_frame_quiet:
  assumes ok: "okay a w" and f: "send_frame w' w"
  shows "quiet a w w'"
proof -
  have h: "same_but_wire (w_heap w' b) (w_heap w b)" for b using f by (simp add: send_frame_def)
  have n: "registered w' = registered w" "la_wf w' = la_wf w"
    using f same_namespaces [of w' w] by (simp_all add: send_frame_def)
  have "world_ok w'"
    by (rule world_ok_transfer [of w])
      (use ok n h in \<open>simp_all add: okay_def world_ok_iff same_id_def same_but_wire_def\<close>)
  with ok h [of a] n f h show ?thesis
    by (simp add: quiet_def step_def okay_def attached_def session_ok_def same_id_def same_but_wire_def send_frame_def)
qed

text \<open>A change of the namespaces that registers and unregisters nobody.\<close>

lemma la_frame_quiet:
  assumes "okay a w" "la_wf w'" "la_frame w' w" "registered w' = registered w"
  shows "quiet a w w'"
proof -
  have "world_ok w'"
    by (rule world_ok_transfer [of w]) (use assms in \<open>simp_all add: okay_def la_frame_def same_id_def\<close>)
  with assms show ?thesis
    by (simp add: quiet_def step_def okay_def la_frame_def attached_def session_ok_def same_id_def)
qed

lemma runs_weaken:
  assumes "runs m (step a w')" "step a w w'"
  shows "runs m (step a w)"
  using assms step_trans by (auto elim!: runs_mono)

subsection \<open>The operations the handlers use\<close>

lemma okay_sane: "okay a w \<Longrightarrow> sane w a"
  by (simp add: okay_def attached_def sane_def)

lemma ws_Send_runs:
  assumes "okay a w"
  shows "runs (ws_Send a msg w) (quiet a w)"
proof -
  from ws_Send_sane [OF okay_sane [OF assms], of msg] obtain w' where s: "ws_Send a msg w = Some w'" by blast
  from send_frame_quiet [OF assms ws_Send_frame [OF s]] s show ?thesis by simp
qed

lemma send_all_runs: "\<forall>b \<in> set bs. sane w b \<Longrightarrow> runs (send_all msg bs w) (\<lambda>w'. send_frame w' w)"
proof (induction bs arbitrary: w)
  case (Cons b bs)
  then obtain w1 where w1: "ws_Send b msg w = Some w1" using ws_Send_sane [of w b msg] by auto
  note f = ws_Send_frame [OF w1]
  have "\<forall>b \<in> set bs. sane w1 b" using Cons.prems ws_Send_keeps_sane [OF w1] by simp
  from Cons.IH [OF this] have "runs (send_all msg bs w1) (\<lambda>w'. send_frame w' w)"
    by (rule runs_mono) (rule send_frame_trans [OF _ f])
  with w1 show ?case by simp
qed simp

lemma channel_sockets_sane:
  assumes "world_ok w" "ns_of w appID = Some n" "b \<in> snd ` set (n_GetChannelSockets n c)"
  shows "sane w b"
proof -
  from assms(3) obtain i where "map_of (ns_Sockets n) i = Some b" by (auto simp: GetChannelSockets_in)
  with assms(2) have "registered w appID i = Some b" by (simp add: registered_def)
  with world_okD(3) [OF assms(1)] show ?thesis .
qed

lemma user_sockets_sane:
  assumes "world_ok w" "ns_of w appID = Some n" "b \<in> set (n_GetUserSockets n u)"
  shows "sane w b"
proof -
  from assms(3) obtain i where "map_of (ns_Sockets n) i = Some b"
    by (auto simp: n_GetUserSockets_def map_filter_def split: option.splits)
  with assms(2) have "registered w appID i = Some b" by (simp add: registered_def)
  with world_okD(3) [OF assms(1)] show ?thesis .
qed

lemma la_Send_frame:
  assumes "world_ok w"
  shows "runs (la_Send appID c msg except w) (\<lambda>(_, w'). send_frame w' w)"
proof (cases "ns_of w appID")
  case None
  then show ?thesis by (simp add: la_Send_def la_GetUserSockets_def)
next
  case (Some n)
  have u: "runs (send_all msg (n_GetUserSockets n v) w) (\<lambda>w'. send_frame w' w)" for v
    by (rule send_all_runs) (use user_sockets_sane [OF assms Some, of _ v] in blast)
  have c: "runs (send_all msg (map snd (filter P (n_GetChannelSockets n c))) w) (\<lambda>w'. send_frame w' w)" for P
    by (rule send_all_runs) (use channel_sockets_sane [OF assms Some, of _ c] in force)
  show ?thesis
  proof (cases "HasPrefix c SocketRushServerToUserPrefix")
    case True
    with Some u show ?thesis by (simp add: la_Send_def la_GetUserSockets_def)
  next
    case False
    with Some c show ?thesis by (simp add: la_Send_def Let_def split_def)
  qed
qed

lemma la_Send_runs:
  assumes "okay a w"
  shows "runs (la_Send appID c msg except w) (\<lambda>r. quiet a w (snd r))"
proof -
  have "world_ok w" using assms by (simp add: okay_def)
  from la_Send_frame [OF this] show ?thesis
    by (rule runs_mono) (use send_frame_quiet [OF assms] in auto)
qed

text \<open>Operations of the adapter that change the channels or the users of an app.\<close>

lemma registered_keep:
  assumes "ns_of w' appID = Some n'" "ns_of w appID = Some n" "a_socks (abs_ns n') = a_socks (abs_ns n)"
    and "\<And>app'. app' \<noteq> appID \<Longrightarrow> ns_of w' app' = ns_of w app'"
  shows "registered w' = registered w"
proof (intro ext)
  fix p i
  show "registered w' p i = registered w p i"
    using assms by (cases "p = appID") (simp_all add: registered_def abs_ns_def)
qed

lemma la_AddToChannel_runs:
  assumes "okay a w"
  shows "runs (la_AddToChannel appID c a w) (\<lambda>r. quiet a w (snd r))"
proof (cases "ns_of w appID")
  case None
  with assms show ?thesis by (simp add: la_AddToChannel_def step_refl)
next
  case (Some n)
  have "la_wf w" "a \<noteq> 0" using assms by (simp_all add: okay_def world_ok_def attached_def)
  from la_AddToChannel_spec [OF this(1) Some this(2), of c] obtain k w' n' where
    e: "la_AddToChannel appID c a w = Some (Inr k, w')" "la_wf w'" "la_frame w' w" "ns_of w' appID = Some n'"
      "abs_ns n' = ns_spec (OpAddToChannel (w_heap w) a c) (abs_ns n)"
      "\<And>app'. app' \<noteq> appID \<Longrightarrow> ns_of w' app' = ns_of w app'" by blast
  have "registered w' = registered w" by (rule registered_keep [OF e(4) Some _ e(6)]) (simp add: e(5))
  from la_frame_quiet [OF assms e(2,3) this] e(1) show ?thesis by simp
qed

lemma la_RemoveFromChannel_runs:
  assumes "okay a w"
  shows "runs (la_RemoveFromChannel appID cs i w) (\<lambda>r. quiet a w (snd r))"
proof (cases "ns_of w appID")
  case None
  with assms show ?thesis by (simp add: la_RemoveFromChannel_def step_refl)
next
  case (Some n)
  have "la_wf w" using assms by (simp add: okay_def world_ok_def)
  from la_RemoveFromChannel_spec [OF this Some, of cs i] obtain k w' n' where
    e: "la_RemoveFromChannel appID cs i w = Some (k, w')" "la_wf w'" "la_frame w' w" "ns_of w' appID = Some n'"
      "abs_ns n' = ns_spec (OpRemoveFromChannel i cs) (abs_ns n)"
      "\<And>app'. app' \<noteq> appID \<Longrightarrow> ns_of w' app' = ns_of w app'" by blast
  have "registered w' = registered w" by (rule registered_keep [OF e(4) Some _ e(6)]) (simp add: e(5))
  from la_frame_quiet [OF assms e(2,3) this] e(1) show ?thesis by simp
qed

text \<open>Adding and removing the user of a socket.\<close>

lemma user_op_spec:
  assumes wf: "la_wf w" and n: "ns_of w appID = Some n"
    and e: "ns_exec x n = Some n'" and v: "ns_valid x" and s: "\<And>s. a_socks (ns_spec x s) = a_socks s"
  shows "la_wf (set_ns appID n' w)" "registered (set_ns appID n' w) = registered w"
    "ns_of (set_ns appID n' w) appID = Some n'" "abs_ns n' = ns_spec x (abs_ns n)"
proof -
  from ns_step [OF la_wf_ns [OF wf n] v] e have n': "ns_wf n'" "abs_ns n' = ns_spec x (abs_ns n)" by auto
  note u = ns_update(3,4) [OF wf n n'(1)]
  show "la_wf (set_ns appID n' w)" "abs_ns n' = ns_spec x (abs_ns n)" using u n' by simp_all
  show "ns_of (set_ns appID n' w) appID = Some n'" using u(2) by simp
  show "registered (set_ns appID n' w) = registered w"
    by (rule registered_keep [of _ appID n' _ n]) (use u(2) n n'(2) s in simp_all)
qed

lemma la_AddUser_runs:
  assumes "okay a w"
  shows "runs (la_AddUser appID a w) (\<lambda>r. quiet a w (snd r))"
proof (cases "ns_of w appID")
  case None
  with assms show ?thesis by (simp add: la_AddUser_def step_refl)
next
  case (Some n)
  have wf: "la_wf w" "a \<noteq> 0" using assms by (simp_all add: okay_def world_ok_def attached_def)
  then obtain n' where e: "n_AddUser (w_heap w) a n = Some n'"
    using ns_step [OF la_wf_ns [OF wf(1) Some], of "OpAddUser (w_heap w) a"] by auto
  note u = user_op_spec [OF wf(1) Some, of "OpAddUser (w_heap w) a" n']
  have "quiet a w (set_ns appID n' w)"
    by (rule la_frame_quiet [OF assms]) (use u e wf in simp_all)
  with Some e show ?thesis by (simp add: la_AddUser_def)
qed

lemma la_members_runs: "okay a w \<Longrightarrow> runs (la_GetChannelMembers app c w) (\<lambda>_. True)"
  using la_members_total [of w app c]
  by (auto simp: okay_def world_ok_def runs_iff la_GetChannelMembersCount_def la_GetChannelMembers_def split: option.splits)

lemma app_of_runs: "okay a w \<Longrightarrow> runs (app_of a w) (\<lambda>app. ws_app (w_heap w a) = Some app)"
  by (auto simp: okay_def attached_def app_of_def)

lemma server_of_runs [simp]: "okay a w \<Longrightarrow> runs (server_of a w) Q = Q ()"
  by (simp add: okay_def attached_def server_of_def)

subsection \<open>Client events\<close>

lemma quiet_after: "quiet a w w1 \<Longrightarrow> runs m (\<lambda>r. quiet a w1 (snd r)) \<Longrightarrow> runs m (\<lambda>r. quiet a w (snd r))"
  by (erule runs_mono) (auto intro: quiet_trans)

lemma quiet_after1: "quiet a w w1 \<Longrightarrow> runs m (quiet a w1) \<Longrightarrow> runs m (quiet a w)"
  by (erule runs_mono) (auto intro: quiet_trans)

lemma step_after: "step a w w1 \<Longrightarrow> runs m (\<lambda>r. step a w1 (snd r)) \<Longrightarrow> runs m (\<lambda>r. step a w (snd r))"
  by (erule runs_mono) (auto intro: step_trans)

lemma step_after1: "step a w w1 \<Longrightarrow> runs m (step a w1) \<Longrightarrow> runs m (step a w)"
  by (erule runs_mono) (auto intro: step_trans)

lemma sends_run:
  assumes "okay a w"
  shows "runs (sendChannelError a c code m w) (quiet a w)"
    "runs (sendSubscriptionError a c t m n w) (quiet a w)"
    "runs (sendPresenceSubscriptionSuccess a ch ms w) (quiet a w)"
    "runs (subscribeToUserChannel a w) (quiet a w)"
  using ws_Send_runs [OF assms]
  by (simp_all add: sendChannelError_def sendSubscriptionError_def sendPresenceSubscriptionSuccess_def
      subscribeToUserChannel_def)

lemma sendCacheIfNeeded_runs:
  assumes "okay a w"
  shows "runs (sendCacheIfNeeded a ch w) (quiet a w)"
proof -
  from app_of_runs [OF assms] obtain app where "app_of a w = Some app" by (auto simp: runs_iff)
  then show ?thesis
    using assms ws_Send_runs [OF assms]
    by (simp add: sendCacheIfNeeded_def step_refl split: option.split)
qed

lemma validateClientEvent_runs:
  assumes "okay a w"
  shows "runs (validateClientEvent a c ev msg w) (\<lambda>r. quiet a w (snd r))"
proof -
  from app_of_runs [OF assms] obtain app where "app_of a w = Some app" by (auto simp: runs_iff)
  then show ?thesis
    using sends_run(1) [OF assms] assms by (simp add: validateClientEvent_def step_refl)
qed

lemma session_members:
  "session_ok w a \<Longrightarrow> \<exists>u. client_event_user (w_heap w a) channelObj c = Some u"
  by (auto simp: session_ok_def client_event_user_def split: option.splits)

lemma relayClientEvent_runs:
  assumes ok: "okay a w" and s: "session_ok w a"
  shows "runs (relayClientEvent a channelObj ev w) (\<lambda>r. quiet a w (snd r))"
proof -
  from app_of_runs [OF ok] obtain app where app: "app_of a w = Some app" by (auto simp: runs_iff)
  from session_members [OF s] obtain user
    where "client_event_user (w_heap w a) channelObj (cce_Channel ev) = Some user" by blast
  then show ?thesis
    using ok app la_Send_runs [OF ok]
    by (simp add: relayClientEvent_def Let_def split_def step_refl split: option.split)
qed

lemma handleClientEvent_runs:
  assumes "okay a w" "session_ok w a"
  shows "runs (handleClientEvent a msg w) (\<lambda>r. quiet a w (snd r))"
proof -
  have relay: "runs (relayClientEvent a channelObj ev w1) (\<lambda>r. quiet a w (snd r))" if q: "quiet a w w1" for channelObj ev w1
    by (rule quiet_after [OF q relayClientEvent_runs [OF step_okay(2) [OF q] step_session [OF quiet_step [OF q] assms(2)]]])
  have "runs (validateClientEvent a c e msg w)
      (\<lambda>r. ((\<exists>y. fst r = Some y) \<longrightarrow> quiet a w (snd r))
         \<and> (fst r = None \<longrightarrow> runs (relayClientEvent a channelObj ev (snd r)) (\<lambda>r. quiet a w (snd r))))"
    for c e ev channelObj
    by (rule runs_mono [OF validateClientEvent_runs [OF assms(1)]]) (simp add: relay)
  then show ?thesis
    using assms sends_run(1) [OF assms(1)]
    by (simp add: handleClientEvent_def Let_def split_def step_refl split: option.split)
qed

subsection \<open>Subscribing\<close>

lemma upd_quiet:
  assumes "okay a w" "same_id (f (w_heap w a)) (w_heap w a)"
    and "ws_userID (f (w_heap w a)) = ws_userID (w_heap w a)"
    and "session_ok w a \<Longrightarrow> session_ok (upd_ws a f w) a"
  shows "quiet a w (upd_ws a f w)"
  using upd_step [OF assms(1,2,4)] assms(3) by (simp add: quiet_def)

lemma member_added_runs:
  assumes "okay a w"
  shows "runs (handleMemberAddedEvent a ch m ms w) (\<lambda>r. quiet a w (snd r))"
proof -
  from app_of_runs [OF assms] obtain app where "app_of a w = Some app" by (auto simp: runs_iff)
  moreover have "runs (la_Send p c msg e (on_queue f w)) (\<lambda>r. quiet a w (snd r))" for p c msg e f
    by (rule quiet_after [OF _ la_Send_runs]) (simp_all add: step_refl assms)
  ultimately show ?thesis
    using assms by (simp add: handleMemberAddedEvent_def Let_def split_def step_refl)
qed

lemma put_presence_runs:
  assumes "okay a w" "session_ok w a"
  shows "runs (put_presence a c (Some m) w) (quiet a w)"
proof -
  from assms(2) obtain p where p: "ws_PresenceData (w_heap w a) = Some p" "\<forall>c. map_of p c \<noteq> Some None"
    by (auto simp: session_ok_def split: option.splits)
  have "quiet a w (upd_ws a (\<lambda>s. s\<lparr>ws_PresenceData := Some (mput c (Some m) p)\<rparr>) w)"
    by (rule upd_quiet [OF assms(1)]) (use assms(2) p in \<open>simp_all add: same_id_def session_ok_def attached_def\<close>)
  with p show ?thesis by (simp add: put_presence_def)
qed

lemma presence_subscription_runs:
  assumes "okay a w" "session_ok w a" "jr_Member resp \<noteq> None"
  shows "runs (handlePresenceChannelSubscription a ch resp w) (\<lambda>r. quiet a w (snd r))"
proof -
  from assms(3) obtain m where m: "jr_Member resp = Some m" by blast
  from app_of_runs [OF assms(1)] obtain app where app: "app_of a w = Some app" by (auto simp: runs_iff)
  have send: "runs (sendPresenceSubscriptionSuccess a ch ms w1) (\<lambda>w2. runs (sendCacheIfNeeded a ch w2) (quiet a w))"
    if "quiet a w w1" for ms w1
    by (rule runs_mono [OF sends_run(3) [OF step_okay(2) [OF that]]])
      (metis (no_types, lifting) quiet_after1 quiet_trans sendCacheIfNeeded_runs step_okay(2) that)
  have add: "runs (handleMemberAddedEvent a ch m ms w1)
      (\<lambda>r. runs (sendPresenceSubscriptionSuccess a ch (fst r) (snd r)) (\<lambda>w2. runs (sendCacheIfNeeded a ch w2) (quiet a w)))"
    if "quiet a w w1" for ms w1
    by (rule runs_mono [OF member_added_runs [OF step_okay(2) [OF that]]]) (rule send, rule quiet_trans [OF that])
  have put: "runs (put_presence a c (Some m) w) (\<lambda>w1. runs (handleMemberAddedEvent a ch m ms w1)
      (\<lambda>r. runs (sendPresenceSubscriptionSuccess a ch (fst r) (snd r)) (\<lambda>w2. runs (sendCacheIfNeeded a ch w2) (quiet a w))))"
    for c ms
    by (rule runs_mono [OF put_presence_runs [OF assms(1,2)]]) (rule add)
  show ?thesis
    using m app assms(1) put
    by (simp add: handlePresenceChannelSubscription_def step_refl split_def
        runs_mono [OF la_members_runs [OF assms(1)]])
qed

lemma signalAuthenticated_quiet: "okay a w \<Longrightarrow> quiet a w (signalAuthenticated a w)"
  by (auto simp: signalAuthenticated_def step_refl split: option.split
      intro!: upd_quiet simp: same_id_def session_ok_def attached_def)

lemma track_channel_runs:
  assumes "okay a w" "session_ok w a"
  shows "runs (track_channel a ch w) (quiet a w)"
proof -
  from assms(2) obtain m where m: "ws_SubscribedChannels (w_heap w a) = Some m" by (auto simp: session_ok_def)
  have "quiet a w (upd_ws a (\<lambda>s. s\<lparr>ws_SubscribedChannels := Some (mput c ch m)\<rparr>) w)" for c
    by (rule upd_quiet [OF assms(1)]) (use assms(2) in \<open>simp_all add: same_id_def session_ok_def attached_def\<close>)
  with m assms(1) show ?thesis by (simp add: track_channel_def step_refl)
qed

lemma adopt_user_step:
  assumes "okay a w"
  shows "step a w (adopt_user a ch resp w)"
proof -
  have u: "step a w (upd_ws a (\<lambda>s. s\<lparr>ws_userID := u\<rparr>) w)" for u
    by (rule upd_step [OF assms]) (simp_all add: same_id_def session_ok_def attached_def)
  have s: "step a w (signalAuthenticated a w1)" if "step a w w1" for w1
    by (rule step_trans [OF that quiet_step [OF signalAuthenticated_quiet [OF step_okay(1) [OF that]]]])
  show ?thesis
    using s [OF u] s [OF quiet_step [OF step_refl [OF assms]]] quiet_step [OF step_refl [OF assms]]
    by (simp add: adopt_user_def Let_def split: option.split)
qed

lemma step_after_quiet: "step a w w1 \<Longrightarrow> runs m (\<lambda>r. quiet a w1 (snd r)) \<Longrightarrow> runs m (\<lambda>r. step a w (snd r))"
  by (erule runs_mono) (blast intro: step_trans quiet_step)

lemma confirm_subscription_runs:
  assumes "okay a w" "session_ok w a" "ch_Type ch = ChannelTypePresence \<Longrightarrow> jr_Member resp \<noteq> None"
  shows "runs (confirm_subscription a ch resp w) (\<lambda>r. quiet a w (snd r))"
proof -
  have "runs (sendCacheIfNeeded a ch w1) (quiet a w)" if "quiet a w w1" for w1
    by (rule quiet_after1 [OF that sendCacheIfNeeded_runs [OF step_okay(2) [OF that]]])
  from runs_mono [OF ws_Send_runs [OF assms(1)] this] presence_subscription_runs [OF assms] show ?thesis
    by (simp add: confirm_subscription_def)
qed

lemma finish_subscription_runs:
  assumes "okay a w" "session_ok w a" "ch_Type ch = ChannelTypePresence \<Longrightarrow> jr_Member resp \<noteq> None"
  shows "runs (finish_subscription a app ch resp w) (\<lambda>r. step a w (snd r))"
proof -
  have "runs (confirm_subscription a ch resp (announce_occupied app ch resp (adopt_user a ch resp w1)))
      (\<lambda>r. step a w (snd r))" if q: "quiet a w w1" for w1
  proof -
    have "step a w (adopt_user a ch resp w1)"
      by (rule step_trans [OF quiet_step [OF q] adopt_user_step [OF step_okay(2) [OF q]]])
    then have s: "step a w (announce_occupied app ch resp (adopt_user a ch resp w1))"
      by (simp add: announce_occupied_def)
    show ?thesis
      by (rule step_after_quiet [OF s confirm_subscription_runs
            [OF step_okay(1) [OF s] step_session [OF s assms(2)] assms(3)]])
  qed
  from runs_mono [OF track_channel_runs [OF assms(1,2)] this] show ?thesis
    by (simp add: finish_subscription_def)
qed

lemma Join_channel_runs:
  assumes "okay a w"
  shows "runs (Join_channel lib (Some local_adapter) ch a i msg w)
    (\<lambda>r. quiet a w (snd r) \<and> (jr_Success (fst r) \<longrightarrow> ch_Type ch = ChannelTypePresence \<longrightarrow>
        jr_Member (fst r) = unmarshal_member lib (sp_ChannelData msg)))"
proof -
  have wf: "la_wf w" using assms by (simp add: okay_def world_ok_def)
  from la_members_total [OF wf] obtain k where
    k: "la_GetChannelMembersCount (app_ID (ch_App ch)) (ch_Name ch) w = Some k" by blast
  have pres: "runs (joinPresenceChannel lib local_adapter ch a msg w)
    (\<lambda>r. quiet a w (snd r) \<and> (jr_Success (fst r) \<longrightarrow> jr_Member (fst r) = unmarshal_member lib (sp_ChannelData msg)))"
    using k assms runs_mono [OF la_AddToChannel_runs [OF assms]]
    by (simp add: joinPresenceChannel_def Let_def split_def local_adapter_def step_refl split: sum.split)
  have non: "runs (joinNonPresenceChannel local_adapter ch a w) (\<lambda>r. quiet a w (snd r))"
    using runs_mono [OF la_AddToChannel_runs [OF assms]]
    by (simp add: joinNonPresenceChannel_def split_def local_adapter_def split: sum.split)
  show ?thesis
    using pres non assms by (simp add: Join_channel_def step_refl)
qed

lemma refuse_subscription_runs:
  assumes "okay a w"
  shows "runs (refuse_subscription a ch resp w) (\<lambda>r. quiet a w (snd r))"
proof -
  have "runs (sendSubscriptionError a c t m n w1) (quiet a w)" if "quiet a w w1" for c t m n w1
    by (rule quiet_after1 [OF that sends_run(2) [OF step_okay(2) [OF that]]])
  then have "runs (sendSubscriptionError a c t m n w) (\<lambda>w1. runs (sendSubscriptionError a c' t' m' n' w1) (quiet a w))"
    for c t m n c' t' m' n'
    by (rule runs_mono [OF sends_run(2) [OF assms]])
  then show ?thesis
    by (cases "jr_ErrorCode resp = Some ErrCodeSubscriptionAccessDenied")
      (simp_all add: refuse_subscription_def Let_def)
qed

text \<open>
  A subscription request whose \<open>channel_data\<close> decodes to a member, when it is for a presence
  channel.
\<close>

definition member_given :: "Lib \<Rightarrow> string \<Rightarrow> bool" where
  "member_given lib msg =
     (case decode_subscribe msg of
        None \<Rightarrow> True
      | Some sp \<Rightarrow> IsPresenceChannel (sp_Channel sp) \<longrightarrow> unmarshal_member lib (sp_ChannelData sp) \<noteq> None)"

lemma handleSubscribeRequest_runs:
  assumes ok: "okay a w" and s: "session_ok w a" and m: "member_given (w_lib w) msg"
  shows "runs (handleSubscribeRequest a msg w) (\<lambda>r. step a w (snd r))"
proof -
  note refl = quiet_step [OF step_refl [OF ok]]
  from app_of_runs [OF ok] obtain app where app: "app_of a w = Some app" by (auto simp: runs_iff)
  note q = quiet_step
  have send: "runs (ws_Send a m w) (step a w)" "runs (subscribeToUserChannel a w) (step a w)" for m
    by (rule runs_mono [OF ws_Send_runs [OF ok] q] runs_mono [OF sends_run(4) [OF ok] q], assumption)+
  have join: "runs (Join_channel (w_lib w) (Some local_adapter) (CreateChannelFromString app (sp_Channel sp)) a i sp w)
      (\<lambda>r. (\<not> jr_Success (fst r) \<longrightarrow> runs (refuse_subscription a (CreateChannelFromString app (sp_Channel sp)) (fst r) (snd r)) (\<lambda>r. step a w (snd r)))
         \<and> (jr_Success (fst r) \<longrightarrow> runs (finish_subscription a app (CreateChannelFromString app (sp_Channel sp)) (fst r) (snd r)) (\<lambda>r. step a w (snd r))))"
    if sp: "decode_subscribe msg = Some sp" for sp i
  proof (rule runs_mono [OF Join_channel_runs [OF ok]], intro conjI impI)
    fix r :: "ChannelJoinResponse \<times> World"
    let ?ch = "CreateChannelFromString app (sp_Channel sp)"
    assume r: "quiet a w (snd r) \<and> (jr_Success (fst r) \<longrightarrow> ch_Type ?ch = ChannelTypePresence \<longrightarrow>
        jr_Member (fst r) = unmarshal_member (w_lib w) (sp_ChannelData sp))"
    then have st: "step a w (snd r)" and ok1: "okay a (snd r)" using step_okay(2) [of a w "snd r"] q by blast+
    show "runs (refuse_subscription a ?ch (fst r) (snd r)) (\<lambda>r. step a w (snd r))"
      by (rule step_after_quiet [OF st refuse_subscription_runs [OF ok1]])
    show "runs (finish_subscription a app ?ch (fst r) (snd r)) (\<lambda>r. step a w (snd r))" if "jr_Success (fst r)"
      by (rule step_after [OF st finish_subscription_runs [OF ok1 step_session [OF st s]]])
        (use that r m sp in \<open>simp add: member_given_def CreateChannel_Type\<close>)
  qed
  show ?thesis
    using ok app send join refl
    by (simp add: handleSubscribeRequest_def Let_def split_def split: option.split)
qed

subsection \<open>Unsubscribing\<close>

lemma Leave_channel_runs:
  assumes "okay a w"
  shows "runs (Leave_channel local_adapter ch s w)
    (\<lambda>r. quiet a w (snd r) \<and> lr_Success (fst r))"
  using runs_mono [OF la_RemoveFromChannel_runs [OF assms]]
  by (simp add: Leave_channel_def Let_def split_def local_adapter_def)

lemma forget_quiet:
  assumes "okay a w"
  shows "quiet a w (forget_presence a c w)" "quiet a w (untrack_channel a c w)"
  unfolding forget_presence_def untrack_channel_def
  by (rule upd_quiet [OF assms]; simp add: same_id_def session_ok_def attached_def split: option.splits)+

lemma announce_member_removed_runs:
  assumes "okay a w"
  shows "runs (announce_member_removed a app ch m ms w) (quiet a w)"
proof -
  have "runs (la_Send p c msg e (on_queue f w)) (\<lambda>r. quiet a w (snd r))" for p c msg e f
    by (rule quiet_after [OF _ la_Send_runs]) (simp_all add: step_refl assms)
  then show ?thesis
    using assms by (simp add: announce_member_removed_def Let_def split_def step_refl)
qed

lemma finish_unsubscribe_quiet:
  assumes "okay a w"
  shows "quiet a w (finish_unsubscribe a app ch resp w)"
proof -
  have q: "quiet a w (announce_vacated app ch resp w)" using assms by (simp add: announce_vacated_def step_refl)
  from quiet_trans [OF this forget_quiet(2) [OF step_okay(2) [OF this]]] show ?thesis
    by (simp add: finish_unsubscribe_def)
qed

lemma after_presence_leave_runs:
  assumes "okay a w"
  shows "runs (after_presence_leave a ch resp w) (quiet a w)"
proof -
  from app_of_runs [OF assms] obtain app where app: "app_of a w = Some app" by (auto simp: runs_iff)
  have "runs (announce_member_removed a app ch m ms w) (\<lambda>w2. quiet a w (finish_unsubscribe a app ch resp w2))" for m ms
    by (rule runs_mono [OF announce_member_removed_runs [OF assms]])
      (rule quiet_trans, assumption, rule finish_unsubscribe_quiet, rule step_okay(2))
  with app show ?thesis
    using assms by (simp add: after_presence_leave_def step_refl runs_mono [OF la_members_runs [OF assms]] split: option.split)
qed

lemma after_leave_runs:
  assumes "okay a w"
  shows "runs (after_leave a ch resp w) (quiet a w)"
proof -
  from app_of_runs [OF assms] obtain app where app: "app_of a w = Some app" by (auto simp: runs_iff)
  have q: "quiet a w (forget_presence a (ch_Name ch) w)" by (rule forget_quiet(1) [OF assms])
  from quiet_after1 [OF q after_presence_leave_runs [OF step_okay(2) [OF q]]] app
    finish_unsubscribe_quiet [OF assms] step_refl [OF assms] show ?thesis
    by (simp add: after_leave_def)
qed

lemma unsubscribe_runs:
  assumes "okay a w"
  shows "runs (unsubscribeFromChannel a ch w) (quiet a w)"
proof -
  have "runs (after_leave a ch resp w1) (quiet a w)" if "quiet a w w1" for resp w1
    by (rule quiet_after1 [OF that after_leave_runs [OF step_okay(2) [OF that]]])
  then have "runs (Leave_channel local_adapter ch s w) (\<lambda>r. runs (after_leave a ch (fst r) (snd r)) (quiet a w))" for s
    by (intro runs_mono [OF Leave_channel_runs [OF assms]]) simp
  then show ?thesis
    using assms by (simp add: unsubscribeFromChannel_def split_def)
qed

lemma unsubscribe_each_runs: "okay a w \<Longrightarrow> runs (unsubscribe_each a chs w) (quiet a w)"
proof (induction chs arbitrary: w)
  case (Cons c chs)
  have "runs (unsubscribe_each a chs w1) (quiet a w)" if "quiet a w w1" for w1
    by (rule quiet_after1 [OF that Cons.IH [OF step_okay(2) [OF that]]])
  with runs_mono [OF unsubscribe_runs [OF Cons.prems]] show ?case by simp
qed (simp add: step_refl)

lemma handleUnsubscribeRequest_runs:
  assumes "okay a w"
  shows "runs (handleUnsubscribeRequest a msg w) (\<lambda>r. quiet a w (snd r))"
  using assms unsubscribe_runs [OF assms] by (simp add: handleUnsubscribeRequest_def step_refl split: option.split)

subsection \<open>An example\<close>

lemma demo_registered:
  "registered demo_world p i = (if p = ''1'' then if i = ''1.1'' then Some 1 else if i = ''2.2'' then Some 2 else None else None)"
  by (simp add: registered_def ns_of_def namespaces_def demo_ns_def)

lemma demo_attached [simp]: "a \<noteq> 0 \<Longrightarrow> attached demo_world a"
  by (simp add: attached_def)

lemma demo_la_wf [simp]: "la_wf demo_world"
  by (simp add: la_wf_def namespaces_def wf_map_def)

lemma demo_world_ok [simp]: "world_ok demo_world"
  by (auto simp: world_ok_iff demo_registered reg_ok_def attached_def split: if_splits)

lemma demo_session_ok [simp]: "a \<noteq> 0 \<Longrightarrow> session_ok demo_world a"
  by (simp add: session_ok_def attached_def)

end
