(* ===== verification/Closing.thy ===== *)
theory Closing
  imports Sessions
begin

text \<open>
  Closing a connection (\<open>closeConnection\<close> of \<open>internal/websocket.go\<close>) and what is left of it
  in the adapter; then signing in, the dispatch of a frame and the read loop \<open>Listen\<close>, and the
  termination of a user's connections: all of them keep the invariant of the server.
\<close>

definition la_users :: "AppID \<Rightarrow> World \<Rightarrow> (UserID \<times> SocketID) set" where
  "la_users appID w = (case ns_of w appID of None \<Rightarrow> {} | Some n \<Rightarrow> a_users (abs_ns n))"

definition unregister :: "AppID \<Rightarrow> SocketID \<Rightarrow> (AppID \<Rightarrow> SocketID \<Rightarrow> addr option) \<Rightarrow> AppID \<Rightarrow> SocketID \<Rightarrow> addr option" where
  "unregister p i r = (\<lambda>q j. if q = p \<and> j = i then None else r q j)"

text \<open>Other sockets are only written to.\<close>

definition others :: "addr \<Rightarrow> World \<Rightarrow> World \<Rightarrow> bool" where
  "others a w w' = (\<forall>b. b \<noteq> a \<longrightarrow> same_but_wire (w_heap w' b) (w_heap w b))"

lemma others_trans: "others a w w' \<Longrightarrow> others a w' w'' \<Longrightarrow> others a w w''"
  unfolding others_def using same_but_wire_trans by blast

lemma others_refl [simp]: "others a w w"
  by (simp add: others_def)

lemma upd_others: "others a w (upd_ws a f w)"
  by (simp add: others_def)

text \<open>Nothing depends on the fields of a socket that is registered nowhere.\<close>

definition free :: "World \<Rightarrow> addr \<Rightarrow> bool" where
  "free w a = (\<forall>p i. registered w p i \<noteq> Some a)"

lemma upd_free:
  assumes "world_ok w" "free w a"
  shows "world_ok (upd_ws a f w)" "registered (upd_ws a f w) = registered w"
proof -
  note n = same_namespaces [of "upd_ws a f w" w, simplified]
  show "registered (upd_ws a f w) = registered w" using n by simp
  show "world_ok (upd_ws a f w)"
    by (rule world_ok_transfer [OF assms(1)])
      (use n assms in \<open>auto simp: world_ok_iff free_def same_id_def\<close>)
qed

text \<open>The part of \<open>closeConnection\<close> that leaves the channels.\<close>

lemma unsubscribe_all_runs:
  assumes "okay a w"
  shows "runs (unsubscribeFromAllChannels a w) (\<lambda>w'. okay a w' \<and> same_id (w_heap w' a) (w_heap w a)
    \<and> ws_userID (w_heap w' a) = ws_userID (w_heap w a) \<and> w_lib w' = w_lib w
    \<and> registered w' = registered w \<and> others a w w')"
proof -
  have "okay a (upd_ws a (\<lambda>s. s\<lparr>ws_SubscribedChannels := None\<rparr>) w1)
      \<and> registered (upd_ws a (\<lambda>s. s\<lparr>ws_SubscribedChannels := None\<rparr>) w1) = registered w1"
    if "okay a w1" for w1
  proof -
    let ?w = "upd_ws a (\<lambda>s. s\<lparr>ws_SubscribedChannels := None\<rparr>) w1"
    have n: "registered ?w = registered w1" "la_wf ?w = la_wf w1" using same_namespaces [of ?w w1] by simp_all
    have "world_ok ?w"
      by (rule world_ok_transfer [of w1]) (use that n in \<open>simp_all add: okay_def world_ok_iff same_id_def\<close>)
    with that n show ?thesis by (simp add: okay_def attached_def)
  qed
  then have "okay a (upd_ws a (\<lambda>s. s\<lparr>ws_SubscribedChannels := None\<rparr>) w1)
      \<and> same_id (w_heap w1 a) (w_heap w a) \<and> ws_userID (w_heap w1 a) = ws_userID (w_heap w a) \<and> w_lib w1 = w_lib w
      \<and> registered (upd_ws a (\<lambda>s. s\<lparr>ws_SubscribedChannels := None\<rparr>) w1) = registered w
      \<and> others a w w1" if "quiet a w w1" for w1
    using that step_okay(2) [OF that] by (simp add: quiet_def step_def others_def)
  with runs_mono [OF unsubscribe_each_runs [OF assms]] show ?thesis
    by (simp add: unsubscribeFromAllChannels_def Let_def same_id_def others_def)
qed

text \<open>The part that leaves the adapter.\<close>

lemma leave_adapter_runs:
  assumes ok: "okay a w" and app: "ws_app (w_heap w a) = Some app" and i: "ws_ID (w_heap w a) = i"
  shows "runs (leave_adapter a w) (\<lambda>w'. okay a w' \<and> free w' a \<and> w_heap w' = w_heap w \<and> w_lib w' = w_lib w
    \<and> registered w' = unregister (app_ID app) i (registered w)
    \<and> (registered w (app_ID app) i = Some a \<longrightarrow>
         la_subs (app_ID app) w' = {(c, j) \<in> la_subs (app_ID app) w. j \<noteq> i}
         \<and> la_users (app_ID app) w' = la_users (app_ID app) w - (if ws_userID (w_heap w a) = [] then {} else {(ws_userID (w_heap w a), i)})))"
proof -
  have wf: "la_wf w" and srv: "ws_server (w_heap w a)" using ok by (simp_all add: okay_def world_ok_def attached_def)
  let ?p = "app_ID app"
  from la_RemoveSocket_spec [OF wf, of ?p i] obtain w' where
    e: "la_RemoveSocket ?p i w = Some w'" "la_wf w'" "la_frame w' w"
    and n: "\<And>n. ns_of w ?p = Some n \<Longrightarrow> \<exists>n'. ns_of w' ?p = Some n' \<and> abs_ns n' = ns_spec (OpRemoveSocket (w_heap w) i) (abs_ns n)"
    and o: "\<And>app'. app' \<noteq> ?p \<Longrightarrow> ns_of w' app' = ns_of w app'" by blast
  have none: "w' = w" if "ns_of w ?p = None" using e(1) that by (simp add: la_RemoveSocket_def)
  have r: "registered w' = unregister ?p i (registered w)"
  proof (intro ext)
    fix q j
    show "registered w' q j = unregister ?p i (registered w) q j"
    proof (cases "q = ?p")
      case True
      show ?thesis
      proof (cases "ns_of w ?p")
        case None
        with none True show ?thesis by (simp add: registered_def unregister_def)
      next
        case (Some m)
        from n [OF Some] obtain n' where n': "ns_of w' ?p = Some n'"
          "abs_ns n' = ns_spec (OpRemoveSocket (w_heap w) i) (abs_ns m)" by blast
        have "map_of (ns_Sockets n') j = (if j = i then None else map_of (ns_Sockets m) j)"
          using arg_cong [OF n'(2), of "\<lambda>s. a_socks s j"] by (auto simp: abs_ns_def split: option.splits)
        with n'(1) Some True show ?thesis by (simp add: registered_def unregister_def)
      qed
    qed (simp add: registered_def unregister_def o)
  qed
  have h: "w_heap w' = w_heap w" "w_lib w' = w_lib w" using e(3) by (simp_all add: la_frame_def)
  have wok: "world_ok w'"
    by (rule world_ok_transfer [of w])
      (use ok e(2) r h in \<open>simp_all add: okay_def unregister_def same_id_def split: if_splits\<close>)
  have fr: "free w' a"
    unfolding free_def
  proof (intro allI notI)
    fix q j assume s: "registered w' q j = Some a"
    from world_okD(2) [OF wok s] app i h have "q = ?p \<and> j = i" by (simp add: reg_ok_def)
    with s r show False by (simp add: unregister_def)
  qed
  have tr: "la_subs ?p w' = {(c, j) \<in> la_subs ?p w. j \<noteq> i}
      \<and> la_users ?p w' = la_users ?p w - (if ws_userID (w_heap w a) = [] then {} else {(ws_userID (w_heap w a), i)})"
    if "registered w ?p i = Some a"
  proof -
    from that obtain m where m: "ns_of w ?p = Some m" "map_of (ns_Sockets m) i = Some a"
      by (auto simp: registered_def split: option.splits)
    from n [OF m(1)] m show ?thesis by (auto simp: la_subs_def la_users_def abs_ns_def)
  qed
  let ?w = "w'\<lparr>w_metrics := MarkDisconnection ?p (w_metrics w')\<rparr>"
  have ns: "registered ?w = registered w'" "ns_of ?w = ns_of w'" using same_namespaces [of ?w w'] by simp_all
  have "okay a w'" using wok h ok by (simp add: okay_def attached_def)
  then have "okay a ?w" by simp
  moreover have "free ?w a" using fr ns(1) by (simp add: free_def)
  moreover have "la_subs p ?w = la_subs p w'" "la_users p ?w = la_users p w'" for p
    using ns(2) by (simp_all add: la_subs_def la_users_def)
  ultimately show ?thesis
    using app i srv e(1) ns(1) r h tr by (simp add: leave_adapter_def)
qed

lemma leave_user_runs:
  assumes ok: "okay a w" and fr: "free w a" and app: "ws_app (w_heap w a) = Some app"
    and i: "ws_ID (w_heap w a) = i" and u: "ws_userID (w_heap w a) = u"
  shows "runs (leave_user a w) (\<lambda>w'. okay a w' \<and> free w' a \<and> w_heap w' = w_heap w \<and> w_lib w' = w_lib w
    \<and> registered w' = registered w \<and> la_subs (app_ID app) w' = la_subs (app_ID app) w
    \<and> la_users (app_ID app) w' = la_users (app_ID app) w - (if u = [] then {} else {(u, i)}))"
proof (cases "ws_userID (w_heap w a) = [] \<or> ns_of w (app_ID app) = None")
  case True
  with assms show ?thesis
    by (auto simp: leave_user_def la_RemoveUser_def app_of_def la_users_def)
next
  case False
  then obtain n where n: "ns_of w (app_ID app) = Some n" by blast
  have wf: "la_wf w" "a \<noteq> 0" using ok by (simp_all add: okay_def world_ok_def attached_def)
  then obtain n' where e: "n_RemoveUser (w_heap w) a n = Some n'"
    using ns_step [OF la_wf_ns [OF wf(1) n], of "OpRemoveUser (w_heap w) a"] by auto
  note s = user_op_spec [OF wf(1) n, of "OpRemoveUser (w_heap w) a" n', simplified e wf ns_exec.simps ns_valid.simps]
  have "quiet a w (set_ns (app_ID app) n' w)"
    by (rule la_frame_quiet [OF ok]) (use s in simp_all)
  then have "okay a (set_ns (app_ID app) n' w)" by (rule step_okay(2))
  then show ?thesis
    using False n e s fr app i u ok
    by (simp add: leave_user_def la_RemoveUser_def app_of_def free_def la_subs_def la_users_def)
qed

lemma shut_conn_eq: "shut_conn a w = upd_ws a (\<lambda>s. case ws_conn s of None \<Rightarrow> s
    | Some conn \<Rightarrow> if cn_close_ok conn then s\<lparr>ws_conn := None\<rparr> else s) w"
  by (simp add: shut_conn_def)

text \<open>Saying goodbye and clearing the socket: only the socket itself changes.\<close>

definition only_socket :: "addr \<Rightarrow> World \<Rightarrow> World \<Rightarrow> bool" where
  "only_socket a w w' = (world_ok w' \<and> registered w' = registered w \<and> ns_of w' = ns_of w \<and> w_lib w' = w_lib w
     \<and> others a w w')"

lemma upd_only_socket: "world_ok w \<Longrightarrow> free w a \<Longrightarrow> only_socket a w (upd_ws a f w)"
  using upd_free [of w a f] upd_others [of a w f] same_namespaces [of "upd_ws a f w" w]
  by (simp add: only_socket_def)

lemma farewell_runs:
  assumes ok: "okay a w" and fr: "free w a"
  shows "runs (farewell a code w) (\<lambda>w'. only_socket a w w' \<and> attached w' a)"
proof -
  have send: "only_socket a w (shut_conn a w1) \<and> attached (shut_conn a w1) a" if f: "send_frame w1 w" for w1
  proof -
    have q: "quiet a w w1" by (rule send_frame_quiet [OF ok f])
    then have w1: "world_ok w1" "registered w1 = registered w" "w_lib w1 = w_lib w" "others a w w1" "attached w1 a"
      by (simp_all add: quiet_def step_def others_def)
    with fr have "free w1 a" by (simp add: free_def)
    from upd_only_socket [OF w1(1) this] have "only_socket a w1 (shut_conn a w1)" by (simp add: shut_conn_eq)
    moreover have "ns_of w1 = ns_of w" using f same_namespaces [of w1 w] by (simp add: send_frame_def)
    moreover have "attached (shut_conn a w1) a"
      using w1(5) by (simp add: shut_conn_def attached_def split: option.split)
    ultimately show ?thesis using w1 others_trans [of a w w1] by (simp add: only_socket_def)
  qed
  from ok obtain w1 where w1: "ws_Send a (ErrorPack code ''closing connection'' []) w = Some w1"
    using ws_Send_sane [OF okay_sane] by blast
  from send [OF ws_Send_frame [OF w1]] w1 ok show ?thesis
    by (simp add: farewell_def only_socket_def okay_def)
qed

lemma mark_closed_ended:
  assumes "world_ok w" "free w a" "attached w a"
  shows "only_socket a w (mark_closed a w)" "ended (mark_closed a w) a"
  using assms upd_only_socket [OF assms(1,2), of "\<lambda>s. Cleanup (s\<lparr>ws_closed := True\<rparr>)"]
  by (auto simp: mark_closed_def only_socket_def ended_def attached_def Cleanup_def)

lemma closeConnection_runs:
  assumes ok: "okay a w" and app: "ws_app (w_heap w a) = Some app" and i: "ws_ID (w_heap w a) = i"
    and u: "ws_userID (w_heap w a) = u"
  shows "runs (closeConnection a code w) (\<lambda>w'. world_ok w' \<and> ended w' a \<and> free w' a \<and> w_lib w' = w_lib w
    \<and> registered w' = unregister (app_ID app) i (registered w) \<and> others a w w'
    \<and> (registered w (app_ID app) i = Some a \<longrightarrow>
         (\<forall>c. (c, i) \<notin> la_subs (app_ID app) w') \<and> (u \<noteq> [] \<longrightarrow> (u, i) \<notin> la_users (app_ID app) w')))"
proof -
  let ?p = "app_ID app"
  from unsubscribe_all_runs [OF ok] obtain w1 where
    w1: "unsubscribeFromAllChannels a w = Some w1" "okay a w1" "same_id (w_heap w1 a) (w_heap w a)"
      "ws_userID (w_heap w1 a) = u" "w_lib w1 = w_lib w" "registered w1 = registered w" "others a w w1"
    using u by (elim runs_E) blast
  have id1: "ws_app (w_heap w1 a) = Some app" "ws_ID (w_heap w1 a) = i" using w1(3) app i by (simp_all add: same_id_def)
  from leave_adapter_runs [OF w1(2) id1] obtain w2 where
    w2: "leave_adapter a w1 = Some w2" "okay a w2" "free w2 a" "w_heap w2 = w_heap w1" "w_lib w2 = w_lib w1"
      "registered w2 = unregister ?p i (registered w1)"
      "registered w1 ?p i = Some a \<Longrightarrow> la_subs ?p w2 = {(c, j) \<in> la_subs ?p w1. j \<noteq> i}"
    by (elim runs_E) blast
  have id2: "ws_app (w_heap w2 a) = Some app" "ws_ID (w_heap w2 a) = i" "ws_userID (w_heap w2 a) = u"
    using id1 w1(4) w2(4) by simp_all
  from leave_user_runs [OF w2(2,3) id2] obtain w3 where
    w3: "leave_user a w2 = Some w3" "okay a w3" "free w3 a" "w_heap w3 = w_heap w2" "w_lib w3 = w_lib w2"
      "registered w3 = registered w2" "la_subs ?p w3 = la_subs ?p w2"
      "la_users ?p w3 = la_users ?p w2 - (if u = [] then {} else {(u, i)})"
    by (elim runs_E) blast
  from farewell_runs [OF w3(2,3), of code] obtain w4 where
    w4: "farewell a code w3 = Some w4" "only_socket a w3 w4" "attached w4 a" by (elim runs_E) blast
  have fr4: "free w4 a" using w4(2) w3(3) by (simp add: only_socket_def free_def)
  have wk4: "world_ok w4" using w4(2) by (simp add: only_socket_def)
  note m = mark_closed_ended [OF wk4 fr4 w4(3)]
  have e: "closeConnection a code w = Some (mark_closed a w4)"
    using ok w1(1) w2(1) w3(1) w4(1) by (simp add: closeConnection_def okay_def attached_def)
  have n: "ns_of (mark_closed a w4) = ns_of w3" using m(1) w4(2) by (simp add: only_socket_def)
  have o: "others a w (mark_closed a w4)"
    using w1(7) w4(2) m(1) w2(4) w3(4) others_trans [of a w w1] others_trans [of a w1 w4] others_trans [of a w3 w4]
    by (simp add: only_socket_def others_def [of a w1 w3] others_def [of a w3] others_def [of a w1])
  have r: "registered (mark_closed a w4) = unregister ?p i (registered w)"
    using m(1) w4(2) w3(6) w2(6) w1(6) by (simp add: only_socket_def)
  have f: "free (mark_closed a w4) a" using m(1) fr4 by (simp add: only_socket_def free_def)
  have t: "la_subs ?p (mark_closed a w4) = la_subs ?p w3" "la_users ?p (mark_closed a w4) = la_users ?p w3"
    using n by (simp_all add: la_subs_def la_users_def)
  have l: "w_lib (mark_closed a w4) = w_lib w"
    using m(1) w4(2) w1(5) w2(5) w3(5) by (simp add: only_socket_def)
  have k: "world_ok (mark_closed a w4)" using m(1) by (simp add: only_socket_def)
  have tr: "registered w ?p i = Some a \<longrightarrow>
      (\<forall>c. (c, i) \<notin> la_subs ?p (mark_closed a w4)) \<and> (u \<noteq> [] \<longrightarrow> (u, i) \<notin> la_users ?p (mark_closed a w4))"
    using t w3(7,8) w2(7) w1(6) by simp
  from e k m(2) f l r o tr show ?thesis by simp
qed

text \<open>What a handler that may close the connection leaves behind.\<close>

definition shrinks :: "World \<Rightarrow> World \<Rightarrow> bool" where
  "shrinks w w' = (\<forall>p i b. registered w' p i = Some b \<longrightarrow> registered w p i = Some b)"

definition served :: "addr \<Rightarrow> World \<Rightarrow> World \<Rightarrow> bool" where
  "served a w w' = (world_ok w' \<and> w_lib w' = w_lib w \<and> others a w w' \<and> shrinks w w'
     \<and> (session_ok w' a \<and> registered w' = registered w \<or> ended w' a \<and> free w' a))"

lemma step_served: "step a w w' \<Longrightarrow> session_ok w a \<Longrightarrow> served a w w'"
  by (simp add: served_def step_def others_def shrinks_def)

lemma close_served:
  assumes "okay a w"
  shows "runs (closeConnection a code w) (served a w)"
proof -
  from assms obtain app where "ws_app (w_heap w a) = Some app" by (auto simp: okay_def attached_def)
  from closeConnection_runs [OF assms this refl refl] show ?thesis
    by (rule runs_mono) (simp add: served_def shrinks_def unregister_def)
qed

lemma served_sane: "served a w w' \<Longrightarrow> sane w' a"
  by (auto simp: served_def session_ok_def attached_def ended_def sane_def)

lemma served_transfer:
  assumes s: "served a w w1" and h: "\<And>b. same_but_wire (w_heap w2 b) (w_heap w1 b)"
    and ns: "w_Namespaces w2 = w_Namespaces w1" and lib: "w_lib w2 = w_lib w1"
  shows "served a w w2"
proof -
  have n: "registered w2 = registered w1" "la_wf w2 = la_wf w1"
    using ns same_namespaces [of w2 w1] by simp_all
  have k: "world_ok w2"
    by (rule world_ok_transfer [of w1])
      (use s n h in \<open>simp_all add: served_def world_ok_iff same_id_def same_but_wire_def\<close>)
  have o: "others a w w2" using s h same_but_wire_trans by (fastforce simp: served_def others_def)
  have "w_lib w2 = w_lib w" using s lib by (simp add: served_def)
  moreover have "session_ok w1 a \<Longrightarrow> session_ok w2 a" "ended w1 a \<Longrightarrow> ended w2 a"
    using h [of a] by (simp_all add: session_ok_def attached_def ended_def same_but_wire_def)
  ultimately show ?thesis using s k o n by (auto simp: served_def free_def shrinks_def)
qed

lemma served_frame: "served a w w1 \<Longrightarrow> send_frame w2 w1 \<Longrightarrow> served a w w2"
  by (erule served_transfer) (simp_all add: send_frame_def)

lemma served_background: "served a w w1 \<Longrightarrow> background w1 w2 \<Longrightarrow> served a w w2"
  by (erule served_transfer) (simp_all add: background_def)

lemma served_send:
  assumes "served a w w1"
  shows "runs (ws_Send a msg w1) (served a w)"
proof -
  from ws_Send_sane [OF served_sane [OF assms], of msg] obtain w2 where s: "ws_Send a msg w1 = Some w2" by blast
  from served_frame [OF assms ws_Send_frame [OF s]] s show ?thesis by simp
qed

subsection \<open>Properties\<close>

text \<open>C10
  Closing a registered connection always succeeds and leaves nothing of it behind: the socket is
  closed and unregistered, it is subscribed to no channel and belongs to no user any more; no other
  socket is touched beyond what is written to it, no other registration changes, and the server's
  invariant holds.
\<close>
theorem close_leaves_no_trace:
  assumes "world_ok w" "registered w appID i = Some a"
  shows "\<exists>w'. closeConnection a code w = Some w' \<and> world_ok w' \<and> ws_closed (w_heap w' a)
    \<and> registered w' = unregister appID i (registered w)
    \<and> (\<forall>c. (c, i) \<notin> la_subs appID w')
    \<and> (ws_userID (w_heap w a) \<noteq> [] \<longrightarrow> (ws_userID (w_heap w a), i) \<notin> la_users appID w')
    \<and> others a w w'"
proof -
  from world_okD(2) [OF assms] obtain app where id: "attached w a" "ws_ID (w_heap w a) = i"
    "ws_app (w_heap w a) = Some app" "app_ID app = appID" by (auto simp: reg_ok_def)
  have ok: "okay a w" using assms(1) id by (simp add: okay_def)
  from closeConnection_runs [OF ok id(3,2) refl, of code] assms(2) id(4) show ?thesis
    by (auto simp: runs_iff ended_def)
qed

theorem close_leaves_no_trace_witness:
  "\<exists>w'. closeConnection 1 ErrCodeServerShuttingDown demo_world = Some w' \<and> world_ok w' \<and> ws_closed (w_heap w' 1)
    \<and> registered w' ''1'' ''1.1'' = None \<and> registered w' ''1'' ''2.2'' = Some 2 \<and> (''c'', ''1.1'') \<notin> la_subs ''1'' w'"
proof -
  have "registered demo_world ''1'' ''1.1'' = Some 1" by (simp add: demo_registered)
  from close_leaves_no_trace [OF demo_world_ok this, of ErrCodeServerShuttingDown]
  obtain w' where "closeConnection 1 ErrCodeServerShuttingDown demo_world = Some w'" "world_ok w'" "ws_closed (w_heap w' 1)"
    "registered w' = unregister ''1'' ''1.1'' (registered demo_world)" "(''c'', ''1.1'') \<notin> la_subs ''1'' w'" by blast
  then show ?thesis by (simp add: unregister_def demo_registered)
qed

end
