(* ===== verification/Dispatch.thy ===== *)
theory Dispatch
  imports Closing
begin

text \<open>
  Signing in, the dispatch of a frame, the read loop \<open>Listen\<close> and the termination of a user's
  connections keep the invariant of the server and do not panic.
\<close>

subsection \<open>Signing in\<close>

lemma signin_ptr:
  assumes "decode_request_event msg = Some ev" "ev \<noteq> []"
  shows "decode_signin msg \<noteq> Some None"
  using assms
  by (cases "json_parse msg")
    (auto simp: decode_request_event_def decode_signin_def decode_ptr_def decode_obj_def split: json.splits)

lemma accept_signin_runs:
  assumes ok: "okay a w"
  shows "runs (accept_signin a app u d w) (\<lambda>r. step a w (snd r))"
proof -
  let ?w = "upd_ws a (\<lambda>s. s\<lparr>ws_userID := u\<rparr>) w"
  have st: "step a w ?w"
    by (rule upd_step [OF ok]) (simp_all add: same_id_def session_ok_def attached_def)
  note ok' = step_okay(1) [OF st]
  have send: "runs (ws_Send a m w1) (\<lambda>w2. step a w (signalAuthenticated a w2))" if "step a w w1" for m w1
    by (rule runs_mono [OF ws_Send_runs [OF step_okay(1) [OF that]]])
      (rule step_trans [OF that quiet_step], rule quiet_trans, assumption, rule signalAuthenticated_quiet, rule step_okay(2))
  have add: "step a w w1" if "quiet a ?w w1" for w1
    by (rule step_trans [OF st quiet_step [OF that]])
  have "runs (la_AddUser p a ?w) (\<lambda>r. step a w (snd r) \<and> (\<forall>m. runs (ws_Send a m (snd r)) (\<lambda>w2. step a w (signalAuthenticated a w2))))" for p
    by (rule runs_mono [OF la_AddUser_runs [OF ok']]) (blast intro: add send)
  then have "runs (la_AddUser p a ?w) (\<lambda>r. (fst r = None \<longrightarrow> runs (ws_Send a m (snd r)) (\<lambda>w2. step a w (signalAuthenticated a w2)))
      \<and> (\<forall>e. fst r = Some e \<longrightarrow> step a w (snd r)))" for p m
    by (rule runs_mono) blast
  then show ?thesis
    using ok' by (simp add: accept_signin_def Let_def split_def split: option.split)
qed

lemma check_signin_runs:
  assumes ok: "okay a w" and s: "session_ok w a"
  shows "runs (check_signin a pl u w) (\<lambda>r. served a w (snd r))"
proof -
  from ok obtain app where app: "ws_app (w_heap w a) = Some app" by (auto simp: okay_def attached_def)
  have "runs (accept_signin a app u d w) (\<lambda>r. served a w (snd r))" for d
    by (rule runs_mono [OF accept_signin_runs [OF ok]]) (rule step_served [OF _ s])
  with close_served [OF ok] app show ?thesis
    by (simp add: check_signin_def app_of_def)
qed

lemma handleUserSignin_runs:
  assumes ok: "okay a w" and s: "session_ok w a" and p: "decode_signin msg \<noteq> Some None"
  shows "runs (handleUserSignin a msg w) (\<lambda>r. served a w (snd r))"
  using check_signin_runs [OF ok s] p step_served [OF quiet_step [OF step_refl [OF ok]] s]
  by (cases "decode_signin msg") (auto simp: handleUserSignin_def split: option.split)

subsection \<open>Dispatch\<close>

text \<open>A frame that the handlers can take: \<open>channel_data\<close> of a presence subscription is a member.\<close>

definition frame_ok :: "Lib \<Rightarrow> string \<Rightarrow> bool" where
  "frame_ok lib msg = (decode_request_event msg = Some ''pusher:subscribe'' \<longrightarrow> member_given lib msg)"

lemma dispatch_runs:
  assumes ok: "okay a w" and s: "session_ok w a" and f: "frame_ok (w_lib w) msg"
    and e: "decode_request_event msg = Some ev"
  shows "runs (dispatch a ev msg w) (\<lambda>r. served a w (snd r))"
proof -
  have st: "runs m (\<lambda>r. served a w (snd r))" if "runs m (\<lambda>r. step a w (snd r))" for m :: "(UError option \<times> World) option"
    by (rule runs_mono [OF that]) (rule step_served [OF _ s])
  have q: "runs m (\<lambda>r. served a w (snd r))" if "runs m (\<lambda>r. quiet a w (snd r))" for m :: "(UError option \<times> World) option"
    by (rule st, rule runs_mono [OF that]) (rule quiet_step)
  have p: "runs (ws_Send a PongPack w) (served a w)"
    by (rule runs_mono [OF ws_Send_runs [OF ok]]) (rule step_served [OF quiet_step s])
  note signin = handleUserSignin_runs [OF ok s signin_ptr [OF e]]
  show ?thesis
    using p st [OF handleSubscribeRequest_runs [OF ok s, of msg]] q [OF handleUnsubscribeRequest_runs [OF ok, of msg]]
      q [OF handleClientEvent_runs [OF ok s, of msg]] signin f e
      step_served [OF quiet_step [OF step_refl [OF ok]] s]
    by (simp add: dispatch_def frame_ok_def)
qed

lemma mark_received_served:
  assumes "served a w w1"
  shows "runs (mark_received a w1) (served a w)"
proof -
  have "ws_app (w_heap w1 a) = None \<or> ws_server (w_heap w1 a)"
    using assms by (auto simp: served_def session_ok_def attached_def ended_def)
  then show ?thesis
    using assms served_background [OF assms background_simps(2)]
    by (auto simp: mark_received_def server_of_def split: option.split)
qed

lemma parseIncomingPayload_runs:
  assumes ok: "okay a w" and s: "session_ok w a" and f: "frame_ok (w_lib w) msg"
  shows "runs (parseIncomingPayload a msg w) (\<lambda>r. served a w (snd r))"
proof (cases "decode_request_event msg")
  case None
  with step_served [OF quiet_step [OF step_refl [OF ok]] s] show ?thesis by (simp add: parseIncomingPayload_def)
next
  case (Some ev)
  have "runs (dispatch a ev msg w) (\<lambda>r. runs (mark_received a (snd r)) (served a w))"
    by (rule runs_mono [OF dispatch_runs [OF ok s f Some]]) (rule mark_received_served)
  with Some show ?thesis by (simp add: parseIncomingPayload_def split_def)
qed

lemma served_trans_step:
  assumes "step a w w1" "served a w1 w2"
  shows "served a w w2"
  using assms others_trans [of a w w1 w2] by (auto simp: served_def step_def others_def shrinks_def)

lemma resetReadTimeout_runs:
  assumes "okay a w"
  shows "runs (resetReadTimeout a w) (quiet a w)"
proof -
  from assms obtain app where app: "ws_app (w_heap w a) = Some app" by (auto simp: okay_def attached_def)
  have "quiet a w (upd_ws a (\<lambda>s. s\<lparr>ws_conn := c\<rparr>) w)" for c
    by (rule upd_quiet [OF assms]) (simp_all add: same_id_def session_ok_def attached_def)
  with app assms show ?thesis by (simp add: resetReadTimeout_def step_refl split: option.split)
qed

lemma count_frame_runs:
  assumes "okay a w"
  shows "runs (count_frame a w) (quiet a w)"
  using assms app_of_runs [OF assms] by (auto simp: count_frame_def step_refl runs_iff)

lemma handle_frame_runs:
  assumes ok: "okay a w" and s: "session_ok w a" and f: "frame_ok (w_lib w) msg"
  shows "runs (handle_frame a msg w) (served a w)"
proof -
  have rep: "runs (report_error a e w1) (served a w)" if "served a w w1" for e w1
    using that served_send [OF that] by (simp add: report_error_def split: option.split)
  have parse: "runs (parseIncomingPayload a msg w2) (\<lambda>r. runs (report_error a (fst r) (snd r)) (served a w))"
    if q: "quiet a w w2" for w2
  proof (rule runs_mono [OF parseIncomingPayload_runs [OF step_okay(2) [OF q] step_session [OF quiet_step [OF q] s]]])
    show "frame_ok (w_lib w2) msg" using q f by (simp add: quiet_def step_def)
    show "runs (report_error a (fst r) (snd r)) (served a w)" if "served a w2 (snd r)" for r :: "UError option \<times> World"
      by (rule rep [OF served_trans_step [OF quiet_step [OF q] that]])
  qed
  have cnt: "runs (count_frame a w1) (\<lambda>w2. runs (parseIncomingPayload a msg w2)
      (\<lambda>r. runs (report_error a (fst r) (snd r)) (served a w)))" if q: "quiet a w w1" for w1
    by (rule runs_mono [OF count_frame_runs [OF step_okay(2) [OF q]]]) (rule parse, rule quiet_trans [OF q])
  from runs_mono [OF resetReadTimeout_runs [OF ok] cnt] show ?thesis
    by (simp add: handle_frame_def split_def)
qed

lemma read_error_runs:
  assumes ok: "okay a w"
  shows "runs (handleReadMessageError a err w) (served a w)"
proof -
  from app_of_runs [OF ok] obtain app where app: "app_of a w = Some app" by (auto simp: runs_iff)
  have "runs (closeConnection a code (w\<lparr>w_metrics := m\<rparr>)) (served a w)" for code m
  proof (rule runs_mono [OF close_served])
    show "okay a (w\<lparr>w_metrics := m\<rparr>)" using ok by simp
    show "served a w w'" if "served a (w\<lparr>w_metrics := m\<rparr>) w'" for w'
      by (rule served_trans_step [OF _ that]) (use ok step_refl [OF ok] in \<open>simp add: quiet_step\<close>)
  qed
  with ok app show ?thesis by (simp add: handleReadMessageError_def)
qed

text \<open>One round of the read loop, from any state in which the socket is served or has ended.\<close>

lemma listen_round_runs:
  assumes "served a w0 w" "\<And>msg. r = Frame msg \<Longrightarrow> frame_ok (w_lib w0) msg"
  shows "runs (listen_round a r w) (\<lambda>x. served a w0 (snd x))"
proof (cases "ws_closed (w_heap w a) \<or> ws_conn (w_heap w a) = None")
  case True
  with assms(1) show ?thesis by (simp add: listen_round_def)
next
  case False
  with assms(1) have s: "session_ok w a" and ok: "okay a w" and st: "registered w = registered w0"
    by (auto simp: served_def ended_def okay_def session_ok_def)
  have tr: "served a w0 w'" if "served a w w'" for w'
    using assms(1) that st others_trans [of a w0 w w'] by (auto simp: served_def shrinks_def)
  have fr: "runs (handle_frame a msg w) (served a w0)" if "r = Frame msg" for msg
    by (rule runs_mono [OF handle_frame_runs [OF ok s]])
      (use assms that tr in \<open>simp_all add: served_def\<close>)
  have er: "runs (handleReadMessageError a err w) (served a w0)" for err
    by (rule runs_mono [OF read_error_runs [OF ok]]) (rule tr)
  show ?thesis
    using False fr er assms(1) by (cases r) (simp_all add: listen_round_def)
qed

lemma Listen_runs:
  "served a w0 w \<Longrightarrow> \<forall>msg. Frame msg \<in> set rs \<longrightarrow> frame_ok (w_lib w0) msg
    \<Longrightarrow> runs (Listen a rs w) (\<lambda>x. served a w0 (snd x))"
proof (induction rs arbitrary: w)
  case (Cons r rs)
  have "runs (listen_round a r w) (\<lambda>x. served a w0 (snd x))"
    by (rule listen_round_runs [OF Cons.prems(1)]) (use Cons.prems(2) in simp)
  then have "runs (listen_round a r w) (\<lambda>x. (fst x \<longrightarrow> runs (Listen a rs (snd x)) (\<lambda>x. served a w0 (snd x)))
      \<and> (\<not> fst x \<longrightarrow> served a w0 (snd x)))"
    by (rule runs_mono) (use Cons in simp)
  then show ?case by (simp add: split_def)
qed simp

subsection \<open>Terminating the connections of a user\<close>

text \<open>What a run of \<open>TerminateUserConnections\<close> does to the other registered sockets.\<close>

definition thinned :: "World \<Rightarrow> World \<Rightarrow> bool" where
  "thinned w w' = (world_ok w' \<and> w_lib w' = w_lib w
     \<and> (\<forall>p i b. registered w' p i = Some b \<longrightarrow>
          registered w p i = Some b \<and> same_but_wire (w_heap w' b) (w_heap w b)))"

lemma thinned_refl: "world_ok w \<Longrightarrow> thinned w w"
  by (simp add: thinned_def)

lemma thinned_trans: "thinned w w' \<Longrightarrow> thinned w' w'' \<Longrightarrow> thinned w w''"
  unfolding thinned_def using same_but_wire_trans by (metis (no_types))

lemma close_one_runs:
  assumes ok: "world_ok w" and r: "registered w p i = Some a"
  shows "runs (do { w \<leftarrow> ws_Send a msg w; closeConnection a code w })
    (\<lambda>w'. thinned w w' \<and> registered w' p i = None)"
proof -
  from world_okD(2) [OF ok r] obtain app where id: "attached w a" "ws_ID (w_heap w a) = i"
    "ws_app (w_heap w a) = Some app" "app_ID app = p" by (auto simp: reg_ok_def)
  have okay: "okay a w" using ok id by (simp add: okay_def)
  have "runs (closeConnection a code w1) (\<lambda>w'. thinned w w' \<and> registered w' p i = None)" if q: "quiet a w w1" for w1
  proof -
    have id1: "ws_app (w_heap w1 a) = Some app" "ws_ID (w_heap w1 a) = i" and r1: "registered w1 = registered w"
      and l1: "w_lib w1 = w_lib w" and o1: "others a w w1"
      using q id by (simp_all add: quiet_def step_def same_id_def others_def)
    have "thinned w w' \<and> registered w' p i = None"
      if c: "world_ok w' \<and> ended w' a \<and> free w' a \<and> w_lib w' = w_lib w1
        \<and> registered w' = unregister (app_ID app) i (registered w1) \<and> others a w1 w' \<and> X" for w' X
    proof -
      have o: "others a w w'" using others_trans [OF o1] c by blast
      have "registered w q j = Some b \<and> same_but_wire (w_heap w' b) (w_heap w b)" if s: "registered w' q j = Some b" for q j b
      proof -
        from s c have "b \<noteq> a" by (auto simp: free_def)
        with s c o r1 show ?thesis by (simp add: unregister_def others_def split: if_splits)
      qed
      with c l1 id(4) show ?thesis by (simp add: thinned_def unregister_def)
    qed
    then show ?thesis by (rule runs_mono [OF closeConnection_runs [OF step_okay(2) [OF q] id1 refl]]) simp
  qed
  from runs_mono [OF ws_Send_runs [OF okay] this] show ?thesis by simp
qed

lemma terminate_each_runs:
  "world_ok w \<Longrightarrow> runs (terminate_each p u ids w)
    (\<lambda>w'. thinned w w' \<and> (\<forall>i \<in> set ids. \<forall>b. registered w' p i = Some b \<longrightarrow> ws_userID (w_heap w' b) \<noteq> u))"
proof (induction ids arbitrary: w)
  case (Cons i ids)
  have rest: "runs (terminate_each p u ids w1) (\<lambda>w'. thinned w w'
      \<and> (\<forall>i \<in> set (i # ids). \<forall>b. registered w' p i = Some b \<longrightarrow> ws_userID (w_heap w' b) \<noteq> u))"
    if t: "thinned w w1" and i: "\<And>b. registered w1 p i = Some b \<Longrightarrow> ws_userID (w_heap w1 b) \<noteq> u" for w1
  proof (rule runs_mono [OF Cons.IH])
    show "world_ok w1" using t by (simp add: thinned_def)
    fix w' assume h: "thinned w1 w' \<and> (\<forall>i \<in> set ids. \<forall>b. registered w' p i = Some b \<longrightarrow> ws_userID (w_heap w' b) \<noteq> u)"
    have "ws_userID (w_heap w' b) \<noteq> u" if "registered w' p i = Some b" for b
      using h that i [of b] by (auto simp: thinned_def same_but_wire_def)
    with h thinned_trans [OF t] show "thinned w w' \<and>
       (\<forall>i \<in> set (i # ids). \<forall>b. registered w' p i = Some b \<longrightarrow> ws_userID (w_heap w' b) \<noteq> u)" by simp
  qed
  have reg: "(case ns_of w p of None \<Rightarrow> None | Some n \<Rightarrow> map_of (ns_Sockets n) i) = registered w p i"
    by (simp add: registered_def)
  show ?case
  proof (cases "registered w p i")
    case None
    with rest [OF thinned_refl [OF Cons.prems]] show ?thesis by (simp add: reg)
  next
    case (Some a)
    from world_okD(2) [OF Cons.prems Some] have a: "a \<noteq> 0" by (simp add: reg_ok_def attached_def)
    show ?thesis
    proof (cases "ws_userID (w_heap w a) = u")
      case True
      have "runs (do { w \<leftarrow> ws_Send a msg w; closeConnection a code w }) (\<lambda>w1. runs (terminate_each p u ids w1) (\<lambda>w'. thinned w w'
        \<and> (\<forall>i \<in> set (i # ids). \<forall>b. registered w' p i = Some b \<longrightarrow> ws_userID (w_heap w' b) \<noteq> u)))" for msg code
        by (rule runs_mono [OF close_one_runs [OF Cons.prems Some]]) (rule rest, simp_all)
      with True Some a reg show ?thesis by simp
    next
      case False
      with rest [OF thinned_refl [OF Cons.prems]] Some a reg show ?thesis by simp
    qed
  qed
qed (simp add: thinned_refl)

lemma terminate_runs:
  assumes "world_ok w"
  shows "runs (la_TerminateUserConnections p u w)
    (\<lambda>w'. thinned w w' \<and> (\<forall>i b. registered w' p i = Some b \<longrightarrow> ws_userID (w_heap w' b) \<noteq> u))"
proof (cases "ns_of w p")
  case None
  with assms show ?thesis
    by (simp add: la_TerminateUserConnections_def thinned_refl registered_def)
next
  case (Some n)
  have "i \<in> set (map fst (n_GetSockets n))" if "thinned w w'" "registered w' p i = Some b" for w' i b
  proof -
    from that have "registered w p i = Some b" by (simp add: thinned_def)
    with Some have "map_of (ns_Sockets n) i = Some b" by (simp add: registered_def)
    from map_of_SomeD [OF this] show ?thesis by (force simp: n_GetSockets_def)
  qed
  then have "runs (terminate_each p u (map fst (n_GetSockets n)) w)
    (\<lambda>w'. thinned w w' \<and> (\<forall>i b. registered w' p i = Some b \<longrightarrow> ws_userID (w_heap w' b) \<noteq> u))"
    by (intro runs_mono [OF terminate_each_runs [OF assms]]) blast
  with Some show ?thesis by (simp add: la_TerminateUserConnections_def)
qed

subsection \<open>Properties\<close>


definition demo_ping :: string where
  "demo_ping = request ''pusher:ping'' []"


text \<open>C28
  Terminating the connections of a user works: afterwards no registered socket of the app has that
  user, every socket that is still registered was registered before, and it has only been written to.
\<close>
theorem terminate_disconnects_user:
  assumes "world_ok w"
  shows "\<exists>w'. la_TerminateUserConnections appID userID w = Some w' \<and> world_ok w'
    \<and> (\<forall>i b. registered w' appID i = Some b \<longrightarrow> ws_userID (w_heap w' b) \<noteq> userID)
    \<and> (\<forall>p i b. registered w' p i = Some b \<longrightarrow> registered w p i = Some b
         \<and> same_but_wire (w_heap w' b) (w_heap w b))"
  using terminate_runs [OF assms, of appID userID] by (auto simp: runs_iff thinned_def)

definition demo_user :: World where
  "demo_user = upd_ws 1 (\<lambda>s. s\<lparr>ws_userID := ''u''\<rparr>) demo_world"

theorem terminate_disconnects_user_witness:
  "\<exists>w'. la_TerminateUserConnections ''1'' ''u'' demo_user = Some w' \<and> world_ok w' \<and> registered w' ''1'' ''1.1'' = None"
proof -
  have n: "w_Namespaces demo_user = w_Namespaces demo_world" by (simp add: demo_user_def)
  note s = same_namespaces [OF n]
  have "world_ok demo_user"
    by (rule world_ok_transfer [of demo_world]) (use s in \<open>simp_all add: world_okD(1) demo_user_def same_id_def\<close>)
  from terminate_disconnects_user [OF this, of "''1''" "''u''"] obtain w' where
    e: "la_TerminateUserConnections ''1'' ''u'' demo_user = Some w'" "world_ok w'"
    and u: "\<forall>i b. registered w' ''1'' i = Some b \<longrightarrow> ws_userID (w_heap w' b) \<noteq> ''u''"
    and k: "\<forall>p i b. registered w' p i = Some b \<longrightarrow> registered demo_user p i = Some b
         \<and> same_but_wire (w_heap w' b) (w_heap demo_user b)" by blast
  have "registered w' ''1'' ''1.1'' = None"
  proof (cases "registered w' ''1'' ''1.1''")
    case (Some b)
    with k have "registered demo_user ''1'' ''1.1'' = Some b" "same_but_wire (w_heap w' b) (w_heap demo_user b)" by blast+
    moreover from this(1) s have "b = 1" by (simp add: demo_registered)
    ultimately have "b = 1" "same_but_wire (w_heap w' b) (w_heap demo_user b)" by simp_all
    with u Some show ?thesis by (auto simp: same_but_wire_def demo_user_def)
  qed
  with e show ?thesis by blast
qed

end
