(* ===== verification/Serve.thy ===== *)
theory Serve
  imports Dispatch
begin

text \<open>
  \<open>internal/serve.go\<close>: accepting a WebSocket connection, and the watcher that closes a connection
  whose user does not authenticate in time (\<open>WatchForAuthentication\<close> of \<open>internal/websocket.go\<close>).
  The upgrade of the HTTP connection is done by a third-party package: its result, a connection or
  an error, is a parameter. The address of the new socket and its random id are parameters too.
\<close>

datatype ServeOutcome =
    Unavailable           \<comment> \<open>503, before the upgrade\<close>
  | UpgradeFailed
  | Refused ErrorCode Conn \<comment> \<open>the connection, after the error has been written to it\<close>
  | Accepted

text \<open>\<open>closeConnectionWithError\<close>: one frame on the raw connection, which is then closed.\<close>

definition closeConnectionWithError :: "Conn \<Rightarrow> ErrorCode \<Rightarrow> string \<Rightarrow> Conn" where
  "closeConnectionWithError conn errorCode message =
     (if cn_write_ok conn then conn\<lparr>cn_wire := cn_wire conn @ [ErrorPack errorCode message []]\<rparr> else conn)"

definition refuse :: "Conn \<Rightarrow> ErrorCode \<Rightarrow> ServeOutcome" where
  "refuse conn code = Refused code (closeConnectionWithError conn code (ErrorCode_Error code))"

definition validateApp :: "ArrayAppManager \<Rightarrow> string \<Rightarrow> ErrorCode + App" where
  "validateApp apps appKey =
     (case FindByKey apps appKey of
        Inl _ \<Rightarrow> Inl ErrCodeAppNotExist
      | Inr app \<Rightarrow> if \<not> app_Enabled app then Inl ErrCodeAppDisabled else Inr app)"

definition validateConnectionLimits :: "App \<Rightarrow> World \<Rightarrow> ErrorCode option" where
  "validateConnectionLimits app w =
     (let socketCount = la_GetSocketsCount (app_ID app) w in
      if app_MaxConnections app > -1 \<and> socketCount + 1 > app_MaxConnections app
      then Some ErrCodeOverQuota else None)"

definition createWebSocket :: "SocketID \<Rightarrow> Conn \<Rightarrow> App \<Rightarrow> WebSocket" where
  "createWebSocket socketID conn app =
     \<lparr>ws_ID = socketID, ws_app = Some app, ws_SubscribedChannels = Some [], ws_PresenceData = Some [],
      ws_conn = Some conn, ws_closed = False, ws_server = True, ws_userID = [],
      ws_userAuthChannel = None, ws_userHasAuthorized = False\<rparr>"

definition addSocketToAdapter :: "App \<Rightarrow> addr \<Rightarrow> World \<Rightarrow> (ErrorCode option \<times> World) option" where
  "addSocketToAdapter app a w =
     do { (err, w) \<leftarrow> la_AddSocket (app_ID app) a w;
          Some (map_option (\<lambda>_. ErrCodeOverQuota) err, w) }"

text \<open>The channel of capacity 1 exists as long as the watcher waits on it.\<close>

definition WatchForAuthentication :: "addr \<Rightarrow> World \<Rightarrow> World" where
  "WatchForAuthentication a w =
     (if ws_userAuthChannel (w_heap w a) \<noteq> None then w
      else upd_ws a (\<lambda>s. s\<lparr>ws_userAuthChannel := Some []\<rparr>) w)"

text \<open>The two cases of the watcher's \<open>select\<close>: a signal is received, or the timer fires.\<close>

definition watcher_signal :: "addr \<Rightarrow> World \<Rightarrow> World option" where
  "watcher_signal a w =
     (case ws_userAuthChannel (w_heap w a) of
        Some (authResult # _) \<Rightarrow>
          Some (upd_ws a (\<lambda>s. s\<lparr>ws_userHasAuthorized := authResult, ws_userAuthChannel := None\<rparr>) w)
      | _ \<Rightarrow> Some w)"

definition watcher_timeout :: "addr \<Rightarrow> World \<Rightarrow> World option" where
  "watcher_timeout a w =
     (case ws_userAuthChannel (w_heap w a) of
        Some _ \<Rightarrow> closeConnection a ErrCodeUnauthorizedConnection w
      | None \<Rightarrow> Some w)"

definition initializeWebSocketConnection :: "addr \<Rightarrow> App \<Rightarrow> World \<Rightarrow> World option" where
  "initializeWebSocketConnection a app w =
     do { w \<leftarrow> ws_Send a (EstablishPack (ws_ID (w_heap w a)) (app_ActivityTimeout app)) w;
          let w = (if app_RequireChannelAuthorization app then WatchForAuthentication a w else w);
          Some (w\<lparr>w_metrics := MarkNewConnection (app_ID app) (w_metrics w)\<rparr>) }"

text \<open>Allocating the socket, registering it and starting it.\<close>

definition admit_socket :: "addr \<Rightarrow> SocketID \<Rightarrow> Conn \<Rightarrow> App \<Rightarrow> World \<Rightarrow> (ServeOutcome \<times> World) option" where
  "admit_socket a socketID conn app w =
     do { let w = upd_ws a (\<lambda>_. createWebSocket socketID conn app) w;
          (err, w) \<leftarrow> addSocketToAdapter app a w;
          (case err of
             Some code \<Rightarrow> Some (refuse conn code, w)
           | None \<Rightarrow> do { w \<leftarrow> initializeWebSocketConnection a app w; Some (Accepted, w) }) }"

definition serveWs ::
  "addr \<Rightarrow> SocketID \<Rightarrow> Conn option \<Rightarrow> string \<Rightarrow> string \<Rightarrow> World \<Rightarrow> (ServeOutcome \<times> World) option" where
  "serveWs a socketID upgraded appKey protocolStr w =
     (if w_Closing w then Some (Unavailable, w)
      else case upgraded of
        None \<Rightarrow> Some (UpgradeFailed, w)
      | Some conn \<Rightarrow>
          if fst (Str2Int protocolStr) \<noteq> 7 then
            Some (Refused ErrCodeUnsupportedProtocolVersion
                    (closeConnectionWithError conn ErrCodeUnsupportedProtocolVersion ''unsupported protocol version''), w)
          else
            (case validateApp (w_apps w) appKey of
               Inl code \<Rightarrow> Some (refuse conn code, w)
             | Inr app \<Rightarrow>
                 (case validateConnectionLimits app w of
                    Some code \<Rightarrow> Some (refuse conn code, w)
                  | None \<Rightarrow> admit_socket a socketID conn app w)))"

subsection \<open>A new connection keeps the invariant\<close>

lemma new_socket_simps [simp]:
  "ws_ID (createWebSocket i conn app) = i" "ws_app (createWebSocket i conn app) = Some app"
  "ws_server (createWebSocket i conn app)"
  "ws_SubscribedChannels (createWebSocket i conn app) = Some []"
  "ws_PresenceData (createWebSocket i conn app) = Some []"
  by (simp_all add: createWebSocket_def)

lemma initialize_runs:
  assumes ok: "okay a w"
  shows "runs (initializeWebSocketConnection a app w) (quiet a w)"
proof -
  have "quiet a w (WatchForAuthentication a w1)" if q: "quiet a w w1" for w1
  proof -
    have "quiet a w1 (upd_ws a (\<lambda>s. s\<lparr>ws_userAuthChannel := Some []\<rparr>) w1)"
      by (rule upd_quiet [OF step_okay(2) [OF q]]) (simp_all add: same_id_def session_ok_def attached_def)
    then show ?thesis using quiet_trans [OF q] q by (simp add: WatchForAuthentication_def)
  qed
  then show ?thesis
    by (simp add: initializeWebSocketConnection_def Let_def runs_mono [OF ws_Send_runs [OF ok]])
qed

text \<open>What accepting a connection does to the state.\<close>

definition accepted :: "addr \<Rightarrow> App \<Rightarrow> SocketID \<Rightarrow> World \<Rightarrow> World \<Rightarrow> bool" where
  "accepted a app i w w' = (world_ok w' \<and> w_lib w' = w_lib w \<and> others a w w' \<and> session_ok w' a
     \<and> registered w (app_ID app) i = None
     \<and> registered w' = (\<lambda>q j. if q = app_ID app \<and> j = i then Some a else registered w q j))"

lemma admit_socket_runs:
  assumes ok: "world_ok w" and a: "a \<noteq> 0" and fr: "free w a"
  shows "runs (admit_socket a i conn app w) (\<lambda>(out, w').
    if out = Accepted then accepted a app i w w'
    else world_ok w' \<and> w_lib w' = w_lib w \<and> others a w w' \<and> registered w' = registered w)"
proof -
  let ?w1 = "upd_ws a (\<lambda>_. createWebSocket i conn app) w"
  note u = upd_free [OF ok fr, of "\<lambda>_. createWebSocket i conn app"]
  have wf1: "la_wf ?w1" using u(1) by (simp add: world_ok_def)
  have o1: "others a w ?w1" by (rule upd_others)
  obtain err w2 where w2: "la_AddSocket (app_ID app) a ?w1 = Some (err, w2)" "la_wf w2" "la_frame w2 ?w1"
      "ns_of w2 (app_ID app) \<noteq> None"
    and e: "err = None \<longleftrightarrow> (case ns_of ?w1 (app_ID app) of None \<Rightarrow> True | Some n \<Rightarrow> \<not> mhas (ns_Sockets n) (ws_ID (w_heap ?w1 a)))"
    and "err = None \<longrightarrow> la_GetSocketsCount (app_ID app) w2 = la_GetSocketsCount (app_ID app) ?w1 + 1"
    and sk: "err = None \<longrightarrow> (\<exists>n'. ns_of w2 (app_ID app) = Some n' \<and> ns_Sockets n' =
         mput (ws_ID (w_heap ?w1 a)) a (case ns_of ?w1 (app_ID app) of None \<Rightarrow> [] | Some n \<Rightarrow> ns_Sockets n))"
    and same: "err \<noteq> None \<longrightarrow> w2 = ?w1"
    and oth: "\<forall>app'. app' \<noteq> app_ID app \<longrightarrow> ns_of w2 app' = ns_of ?w1 app'"
    by (rule la_AddSocket_spec [OF wf1 a])
  show ?thesis
  proof (cases err)
    case (Some x)
    with w2(1) same u o1 show ?thesis
      by (simp add: admit_socket_def addSocketToAdapter_def Let_def refuse_def)
  next
    case None
    with sk obtain n' where n': "ns_of w2 (app_ID app) = Some n'"
      "ns_Sockets n' = mput i a (case ns_of w (app_ID app) of None \<Rightarrow> [] | Some n \<Rightarrow> ns_Sockets n)" by auto
    have h2: "w_heap w2 = w_heap ?w1" "w_lib w2 = w_lib w" using w2(3) by (simp_all add: la_frame_def)
    have r2: "registered w2 = (\<lambda>q j. if q = app_ID app \<and> j = i then Some a else registered w q j)"
    proof (intro ext)
      fix q j
      show "registered w2 q j = (if q = app_ID app \<and> j = i then Some a else registered w q j)"
        using n' oth by (cases "q = app_ID app") (simp_all add: registered_def split: option.split)
    qed
    have rN: "registered w (app_ID app) i = None"
      using e None by (simp add: registered_def mhas_def split: option.splits)
    have wk2: "world_ok w2"
      unfolding world_ok_iff
    proof (intro conjI allI impI)
      show "la_wf w2" by (rule w2(2))
      fix q j b assume s: "registered w2 q j = Some b"
      show "reg_ok w2 q j b"
      proof (cases "q = app_ID app \<and> j = i")
        case True
        with s r2 a h2 show ?thesis by (simp add: reg_ok_def attached_def)
      next
        case False
        with s r2 have "registered w q j = Some b" by (auto split: if_splits)
        with world_okD(2) [OF ok this] fr h2 show ?thesis
          by (auto simp: reg_ok_def attached_def free_def)
      qed
    qed
    have ok2: "okay a w2" and s2: "session_ok w2 a" and o2: "others a w w2"
      using wk2 a h2 by (simp_all add: okay_def attached_def session_ok_def others_def)
    have "accepted a app i w w3" if q: "quiet a w2 w3" for w3
      using q r2 rN step_session [OF quiet_step [OF q] s2] h2(2) others_trans [OF o2, of w3]
      by (simp add: accepted_def quiet_def step_def others_def)
    then show ?thesis
      using w2(1) None by (simp add: admit_socket_def addSocketToAdapter_def Let_def runs_mono [OF initialize_runs [OF ok2]])
  qed
qed

lemma serveWs_runs:
  assumes ok: "world_ok w" and a: "a \<noteq> 0" and fr: "free w a"
  shows "runs (serveWs a i up appKey proto w) (\<lambda>(out, w').
    if out = Accepted then (\<exists>app. validateApp (w_apps w) appKey = Inr app
        \<and> validateConnectionLimits app w = None \<and> \<not> w_Closing w \<and> accepted a app i w w')
    else world_ok w' \<and> w_lib w' = w_lib w \<and> others a w w' \<and> registered w' = registered w)"
proof -
  have "runs (admit_socket a i conn app w) (\<lambda>(out, w').
      (out = Accepted \<longrightarrow> accepted a app i w w')
      \<and> (out \<noteq> Accepted \<longrightarrow> world_ok w' \<and> w_lib w' = w_lib w \<and> others a w w' \<and> registered w' = registered w))"
    for conn app
    by (rule runs_mono [OF admit_socket_runs [OF ok a fr]]) (simp split: prod.splits if_splits)
  then show ?thesis
    using ok by (simp add: serveWs_def refuse_def split: option.split sum.split)
qed

subsection \<open>Who is let in\<close>

text \<open>
  The decision of \<open>serveWs\<close>, written as one condition: the app the key belongs to, when the
  connection is accepted.
\<close>

definition admissible :: "SocketID \<Rightarrow> Conn option \<Rightarrow> string \<Rightarrow> string \<Rightarrow> World \<Rightarrow> App \<Rightarrow> bool" where
  "admissible i upgraded appKey proto w app =
     (\<not> w_Closing w \<and> upgraded \<noteq> None \<and> fst (Str2Int proto) = 7
      \<and> FindByKey (w_apps w) appKey = Inr app \<and> app_Enabled app
      \<and> (app_MaxConnections app > -1 \<longrightarrow> la_GetSocketsCount (app_ID app) w < app_MaxConnections app)
      \<and> registered w (app_ID app) i = None)"

lemma admit_socket_decides:
  assumes "world_ok w" "a \<noteq> 0" "free w a"
  shows "runs (admit_socket a i conn app w) (\<lambda>(out, w').
    (out = Accepted \<longleftrightarrow> registered w (app_ID app) i = None) \<and> (out = Accepted \<or> (\<exists>conn'. out = Refused ErrCodeOverQuota conn')))"
proof -
  let ?w1 = "upd_ws a (\<lambda>_. createWebSocket i conn app) w"
  note u = upd_free [OF assms(1,3), of "\<lambda>_. createWebSocket i conn app"]
  have wf1: "la_wf ?w1" using u(1) by (simp add: world_ok_def)
  obtain err w2 where w2: "la_AddSocket (app_ID app) a ?w1 = Some (err, w2)" "la_frame w2 ?w1"
    and e: "err = None \<longleftrightarrow> (case ns_of ?w1 (app_ID app) of None \<Rightarrow> True | Some n \<Rightarrow> \<not> mhas (ns_Sockets n) (ws_ID (w_heap ?w1 a)))"
    by (rule la_AddSocket_spec [OF wf1 assms(2)])
  have r: "err = None \<longleftrightarrow> registered w (app_ID app) i = None"
    using e by (simp add: registered_def mhas_def split: option.splits)
  from admit_socket_runs [OF assms, of i conn app] have t: "admit_socket a i conn app w \<noteq> None" by (auto simp: runs_iff)
  show ?thesis
  proof (cases err)
    case None
    with t w2(1) obtain w3 where "initializeWebSocketConnection a app w2 = Some w3"
      by (cases "initializeWebSocketConnection a app w2") (simp_all add: admit_socket_def addSocketToAdapter_def Let_def)
    with None w2(1) r show ?thesis by (simp add: admit_socket_def addSocketToAdapter_def Let_def)
  next
    case (Some x)
    with w2(1) r show ?thesis by (simp add: admit_socket_def addSocketToAdapter_def Let_def refuse_def)
  qed
qed

lemma serveWs_accepts_iff:
  assumes "world_ok w" "a \<noteq> 0" "free w a"
  shows "runs (serveWs a i up appKey proto w) (\<lambda>(out, w'). out = Accepted \<longleftrightarrow> (\<exists>app. admissible i up appKey proto w app))"
proof -
  have "runs (admit_socket a i conn app w) (\<lambda>(out, w'). out = Accepted \<longleftrightarrow> registered w (app_ID app) i = None)" for conn app
    by (rule runs_mono [OF admit_socket_decides [OF assms]]) auto
  then show ?thesis
    by (auto simp: serveWs_def refuse_def admissible_def validateApp_def validateConnectionLimits_def Let_def
        split: option.split sum.split)
qed

subsection \<open>Counting connections\<close>

lemma GetSocketsCount_card:
  assumes "la_wf w"
  shows "la_GetSocketsCount p w = int (card {i. registered w p i \<noteq> None})"
proof (cases "ns_of w p")
  case None
  then show ?thesis by (simp add: la_GetSocketsCount_def registered_def)
next
  case (Some n)
  have "wf_map (ns_Sockets n)" using la_wf_ns [OF assms Some] by (simp add: ns_wf_def)
  moreover have "{i. registered w p i \<noteq> None} = fst ` set (ns_Sockets n)"
    using Some by (simp add: registered_def map_of_eq_None_iff del: not_None_eq)
  ultimately show ?thesis using Some by (simp add: la_GetSocketsCount_def n_GetSockets_def length_keys)
qed

lemma finite_registered: "finite {i. registered w p i \<noteq> None}"
proof (cases "ns_of w p")
  case (Some n)
  then have "{i. registered w p i \<noteq> None} = dom (map_of (ns_Sockets n))" by (auto simp: registered_def dom_def)
  then show ?thesis by (simp add: finite_dom_map_of)
qed (simp add: registered_def)

lemma accepted_count:
  assumes "world_ok w" "accepted a app i w w'"
  shows "la_GetSocketsCount (app_ID app) w' = la_GetSocketsCount (app_ID app) w + 1"
proof -
  have wf: "la_wf w" "la_wf w'" using assms by (simp_all add: accepted_def world_ok_def)
  have "{j. registered w' (app_ID app) j \<noteq> None} = insert i {j. registered w (app_ID app) j \<noteq> None}"
    "i \<notin> {j. registered w (app_ID app) j \<noteq> None}"
    using assms(2) by (auto simp: accepted_def)
  then show ?thesis using wf by (simp add: GetSocketsCount_card finite_registered del: not_None_eq)
qed

subsection \<open>Properties\<close>

text \<open>C19
  A connection attempt never panics, and it is accepted exactly when the server is not closing, the
  upgrade succeeded, the protocol is 7, the key belongs to an enabled app with room for one more
  connection, and the random socket id is not in use; accepting registers the new socket under that
  id and nothing else, refusing registers nothing.
\<close>
theorem serveWs_decides:
  assumes "world_ok w" "a \<noteq> 0" "free w a"
  shows "\<exists>out w'. serveWs a i up appKey proto w = Some (out, w') \<and> world_ok w' \<and> others a w w'
    \<and> (out = Accepted \<longleftrightarrow> (\<exists>app. admissible i up appKey proto w app))
    \<and> (out = Accepted \<longrightarrow> (\<exists>app. FindByKey (w_apps w) appKey = Inr app \<and> session_ok w' a
         \<and> registered w' = (\<lambda>q j. if q = app_ID app \<and> j = i then Some a else registered w q j)))
    \<and> (out \<noteq> Accepted \<longrightarrow> registered w' = registered w)"
proof -
  from serveWs_runs [OF assms, of i up appKey proto] obtain out w' where e: "serveWs a i up appKey proto w = Some (out, w')"
    and q: "if out = Accepted then (\<exists>app. validateApp (w_apps w) appKey = Inr app
        \<and> validateConnectionLimits app w = None \<and> \<not> w_Closing w \<and> accepted a app i w w')
      else world_ok w' \<and> w_lib w' = w_lib w \<and> others a w w' \<and> registered w' = registered w"
    by (auto simp: runs_iff)
  from serveWs_accepts_iff [OF assms, of i up appKey proto] e
  have d: "out = Accepted \<longleftrightarrow> (\<exists>app. admissible i up appKey proto w app)" by simp
  show ?thesis
  proof (cases "out = Accepted")
    case True
    with q obtain app where "validateApp (w_apps w) appKey = Inr app" "accepted a app i w w'" by auto
    then have "FindByKey (w_apps w) appKey = Inr app" "world_ok w'" "others a w w'" "session_ok w' a"
      "registered w' = (\<lambda>q j. if q = app_ID app \<and> j = i then Some a else registered w q j)"
      by (auto simp: validateApp_def accepted_def split: sum.splits if_splits)
    with e d True show ?thesis by blast
  next
    case False
    with e d q show ?thesis by auto
  qed
qed

lemma demo_free [simp]: "a \<noteq> 1 \<Longrightarrow> a \<noteq> 2 \<Longrightarrow> free demo_world a"
  by (auto simp: free_def demo_registered split: if_splits)

theorem serveWs_decides_witness:
  "\<exists>out w'. serveWs 5 ''9.9'' (Some demo_conn) ''k'' ''7'' demo_world = Some (out, w') \<and> out = Accepted
    \<and> registered w' ''1'' ''9.9'' = Some 5 \<and> registered w' ''1'' ''1.1'' = Some 1"
proof -
  have "fst (Str2Int ''7'') = 7" by code_simp
  then have "admissible ''9.9'' (Some demo_conn) ''k'' ''7'' demo_world demo_app"
    by (simp add: admissible_def demo_registered)
  moreover have "free demo_world 5" by simp
  ultimately obtain w' where e: "serveWs 5 ''9.9'' (Some demo_conn) ''k'' ''7'' demo_world = Some (Accepted, w')"
    and r: "registered w' = (\<lambda>q j. if q = ''1'' \<and> j = ''9.9'' then Some 5 else registered demo_world q j)"
    using serveWs_decides [of demo_world 5 "''9.9''" "Some demo_conn" "''k''" "''7''"] by auto
  from r have "registered w' ''1'' ''9.9'' = Some 5" "registered w' ''1'' ''1.1'' = Some 1"
    by (simp_all add: demo_registered)
  with e show ?thesis by blast
qed

text \<open>
  The connection quota is checked before the socket is added, not with it: two attempts that both
  pass the check while one place is left are both admitted, and the app ends up with more
  connections than its limit.
\<close>
theorem quota_race:
  assumes "world_ok w" "a \<noteq> 0" "b \<noteq> 0" "a \<noteq> b" "free w a" "free w b" "i \<noteq> j"
    and "registered w (app_ID app) i = None" "registered w (app_ID app) j = None"
    and "la_GetSocketsCount (app_ID app) w = app_MaxConnections app - 1"
  shows "validateConnectionLimits app w = None
    \<and> (\<exists>w1 w2. admit_socket a i conn app w = Some (Accepted, w1) \<and> admit_socket b j conn' app w1 = Some (Accepted, w2)
        \<and> la_GetSocketsCount (app_ID app) w2 = app_MaxConnections app + 1)"
proof -
  have one: "\<exists>w'. admit_socket c k cn app v = Some (Accepted, w') \<and> accepted c app k v w'"
    if "world_ok v" "c \<noteq> 0" "free v c" "registered v (app_ID app) k = None" for v c k cn
    using admit_socket_runs [OF that(1-3), of k cn app] admit_socket_decides [OF that(1-3), of k cn app] that(4)
    by (auto simp: runs_iff)
  from one [OF assms(1,2,5,8), of conn] obtain w1 where w1: "admit_socket a i conn app w = Some (Accepted, w1)" "accepted a app i w w1"
    by blast
  have "world_ok w1" "free w1 b" "registered w1 (app_ID app) j = None"
    using w1(2) assms(4,6,7,9) by (auto simp: accepted_def free_def)
  from one [OF this(1) assms(3) this(2,3), of conn'] obtain w2
    where w2: "admit_socket b j conn' app w1 = Some (Accepted, w2)" "accepted b app j w1 w2" by blast
  from accepted_count [OF assms(1) w1(2)] accepted_count [OF \<open>world_ok w1\<close> w2(2)] w1(1) w2(1) assms(10)
  show ?thesis by (auto simp: validateConnectionLimits_def Let_def)
qed

theorem quota_race_witness:
  "\<exists>w1 w2. admit_socket 5 ''9.9'' demo_conn (demo_app\<lparr>app_MaxConnections := 3\<rparr>) demo_world = Some (Accepted, w1)
    \<and> admit_socket 6 ''8.8'' demo_conn (demo_app\<lparr>app_MaxConnections := 3\<rparr>) w1 = Some (Accepted, w2)
    \<and> la_GetSocketsCount ''1'' w2 = 4"
proof -
  have "la_GetSocketsCount ''1'' demo_world = 2"
    by (simp add: la_GetSocketsCount_def n_GetSockets_def demo_ns_def)
  then show ?thesis
    using quota_race [of demo_world 5 6 "''9.9''" "''8.8''" "demo_app\<lparr>app_MaxConnections := 3\<rparr>" demo_conn demo_conn]
    by (auto simp: demo_registered)
qed

text \<open>
  The authentication watcher: while it waits, its timeout closes the connection and takes it out of
  the adapter; once it has taken the signal of a successful authentication the connection counts as
  authorised and the timeout does nothing any more.
\<close>
theorem watcher_decides:
  assumes "world_ok w" "registered w p i = Some a" "ws_userAuthChannel (w_heap w a) = Some buf"
  shows "(\<exists>w'. watcher_timeout a w = Some w' \<and> ws_closed (w_heap w' a) \<and> registered w' = unregister p i (registered w))
    \<and> (\<forall>rest. buf = True # rest \<longrightarrow> (\<exists>w'. watcher_signal a w = Some w' \<and> ws_userHasAuthorized (w_heap w' a)
         \<and> watcher_timeout a w' = Some w' \<and> registered w' = registered w))"
proof -
  from world_okD(2) [OF assms(1,2)] obtain app where id: "attached w a" "ws_ID (w_heap w a) = i"
    "ws_app (w_heap w a) = Some app" "app_ID app = p" by (auto simp: reg_ok_def)
  have ok: "okay a w" using assms(1) id by (simp add: okay_def)
  from closeConnection_runs [OF ok id(3,2) refl, of ErrCodeUnauthorizedConnection] assms(3) id(4)
  have t: "\<exists>w'. watcher_timeout a w = Some w' \<and> ws_closed (w_heap w' a) \<and> registered w' = unregister p i (registered w)"
    by (auto simp: watcher_timeout_def runs_iff ended_def)
  have "registered (upd_ws a f w) = registered w" for f
    using same_namespaces [of "upd_ws a f w" w] by simp
  with assms(3) t show ?thesis by (auto simp: watcher_signal_def watcher_timeout_def)
qed

definition demo_waiting :: World where
  "demo_waiting = signalAuthenticated 1 (WatchForAuthentication 1 demo_world)"

lemma demo_waiting_ok:
  "world_ok demo_waiting" "registered demo_waiting ''1'' ''1.1'' = Some 1"
  "ws_userAuthChannel (w_heap demo_waiting 1) = Some [True]"
proof -
  have h: "ws_userHasAuthorized (demo_heap 1) = False" by (simp add: demo_heap_def blank_socket_def)
  have n: "w_Namespaces demo_waiting = w_Namespaces demo_world"
    and i: "same_id (w_heap demo_waiting b) (w_heap demo_world b)" for b
    using h by (simp_all add: demo_waiting_def signalAuthenticated_def WatchForAuthentication_def same_id_def)
  note s = same_namespaces [OF n]
  show "world_ok demo_waiting"
    by (rule world_ok_transfer [of demo_world]) (use s i in \<open>simp_all add: world_okD(1)\<close>)
  show "registered demo_waiting ''1'' ''1.1'' = Some 1" using s by (simp add: demo_registered)
  show "ws_userAuthChannel (w_heap demo_waiting 1) = Some [True]"
    using h by (simp add: demo_waiting_def signalAuthenticated_def WatchForAuthentication_def)
qed

theorem watcher_decides_witness:
  "\<exists>w'. watcher_signal 1 demo_waiting = Some w' \<and> ws_userHasAuthorized (w_heap w' 1)
     \<and> watcher_timeout 1 w' = Some w'"
  using watcher_decides [OF demo_waiting_ok] by blast

end
