(* ===== verification/Http_Api.thy ===== *)
theory Http_Api
  imports Serve
begin

text \<open>
  The REST interface: \<open>internal/apiEvents.go\<close>, \<open>internal/apiChannels.go\<close>, the middlewares of
  \<open>internal/httpMiddlewares.go\<close> and the routes of \<open>LoadWebServer\<close> (\<open>internal/serve.go\<close>). Gin parses
  and binds the request body: the bound value, or its error, is part of the request of the model. A
  panic of a handler is recovered by Gin, which answers 500.
\<close>

datatype ApiBody =
    ErrorBody string
  | EmptyBody
  | ChannelsBody "(ChannelName \<times> int) list"   \<comment> \<open>the channels and their user counts\<close>
  | ChannelBody ChannelName bool int int string \<comment> \<open>name, occupied, user and subscription count, cache\<close>
  | UsersBody "UserID list"

record Response =
  rs_Status :: int
  rs_Body :: ApiBody

definition respond :: "int \<Rightarrow> ApiBody \<Rightarrow> Response" where
  "respond code body = \<lparr>rs_Status = code, rs_Body = body\<rparr>"

lemma respond_simps [simp]: "rs_Status (respond c b) = c" "rs_Body (respond c b) = b"
  by (simp_all add: respond_def)

type_synonym api_handler = "World \<Rightarrow> (Response \<times> World) option"

definition api_error :: "int \<Rightarrow> string \<Rightarrow> Response" where
  "api_error code e = respond code (ErrorBody e)"

subsection \<open>Events\<close>

definition message_channels :: "PusherApiMessage \<Rightarrow> ChannelName list" where
  "message_channels apiMsg =
     (let channels = (case am_Channels apiMsg of None \<Rightarrow> [] | Some cs \<Rightarrow> cs)
      in if am_Channel apiMsg \<noteq> [] \<and> channels = [] then [am_Channel apiMsg] else channels)"

text \<open>The response on an error; nil is \<open>None\<close>.\<close>

definition checkMessageToBroadcast :: "App \<Rightarrow> PusherApiMessage \<Rightarrow> Response option" where
  "checkMessageToBroadcast app apiMsg =
     (let channels = message_channels apiMsg in
      if \<not> list_all (\<lambda>channel. ValidChannel channel (app_MaxChannelNameLength app)) channels
      then Some (api_error 400 ''invalid channel name'')
      else if int (length channels) > app_MaxEventChannelsAtOnce app
      then Some (api_error 413 (''Cannot broadcast to more than '' @ Itoa (app_MaxEventChannelsAtOnce app)
                                @ '' channels at once''))
      else if int (length (am_Name apiMsg)) > app_MaxEventNameLength app
      then Some (api_error 413 (''Event name too long, max length is '' @ Itoa (app_MaxEventNameLength app)))
      else if int (length (am_Data apiMsg)) > app_MaxEventPayloadInKb app * 1024
      then Some (api_error 413 (''Event data too large, max size is '' @ Itoa (app_MaxEventPayloadInKb app) @ '' KB''))
      else None)"

definition api_event :: "PusherApiMessage \<Rightarrow> ChannelName \<Rightarrow> ChannelEvent" where
  "api_event message channel =
     \<lparr>ce_Event = am_Name message, ce_Data = DStr (am_Data message), ce_Channel = channel,
      ce_UserID = [], ce_SocketID = am_SocketID message\<rparr>"

definition on_cache :: "(LocalCache \<Rightarrow> LocalCache) \<Rightarrow> World \<Rightarrow> World" where
  "on_cache f w = w\<lparr>w_cache := f (w_cache w)\<rparr>"

definition broadcast_one :: "PusherApiMessage \<Rightarrow> App \<Rightarrow> ChannelName \<Rightarrow> World \<Rightarrow> World option" where
  "broadcast_one message app channel w =
     do { let channelEvent = ToJson (w_lib w) False (api_event message channel);
          (_, w) \<leftarrow> la_Send (app_ID app) channel channelEvent [am_SocketID message] w;
          Some (if IsCacheChannel channel
                then on_cache (\<lambda>c. cache_SetEx (w_now w) c (GetChannelCacheKey (app_ID app) channel)
                                 channelEvent (30 * 60 * Second)) w
                else w) }"

fun broadcast_each :: "PusherApiMessage \<Rightarrow> App \<Rightarrow> ChannelName list \<Rightarrow> World \<Rightarrow> World option" where
  "broadcast_each message app [] w = Some w"
| "broadcast_each message app (c # cs) w = do { w \<leftarrow> broadcast_one message app c w; broadcast_each message app cs w }"

definition broadcastMessage :: "PusherApiMessage \<Rightarrow> App \<Rightarrow> World \<Rightarrow> World option" where
  "broadcastMessage message app w = broadcast_each message app (message_channels message) w"

definition mark_api_error :: "string \<Rightarrow> App \<Rightarrow> World \<Rightarrow> World" where
  "mark_api_error reason app w = w\<lparr>w_metrics := MarkError reason (app_ID app) (w_metrics w)\<rparr>"

text \<open>The result of binding: an error, or a pointer.\<close>

type_synonym 'a bound = "string + 'a option"

definition EventTrigger :: "App \<Rightarrow> PusherApiMessage bound \<Rightarrow> api_handler" where
  "EventTrigger app bound w =
     (case bound of
        Inl err \<Rightarrow> Some (api_error 400 err, mark_api_error ''api_message_binding_failed'' app w)
      | Inr ptr \<Rightarrow>
          do { apiMsg \<leftarrow> ptr;
               (case checkMessageToBroadcast app apiMsg of
                  Some resp \<Rightarrow> Some (resp, mark_api_error ''api_message_validation_failed'' app w)
                | None \<Rightarrow>
                    do { w \<leftarrow> broadcastMessage apiMsg app w;
                         Some (respond 200 EmptyBody,
                               w\<lparr>w_metrics := MarkApiMessage (app_ID app)
                                   (Some (am_Name apiMsg, am_Channel apiMsg)) (w_metrics w)\<rparr>) }) })"

text \<open>The events before a bad one have been broadcast when the error is reported.\<close>

fun batch_each :: "App \<Rightarrow> PusherApiMessage option list \<Rightarrow> api_handler" where
  "batch_each app [] w = Some (respond 200 EmptyBody, w)"
| "batch_each app (ptr # rest) w =
     do { apiMsg \<leftarrow> ptr;
          (case checkMessageToBroadcast app apiMsg of
             Some resp \<Rightarrow> Some (resp, w)
           | None \<Rightarrow> do { w \<leftarrow> broadcastMessage apiMsg app w; batch_each app rest w }) }"

definition BatchEventTrigger :: "App \<Rightarrow> string + PusherApiMessage option list \<Rightarrow> api_handler" where
  "BatchEventTrigger app bound w =
     (case bound of
        Inl err \<Rightarrow> Some (api_error 400 err, w)
      | Inr batch \<Rightarrow> batch_each app batch w)"

subsection \<open>Channels and users\<close>

text \<open>\<open>strings.FieldsFunc\<close> with a separator character.\<close>

definition FieldsFunc :: "string \<Rightarrow> char \<Rightarrow> string list" where
  "FieldsFunc s sep = filter (\<lambda>f. f \<noteq> []) (Split s sep)"

definition ChannelIndex :: "App \<Rightarrow> string \<Rightarrow> string \<Rightarrow> api_handler" where
  "ChannelIndex app filterByPrefix info w =
     (let getUserCount = (''user_count'' \<in> set (FieldsFunc info (CHR '','')))
      in if filterByPrefix \<noteq> ''presence-'' \<and> getUserCount
         then Some (api_error 400 ''info=user_count requires filter_by_prefix for presence channels'', w)
         else
           do { channels \<leftarrow> (if filterByPrefix = ''presence-'' \<and> getUserCount
                             then la_GetPresenceChannelsWithUsersCount (app_ID app) w
                             else Some (la_GetChannelsWithSocketsCount (app_ID app) w));
                let listed = filter (\<lambda>(channelName, _). \<not> (filterByPrefix \<noteq> [] \<and> \<not> HasPrefix channelName filterByPrefix)) channels;
                let items = map (\<lambda>(channelName, channelCount). (channelName, if getUserCount then channelCount else 0)) listed;
                Some (respond 200 (ChannelsBody items), w) })"

definition ChannelShow :: "App \<Rightarrow> ChannelName \<Rightarrow> string \<Rightarrow> api_handler" where
  "ChannelShow app channel info w =
     (let infoFields = FieldsFunc info (CHR '','') in
      do { (userCount, occupied) \<leftarrow>
             (if ''user_count'' \<in> set infoFields \<and> IsPresenceChannel channel
              then map_option (\<lambda>n. (n, n > 0)) (la_GetChannelMembersCount (app_ID app) channel w)
              else Some (0, False));
           let (subscriptionCount, occupied) =
                 (if ''subscription_count'' \<in> set infoFields
                  then let n = la_GetChannelSocketsCount (app_ID app) channel w in (n, n > 0)
                  else (0, occupied));
           let cached = (if ''cache'' \<in> set infoFields \<and> IsCacheChannel channel
                         then (case cache_Get (w_now w) (w_cache w) (GetChannelCacheKey (app_ID app) channel) of
                                 None \<Rightarrow> [] | Some d \<Rightarrow> d)
                         else []);
           Some (respond 200 (ChannelBody channel occupied userCount subscriptionCount cached), w) })"

definition ChannelUsers :: "App \<Rightarrow> ChannelName \<Rightarrow> api_handler" where
  "ChannelUsers app channel w =
     (if channel = [] then Some (api_error 400 ''Channel name required'', w)
      else if \<not> IsPresenceChannel channel then Some (api_error 400 ''presence only'', w)
      else
        do { members \<leftarrow> la_GetChannelMembers (app_ID app) channel w;
             Some (respond 200 (UsersBody (map fst members)), w) })"

definition TerminateUserConnections :: "App \<Rightarrow> UserID \<Rightarrow> api_handler" where
  "TerminateUserConnections app userID w =
     (if userID = [] then Some (api_error 400 ''Channel name required'', w)
      else
        do { w \<leftarrow> la_TerminateUserConnections (app_ID app) userID w;
             Some (respond 200 EmptyBody, w) })"

subsection \<open>Routes and middlewares\<close>

text \<open>The routes below \<open>/apps/:app_id\<close> with their parameters; \<open>None\<close> is any other path.\<close>

datatype ApiCall =
    PostEvents "PusherApiMessage bound"
  | PostBatchEvents "string + PusherApiMessage option list"
  | GetChannels
  | GetChannel ChannelName
  | GetChannelUsers ChannelName
  | PostTerminate UserID

record ApiRequest =
  ar_Http :: HttpRequest
  ar_AppID :: AppID
  ar_Call :: ApiCall

definition Query :: "HttpRequest \<Rightarrow> string \<Rightarrow> string" where
  "Query r key = Values_Get (rq_Query r) key"

fun route :: "HttpRequest \<Rightarrow> App \<Rightarrow> ApiCall \<Rightarrow> api_handler" where
  "route r app (PostEvents bound) = EventTrigger app bound"
| "route r app (PostBatchEvents bound) = BatchEventTrigger app bound"
| "route r app GetChannels = ChannelIndex app (Query r ''filter_by_prefix'') (Query r ''info'')"
| "route r app (GetChannel channel) = ChannelShow app channel (Query r ''info'')"
| "route r app (GetChannelUsers channel) = ChannelUsers app channel"
| "route r app (PostTerminate userID) = TerminateUserConnections app userID"

definition AppMiddleware :: "AppID \<Rightarrow> (App \<Rightarrow> api_handler) \<Rightarrow> api_handler" where
  "AppMiddleware appID k w =
     (case FindByID (w_apps w) appID of
        Inl err \<Rightarrow> Some (api_error 404 err, w)
      | Inr app \<Rightarrow> k app w)"

definition SignatureMiddleware :: "HttpRequest \<Rightarrow> int64 \<Rightarrow> (App \<Rightarrow> api_handler) \<Rightarrow> App \<Rightarrow> api_handler" where
  "SignatureMiddleware r unixNow k app w =
     (case Verify unixNow r (app_ID app) (app_Secret app) of
        Inl err \<Rightarrow> Some (api_error 401 err, w)
      | Inr _ \<Rightarrow> k app w)"

text \<open>The clock of the state counts nanoseconds, \<open>Verify\<close> seconds.\<close>

definition unix_now :: "World \<Rightarrow> int64" where
  "unix_now w = word_of_int (w_now w div Second)"

definition backendGroup :: "ApiRequest \<Rightarrow> api_handler" where
  "backendGroup req w =
     AppMiddleware (ar_AppID req)
       (SignatureMiddleware (ar_Http req) (unix_now w) (\<lambda>app. route (ar_Http req) app (ar_Call req))) w"

subsection \<open>Properties of the handlers\<close>

text \<open>Handlers of the REST interface keep the sockets they do not close.\<close>

lemma thinned_frame:
  assumes ok: "world_ok w" and f: "send_frame w' w"
  shows "thinned w w'"
proof -
  have h: "same_but_wire (w_heap w' b) (w_heap w b)" for b using f by (simp add: send_frame_def)
  have n: "registered w' = registered w" "la_wf w' = la_wf w"
    using f same_namespaces [of w' w] by (simp_all add: send_frame_def)
  have "world_ok w'"
    by (rule world_ok_transfer [OF ok])
      (use ok n h in \<open>simp_all add: world_ok_iff same_id_def same_but_wire_def\<close>)
  with f h n show ?thesis by (simp add: thinned_def send_frame_def)
qed

lemma thinned_background:
  assumes "world_ok w" "background w w'"
  shows "thinned w w'"
proof -
  have "registered w' = registered w" "la_wf w' = la_wf w"
    using assms(2) same_namespaces [of w' w] by (simp_all add: background_def)
  then show ?thesis
    using assms by (simp add: thinned_def background_def world_ok_iff reg_ok_def attached_def)
qed

lemma thinned_ok: "thinned w w' \<Longrightarrow> world_ok w'"
  by (simp add: thinned_def)

lemma background_on_cache [simp]: "background w (on_cache f w)"
  by (simp add: background_def on_cache_def)

lemma broadcast_one_runs:
  assumes "world_ok w"
  shows "runs (broadcast_one m app c w) (thinned w)"
proof -
  have "thinned w (if IsCacheChannel c then on_cache f w1 else w1)" if "send_frame w1 w" for w1 f
    using thinned_frame [OF assms that] thinned_trans [OF thinned_frame [OF assms that] thinned_background [of w1 "on_cache f w1"]]
    by (simp add: thinned_ok)
  then have "runs (la_Send p c msg e w) (\<lambda>r. thinned w (if IsCacheChannel c then on_cache (f (w_now (snd r))) (snd r) else snd r))"
    for p msg e f
    by (intro runs_mono [OF la_Send_frame [OF assms]]) (simp add: split_def)
  from this [where f = "\<lambda>now c'. cache_SetEx now c' k v t" for k v t] show ?thesis
    by (simp add: broadcast_one_def Let_def split_def)
qed

lemma broadcastMessage_runs:
  assumes "world_ok w"
  shows "runs (broadcastMessage m app w) (thinned w)"
proof -
  have "world_ok w \<Longrightarrow> runs (broadcast_each m app cs w) (thinned w)" for cs
  proof (induction cs arbitrary: w)
    case (Cons c cs)
    have "runs (broadcast_each m app cs w1) (thinned w)" if "thinned w w1" for w1
      by (rule runs_mono [OF Cons.IH [OF thinned_ok [OF that]]]) (rule thinned_trans [OF that])
    with runs_mono [OF broadcast_one_runs [OF Cons.prems]] show ?case by simp
  qed (simp add: thinned_refl)
  with assms show ?thesis by (simp add: broadcastMessage_def)
qed

text \<open>A request whose bound pointers are not nil.\<close>

fun bound_ok :: "ApiCall \<Rightarrow> bool" where
  "bound_ok (PostEvents (Inr ptr)) = (ptr \<noteq> None)"
| "bound_ok (PostBatchEvents (Inr batch)) = (None \<notin> set batch)"
| "bound_ok _ = True"

lemma EventTrigger_runs:
  assumes ok: "world_ok w" and b: "bound_ok (PostEvents bound)"
  shows "runs (EventTrigger app bound w) (\<lambda>r. thinned w (snd r))"
proof -
  have m: "thinned w (w1\<lparr>w_metrics := x\<rparr>)" if "thinned w w1" for w1 x
    using thinned_trans [OF that thinned_background [OF thinned_ok [OF that]]] by simp
  have "runs (broadcastMessage msg app w) (\<lambda>w1. thinned w (w1\<lparr>w_metrics := f (w_metrics w1)\<rparr>))" for msg f
    by (rule runs_mono [OF broadcastMessage_runs [OF ok]]) (rule m)
  with b m [OF thinned_refl [OF ok]] show ?thesis
    by (auto simp: EventTrigger_def mark_api_error_def split: sum.split option.split)
qed

lemma batch_each_runs:
  "world_ok w \<Longrightarrow> None \<notin> set batch \<Longrightarrow> runs (batch_each app batch w) (\<lambda>r. thinned w (snd r))"
proof (induction batch arbitrary: w)
  case (Cons ptr batch)
  then obtain m where m: "ptr = Some m" by (cases ptr) auto
  have "runs (batch_each app batch w1) (\<lambda>r. thinned w (snd r))" if "thinned w w1" for w1
    by (rule runs_mono [OF Cons.IH [OF thinned_ok [OF that]]]) (use Cons.prems thinned_trans [OF that] in auto)
  from runs_mono [OF broadcastMessage_runs [OF Cons.prems(1)] this] m show ?case
    by (simp add: thinned_refl Cons.prems split: option.split)
qed (simp add: thinned_refl)

lemma route_runs:
  assumes ok: "world_ok w" and b: "bound_ok c"
  shows "runs (route r app c w) (\<lambda>x. thinned w (snd x))"
proof -
  have wf: "la_wf w" using ok by (simp add: world_ok_def)
  note refl = thinned_refl [OF ok]
  have mem: "\<exists>m. la_GetChannelMembers p ch w = Some m" "\<exists>k. la_GetChannelMembersCount p ch w = Some k" for p ch
  proof -
    from la_members_total [OF wf, of p ch] show "\<exists>k. la_GetChannelMembersCount p ch w = Some k" .
    then show "\<exists>m. la_GetChannelMembers p ch w = Some m"
      by (auto simp: la_GetChannelMembersCount_def la_GetChannelMembers_def split: option.splits)
  qed
  have pres: "\<exists>m. presence_counts h n cs = Some m" if "ns_wf n" for h n cs
  proof (induction cs)
    case (Cons c cs)
    from GetChannelMembers_spec [OF that, of h "fst c"] obtain m where "n_GetChannelMembers h n (fst c) = Some m" .
    with Cons show ?case by (cases c) auto
  qed simp
  have users: "\<exists>m. la_GetPresenceChannelsWithUsersCount p w = Some m" for p
    using pres [OF la_wf_ns [OF wf]] by (simp add: la_GetPresenceChannelsWithUsersCount_def n_GetPresenceChannelsWithUsersCount_def split: option.split)
  show ?thesis
  proof (cases c)
    case (PostEvents bound)
    with EventTrigger_runs [OF ok] b show ?thesis by simp
  next
    case (PostBatchEvents bound)
    with batch_each_runs [OF ok] refl b show ?thesis by (cases bound) (simp_all add: BatchEventTrigger_def)
  next
    case GetChannels
    with users [of "app_ID app"] refl show ?thesis by (auto simp: ChannelIndex_def Let_def runs_iff)
  next
    case (GetChannel ch)
    with mem(2) [of "app_ID app" ch] refl show ?thesis by (auto simp: ChannelShow_def Let_def runs_iff)
  next
    case (GetChannelUsers ch)
    with mem(1) [of "app_ID app" ch] refl show ?thesis by (auto simp: ChannelUsers_def runs_iff)
  next
    case (PostTerminate u)
    have "runs (la_TerminateUserConnections (app_ID app) u w) (thinned w)"
      by (rule runs_mono [OF terminate_runs [OF ok]]) blast
    with PostTerminate refl show ?thesis by (simp add: TerminateUserConnections_def)
  qed
qed

lemma backendGroup_runs:
  assumes "world_ok w" "bound_ok (ar_Call req)"
  shows "runs (backendGroup req w) (\<lambda>x. thinned w (snd x))"
  using route_runs [OF assms] thinned_refl [OF assms(1)]
  by (simp add: backendGroup_def AppMiddleware_def SignatureMiddleware_def split: sum.split)

end
