(* ===== verification/Config.thy ===== *)
theory Config
  imports Apps
begin

text \<open>
  \<open>internal/config/config.go\<close>: the configuration of the server. Reading flags, environment variables
  and files is the work of the libraries pflag, godotenv and viper: the error it may end with, what
  viper unmarshals into the configuration and the values it holds for the keys of a single app are
  parameters. The rest is translated: the flags with their defaults and the keys they are bound to,
  the app built from single values, its webhook, the defaults and the choice of Redis.
\<close>

record ServerConfig =
  sc_Env :: string
  sc_Port :: string
  sc_BindAddress :: string
  sc_AppManager :: string
  sc_AdapterDriver :: string
  sc_QueueDriver :: string
  sc_ChannelCacheDriver :: string
  sc_UsingRedis :: bool
  sc_RedisInstance :: bool \<comment> \<open>is there one?\<close>
  sc_RedisPrefix :: string
  sc_LogLevel :: string
  sc_RedisUrl :: string
  sc_RedisTls :: bool
  sc_RedisClusterMode :: bool
  sc_IgnoreLoggerMiddleware :: bool
  sc_MetricsEnabled :: bool
  sc_MetricsPort :: string
  sc_Applications :: "App list option" \<comment> \<open>\<open>None\<close> is nil\<close>

subsection \<open>Flags\<close>

datatype flag = FString string | FInt int | FBool bool

definition initFlags :: "(string, flag) gomap" where
  "initFlags =
     [(''version'', FBool False), (''config-file'', FString []), (''env-file'', FString []),
      (''app-env'', FString ''production''), (''port'', FInt 6001), (''bind-address'', FString ''0.0.0.0''),
      (''adapter-driver'', FString ''local''), (''queue-driver'', FString ''local''), (''cache-driver'', FString ''local''),
      (''app-manager'', FString ''array''), (''redis-url'', FString ''localhost:6379''), (''redis-prefix'', FString ''pusher''),
      (''redis-tls'', FBool False), (''redis-cluster'', FBool False), (''log-level'', FString ''warn''),
      (''ignore-logger-middleware'', FBool False), (''metrics-enabled'', FBool False), (''metrics-port'', FInt 6002),
      (''app-id'', FString []), (''app-key'', FString []), (''app-secret'', FString []),
      (''app-activity-timeout'', FInt 60), (''app-authorization-timeout-seconds'', FInt 5), (''app-max-connections'', FInt 0),
      (''app-enable-client-messages'', FBool False), (''app-enabled'', FBool True),
      (''app-max-backend-events-per-second'', FInt 0), (''app-max-client-events-per-second'', FInt 0),
      (''app-max-read-requests-per-second'', FInt 0), (''app-max-presence-members-per-channel'', FInt 100),
      (''app-max-presence-member-size-in-kb'', FInt 10), (''app-max-channel-name-length'', FInt 200),
      (''app-max-event-channels-at-once'', FInt 10), (''app-max-event-name-length'', FInt 200),
      (''app-max-event-payload-in-kb'', FInt 10), (''app-max-event-batch-size'', FInt 10),
      (''app-require-channel-authorization'', FBool False), (''app-has-client-event-webhooks'', FBool False),
      (''app-has-channel-occupied-webhooks'', FBool False), (''app-has-channel-vacated-webhooks'', FBool False),
      (''app-has-member-added-webhooks'', FBool False), (''app-has-member-removed-webhooks'', FBool False),
      (''app-has-cache-miss-webhooks'', FBool False), (''app-webhook-batching-enabled'', FBool False),
      (''app-webhooks-enabled'', FBool False), (''app-webhook-url'', FString []),
      (''app-webhook-sns-region'', FString ''us-east-1''), (''app-webhook-sns-topic-arn'', FString []),
      (''app-webhook-filter-prefix'', FString [])]"

text \<open>The keys under which viper holds the flags of the server.\<close>

definition server_keys :: "(string, string) gomap" where
  "server_keys =
     [(''app_env'', ''app-env''), (''bind_address'', ''bind-address''), (''adapter_driver'', ''adapter-driver''),
      (''queue_driver'', ''queue-driver''), (''cache_driver'', ''cache-driver''), (''app_manager'', ''app-manager''),
      (''redis_url'', ''redis-url''), (''redis_prefix'', ''redis-prefix''), (''redis_tls'', ''redis-tls''),
      (''redis_cluster'', ''redis-cluster''), (''log_level'', ''log-level''),
      (''ignore_logger_middleware'', ''ignore-logger-middleware''), (''metrics_enabled'', ''metrics-enabled''),
      (''metrics_port'', ''metrics-port'')]"

subsection \<open>An app from single values\<close>

record Viper =
  vp_GetString :: "string \<Rightarrow> string"
  vp_GetInt :: "string \<Rightarrow> int"
  vp_GetBool :: "string \<Rightarrow> bool"

definition newApp :: "Viper \<Rightarrow> App" where
  "newApp v =
     zero_app\<lparr>app_ID := vp_GetString v ''app_id'', app_Key := vp_GetString v ''app_key'',
       app_Secret := vp_GetString v ''app_secret'', app_ActivityTimeout := vp_GetInt v ''app_activity_timeout'',
       app_AuthorizationTimeout := vp_GetInt v ''app_authorization_timeout_seconds'' * Second,
       app_AuthorizationTimeoutSeconds := vp_GetInt v ''app_authorization_timeout_seconds'',
       app_MaxConnections := vp_GetInt v ''app_max_connections'',
       app_EnableClientMessages := vp_GetBool v ''app_enable_client_messages'', app_Enabled := vp_GetBool v ''app_enabled'',
       app_MaxBackendEventsPerSecond := vp_GetInt v ''app_max_backend_events_per_second'',
       app_MaxClientEventsPerSecond := vp_GetInt v ''app_max_client_events_per_second'',
       app_MaxReadRequestsPerSecond := vp_GetInt v ''app_max_read_requests_per_second'',
       app_MaxPresenceMembersPerChannel := vp_GetInt v ''app_max_presence_members_per_channel'',
       app_MaxPresenceMemberSizeInKb := vp_GetInt v ''app_max_presence_member_size_in_kb'',
       app_MaxChannelNameLength := vp_GetInt v ''app_max_channel_name_length'',
       app_MaxEventChannelsAtOnce := vp_GetInt v ''app_max_event_channels_at_once'',
       app_MaxEventNameLength := vp_GetInt v ''app_max_event_name_length'',
       app_MaxEventPayloadInKb := vp_GetInt v ''app_max_event_payload_in_kb'',
       app_MaxEventBatchSize := vp_GetInt v ''app_max_event_batch_size'',
       app_RequireChannelAuthorization := vp_GetBool v ''app_require_channel_authorization'',
       app_HasClientEventWebhooks := vp_GetBool v ''app_has_client_event_webhooks'',
       app_HasChannelOccupiedWebhooks := vp_GetBool v ''app_has_channel_occupied_webhooks'',
       app_HasChannelVacatedWebhooks := vp_GetBool v ''app_has_channel_vacated_webhooks'',
       app_HasMemberAddedWebhooks := vp_GetBool v ''app_has_member_added_webhooks'',
       app_HasMemberRemovedWebhooks := vp_GetBool v ''app_has_member_removed_webhooks'',
       app_HasCacheMissWebhooks := vp_GetBool v ''app_has_cache_miss_webhooks'',
       app_WebhookBatchingEnabled := vp_GetBool v ''app_webhook_batching_enabled'',
       app_WebhooksEnabled := vp_GetBool v ''app_webhooks_enabled'', app_WebhookURL := vp_GetString v ''app_webhook_url'',
       app_WebhookSNSRegion := vp_GetString v ''app_webhook_sns_region'',
       app_WebhookSNSTopicARN := vp_GetString v ''app_webhook_sns_topic_arn'',
       app_WebhookFilterPrefix := vp_GetString v ''app_webhook_filter_prefix''\<rparr>"

definition eventTypes :: "App \<Rightarrow> string list" where
  "eventTypes a =
     (let ts = (if app_HasClientEventWebhooks a then [''client_event''] else [])
             @ (if app_HasChannelOccupiedWebhooks a then [''channel_occupied''] else [])
             @ (if app_HasChannelVacatedWebhooks a then [''channel_vacated''] else [])
             @ (if app_HasMemberAddedWebhooks a then [''member_added''] else [])
             @ (if app_HasMemberRemovedWebhooks a then [''member_removed''] else [])
             @ (if app_HasCacheMissWebhooks a then [''cache_miss''] else [])
      in if ts = [] then [''*''] else ts)"

definition newWebhook :: "App \<Rightarrow> Webhook" where
  "newWebhook a =
     \<lparr>wh_URL = app_WebhookURL a, wh_Headers = [], wh_EventTypes = eventTypes a,
      wh_Filter = \<lparr>wf_ChannelNameStartsWith = app_WebhookFilterPrefix a, wf_ChannelNameEndsWith = []\<rparr>,
      wh_LambdaFunction = [], wh_Lambda = \<lparr>lc_Async = False, lc_Region = [], lc_ClientOptions = []\<rparr>,
      wh_SNSTopicARN = app_WebhookSNSTopicARN a\<rparr>"

definition single_app :: "Viper \<Rightarrow> App option" where
  "single_app v =
     (let a = newApp v in
      if app_ID a = [] \<and> app_Key a = [] \<and> app_Secret a = [] then None
      else if app_WebhookURL a \<noteq> [] \<or> app_WebhookSNSTopicARN a \<noteq> []
      then Some (a\<lparr>app_Webhooks := Some [newWebhook a]\<rparr>) else Some a)"

definition config_apps :: "ServerConfig \<Rightarrow> App list" where
  "config_apps cfg = (case sc_Applications cfg of None \<Rightarrow> [] | Some as \<Rightarrow> as)"

subsection \<open>InitializeServerConfig\<close>

text \<open>
  \<open>loading\<close> is the result of steps 3 to 7: the error of a library, or what was unmarshalled;
  \<open>redis_error\<close> the error of \<open>InitRedis\<close>.
\<close>

definition with_single_app :: "Viper \<Rightarrow> ServerConfig \<Rightarrow> ServerConfig" where
  "with_single_app v cfg =
     (if config_apps cfg \<noteq> [] then cfg
      else case single_app v of None \<Rightarrow> cfg | Some a \<Rightarrow> cfg\<lparr>sc_Applications := Some (config_apps cfg @ [a])\<rparr>)"

definition choose_redis :: "ServerConfig \<Rightarrow> ServerConfig" where
  "choose_redis cfg =
     cfg\<lparr>sc_UsingRedis := (sc_ChannelCacheDriver cfg = ''redis'' \<or> sc_QueueDriver cfg = ''redis''
                           \<or> sc_AdapterDriver cfg = ''redis'')\<rparr>"

definition InitializeServerConfig ::
  "Viper \<Rightarrow> string + ServerConfig \<Rightarrow> string option \<Rightarrow> string + ServerConfig" where
  "InitializeServerConfig v loading redis_error =
     (case loading of
        Inl err \<Rightarrow> Inl err
      | Inr cfg \<Rightarrow>
          (let cfg = with_single_app v cfg in
           if config_apps cfg = [] then
             Inl ''no applications configured; please configure at least one application via config file, env vars, or CLI flags''
           else
             let cfg = cfg\<lparr>sc_Applications := Some (map SetMissingDefaults (config_apps cfg))\<rparr>;
                 cfg = choose_redis cfg
             in if \<not> sc_UsingRedis cfg then Inr cfg
                else case redis_error of
                       Some err \<Rightarrow> Inl (''Error initializing Redis client: '' @ err)
                     | None \<Rightarrow> Inr (cfg\<lparr>sc_RedisInstance := True\<rparr>)))"

subsection \<open>Properties\<close>

lemma config_success:
  assumes "InitializeServerConfig v loading redis_error = Inr cfg"
  obtains cfg0 where "loading = Inr cfg0" "config_apps (with_single_app v cfg0) \<noteq> []"
    "sc_Applications cfg = Some (map SetMissingDefaults (config_apps (with_single_app v cfg0)))"
    "sc_UsingRedis cfg \<longleftrightarrow> ''redis'' \<in> {sc_ChannelCacheDriver cfg, sc_QueueDriver cfg, sc_AdapterDriver cfg}"
    "sc_UsingRedis cfg \<longrightarrow> sc_RedisInstance cfg"
  using assms
  by (auto simp: InitializeServerConfig_def choose_redis_def Let_def split: sum.splits if_splits option.splits)

text \<open>The limits that a default replaces when they are zero.\<close>

definition limits_set :: "App \<Rightarrow> bool" where
  "limits_set a = (0 \<notin> {app_ActivityTimeout a, app_AuthorizationTimeoutSeconds a, app_MaxConnections a,
     app_MaxBackendEventsPerSecond a, app_MaxClientEventsPerSecond a, app_MaxReadRequestsPerSecond a,
     app_MaxPresenceMembersPerChannel a, app_MaxPresenceMemberSizeInKb a, app_MaxChannelNameLength a,
     app_MaxEventChannelsAtOnce a, app_MaxEventNameLength a, app_MaxEventPayloadInKb a, app_MaxEventBatchSize a}
     \<and> app_Webhooks a \<noteq> None \<and> app_AuthorizationTimeout a = app_AuthorizationTimeoutSeconds a * Second)"

lemma orInt_nonzero: "d \<noteq> 0 \<Longrightarrow> orInt i d \<noteq> 0"
  by (simp add: getValueOrFallback_def)

lemma SetMissingDefaults_limits:
  "app_ActivityTimeout (SetMissingDefaults a) = orInt (app_ActivityTimeout a) 60"
  "app_AuthorizationTimeoutSeconds (SetMissingDefaults a) = orInt (app_AuthorizationTimeoutSeconds a) 5"
  "app_MaxConnections (SetMissingDefaults a) = orInt (app_MaxConnections a) (-1)"
  "app_MaxBackendEventsPerSecond (SetMissingDefaults a) = orInt (app_MaxBackendEventsPerSecond a) (-1)"
  "app_MaxClientEventsPerSecond (SetMissingDefaults a) = orInt (app_MaxClientEventsPerSecond a) (-1)"
  "app_MaxReadRequestsPerSecond (SetMissingDefaults a) = orInt (app_MaxReadRequestsPerSecond a) (-1)"
  "app_MaxPresenceMembersPerChannel (SetMissingDefaults a) = orInt (app_MaxPresenceMembersPerChannel a) 100"
  "app_MaxPresenceMemberSizeInKb (SetMissingDefaults a) = orInt (app_MaxPresenceMemberSizeInKb a) 10"
  "app_MaxChannelNameLength (SetMissingDefaults a) = orInt (app_MaxChannelNameLength a) 100"
  "app_MaxEventChannelsAtOnce (SetMissingDefaults a) = orInt (app_MaxEventChannelsAtOnce a) 10"
  "app_MaxEventNameLength (SetMissingDefaults a) = orInt (app_MaxEventNameLength a) 100"
  "app_MaxEventPayloadInKb (SetMissingDefaults a) = orInt (app_MaxEventPayloadInKb a) 100"
  "app_MaxEventBatchSize (SetMissingDefaults a) = orInt (app_MaxEventBatchSize a) 20"
  "app_AuthorizationTimeout (SetMissingDefaults a) = app_AuthorizationTimeoutSeconds (SetMissingDefaults a) * Second"
  "app_Webhooks (SetMissingDefaults a) \<noteq> None"
  by (simp_all add: SetMissingDefaults_def Let_def split: option.split)

lemma SetMissingDefaults_sets: "limits_set (SetMissingDefaults a)"
  unfolding limits_set_def using orInt_nonzero [of 60] orInt_nonzero [of 5] orInt_nonzero [of "-1"] orInt_nonzero [of 100]
    orInt_nonzero [of 10] orInt_nonzero [of 20]
  by (simp add: SetMissingDefaults_limits del: not_None_eq)

end
