(* ===== verification/Server.thy ===== *)
theory Server
  imports Http_Api Config
begin

text \<open>
  \<open>internal/server.go\<close>: building the server from its configuration, closing all local sockets at
  shutdown, and the server as a state machine: a step is one atomic piece of work of one of its
  goroutines. The invariant of every reachable state is proved by rule induction; from a reachable
  state no piece of work panics, so the hypotheses of the handler lemmas hold throughout a run.
  What the Redis drivers build is a parameter (an error or nothing); the state is that of the local
  drivers.
\<close>

datatype Driver = LocalDriver | RedisDriver

subsection \<open>Loading the parts\<close>

text \<open>Both cases of the switch build the array manager.\<close>

definition loadAppManager :: "ServerConfig \<Rightarrow> string + ArrayAppManager" where
  "loadAppManager conf =
     (case ArrayAppManager_Init (case sc_Applications conf of None \<Rightarrow> [] | Some as \<Rightarrow> as) of
        (m, Some err) \<Rightarrow> Inl err
      | (m, None) \<Rightarrow> Inr m)"

definition redis_driver :: "ServerConfig \<Rightarrow> string option \<Rightarrow> string + Driver" where
  "redis_driver conf redis_error =
     (if \<not> sc_RedisInstance conf then Inl ''redis instance not configured''
      else case redis_error of Some err \<Rightarrow> Inl err | None \<Rightarrow> Inr RedisDriver)"

definition loadAdapter :: "ServerConfig \<Rightarrow> string option \<Rightarrow> string + Driver" where
  "loadAdapter conf redis_error =
     (if sc_AdapterDriver conf = ''redis'' then redis_driver conf redis_error else Inr LocalDriver)"

definition loadQueueManager :: "ServerConfig \<Rightarrow> string option \<Rightarrow> string + Driver" where
  "loadQueueManager conf redis_error =
     (if sc_QueueDriver conf = ''redis'' then redis_driver conf redis_error else Inr LocalDriver)"

definition loadCacheManager :: "ServerConfig \<Rightarrow> string option \<Rightarrow> string + Driver" where
  "loadCacheManager conf redis_error =
     (if sc_ChannelCacheDriver conf = ''redis'' then redis_driver conf redis_error else Inr LocalDriver)"

text \<open>\<open>NewSyncQueue\<close>: flap detection is on, with a window of three seconds.\<close>

definition NewSyncQueue :: "bool \<Rightarrow> string + Queue" where
  "NewSyncQueue sender = NewAbstractQueue True True sender True (3 * Second) None"

definition new_metrics :: "register \<Rightarrow> ServerConfig \<Rightarrow> MetricsManager option" where
  "new_metrics must_register conf =
     (if sc_MetricsEnabled conf
      then map_option Prometheus (NewPrometheusMetricsWithLabels must_register ''socketrush'' ''mac'' [])
      else Some NoOpMetrics)"

definition fresh_world :: "MetricsManager \<Rightarrow> ArrayAppManager \<Rightarrow> Queue \<Rightarrow> heap \<Rightarrow> int \<Rightarrow> Lib \<Rightarrow> World" where
  "fresh_world metrics apps queue h now lib =
     la_Init \<lparr>w_heap = h, w_Namespaces = None, w_metrics = metrics, w_cache = cache_Init,
              w_queue = queue, w_apps = apps, w_Closing = False, w_now = now, w_lib = lib\<rparr>"

text \<open>
  \<open>NewServer\<close> with its nil configuration check: an error, or the drivers and the state. \<open>sns\<close> is
  the result of \<open>NewSnsWebhook\<close>, \<open>redis_error\<close> that of a Redis driver.
\<close>

definition NewServer ::
  "register \<Rightarrow> string option \<Rightarrow> string option \<Rightarrow> heap \<Rightarrow> int \<Rightarrow> Lib \<Rightarrow> ServerConfig option \<Rightarrow>
     (string + (Driver \<times> Driver \<times> Driver \<times> World)) option" where
  "NewServer must_register redis_error sns h now lib conf_ptr =
     (case conf_ptr of
        None \<Rightarrow> Some (Inl ''server config is nil'')
      | Some conf \<Rightarrow>
          if sc_Applications conf = None then Some (Inl ''ServerConfig.Applications cannot be nil'')
          else
            do { metrics \<leftarrow> new_metrics must_register conf;
                 Some (case loadAdapter conf redis_error of
                    Inl err \<Rightarrow> Inl err
                  | Inr adapter \<Rightarrow>
                      (case loadAppManager conf of
                         Inl err \<Rightarrow> Inl err
                       | Inr apps \<Rightarrow>
                           (case loadCacheManager conf redis_error of
                              Inl err \<Rightarrow> Inl err
                            | Inr cache \<Rightarrow>
                                (case sns of
                                   Some err \<Rightarrow> Inl err
                                 | None \<Rightarrow>
                                     (case loadQueueManager conf redis_error of
                                        Inl err \<Rightarrow> Inl err
                                      | Inr queue \<Rightarrow>
                                          (case NewSyncQueue True of
                                             Inl err \<Rightarrow> Inl err
                                           | Inr q \<Rightarrow>
                                               Inr (adapter, cache, queue, fresh_world metrics apps q h now lib))))))) })"

subsection \<open>Closing all sockets\<close>

text \<open>
  The sockets are closed concurrently; each close is one step, in any order. Then the namespaces
  are cleared.
\<close>

fun close_each :: "addr list \<Rightarrow> World \<Rightarrow> World option" where
  "close_each [] w = Some w"
| "close_each (a # as) w = do { w \<leftarrow> ws_Close a w; close_each as w }"

definition all_sockets :: "World \<Rightarrow> addr list" where
  "all_sockets w = concat (map (\<lambda>(_, n). map snd (n_GetSockets n)) (namespaces w))"

definition CloseAllLocalSockets :: "World \<Rightarrow> World option" where
  "CloseAllLocalSockets w =
     (if namespaces w = [] then Some w
      else do { w \<leftarrow> close_each (all_sockets w) w; Some (la_ClearNamespaces w) })"

subsection \<open>The server as a state machine\<close>

text \<open>A namespace compacts its maps every minute.\<close>

definition la_Compact :: "AppID \<Rightarrow> World \<Rightarrow> World" where
  "la_Compact appID w =
     (case ns_of w appID of None \<Rightarrow> w | Some n \<Rightarrow> set_ns appID (n_CompactMaps n) w)"

inductive server_step :: "World \<Rightarrow> World \<Rightarrow> bool" where
  connect: "\<lbrakk>a \<noteq> 0; free w a; serveWs a i upgraded key protocol w = Some (out, w')\<rbrakk> \<Longrightarrow> server_step w w'"
| frame: "\<lbrakk>registered w p i = Some a; \<And>msg. r = Frame msg \<Longrightarrow> frame_ok (w_lib w) msg;
     listen_round a r w = Some (go, w')\<rbrakk> \<Longrightarrow> server_step w w'"
| signal: "\<lbrakk>registered w p i = Some a; watcher_signal a w = Some w'\<rbrakk> \<Longrightarrow> server_step w w'"
| timeout: "\<lbrakk>registered w p i = Some a; watcher_timeout a w = Some w'\<rbrakk> \<Longrightarrow> server_step w w'"
| api: "\<lbrakk>bound_ok (ar_Call req); backendGroup req w = Some (resp, w')\<rbrakk> \<Longrightarrow> server_step w w'"
| compact: "server_step w (la_Compact appID w)"
| flap_timer: "server_step w (on_queue (queue_timer (w_now w) t) w)"
| cleanup: "server_step w (on_cache (cleanupJob (w_now w)) w)"
| time: "t \<ge> w_now w \<Longrightarrow> server_step w (w\<lparr>w_now := t\<rparr>)"
| closing: "server_step w (w\<lparr>w_Closing := True\<rparr>)"
| close: "registered w p i = Some a \<Longrightarrow> ws_Close a w = Some w' \<Longrightarrow> server_step w w'"

definition server_ok :: "World \<Rightarrow> bool" where
  "server_ok w = (world_ok w \<and> (\<forall>p i a. registered w p i = Some a \<longrightarrow> session_ok w a))"

definition reachable :: "World \<Rightarrow> World \<Rightarrow> bool" where
  "reachable w0 w = server_step\<^sup>*\<^sup>* w0 w"

subsection \<open>The invariant\<close>

lemma session_same: "same_but_wire (w_heap w' b) (w_heap w b) \<Longrightarrow> session_ok w b \<Longrightarrow> session_ok w' b"
  by (simp add: session_ok_def attached_def same_but_wire_def)

lemma server_ok_served:
  assumes "server_ok w" "served a w w'"
  shows "server_ok w'"
  unfolding server_ok_def
proof (intro conjI allI impI)
  show "world_ok w'" using assms(2) by (simp add: served_def)
  fix p i b assume r: "registered w' p i = Some b"
  show "session_ok w' b"
  proof (cases "b = a")
    case True
    with assms(2) r show ?thesis by (auto simp: served_def free_def)
  next
    case False
    from r assms(2) have "registered w p i = Some b" by (simp add: served_def shrinks_def)
    with assms(1) have "session_ok w b" unfolding server_ok_def by blast
    moreover have "same_but_wire (w_heap w' b) (w_heap w b)"
      using False assms(2) by (simp add: served_def others_def)
    ultimately show ?thesis by (rule session_same [rotated])
  qed
qed

lemma server_ok_thinned:
  assumes "server_ok w" "thinned w w'"
  shows "server_ok w'"
  using assms session_same unfolding server_ok_def thinned_def by blast

lemma server_ok_background:
  assumes "server_ok w" "background w w'"
  shows "server_ok w'"
  by (rule server_ok_thinned [OF assms(1) thinned_background [OF _ assms(2)]])
    (use assms(1) in \<open>simp add: server_ok_def\<close>)

lemma server_ok_session:
  assumes "server_ok w" "registered w p i = Some a"
  shows "world_ok w" "session_ok w a" "okay a w" "served a w w"
proof -
  show "world_ok w" "session_ok w a" using assms unfolding server_ok_def by blast+
  then show "okay a w" "served a w w"
    by (simp_all add: okay_def session_attached served_def shrinks_def)
qed

lemma watcher_runs:
  assumes ok: "okay a w" and s: "session_ok w a"
  shows "runs (watcher_signal a w) (served a w)" "runs (watcher_timeout a w) (served a w)"
proof -
  have refl: "served a w w" by (rule step_served [OF quiet_step [OF step_refl [OF ok]] s])
  have "quiet a w (upd_ws a (\<lambda>s. s\<lparr>ws_userHasAuthorized := b, ws_userAuthChannel := None\<rparr>) w)" for b
    by (rule upd_quiet [OF ok]) (simp_all add: same_id_def session_ok_def attached_def)
  then have "served a w (upd_ws a (\<lambda>s. s\<lparr>ws_userHasAuthorized := b, ws_userAuthChannel := None\<rparr>) w)" for b
    by (rule step_served [OF quiet_step s])
  with refl show "runs (watcher_signal a w) (served a w)"
    by (simp add: watcher_signal_def split: option.split list.split)
  show "runs (watcher_timeout a w) (served a w)"
    using close_served [OF ok] refl by (simp add: watcher_timeout_def split: option.split)
qed

lemma Compact_thinned:
  assumes "world_ok w"
  shows "thinned w (la_Compact appID w)"
proof (cases "ns_of w appID")
  case None
  with assms show ?thesis by (simp add: la_Compact_def thinned_refl)
next
  case (Some n)
  have wf: "la_wf w" using assms by (simp add: world_ok_def)
  note u = user_op_spec [OF wf Some, of OpCompact "n_CompactMaps n"]
  have "world_ok (set_ns appID (n_CompactMaps n) w)"
    by (rule world_ok_transfer [OF assms]) (use u in \<open>simp_all add: same_id_def\<close>)
  with u Some show ?thesis by (simp add: la_Compact_def thinned_def)
qed

lemma accepted_ok:
  assumes "server_ok w" "accepted a app i w w'" "free w a"
  shows "server_ok w'"
  unfolding server_ok_def
proof (intro conjI allI impI)
  show "world_ok w'" using assms(2) by (simp add: accepted_def)
  fix q j b assume r: "registered w' q j = Some b"
  show "session_ok w' b"
  proof (cases "b = a")
    case True
    with assms(2) show ?thesis by (simp add: accepted_def)
  next
    case False
    with r assms(2) have "registered w q j = Some b" by (simp add: accepted_def split: if_splits)
    with assms(1) have "session_ok w b" unfolding server_ok_def by blast
    moreover have "same_but_wire (w_heap w' b) (w_heap w b)"
      using False assms(2) by (simp add: accepted_def others_def)
    ultimately show ?thesis by (rule session_same [rotated])
  qed
qed

lemma connect_ok:
  assumes ok: "server_ok w" and a: "a \<noteq> 0" "free w a" and s: "serveWs a i up key proto w = Some (out, w')"
  shows "server_ok w'"
proof (cases "out = Accepted")
  case True
  from serveWs_runs [OF _ a, of i up key proto] ok s True obtain app where "accepted a app i w w'"
    by (auto simp: server_ok_def)
  from accepted_ok [OF ok this a(2)] show ?thesis .
next
  case False
  from serveWs_runs [OF _ a, of i up key proto] ok s False
  have k: "world_ok w'" "others a w w'" "registered w' = registered w" by (auto simp: server_ok_def)
  have "session_ok w' b" if "registered w' p j = Some b" for p j b
  proof -
    from that k(3) a(2) have "b \<noteq> a" "registered w p j = Some b" by (auto simp: free_def)
    with ok k(2) session_same show ?thesis unfolding server_ok_def others_def by blast
  qed
  with k(1) show ?thesis by (simp add: server_ok_def)
qed

lemma step_ok: "server_step w w' \<Longrightarrow> server_ok w \<Longrightarrow> server_ok w'"
proof (induction rule: server_step.induct)
  case (connect a w i upgraded key protocol out w')
  then show ?case by (metis connect_ok)
next
  case (frame w p i a r go w')
  note s = server_ok_session [OF frame.prems frame.hyps(1)]
  from listen_round_runs [OF s(4), of r] frame.hyps(2,3) have "served a w w'" by auto
  from server_ok_served [OF frame.prems this] show ?case .
next
  case (signal w p i a w')
  note s = server_ok_session [OF signal.prems signal.hyps(1)]
  from watcher_runs(1) [OF s(3,2)] signal.hyps(2) have "served a w w'" by simp
  from server_ok_served [OF signal.prems this] show ?case .
next
  case (timeout w p i a w')
  note s = server_ok_session [OF timeout.prems timeout.hyps(1)]
  from watcher_runs(2) [OF s(3,2)] timeout.hyps(2) have "served a w w'" by simp
  from server_ok_served [OF timeout.prems this] show ?case .
next
  case (api req w resp w')
  from backendGroup_runs [OF _ api.hyps(1), of w] api.prems api.hyps(2)
  have "thinned w w'" by (simp add: server_ok_def)
  from server_ok_thinned [OF api.prems this] show ?case .
next
  case (compact w appID)
  then show ?case using server_ok_thinned [OF compact.prems Compact_thinned] by (simp add: server_ok_def)
next
  case (close w p i a w')
  note s = server_ok_session [OF close.prems close.hyps(1)]
  from close_served [OF s(3), of ErrCodeServerShuttingDown] close.hyps(2) have "served a w w'"
    by (simp add: ws_Close_def)
  from server_ok_served [OF close.prems this] show ?case .
qed (auto elim!: server_ok_background simp: background_def on_queue_def on_cache_def)

lemma reachable_ok: "reachable w0 w \<Longrightarrow> server_ok w0 \<Longrightarrow> server_ok w"
  unfolding reachable_def by (induction rule: rtranclp_induct) (auto intro: step_ok)

lemma fresh_ok: "server_ok (fresh_world metrics apps queue h now lib)"
  by (simp add: server_ok_def world_ok_def fresh_world_def la_Init_def la_wf_def namespaces_def
      registered_def ns_of_def)

subsection \<open>Shutdown\<close>

lemma close_each_runs:
  "world_ok w \<Longrightarrow> distinct as \<Longrightarrow> \<forall>a \<in> set as. \<exists>p i. registered w p i = Some a
    \<Longrightarrow> runs (close_each as w) (\<lambda>w'. world_ok w' \<and> w_lib w' = w_lib w \<and> (\<forall>a \<in> set as. ws_closed (w_heap w' a))
          \<and> (\<forall>b. ws_closed (w_heap w b) \<longrightarrow> ws_closed (w_heap w' b)))"
proof (induction as arbitrary: w)
  case (Cons a as)
  from Cons.prems(3) obtain p i where r: "registered w p i = Some a" by auto
  from world_okD(2) [OF Cons.prems(1) r] obtain app where id: "attached w a" "ws_ID (w_heap w a) = i"
    "ws_app (w_heap w a) = Some app" "app_ID app = p" by (auto simp: reg_ok_def)
  have ok: "okay a w" using Cons.prems(1) id by (simp add: okay_def)
  have "runs (close_each as w1) (\<lambda>w'. world_ok w' \<and> w_lib w' = w_lib w \<and> (\<forall>a \<in> set (a # as). ws_closed (w_heap w' a))
          \<and> (\<forall>b. ws_closed (w_heap w b) \<longrightarrow> ws_closed (w_heap w' b)))"
    if c: "world_ok w1 \<and> ended w1 a \<and> free w1 a \<and> w_lib w1 = w_lib w
      \<and> registered w1 = unregister (app_ID app) i (registered w) \<and> others a w w1 \<and> X" for w1 X
  proof (rule runs_mono [OF Cons.IH])
    show "world_ok w1" "distinct as" using c Cons.prems(2) by simp_all
    show "\<forall>b \<in> set as. \<exists>p i. registered w1 p i = Some b"
    proof
      fix b assume b: "b \<in> set as"
      with Cons.prems(3) obtain q j where "registered w q j = Some b" by auto
      moreover from this r b Cons.prems(2) id(4) have "\<not> (q = app_ID app \<and> j = i)" by auto
      ultimately have "registered w1 q j = Some b" using c by (auto simp: unregister_def)
      then show "\<exists>p i. registered w1 p i = Some b" by blast
    qed
    have mono: "ws_closed (w_heap w1 b)" if "ws_closed (w_heap w b)" for b
      using c that by (cases "b = a") (auto simp: ended_def others_def same_but_wire_def)
    fix w' assume "world_ok w' \<and> w_lib w' = w_lib w1 \<and> (\<forall>a \<in> set as. ws_closed (w_heap w' a))
          \<and> (\<forall>b. ws_closed (w_heap w1 b) \<longrightarrow> ws_closed (w_heap w' b))"
    with c mono show "world_ok w' \<and> w_lib w' = w_lib w \<and> (\<forall>a \<in> set (a # as). ws_closed (w_heap w' a))
          \<and> (\<forall>b. ws_closed (w_heap w b) \<longrightarrow> ws_closed (w_heap w' b))" by (simp add: ended_def)
  qed
  from runs_mono [OF closeConnection_runs [OF ok id(3,2) refl] this] show ?case by (simp add: ws_Close_def)
qed simp

lemma all_sockets_iff:
  assumes "world_ok w"
  shows "a \<in> set (all_sockets w) \<longleftrightarrow> (\<exists>p i. registered w p i = Some a)"
proof -
  have wf: "la_wf w" using assms by (simp add: world_ok_def)
  then have ns: "(p, n) \<in> set (namespaces w) \<longleftrightarrow> ns_of w p = Some n" for p n
    using wf_map_of_iff [of "namespaces w" p n] by (simp add: la_wf_def ns_of_def)
  have sk: "(i, b) \<in> set (ns_Sockets n) \<longleftrightarrow> map_of (ns_Sockets n) i = Some b" if "ns_of w p = Some n" for p n i b
    using wf_map_of_iff [of "ns_Sockets n" i b] la_wf_ns [OF wf that] by (simp add: ns_wf_def)
  have "a \<in> set (all_sockets w) \<longleftrightarrow> (\<exists>p n i. (p, n) \<in> set (namespaces w) \<and> (i, a) \<in> set (ns_Sockets n))"
    by (force simp: all_sockets_def n_GetSockets_def)
  also have "\<dots> \<longleftrightarrow> (\<exists>p n i. ns_of w p = Some n \<and> map_of (ns_Sockets n) i = Some a)"
    by (simp add: ns sk cong: conj_cong)
  also have "\<dots> \<longleftrightarrow> (\<exists>p i. registered w p i = Some a)"
    by (fastforce simp: registered_def split: option.splits)
  finally show ?thesis .
qed

lemma distinct_values:
  "distinct (map fst kvs) \<Longrightarrow> (\<And>k v. (k, v) \<in> set kvs \<Longrightarrow> key v = f k) \<Longrightarrow> inj f \<Longrightarrow> distinct (map snd kvs)"
proof (induction kvs)
  case (Cons kv kvs)
  obtain k v where kv: "kv = (k, v)" by (cases kv)
  have "v \<noteq> v'" if "(k', v') \<in> set kvs" for k' v'
  proof
    assume "v = v'"
    with Cons.prems(2) [of k v] Cons.prems(2) [of k' v'] that kv have "f k = f k'" by simp
    with Cons.prems(3) have "k = k'" by (simp add: inj_eq)
    with that Cons.prems(1) kv show False by force
  qed
  then have "v \<notin> snd ` set kvs" by force
  moreover have "distinct (map snd kvs)" by (rule Cons.IH) (use Cons.prems in auto)
  ultimately show ?case using kv by simp
qed simp

lemma distinct_all_sockets:
  assumes "world_ok w"
  shows "distinct (all_sockets w)"
proof -
  define key where "key a = (map_option app_ID (ws_app (w_heap w a)), ws_ID (w_heap w a))" for a
  have "distinct (concat (map (\<lambda>(_, n). map snd (n_GetSockets n)) nss))"
    if "distinct (map fst nss)" "\<forall>(p, n) \<in> set nss. distinct (map fst (ns_Sockets n)) \<and> (\<forall>(i, a) \<in> set (ns_Sockets n). key a = (Some p, i))"
    for nss
    using that
  proof (induction nss)
    case (Cons pn nss)
    obtain p n where pn: "pn = (p, n)" by (cases pn)
    have d: "distinct (map snd (ns_Sockets n))"
      by (rule distinct_values [where key = key and f = "Pair (Some p)"]) (use Cons.prems(2) pn in \<open>auto simp: inj_def\<close>)
    have "a \<noteq> b" if "(i, a) \<in> set (ns_Sockets n)" "(q, m) \<in> set nss" "(j, b) \<in> set (ns_Sockets m)" for i a q m j b
    proof
      assume "a = b"
      moreover have "key a = (Some p, i)" using Cons.prems(2) that(1) pn by auto
      moreover have "key b = (Some q, j)" using Cons.prems(2) that(2,3) by fastforce
      ultimately have "p = q" by simp
      with Cons.prems(1) that(2) pn show False by force
    qed
    then have "set (map snd (ns_Sockets n)) \<inter> set (concat (map (\<lambda>(_, n). map snd (n_GetSockets n)) nss)) = {}"
      by (fastforce simp: n_GetSockets_def)
    with d Cons pn show ?case by (simp add: n_GetSockets_def)
  qed simp
  moreover have "distinct (map fst (namespaces w))" using assms by (simp add: world_ok_def la_wf_def wf_map_def)
  moreover have "\<forall>(p, n) \<in> set (namespaces w). distinct (map fst (ns_Sockets n)) \<and> (\<forall>(i, a) \<in> set (ns_Sockets n). key a = (Some p, i))"
    using assms by (fastforce simp: world_ok_def la_wf_def ns_wf_def wf_map_def reg_ok_def key_def)
  ultimately show ?thesis by (simp add: all_sockets_def)
qed

lemma close_all_runs:
  assumes "world_ok w"
  shows "runs (CloseAllLocalSockets w) (\<lambda>w'. namespaces w' = []
    \<and> (\<forall>p i a. registered w p i = Some a \<longrightarrow> ws_closed (w_heap w' a)))"
proof (cases "namespaces w = []")
  case True
  then show ?thesis by (simp add: CloseAllLocalSockets_def registered_def ns_of_def)
next
  case False
  have "runs (close_each (all_sockets w) w) (\<lambda>w'. \<forall>a \<in> set (all_sockets w). ws_closed (w_heap w' a))"
    by (rule runs_mono [OF close_each_runs [OF assms distinct_all_sockets [OF assms]]])
      (use all_sockets_iff [OF assms] in auto)
  then have "runs (close_each (all_sockets w) w) (\<lambda>w'. namespaces (la_ClearNamespaces w') = []
    \<and> (\<forall>p i a. registered w p i = Some a \<longrightarrow> ws_closed (w_heap (la_ClearNamespaces w') a)))"
    by (rule runs_mono) (use all_sockets_iff [OF assms] in \<open>auto simp: la_ClearNamespaces_def namespaces_def\<close>)
  with False show ?thesis by (simp add: CloseAllLocalSockets_def)
qed

subsection \<open>Properties\<close>

text \<open>C1
  Every state the server can reach from its start is well-formed: sockets are registered under
  their own id in the namespace of their own app, namespaces have no empty entries, and every
  registered socket can be served. (The one step left out is a presence subscription whose
  \<open>channel_data\<close> is not a member: see \<open>nil_member_panics\<close>.)
\<close>
theorem reachable_invariant:
  assumes "reachable (fresh_world metrics apps queue h now lib) w"
  shows "server_ok w"
  by (rule reachable_ok [OF assms fresh_ok])

text \<open>A reachable state: the server has started and is closing.\<close>

definition demo_start :: World where
  "demo_start = fresh_world NoOpMetrics [(''1'', demo_app)] (w_queue blank_world) demo_heap 0 (w_lib blank_world)"

definition demo_closing :: World where
  "demo_closing = demo_start\<lparr>w_Closing := True\<rparr>"

lemma demo_closing_reachable:
  "reachable (fresh_world NoOpMetrics [(''1'', demo_app)] (w_queue blank_world) demo_heap 0 (w_lib blank_world)) demo_closing"
  unfolding reachable_def demo_closing_def demo_start_def
  by (rule r_into_rtranclp) (rule server_step.closing)

theorem reachable_invariant_witness: "server_ok demo_closing"
  by (rule reachable_invariant [OF demo_closing_reachable])


text \<open>A reachable state with a client.\<close>

lemma demo_connected:
  obtains w where "reachable demo_start w" "registered w ''1'' ''9.9'' = Some 5" "free w 6"
proof -
  have "fst (Str2Int ''7'') = 7" by code_simp
  moreover have "world_ok demo_start" using fresh_ok by (simp add: demo_start_def server_ok_def)
  moreover have f: "free demo_start b" for b
    by (simp add: free_def registered_def ns_of_def namespaces_def demo_start_def fresh_world_def la_Init_def)
  moreover have "admissible ''9.9'' (Some demo_conn) ''k'' ''7'' demo_start demo_app"
    using calculation(1) by (simp add: admissible_def demo_start_def fresh_world_def la_Init_def
        registered_def ns_of_def namespaces_def)
  ultimately obtain w app where w: "serveWs 5 ''9.9'' (Some demo_conn) ''k'' ''7'' demo_start = Some (Accepted, w)"
    "validateApp (w_apps demo_start) ''k'' = Inr app" "accepted 5 app ''9.9'' demo_start w"
    using serveWs_runs [of demo_start 5 "''9.9''" "Some demo_conn" "''k''" "''7''"]
      serveWs_accepts_iff [of demo_start 5 "''9.9''" "Some demo_conn" "''k''" "''7''"]
    by (auto simp: runs_iff)
  have "reachable demo_start w"
    unfolding reachable_def by (rule r_into_rtranclp) (rule server_step.connect [OF _ f w(1)], simp)
  moreover have "app = demo_app"
    using w(2) by (simp add: validateApp_def demo_start_def fresh_world_def la_Init_def)
  then have "registered w ''1'' ''9.9'' = Some 5" "free w 6"
    using w(3) f [of 6] by (simp_all add: accepted_def free_def)
  ultimately show thesis using that by blast
qed

definition demo_request :: ApiRequest where
  "demo_request = \<lparr>ar_Http = \<lparr>rq_Method = ''POST'', rq_Path = ''/apps/1/events'', rq_Query = []\<rparr>, ar_AppID = ''1'',
     ar_Call = PostEvents (Inl ''EOF'')\<rparr>"


text \<open>
  Shutdown reaches every client: closing all local sockets returns, every socket that was
  registered in any app is closed afterwards, and the adapter is empty.
\<close>
theorem close_all_sockets:
  assumes "world_ok w"
  shows "\<exists>w'. CloseAllLocalSockets w = Some w' \<and> namespaces w' = []
    \<and> (\<forall>p i a. registered w p i = Some a \<longrightarrow> ws_closed (w_heap w' a))"
  using close_all_runs [OF assms] by (simp add: runs_iff)

theorem close_all_sockets_witness:
  "\<exists>w'. CloseAllLocalSockets demo_world = Some w' \<and> namespaces w' = []
    \<and> ws_closed (w_heap w' 1) \<and> ws_closed (w_heap w' 2)"
proof -
  have "registered demo_world ''1'' ''1.1'' = Some 1" "registered demo_world ''1'' ''2.2'' = Some 2"
    by (simp_all add: demo_registered)
  with close_all_sockets [OF demo_world_ok] show ?thesis by blast
qed

subsection \<open>Starting from a configuration\<close>

lemma foldl_mput_all:
  assumes "wf_apps m" "\<forall>app \<in> set (GetAllApps m). P app" "\<forall>app \<in> set apps. P app"
  shows "\<forall>app \<in> set (GetAllApps (foldl (\<lambda>m app. mput (app_ID app) app m) m apps)). P app"
  using assms
proof (induction apps arbitrary: m)
  case (Cons app apps)
  have "\<forall>a \<in> set (GetAllApps (mput (app_ID app) app m)). P a"
    using Cons.prems in_mput [of m _ _ "app_ID app" app] by (fastforce simp: GetAllApps_def wf_apps_def)
  with Cons.IH [OF wf_apps_put [OF Cons.prems(1)]] Cons.prems(3) show ?case by simp
qed simp

lemma foldl_mput_nonempty: "m \<noteq> [] \<or> apps \<noteq> [] \<Longrightarrow> foldl (\<lambda>m app. mput (app_ID app) app m) m apps \<noteq> []"
proof (induction apps arbitrary: m)
  case (Cons app apps)
  have "mhas (mput (app_ID app) app m) (app_ID app)" by simp
  then have "mput (app_ID app) app m \<noteq> []" by (auto simp: mhas_def)
  with Cons.IH show ?case by simp
qed simp

lemma load_driver: "sc_RedisInstance cfg \<Longrightarrow> redis_driver cfg None = Inr RedisDriver"
  by (simp add: redis_driver_def)

lemma configured_apps:
  assumes "InitializeServerConfig v loading redis_error = Inr cfg"
  obtains m where "loadAppManager cfg = Inr m" "m \<noteq> []" "wf_apps m"
    "\<forall>app \<in> set (GetAllApps m). app_Enabled app \<and> limits_set app"
proof -
  from config_success [OF assms] obtain cfg0 where c: "config_apps (with_single_app v cfg0) \<noteq> []"
    "sc_Applications cfg = Some (map SetMissingDefaults (config_apps (with_single_app v cfg0)))" by metis
  define as where "as = map SetMissingDefaults (config_apps (with_single_app v cfg0))"
  define m where "m = foldl (\<lambda>m app. mput (app_ID app) app m) [] as"
  have m: "m \<noteq> []" using foldl_mput_nonempty [of "[]" as] c(1) by (simp add: m_def as_def)
  have wf: "wf_apps m" using ArrayAppManager_Init_wf [of as] m by (simp add: ArrayAppManager_Init_def m_def [symmetric] Let_def)
  have all: "\<forall>app \<in> set (GetAllApps m). app_Enabled app \<and> limits_set app" unfolding m_def
    by (rule foldl_mput_all) (auto simp: wf_apps_def GetAllApps_def as_def SetMissingDefaults_sets)
  have load: "loadAppManager cfg = Inr m"
    using m c(2) by (simp add: loadAppManager_def ArrayAppManager_Init_def as_def [symmetric] m_def [symmetric] Let_def)
  show thesis by (rule that [OF load m wf all])
qed

lemma sync_queue_made: "NewSyncQueue True = Inr \<lparr>q_webhookSender = True, q_flap = NewFlapDetector True (3 * Second), q_jobs = []\<rparr>"
  by (simp add: NewSyncQueue_def NewAbstractQueue_def)

text \<open>
  A configuration that was read without an error starts a server: no driver finds Redis
  missing, there is an app, and every app the server knows is enabled and has all its limits. In
  particular an app that was configured as disabled is enabled.
\<close>
theorem configured_server_starts:
  assumes "InitializeServerConfig v loading redis_error = Inr cfg" "new_metrics reg cfg = Some metrics"
  shows "\<exists>adapter cache queue w. NewServer reg None None h now lib (Some cfg) = Some (Inr (adapter, cache, queue, w))
    \<and> (adapter = RedisDriver \<longleftrightarrow> sc_AdapterDriver cfg = ''redis'') \<and> (cache = RedisDriver \<longleftrightarrow> sc_ChannelCacheDriver cfg = ''redis'')
    \<and> (queue = RedisDriver \<longleftrightarrow> sc_QueueDriver cfg = ''redis'')
    \<and> w_apps w \<noteq> [] \<and> wf_apps (w_apps w) \<and> (\<forall>app \<in> set (GetAllApps (w_apps w)). app_Enabled app \<and> limits_set app)"
proof -
  from config_success [OF assms(1)] have c: "sc_Applications cfg \<noteq> None"
    "sc_UsingRedis cfg \<longleftrightarrow> ''redis'' \<in> {sc_ChannelCacheDriver cfg, sc_QueueDriver cfg, sc_AdapterDriver cfg}"
    "sc_UsingRedis cfg \<longrightarrow> sc_RedisInstance cfg" by auto
  from configured_apps [OF assms(1)] obtain m where m: "loadAppManager cfg = Inr m" "m \<noteq> []" "wf_apps m"
    "\<forall>app \<in> set (GetAllApps m). app_Enabled app \<and> limits_set app" .
  show ?thesis
    using assms(2) sync_queue_made c m
    by (auto simp: NewServer_def loadAdapter_def loadCacheManager_def loadQueueManager_def load_driver fresh_world_def la_Init_def)
qed

definition demo_viper :: Viper where
  "demo_viper = \<lparr>vp_GetString = (\<lambda>k. if k = ''app_id'' then ''1'' else []), vp_GetInt = (\<lambda>_. 0), vp_GetBool = (\<lambda>_. False)\<rparr>"

definition demo_config :: ServerConfig where
  "demo_config = \<lparr>sc_Env = [], sc_Port = ''6001'', sc_BindAddress = [], sc_AppManager = ''array'', sc_AdapterDriver = ''local'',
     sc_QueueDriver = ''local'', sc_ChannelCacheDriver = ''redis'', sc_UsingRedis = False, sc_RedisInstance = False,
     sc_RedisPrefix = [], sc_LogLevel = [], sc_RedisUrl = [], sc_RedisTls = False, sc_RedisClusterMode = False,
     sc_IgnoreLoggerMiddleware = False, sc_MetricsEnabled = False, sc_MetricsPort = [], sc_Applications = None\<rparr>"

theorem configured_server_starts_witness:
  "\<exists>cfg cache w. InitializeServerConfig demo_viper (Inr demo_config) None = Inr cfg
    \<and> NewServer (\<lambda>_ _. None) None None demo_heap 0 (w_lib blank_world) (Some cfg) = Some (Inr (LocalDriver, cache, LocalDriver, w))
    \<and> cache = RedisDriver \<and> w_apps w \<noteq> []"
proof -
  obtain cfg where c: "InitializeServerConfig demo_viper (Inr demo_config) None = Inr cfg" "sc_MetricsEnabled cfg = False"
    "sc_AdapterDriver cfg = ''local''" "sc_QueueDriver cfg = ''local''" "sc_ChannelCacheDriver cfg = ''redis''"
    by (simp add: InitializeServerConfig_def with_single_app_def single_app_def config_apps_def demo_config_def
        demo_viper_def newApp_def choose_redis_def zero_app_def Let_def)
  then have "new_metrics (\<lambda>_ _. None) cfg = Some NoOpMetrics" by (simp add: new_metrics_def)
  from configured_server_starts [OF c(1) this, of demo_heap 0 "w_lib blank_world"] obtain adapter cache queue w where
    s: "NewServer (\<lambda>_ _. None) None None demo_heap 0 (w_lib blank_world) (Some cfg) = Some (Inr (adapter, cache, queue, w))"
    "adapter = RedisDriver \<longleftrightarrow> sc_AdapterDriver cfg = ''redis''" "cache = RedisDriver \<longleftrightarrow> sc_ChannelCacheDriver cfg = ''redis''"
    "queue = RedisDriver \<longleftrightarrow> sc_QueueDriver cfg = ''redis''" "w_apps w \<noteq> []" by blast
  from s(2-4) c(3-5) have "adapter = LocalDriver" "cache = RedisDriver" "queue = LocalDriver"
    by (cases adapter; cases queue; simp)+
  with s c(1) show ?thesis by blast
qed

end
