(* ===== verification/Broker.thy ===== *)
theory Broker
  imports Server
begin

text \<open>
  The server seen from outside: a broker that knows which sockets are connected and who is
  subscribed to what. The first part is this specification; the second part relates it to the
  state of the server (\<open>internal/namespace.go\<close>, \<open>internal/websocket.go\<close>), together with the invariant
  that ties the channels a socket tracks itself to the subscriptions the adapter keeps for it; the third
  part goes through the handlers.
\<close>

subsection \<open>The specification\<close>

record Broker =
  bk_conns :: "(AppID \<times> SocketID) set"
  bk_subs :: "(AppID \<times> ChannelName \<times> SocketID) set"

datatype broker_event =
    Connects AppID SocketID
  | Disconnects AppID SocketID
  | Subscribes AppID ChannelName SocketID
  | Unsubscribes AppID ChannelName SocketID

inductive broker_step :: "broker_event \<Rightarrow> Broker \<Rightarrow> Broker \<Rightarrow> bool" where
  connects: "(p, i) \<notin> bk_conns b \<Longrightarrow> broker_step (Connects p i) b (b\<lparr>bk_conns := insert (p, i) (bk_conns b)\<rparr>)"
| disconnects: "(p, i) \<in> bk_conns b \<Longrightarrow> broker_step (Disconnects p i) b
    (b\<lparr>bk_conns := bk_conns b - {(p, i)}, bk_subs := {(q, c, j) \<in> bk_subs b. (q, j) \<noteq> (p, i)}\<rparr>)"
| subscribes: "(p, i) \<in> bk_conns b \<Longrightarrow> broker_step (Subscribes p c i) b (b\<lparr>bk_subs := insert (p, c, i) (bk_subs b)\<rparr>)"
| unsubscribes: "(p, i) \<in> bk_conns b \<Longrightarrow> broker_step (Unsubscribes p c i) b (b\<lparr>bk_subs := bk_subs b - {(p, c, i)}\<rparr>)"

inductive_simps broker_step_simps [simp]:
  "broker_step (Connects p i) b b'" "broker_step (Disconnects p i) b b'"
  "broker_step (Subscribes p c i) b b'" "broker_step (Unsubscribes p c i) b b'"

inductive broker_run :: "broker_event list \<Rightarrow> Broker \<Rightarrow> Broker \<Rightarrow> bool" where
  none: "broker_run [] b b"
| more: "broker_step e b b1 \<Longrightarrow> broker_run es b1 b2 \<Longrightarrow> broker_run (e # es) b b2"

inductive_simps broker_run_simps [simp]: "broker_run [] b b'" "broker_run (e # es) b b'"

lemma broker_run_append: "broker_run (es @ fs) b b' \<longleftrightarrow> (\<exists>b1. broker_run es b b1 \<and> broker_run fs b1 b')"
  by (induction es arbitrary: b) auto

text \<open>What the specification promises: only connected sockets are subscribed, and only subscribing subscribes.\<close>

definition broker_ok :: "Broker \<Rightarrow> bool" where
  "broker_ok b = (\<forall>p c i. (p, c, i) \<in> bk_subs b \<longrightarrow> (p, i) \<in> bk_conns b)"

lemma broker_step_ok: "broker_step e b b' \<Longrightarrow> broker_ok b \<Longrightarrow> broker_ok b'"
  by (cases e) (auto simp: broker_ok_def)

lemma broker_step_subs:
  "broker_step e b b' \<Longrightarrow> (p, c, i) \<in> bk_subs b' \<Longrightarrow> (p, c, i) \<in> bk_subs b \<or> e = Subscribes p c i"
  by (cases e) auto

lemma broker_run_ok: "broker_run es b b' \<Longrightarrow> broker_ok b \<Longrightarrow> broker_ok b'"
  by (induction rule: broker_run.induct) (auto intro: broker_step_ok)

lemma broker_run_subs:
  "broker_run es b b' \<Longrightarrow> (p, c, i) \<in> bk_subs b' \<Longrightarrow> (p, c, i) \<in> bk_subs b \<or> Subscribes p c i \<in> set es"
  by (induction rule: broker_run.induct) (auto dest: broker_step_subs)

subsection \<open>The state of the server as a broker\<close>

definition broker :: "World \<Rightarrow> Broker" where
  "broker w = \<lparr>bk_conns = {(p, i). registered w p i \<noteq> None}, bk_subs = {(p, c, i). (c, i) \<in> la_subs p w}\<rparr>"

lemma broker_simps [simp]:
  "(p, i) \<in> bk_conns (broker w) \<longleftrightarrow> registered w p i \<noteq> None"
  "(p, c, i) \<in> bk_subs (broker w) \<longleftrightarrow> (c, i) \<in> la_subs p w"
  by (simp_all add: broker_def)

lemma broker_eqI:
  "bk_conns b = {(p, i). registered w p i \<noteq> None} \<Longrightarrow> bk_subs b = {(p, c, i). (c, i) \<in> la_subs p w} \<Longrightarrow> broker w = b"
  by (simp add: broker_def)

text \<open>
  A registered socket tracks the channels the adapter has it subscribed to, with the object its
  app and the name of the channel determine, and has member data for presence channels it is subscribed to only.
  The one exception: a presence subscription whose member had no user id is not forgotten when it ends.
\<close>

definition tracks :: "World \<Rightarrow> AppID \<Rightarrow> SocketID \<Rightarrow> addr \<Rightarrow> App \<Rightarrow> ChannelName \<Rightarrow> bool" where
  "tracks w p i a app c =
     ((case subscription (w_heap w a) c of
         None \<Rightarrow> (c, i) \<notin> la_subs p w
       | Some ch \<Rightarrow> ch = CreateChannelFromString app c
           \<and> ((c, i) \<in> la_subs p w \<or> IsPresenceChannel c \<and> getPresenceDataForChannel (w_heap w a) c = None))
      \<and> (getPresenceDataForChannel (w_heap w a) c \<noteq> None \<longrightarrow> IsPresenceChannel c \<and> (c, i) \<in> la_subs p w))"

definition map_ok :: "WebSocket \<Rightarrow> bool" where
  "map_ok s = (\<forall>m. ws_SubscribedChannels s = Some m \<longrightarrow> wf_map m)"

lemma tracks_cong:
  assumes "subscription (w_heap w' a) c = subscription (w_heap w a) c"
    and "getPresenceDataForChannel (w_heap w' a) c = getPresenceDataForChannel (w_heap w a) c"
    and "(c, i) \<in> la_subs p w' \<longleftrightarrow> (c, i) \<in> la_subs p w"
  shows "tracks w' p i a app c = tracks w p i a app c"
  unfolding tracks_def assms ..

text \<open>No handler changes the configured apps, and a server that is closing stays so.\<close>

abbreviation same_setup :: "World \<Rightarrow> World \<Rightarrow> bool" where
  "same_setup w w' \<equiv> w_apps w' = w_apps w \<and> (w_Closing w \<longrightarrow> w_Closing w')"

definition coherent :: "World \<Rightarrow> bool" where
  "coherent w = (world_ok w
     \<and> (\<forall>p c i. (c, i) \<in> la_subs p w \<longrightarrow> registered w p i \<noteq> None)
     \<and> (\<forall>p i a. registered w p i = Some a \<longrightarrow>
          (\<exists>app. ws_app (w_heap w a) = Some app \<and> app \<in> snd ` set (w_apps w) \<and> map_ok (w_heap w a)
             \<and> (\<forall>c. tracks w p i a app c))))"

definition follows :: "broker_event list \<Rightarrow> World \<Rightarrow> World \<Rightarrow> bool" where
  "follows es w w' = (coherent w' \<and> same_setup w w' \<and> broker_run es (broker w) (broker w'))"

lemma follows_trans: "follows es w w' \<Longrightarrow> follows fs w' w'' \<Longrightarrow> follows (es @ fs) w w''"
  by (auto simp: follows_def broker_run_append)

lemma follows_refl: "coherent w \<Longrightarrow> follows [] w w"
  by (simp add: follows_def)

lemma coherent_app:
  assumes "coherent w" "registered w p i = Some a" "ws_app (w_heap w a) = Some app"
  shows "app_ID app = p" "app \<in> snd ` set (w_apps w)" "tracks w p i a app c" "ws_ID (w_heap w a) = i" "okay a w"
    "map_ok (w_heap w a)"
proof -
  have ok: "world_ok w" using assms(1) by (simp add: coherent_def)
  from world_okD(2) [OF ok assms(2)] assms(3) ok show "app_ID app = p" "ws_ID (w_heap w a) = i" "okay a w"
    by (simp_all add: reg_ok_def okay_def)
  show "app \<in> snd ` set (w_apps w)" "tracks w p i a app c" "map_ok (w_heap w a)"
    using assms unfolding coherent_def by (metis option.inject)+
qed

lemma coherent_registered:
  assumes "coherent w" "registered w p i = Some a"
  obtains app where "ws_app (w_heap w a) = Some app"
  using assms unfolding coherent_def by blast

subsection \<open>Steps the broker does not see\<close>

definition same_view :: "World \<Rightarrow> World \<Rightarrow> bool" where
  "same_view w w' = (registered w' = registered w \<and> (\<forall>p. la_subs p w' = la_subs p w) \<and> same_setup w w'
     \<and> (\<forall>b. \<not> free w b \<longrightarrow> ws_SubscribedChannels (w_heap w' b) = ws_SubscribedChannels (w_heap w b)
          \<and> ws_PresenceData (w_heap w' b) = ws_PresenceData (w_heap w b) \<and> ws_app (w_heap w' b) = ws_app (w_heap w b)))"

lemma same_view_refl [simp]: "same_view w w"
  by (simp add: same_view_def)

lemma same_view_trans: "same_view w w' \<Longrightarrow> same_view w' w'' \<Longrightarrow> same_view w w''"
  by (simp add: same_view_def free_def)

lemma same_viewI:
  assumes "w_Namespaces w' = w_Namespaces w" "same_setup w w'"
    and "\<And>b. \<not> free w b \<Longrightarrow> ws_SubscribedChannels (w_heap w' b) = ws_SubscribedChannels (w_heap w b)
          \<and> ws_PresenceData (w_heap w' b) = ws_PresenceData (w_heap w b) \<and> ws_app (w_heap w' b) = ws_app (w_heap w b)"
  shows "same_view w w'"
  using assms same_namespaces [OF assms(1)] by (simp add: same_view_def la_subs_def)

lemma same_view_tracks:
  assumes "same_view w w'" "registered w p i = Some a"
  shows "tracks w' p i a app c = tracks w p i a app c"
proof -
  have "\<not> free w a" using assms(2) by (auto simp: free_def)
  with assms(1) show ?thesis
    by (intro tracks_cong) (simp_all add: same_view_def subscription_def getPresenceDataForChannel_def)
qed

lemma follows_view:
  assumes "coherent w" "same_view w w'" "world_ok w'"
  shows "follows [] w w'"
proof -
  have r: "registered w' = registered w" "\<And>p. la_subs p w' = la_subs p w" "same_setup w w'"
    using assms(2) by (simp_all add: same_view_def)
  then have "broker w' = broker w" by (simp add: broker_def)
  moreover have "coherent w'"
    unfolding coherent_def
  proof (intro conjI allI impI)
    show "registered w' p i \<noteq> None" if "(c, i) \<in> la_subs p w'" for p c i using that assms(1) r by (simp add: coherent_def)
    fix p i a assume reg: "registered w' p i = Some a"
    then have reg: "registered w p i = Some a" by (simp add: r)
    obtain app where app: "ws_app (w_heap w a) = Some app" by (rule coherent_registered [OF assms(1) reg])
    have "ws_app (w_heap w' a) = Some app" "ws_SubscribedChannels (w_heap w' a) = ws_SubscribedChannels (w_heap w a)"
      using assms(2) app reg unfolding same_view_def free_def by metis+
    then show "\<exists>app. ws_app (w_heap w' a) = Some app \<and> app \<in> snd ` set (w_apps w') \<and> map_ok (w_heap w' a)
        \<and> (\<forall>c. tracks w' p i a app c)"
      using coherent_app(2,3,6) [OF assms(1) reg app] same_view_tracks [OF assms(2) reg] r by (auto simp: map_ok_def)
  qed (rule assms(3))
  ultimately show ?thesis by (simp add: follows_def r)
qed

named_theorems view_intros \<open>operations the broker does not see\<close>

lemma frame_view: "send_frame w' w \<Longrightarrow> same_view w w'"
  by (rule same_viewI) (simp_all add: send_frame_def same_but_wire_def)

lemma upd_view [view_intros]:
  "ws_SubscribedChannels (f (w_heap w a)) = ws_SubscribedChannels (w_heap w a) \<Longrightarrow>
   ws_PresenceData (f (w_heap w a)) = ws_PresenceData (w_heap w a) \<Longrightarrow> ws_app (f (w_heap w a)) = ws_app (w_heap w a) \<Longrightarrow>
   same_view w (upd_ws a f w)"
  by (rule same_viewI) simp_all

lemma plain_view [view_intros, simp]:
  "same_view w (on_queue f w)" "same_view w (on_cache g w)" "same_view w (w\<lparr>w_metrics := m\<rparr>)"
  "same_view w (w\<lparr>w_now := t\<rparr>)" "same_view w (w\<lparr>w_Closing := True\<rparr>)"
  by (rule same_viewI; simp add: on_queue_def on_cache_def)+

lemma view_after:
  "same_view w w' \<Longrightarrow> same_view w (on_queue f w')" "same_view w w' \<Longrightarrow> same_view w (w'\<lparr>w_metrics := m\<rparr>)"
  "same_view w w' \<Longrightarrow> same_view w (on_cache g w')"
  by (rule same_view_trans, assumption, simp)+

end
