(* ===== verification/Handlers.thy ===== *)
theory Handlers
  imports Dispatch
begin

text \<open>
  What the handlers of \<open>internal/websocket.go\<close> do: which requests change the subscriptions and
  the users, and how; what the other clients see of them; and the requests that go wrong.
\<close>

subsection \<open>Operations that leave the subscriptions alone\<close>

definition keeps :: "World \<Rightarrow> World \<Rightarrow> bool" where
  "keeps w w' = (w_Namespaces w' = w_Namespaces w
     \<and> (\<forall>b. ws_SubscribedChannels (w_heap w' b) = ws_SubscribedChannels (w_heap w b)))"

named_theorems keep_dests \<open>operations that keep the namespaces and the tracked channels\<close>

lemma keeps_refl [simp]: "keeps w w"
  by (simp add: keeps_def)

lemma keeps_trans [trans]: "keeps w w' \<Longrightarrow> keeps w' w'' \<Longrightarrow> keeps w w''"
  by (simp add: keeps_def)

lemma keeps_frame: "send_frame w' w \<Longrightarrow> keeps w w'"
  by (simp add: keeps_def send_frame_def same_but_wire_def)

lemma keeps_queue [simp]: "keeps w (on_queue f w') = keeps w w'" "keeps (on_queue f w) w' = keeps w w'"
  by (simp_all add: keeps_def on_queue_def)

lemma keeps_upd: "ws_SubscribedChannels (f (w_heap w a)) = ws_SubscribedChannels (w_heap w a) \<Longrightarrow> keeps w (upd_ws a f w)"
  by (simp add: keeps_def)

lemma ws_Send_keeps [keep_dests]: "ws_Send a m w = Some w' \<Longrightarrow> keeps w w'"
  using keeps_frame ws_Send_frame by blast

lemma send_all_keeps [keep_dests]: "send_all m as w = Some w' \<Longrightarrow> keeps w w'"
  by (induction as arbitrary: w) (auto simp: bind_eq_Some_conv intro: keeps_trans dest: ws_Send_keeps)

lemma la_Send_keeps [keep_dests]: "la_Send p c m e w = Some (x, w') \<Longrightarrow> keeps w w'"
  by (auto simp: la_Send_def Let_def bind_eq_Some_conv dest: send_all_keeps split: if_splits sum.splits option.splits)

lemma sends_keep [keep_dests]:
  "sendChannelError a c k m w = Some w' \<Longrightarrow> keeps w w'"
  "sendSubscriptionError a c t m n w = Some w' \<Longrightarrow> keeps w w'"
  "sendPresenceSubscriptionSuccess a ch ms w = Some w' \<Longrightarrow> keeps w w'"
  "subscribeToUserChannel a w = Some w' \<Longrightarrow> keeps w w'"
  by (auto simp: sendChannelError_def sendSubscriptionError_def sendPresenceSubscriptionSuccess_def
      subscribeToUserChannel_def dest: ws_Send_keeps)

lemma sendCacheIfNeeded_keeps [keep_dests]: "sendCacheIfNeeded a ch w = Some w' \<Longrightarrow> keeps w w'"
  by (auto simp: sendCacheIfNeeded_def bind_eq_Some_conv dest: ws_Send_keeps split: if_splits option.splits)

lemma handleMemberAddedEvent_keeps [keep_dests]:
  "handleMemberAddedEvent a ch m ms w = Some (ms', w') \<Longrightarrow> keeps w w'"
  by (auto simp: handleMemberAddedEvent_def Let_def bind_eq_Some_conv dest!: la_Send_keeps split: if_splits)

lemma put_presence_keeps [keep_dests]: "put_presence a c m w = Some w' \<Longrightarrow> keeps w w'"
  by (auto simp: put_presence_def intro: keeps_upd)

lemma presence_subscription_keeps [keep_dests]:
  "handlePresenceChannelSubscription a ch resp w = Some (r, w') \<Longrightarrow> keeps w w'"
  by (auto simp: handlePresenceChannelSubscription_def bind_eq_Some_conv dest!: keep_dests intro: keeps_trans split: if_splits)

lemma signalAuthenticated_keeps [simp]: "keeps w (signalAuthenticated a w)"
  by (auto simp: signalAuthenticated_def split: option.split intro: keeps_upd)

lemma adopt_user_keeps: "keeps w (adopt_user a ch resp w)"
proof -
  have "keeps w (signalAuthenticated a (upd_ws a (\<lambda>s. s\<lparr>ws_userID := u\<rparr>) w))" for u
    by (rule keeps_trans [OF keeps_upd signalAuthenticated_keeps]) simp
  then show ?thesis by (simp add: adopt_user_def Let_def split: option.split)
qed

lemma announce_occupied_keeps: "keeps w w' \<Longrightarrow> keeps w (announce_occupied app ch resp w')"
  by (simp add: announce_occupied_def)

lemma confirm_subscription_keeps [keep_dests]:
  "confirm_subscription a ch resp w = Some (r, w') \<Longrightarrow> keeps w w'"
  by (auto simp: confirm_subscription_def bind_eq_Some_conv dest!: keep_dests intro: keeps_trans split: if_splits)

lemma refuse_subscription_keeps:
  "refuse_subscription a ch resp w = Some (r, w') \<Longrightarrow> keeps w w' \<and> (\<exists>e. r = Some e)"
  by (auto simp: refuse_subscription_def Let_def bind_eq_Some_conv dest!: keep_dests intro: keeps_trans split: if_splits)

lemma keeps_subs: "keeps w w' \<Longrightarrow> la_subs p w' = la_subs p w" "keeps w w' \<Longrightarrow> la_users p w' = la_users p w"
  "keeps w w' \<Longrightarrow> subscription (w_heap w' b) c = subscription (w_heap w b) c"
  using ns_of_same_namespaces [of w' w] by (simp_all add: keeps_def la_subs_def la_users_def subscription_def)

lemma track_channel_tracks:
  "track_channel a ch w = Some w' \<Longrightarrow> w_Namespaces w' = w_Namespaces w
     \<and> subscription (w_heap w' a) (ch_Name ch) =
         Some (case subscription (w_heap w a) (ch_Name ch) of None \<Rightarrow> ch | Some c \<Rightarrow> c)"
  by (auto simp: track_channel_def subscription_def split: if_splits option.splits)

lemma finish_subscription_tracks:
  assumes "finish_subscription a app ch resp w = Some (r, w')"
  shows "la_subs p w' = la_subs p w \<and> subscription (w_heap w' a) (ch_Name ch) =
         Some (case subscription (w_heap w a) (ch_Name ch) of None \<Rightarrow> ch | Some c \<Rightarrow> c)"
proof -
  from assms obtain w1 where w1: "track_channel a ch w = Some w1"
    "confirm_subscription a ch resp (announce_occupied app ch resp (adopt_user a ch resp w1)) = Some (r, w')"
    by (auto simp: finish_subscription_def bind_eq_Some_conv)
  have "keeps w1 w'"
    using announce_occupied_keeps [OF adopt_user_keeps] confirm_subscription_keeps [OF w1(2)] keeps_trans by blast
  then have k: "la_subs p w' = la_subs p w1" "subscription (w_heap w' a) (ch_Name ch) = subscription (w_heap w1 a) (ch_Name ch)"
    by (simp_all add: keeps_subs)
  have t: "w_Namespaces w1 = w_Namespaces w" using track_channel_tracks [OF w1(1)] by simp
  have "la_subs p w1 = la_subs p w" using ns_of_same_namespaces [OF t] by (simp add: la_subs_def)
  with k track_channel_tracks [OF w1(1)] show ?thesis by simp
qed

text \<open>What a subscription must satisfy to be let in.\<close>

definition may_join :: "Channel \<Rightarrow> SocketID \<Rightarrow> SubscribePayload \<Rightarrow> World \<Rightarrow> bool" where
  "may_join c wsID message w =
     ((ch_RequiresAuth c \<longrightarrow>
        ValidateChannelAuth (sp_Auth message) (app_Secret (ch_App c)) wsID (ch_Name c) (sp_ChannelData message))
      \<and> (ch_Type c = ChannelTypePresence \<longrightarrow>
          (app_MaxPresenceMembersPerChannel (ch_App c) > 0 \<longrightarrow>
             the (la_GetChannelMembersCount (app_ID (ch_App c)) (ch_Name c) w) < app_MaxPresenceMembersPerChannel (ch_App c))
          \<and> int (length (sp_ChannelData message)) div 1024 \<le> app_MaxPresenceMemberSizeInKb (ch_App c)))"

lemma may_join_admits: "la.admits c i sp w \<longleftrightarrow> may_join c i sp w"
  unfolding la.admits_def may_join_def by (auto simp: local_adapter_def)

lemma confirm_subscription_result:
  assumes "confirm_subscription a ch resp w = Some (r, w')"
  shows "r = None \<longleftrightarrow> \<not> (ch_Type ch = ChannelTypePresence \<and> md_UserID (the (jr_Member resp)) = [])"
  using assms
  by (auto simp: confirm_subscription_def handlePresenceChannelSubscription_def bind_eq_Some_conv split: if_splits)

lemma sum_pair: "(case r of Inl e \<Rightarrow> (f e, v) | Inr k \<Rightarrow> (g k, v)) = (case r of Inl e \<Rightarrow> f e | Inr k \<Rightarrow> g k, v)"
  by (cases r) simp_all

lemma Join_channel_keeps:
  assumes "Join_channel lib (Some local_adapter) ch a i sp w = Some (resp, w')"
  shows "w_heap w' = w_heap w"
proof -
  have add: "la_AddToChannel p c a w = Some (x, w1) \<Longrightarrow> w_heap w1 = w_heap w" for p c x w1
    by (auto simp: la_AddToChannel_def bind_eq_Some_conv split: option.splits)
  show ?thesis
    using assms
    by (auto simp: sum_pair Join_channel_def joinPresenceChannel_def joinNonPresenceChannel_def local_adapter_def Let_def
        bind_eq_Some_conv dest!: add split: if_splits)
qed

text \<open>The branch of \<open>handleSubscribeRequest\<close> that joins the channel.\<close>

lemma subscribe_join:
  assumes "ws_server (w_heap w a)" "\<not> w_Closing w" "decode_subscribe msg = Some sp" "ws_app (w_heap w a) = Some app"
    and "ValidChannel (sp_Channel sp) (app_MaxChannelNameLength app)"
    and "\<not> (ws_userID (w_heap w a) \<noteq> [] \<and> sp_Channel sp = SocketRushServerToUserPrefix @ ws_userID (w_heap w a))"
  shows "handleSubscribeRequest a msg w =
    do { (resp, w) \<leftarrow> Join_channel (w_lib w) (Some local_adapter) (CreateChannelFromString app (sp_Channel sp)) a
                         (ws_ID (w_heap w a)) sp w;
         if \<not> jr_Success resp then refuse_subscription a (CreateChannelFromString app (sp_Channel sp)) resp w
         else finish_subscription a app (CreateChannelFromString app (sp_Channel sp)) resp w }"
  using assms ValidateChannelName_None [of "sp_Channel sp" "app_MaxChannelNameLength app"]
  by (auto simp: handleSubscribeRequest_def server_of_def app_of_def Let_def)

lemma subscribe_spec:
  assumes ok: "world_ok w" and r: "registered w p i = Some a"
    and j: "\<not> w_Closing w" "decode_subscribe msg = Some sp" "ws_app (w_heap w a) = Some app"
      "ValidChannel (sp_Channel sp) (app_MaxChannelNameLength app)"
      "\<not> (ws_userID (w_heap w a) \<noteq> [] \<and> sp_Channel sp = SocketRushServerToUserPrefix @ ws_userID (w_heap w a))"
    and h: "handleSubscribeRequest a msg w = Some (res, w')"
  shows "if may_join (CreateChannelFromString app (sp_Channel sp)) i sp w
    then la_subs p w' = insert (sp_Channel sp, i) (la_subs p w)
      \<and> subscription (w_heap w' a) (sp_Channel sp) = Some (case subscription (w_heap w a) (sp_Channel sp) of
            None \<Rightarrow> CreateChannelFromString app (sp_Channel sp) | Some c \<Rightarrow> c)
      \<and> (res = None \<longleftrightarrow> \<not> (IsPresenceChannel (sp_Channel sp) \<and> md_UserID (the (unmarshal_member (w_lib w) (sp_ChannelData sp))) = []))
    else (\<exists>e. res = Some e) \<and> keeps w w'"
proof -
  let ?ch = "CreateChannelFromString app (sp_Channel sp)"
  from world_okD(2) [OF ok r] j(3) have id: "a \<noteq> 0" "ws_server (w_heap w a)" "ws_ID (w_heap w a) = i" "app_ID app = p"
    by (auto simp: reg_ok_def attached_def)
  have wf: "la_wf w" and ns: "ns_of w p \<noteq> None" using ok r by (auto simp: world_ok_def registered_def split: option.splits)
  note e = subscribe_join [OF id(2) j]
  show ?thesis
  proof (cases "may_join ?ch i sp w")
    case True
    from la.join_admitted [OF wf, of ?ch a i sp "w_lib w"] ns id(1,4) True
    obtain resp w1 where w1: "Join_channel (w_lib w) (Some local_adapter) ?ch a i sp w = Some (resp, w1)" "jr_Success resp"
      "la_subs p w1 = insert (sp_Channel sp, la_ident w a) (la_subs p w)"
      "ch_Type ?ch = ChannelTypePresence \<longrightarrow> jr_Member resp = unmarshal_member (w_lib w) (sp_ChannelData sp)"
      by (auto simp: may_join_admits)
    have okay: "okay a w" using ok id j(3) by (simp add: okay_def attached_def)
    have sub: "subscription (w_heap w1 a) c = subscription (w_heap w a) c" for c
      using Join_channel_keeps [OF w1(1)] by (simp add: subscription_def)
    from e h w1(1,2) id(3) have f: "finish_subscription a app ?ch resp w1 = Some (res, w')" by simp
    then obtain w2 w3 where "confirm_subscription a ?ch resp w2 = Some (res, w3)"
      by (auto simp: finish_subscription_def bind_eq_Some_conv)
    from confirm_subscription_result [OF this] w1(4)
    have "res = None \<longleftrightarrow> \<not> (IsPresenceChannel (sp_Channel sp) \<and> md_UserID (the (unmarshal_member (w_lib w) (sp_ChannelData sp))) = [])"
      by (auto simp: CreateChannel_Type)
    with finish_subscription_tracks [OF f] w1(3) sub id(3) True show ?thesis by (simp add: la_ident_def)
  next
    case False
    from la.join_refused [OF wf, of ?ch i sp "w_lib w" a] False obtain resp where
      "Join_channel (w_lib w) (Some local_adapter) ?ch a i sp w = Some (resp, w)" "\<not> jr_Success resp"
      by (auto simp: may_join_admits)
    with e h id(3) have "refuse_subscription a ?ch resp w = Some (res, w')" by simp
    from refuse_subscription_keeps [OF this] False show ?thesis by simp
  qed
qed

subsection \<open>Unsubscribing\<close>

lemma announce_member_removed_keeps [keep_dests]:
  "announce_member_removed a app ch m ms w = Some w' \<Longrightarrow> keeps w w'"
  by (auto simp: announce_member_removed_def Let_def bind_eq_Some_conv dest!: la_Send_keeps split: if_splits)

lemma finish_unsubscribe_effect:
  "la_subs p (finish_unsubscribe a app ch resp w) = la_subs p w"
  "subscription (w_heap (finish_unsubscribe a app ch resp w) a) (ch_Name ch) = None"
proof -
  have n: "w_Namespaces (finish_unsubscribe a app ch resp w) = w_Namespaces w"
    by (simp add: finish_unsubscribe_def untrack_channel_def announce_vacated_def on_queue_def)
  show "la_subs p (finish_unsubscribe a app ch resp w) = la_subs p w"
    using ns_of_same_namespaces [OF n] by (simp add: la_subs_def)
  show "subscription (w_heap (finish_unsubscribe a app ch resp w) a) (ch_Name ch) = None"
    by (simp add: finish_unsubscribe_def untrack_channel_def subscription_def split: option.split)
qed

lemma after_leave_effect:
  assumes "after_leave a ch resp w = Some w'" "lr_Success resp"
  shows "la_subs p w' = la_subs p w
    \<and> (ch_Type ch \<noteq> ChannelTypePresence \<or> lr_Member resp \<noteq> None \<longrightarrow> subscription (w_heap w' a) (ch_Name ch) = None)"
proof -
  have f: "la_subs p (forget_presence a c v) = la_subs p v" for c v
    using keeps_subs(1) [of v "forget_presence a c v"] by (simp add: forget_presence_def keeps_upd)
  have m: "la_subs p v' = la_subs p v" if "announce_member_removed a app ch mem ms v = Some v'" for v v' app mem ms
    using keeps_subs(1) announce_member_removed_keeps [OF that] by blast
  show ?thesis
  proof (cases "ch_Type ch = ChannelTypePresence")
    case True
    with assms show ?thesis
      by (cases "lr_Member resp")
        (auto simp: after_leave_def after_presence_leave_def bind_eq_Some_conv finish_unsubscribe_effect f dest!: m)
  next
    case False
    with assms show ?thesis
      by (auto simp: after_leave_def bind_eq_Some_conv finish_unsubscribe_effect)
  qed
qed

lemma unsubscribe_effect:
  assumes wf: "la_wf w" and h: "unsubscribeFromChannel a ch w = Some w'"
  shows "la_subs (app_ID (ch_App ch)) w' = la_subs (app_ID (ch_App ch)) w - {(ch_Name ch, ws_ID (w_heap w a))}
    \<and> (ch_Type ch \<noteq> ChannelTypePresence \<longrightarrow> subscription (w_heap w' a) (ch_Name ch) = None)"
proof -
  from la.leave [OF wf, of ch "w_heap w a"] obtain resp w1
    where w1: "Leave_channel local_adapter ch (w_heap w a) w = Some (resp, w1)" "lr_Success resp"
      "la_subs (app_ID (ch_App ch)) w1 = la_subs (app_ID (ch_App ch)) w - {(ch_Name ch, ws_ID (w_heap w a))}" by blast
  with h have "after_leave a ch resp w1 = Some w'" by (auto simp: unsubscribeFromChannel_def bind_eq_Some_conv)
  from after_leave_effect [OF this w1(2)] w1(3) show ?thesis by simp
qed

subsection \<open>Properties\<close>

text \<open>C11
  A subscription request on a registered socket, for a channel with a valid name, is let in exactly
  when the token of a private or presence channel is right and a presence channel has room and the
  member data is small enough. Letting it in adds this one subscription; refusing it reports an
  error and changes no subscription of anybody. A member without a user id gets the error
  \<open>ErrCodeInvalidPayload\<close>, although it has been subscribed.
\<close>
theorem subscription_decides:
  assumes "world_ok w" "session_ok w a" "registered w p i = Some a" "\<not> w_Closing w"
    and "decode_subscribe msg = Some sp" "member_given (w_lib w) msg" "ws_app (w_heap w a) = Some app"
    and "ValidChannel (sp_Channel sp) (app_MaxChannelNameLength app)"
    and "ws_userID (w_heap w a) = [] \<or> sp_Channel sp \<noteq> SocketRushServerToUserPrefix @ ws_userID (w_heap w a)"
  shows "\<exists>res w'. handleSubscribeRequest a msg w = Some (res, w')
    \<and> (if may_join (CreateChannelFromString app (sp_Channel sp)) i sp w
       then la_subs p w' = insert (sp_Channel sp, i) (la_subs p w)
         \<and> subscription (w_heap w' a) (sp_Channel sp) \<noteq> None
         \<and> (res = None \<longleftrightarrow> \<not> (IsPresenceChannel (sp_Channel sp)
               \<and> md_UserID (the (unmarshal_member (w_lib w) (sp_ChannelData sp))) = []))
       else (\<exists>e. res = Some e) \<and> la_subs p w' = la_subs p w)"
proof -
  have "okay a w" using assms(1,2) by (simp add: okay_def session_ok_def)
  from handleSubscribeRequest_runs [OF this assms(2,6)] obtain res w'
    where e: "handleSubscribeRequest a msg w = Some (res, w')" by (auto simp: runs_iff)
  from subscribe_spec [OF assms(1,3,4,5,7,8) _ e] assms(9) e show ?thesis
    by (auto simp: keeps_subs split: if_splits)
qed

text \<open>A frame that subscribes the socket at address 1 to the public channel \<open>d\<close>.\<close>

definition demo_payload :: SubscribePayload where
  "demo_payload = \<lparr>sp_Event = ''pusher:subscribe'', sp_Channel = ''d'', sp_Auth = [], sp_ChannelData = []\<rparr>"

abbreviation demo_subscribe :: string where
  "demo_subscribe \<equiv> subscribe_request demo_payload"

lemma demo_payload_simps [simp]:
  "sp_Event demo_payload = ''pusher:subscribe''" "sp_Channel demo_payload = ''d''" "sp_ChannelData demo_payload = []"
  by (simp_all add: demo_payload_def)

lemma demo_channel:
  "ValidChannel ''d'' 100" "\<not> IsPresenceChannel ''d''" "\<not> IsPrivateChannel ''d''"
  by code_simp+

lemma demo_may_join: "may_join (CreateChannelFromString app ''d'') i sp w"
  using demo_channel by (simp add: may_join_def CreateChannel_Type)

theorem subscription_decides_witness:
  "\<exists>w'. handleSubscribeRequest 1 demo_subscribe demo_world = Some (None, w')
    \<and> la_subs ''1'' w' = insert (''d'', ''1.1'') (la_subs ''1'' demo_world)"
proof -
  have "member_given (w_lib demo_world) demo_subscribe"
    using demo_channel by (simp add: member_given_def)
  then show ?thesis
    using subscription_decides [of demo_world 1 "''1''" "''1.1''" demo_subscribe demo_payload demo_app]
      demo_channel demo_may_join by (auto simp: demo_registered)
qed

text \<open>
  Unsubscribing undoes subscribing: a socket that subscribes to a channel it was not in and then
  unsubscribes from it leaves the subscriptions of the app as they were, and, on a channel other
  than a presence channel, does not track the channel any more.
\<close>
theorem subscribe_unsubscribe:
  assumes "world_ok w" "session_ok w a" "registered w p i = Some a" "\<not> w_Closing w"
    and "decode_subscribe msg = Some sp" "member_given (w_lib w) msg" "ws_app (w_heap w a) = Some app"
    and "ValidChannel (sp_Channel sp) (app_MaxChannelNameLength app)"
    and "ws_userID (w_heap w a) = [] \<or> sp_Channel sp \<noteq> SocketRushServerToUserPrefix @ ws_userID (w_heap w a)"
    and "may_join (CreateChannelFromString app (sp_Channel sp)) i sp w"
    and "subscription (w_heap w a) (sp_Channel sp) = None" "(sp_Channel sp, i) \<notin> la_subs p w"
    and "decode_unsubscribe msg' = Some (sp_Channel sp)"
  shows "\<exists>res w1 w2. handleSubscribeRequest a msg w = Some (res, w1)
    \<and> handleUnsubscribeRequest a msg' w1 = Some (None, w2)
    \<and> la_subs p w2 = la_subs p w
    \<and> (\<not> IsPresenceChannel (sp_Channel sp) \<longrightarrow> subscription (w_heap w2 a) (sp_Channel sp) = None)"
proof -
  let ?ch = "CreateChannelFromString app (sp_Channel sp)"
  have id: "app_ID app = p" "ws_ID (w_heap w a) = i" using world_okD(2) [OF assms(1,3)] assms(7) by (simp_all add: reg_ok_def)
  have ok: "okay a w" using assms(1,2) by (simp add: okay_def session_ok_def)
  from handleSubscribeRequest_runs [OF ok assms(2,6)] obtain res w1
    where e: "handleSubscribeRequest a msg w = Some (res, w1)" and st: "step a w w1" by (auto simp: runs_iff)
  from subscribe_spec [OF assms(1,3,4,5,7,8) _ e] assms(9,10,11)
  have w1: "la_subs p w1 = insert (sp_Channel sp, i) (la_subs p w)" "subscription (w_heap w1 a) (sp_Channel sp) = Some ?ch"
    by auto
  have ok1: "okay a w1" and i1: "ws_ID (w_heap w1 a) = i" using step_okay(1) [OF st] st id by (simp_all add: step_def same_id_def)
  from unsubscribe_runs [OF ok1, of ?ch] obtain w2 where w2: "unsubscribeFromChannel a ?ch w1 = Some w2" by (auto simp: runs_iff)
  have "la_wf w1" using ok1 by (simp add: okay_def world_ok_def)
  from unsubscribe_effect [OF this w2] i1 id w1(1) assms(12) have
    "la_subs p w2 = la_subs p w" "\<not> IsPresenceChannel (sp_Channel sp) \<longrightarrow> subscription (w_heap w2 a) (sp_Channel sp) = None"
    by (auto simp: CreateChannel_Type)
  with e w1(2) w2 assms(13) show ?thesis by (simp add: handleUnsubscribeRequest_def)
qed

abbreviation demo_unsubscribe :: string where
  "demo_unsubscribe \<equiv> request ''pusher:unsubscribe'' [(''channel'', JStr ''d'')]"

theorem subscribe_unsubscribe_witness:
  "\<exists>res w1 w2. handleSubscribeRequest 1 demo_subscribe demo_world = Some (res, w1)
    \<and> handleUnsubscribeRequest 1 demo_unsubscribe w1 = Some (None, w2)
    \<and> la_subs ''1'' w2 = la_subs ''1'' demo_world"
proof -
  have "member_given (w_lib demo_world) demo_subscribe"
    using demo_channel by (simp add: member_given_def)
  moreover have "(''d'', ''1.1'') \<notin> la_subs ''1'' demo_world"
    by (simp add: la_subs_def abs_ns_def rel_of_def demo_ns_def)
  moreover have "subscription (w_heap demo_world 1) ''d'' = None" by (simp add: subscription_def)
  ultimately show ?thesis
    using subscribe_unsubscribe [of demo_world 1 "''1''" "''1.1''" demo_subscribe demo_payload demo_app demo_unsubscribe] demo_channel demo_may_join
    by (simp add: demo_registered) blast
qed

end
