(* ===== verification/Broker_Steps.thy ===== *)
theory Broker_Steps
  imports Broker Handlers
begin

text \<open>
  The handlers of \<open>internal/websocket.go\<close> as steps of the broker: sending, signing in and client
  events are invisible to it, a subscription request subscribes or does nothing, an unsubscription request
  unsubscribes, closing a connection unsubscribes and disconnects. All of them keep \<open>coherent\<close>.
\<close>

subsection \<open>Handlers the broker does not see\<close>

named_theorems view_dests \<open>operations the broker does not see\<close>

lemma ws_Send_view [view_dests]: "ws_Send a m w = Some w' \<Longrightarrow> same_view w w'"
  using frame_view ws_Send_frame by blast

lemma send_all_view [view_dests]: "send_all m as w = Some w' \<Longrightarrow> same_view w w'"
  by (induction as arbitrary: w) (auto simp: bind_eq_Some_conv intro: same_view_trans dest: ws_Send_view)

lemma la_Send_view [view_dests]: "la_Send p c m e w = Some (x, w') \<Longrightarrow> same_view w w'"
  by (auto simp: la_Send_def Let_def bind_eq_Some_conv dest: send_all_view split: if_splits sum.splits option.splits)

lemma sends_view [view_dests]:
  "sendChannelError a c k m w = Some w' \<Longrightarrow> same_view w w'"
  "sendSubscriptionError a c t m n w = Some w' \<Longrightarrow> same_view w w'"
  "sendPresenceSubscriptionSuccess a ch ms w = Some w' \<Longrightarrow> same_view w w'"
  "subscribeToUserChannel a w = Some w' \<Longrightarrow> same_view w w'"
  by (auto simp: sendChannelError_def sendSubscriptionError_def sendPresenceSubscriptionSuccess_def
      subscribeToUserChannel_def dest: ws_Send_view)

lemma sendCacheIfNeeded_view [view_dests]: "sendCacheIfNeeded a ch w = Some w' \<Longrightarrow> same_view w w'"
  by (auto simp: sendCacheIfNeeded_def bind_eq_Some_conv dest!: ws_Send_view intro: view_after split: if_splits option.splits)

lemma handleMemberAddedEvent_view [view_dests]:
  "handleMemberAddedEvent a ch m ms w = Some (ms', w') \<Longrightarrow> same_view w w'"
  by (auto simp: handleMemberAddedEvent_def Let_def bind_eq_Some_conv dest!: la_Send_view
      intro: same_view_trans [OF plain_view(1)] split: if_splits)

lemma announce_member_removed_view [view_dests]:
  "announce_member_removed a app ch m ms w = Some w' \<Longrightarrow> same_view w w'"
  by (auto simp: announce_member_removed_def Let_def bind_eq_Some_conv dest!: la_Send_view
      intro: same_view_trans [OF plain_view(1)] split: if_splits)

lemma signalAuthenticated_view [simp]: "same_view w (signalAuthenticated a w)"
  by (auto simp: signalAuthenticated_def split: option.split intro: upd_view)

lemma adopt_user_view [simp]: "same_view w (adopt_user a ch resp w)"
proof -
  have "same_view w (signalAuthenticated a (upd_ws a (\<lambda>s. s\<lparr>ws_userID := u\<rparr>) w))" for u
    by (rule same_view_trans [OF upd_view signalAuthenticated_view]) simp_all
  then show ?thesis by (simp add: adopt_user_def Let_def split: option.split)
qed

lemma announce_view [simp]:
  "same_view w (announce_occupied app ch resp w)" "same_view w (announce_vacated app ch resp' w)"
  by (simp_all add: announce_occupied_def announce_vacated_def)

lemma refuse_subscription_view [view_dests]: "refuse_subscription a ch resp w = Some (r, w') \<Longrightarrow> same_view w w'"
  by (auto simp: refuse_subscription_def Let_def bind_eq_Some_conv dest!: view_dests intro: same_view_trans split: if_splits)

lemma validateClientEvent_view [view_dests]: "validateClientEvent a c e m w = Some (r, w') \<Longrightarrow> same_view w w'"
  by (auto simp: validateClientEvent_def bind_eq_Some_conv dest!: view_dests split: if_splits)

lemma relayClientEvent_view [view_dests]: "relayClientEvent a ch ev w = Some (r, w') \<Longrightarrow> same_view w w'"
  by (auto simp: relayClientEvent_def Let_def bind_eq_Some_conv dest!: view_dests intro: view_after split: if_splits option.splits)

lemma handleClientEvent_view [view_dests]: "handleClientEvent a msg w = Some (r, w') \<Longrightarrow> same_view w w'"
  by (auto simp: handleClientEvent_def Let_def bind_eq_Some_conv dest!: view_dests intro: same_view_trans
      split: if_splits option.splits)

lemma frame_views [view_dests]:
  "resetReadTimeout a w = Some w' \<Longrightarrow> same_view w w'"
  "count_frame a w = Some w' \<Longrightarrow> same_view w w'"
  "mark_received a w = Some w' \<Longrightarrow> same_view w w'"
  "report_error a e w = Some w' \<Longrightarrow> same_view w w'"
  "watcher_signal a w = Some w' \<Longrightarrow> same_view w w'"
  by (auto simp: resetReadTimeout_def count_frame_def mark_received_def report_error_def watcher_signal_def
      bind_eq_Some_conv dest!: ws_Send_view intro: upd_view split: option.splits if_splits list.splits)

text \<open>A change of a namespace that leaves its sockets and channels alone.\<close>

lemma user_op_view:
  assumes "la_wf w" "ns_of w p = Some n" "ns_exec x n = Some n'" "ns_valid x" "\<And>s. a_socks (ns_spec x s) = a_socks s"
    and "\<And>s. a_subs (ns_spec x s) = a_subs s"
  shows "same_view w (set_ns p n' w)"
proof -
  note u = user_op_spec [OF assms(1-5)]
  have "la_subs q (set_ns p n' w) = la_subs q w" for q
  proof (cases "q = p")
    case True
    with u(3,4) assms(2,6) show ?thesis by (simp add: la_subs_def)
  next
    case False
    with ns_of_set_ns [OF ns_of_Some_init [OF assms(2)]] show ?thesis by (simp add: la_subs_def)
  qed
  with u(2) show ?thesis by (simp add: same_view_def set_ns_def)
qed

lemma la_AddUser_view:
  assumes "okay a w" "la_AddUser p a w = Some (r, w')"
  shows "same_view w w'"
proof (cases "ns_of w p")
  case None
  with assms(2) show ?thesis by (simp add: la_AddUser_def)
next
  case (Some n)
  have wf: "la_wf w" "a \<noteq> 0" using assms(1) by (simp_all add: okay_def world_ok_def attached_def)
  then obtain n' where e: "n_AddUser (w_heap w) a n = Some n'"
    using ns_step [OF la_wf_ns [OF wf(1) Some], of "OpAddUser (w_heap w) a"] by auto
  have "same_view w (set_ns p n' w)"
    by (rule user_op_view [OF wf(1) Some, of "OpAddUser (w_heap w) a"]) (use e wf in simp_all)
  with Some e assms(2) show ?thesis by (simp add: la_AddUser_def)
qed

lemma accept_signin_view:
  assumes ok: "okay a w" and e: "accept_signin a app u d w = Some (r, w')"
  shows "same_view w w'"
proof -
  let ?w = "upd_ws a (\<lambda>s. s\<lparr>ws_userID := u\<rparr>) w"
  have v: "same_view w ?w" by (rule upd_view) simp_all
  have "step a w ?w" by (rule upd_step [OF ok]) (simp_all add: same_id_def session_ok_def attached_def)
  note ok1 = step_okay(1) [OF this]
  from e obtain err w1 where w1: "la_AddUser (app_ID app) a ?w = Some (err, w1)"
    "w' = w1 \<or> (\<exists>m w2. ws_Send a m w1 = Some w2 \<and> w' = signalAuthenticated a w2)"
    by (auto simp: accept_signin_def Let_def bind_eq_Some_conv split: option.splits)
  have "same_view w w1" by (rule same_view_trans [OF v la_AddUser_view [OF ok1 w1(1)]])
  with w1(2) ws_Send_view same_view_trans signalAuthenticated_view show ?thesis by metis
qed

subsection \<open>Subscribing\<close>

text \<open>Joining a channel adds one subscription at most; the sockets themselves stay as they are.\<close>

lemma la_AddToChannel_other:
  "la_AddToChannel p c a w = Some (x, w') \<Longrightarrow> (\<forall>q. q \<noteq> p \<longrightarrow> la_subs q w' = la_subs q w) \<and> same_setup w w'"
  using ns_of_Some_init [of w p] ns_of_set_ns [of w p]
  by (auto simp: la_AddToChannel_def bind_eq_Some_conv la_subs_def set_ns_def split: option.splits)

lemma Join_channel_other:
  assumes "Join_channel lib (Some local_adapter) ch a i sp w = Some (resp, w')"
  shows "(\<forall>q. q \<noteq> app_ID (ch_App ch) \<longrightarrow> la_subs q w' = la_subs q w) \<and> same_setup w w'"
  using assms
  by (auto simp: sum_pair Join_channel_def joinPresenceChannel_def joinNonPresenceChannel_def local_adapter_def Let_def
      bind_eq_Some_conv simp del: all_simps dest!: la_AddToChannel_other split: if_splits)

text \<open>
  What a subscription that is let in leaves behind: the socket tracks the channel, and a member that has a user
  id is remembered.
\<close>

lemma presence_subscription_data:
  assumes "handlePresenceChannelSubscription a ch resp w = Some (r, w')" "ch_Type ch = ChannelTypePresence"
  obtains "same_view w w'"
  | d w1 where "put_presence a (ch_Name ch) (Some d) w = Some w1" "same_view w1 w'"
proof -
  from assms consider "w' = w" | d w1 ms ms' w2 w3 where
    "put_presence a (ch_Name ch) (Some d) w = Some w1" "handleMemberAddedEvent a ch d ms w1 = Some (ms', w2)"
    "sendPresenceSubscriptionSuccess a ch ms' w2 = Some w3" "sendCacheIfNeeded a ch w3 = Some w'"
    by (auto simp: handlePresenceChannelSubscription_def bind_eq_Some_conv split: if_splits)
  then show thesis
  proof cases
    case 2
    from 2(2-4) have "same_view w1 w'"
      by (auto dest!: view_dests intro: same_view_trans)
    with that(2) 2(1) show thesis by blast
  qed (use that(1) in simp)
qed

lemma confirm_subscription_data:
  assumes "confirm_subscription a ch resp w = Some (r, w')"
  obtains "same_view w w'"
  | d w1 where "ch_Type ch = ChannelTypePresence" "put_presence a (ch_Name ch) (Some d) w = Some w1" "same_view w1 w'"
proof (cases "ch_Type ch = ChannelTypePresence")
  case True
  with assms have "handlePresenceChannelSubscription a ch resp w = Some (r, w')" by (simp add: confirm_subscription_def)
  from presence_subscription_data [OF this True] that True show thesis by metis
next
  case False
  with assms have "same_view w w'"
    by (auto simp: confirm_subscription_def bind_eq_Some_conv dest!: view_dests intro: same_view_trans)
  with that(1) show thesis .
qed

definition entered :: "addr \<Rightarrow> Channel \<Rightarrow> World \<Rightarrow> World \<Rightarrow> bool" where
  "entered a ch w w' =
     ((\<forall>c. subscription (w_heap w' a) c = (if c = ch_Name ch then
           Some (case subscription (w_heap w a) c of None \<Rightarrow> ch | Some x \<Rightarrow> x) else subscription (w_heap w a) c))
      \<and> (\<forall>c. c \<noteq> ch_Name ch \<or> ch_Type ch \<noteq> ChannelTypePresence \<longrightarrow>
            getPresenceDataForChannel (w_heap w' a) c = getPresenceDataForChannel (w_heap w a) c)
      \<and> ws_app (w_heap w' a) = ws_app (w_heap w a) \<and> registered w' = registered w \<and> (\<forall>p. la_subs p w' = la_subs p w)
      \<and> same_setup w w' \<and> (map_ok (w_heap w a) \<longrightarrow> map_ok (w_heap w' a)))"

lemma finish_subscription_entered:
  assumes e: "finish_subscription a app ch resp w = Some (r, w')" and r: "\<not> free w a"
  shows "entered a ch w w'"
proof -
  from e obtain w1 where w1: "track_channel a ch w = Some w1"
    "confirm_subscription a ch resp (announce_occupied app ch resp (adopt_user a ch resp w1)) = Some (r, w')"
    by (auto simp: finish_subscription_def bind_eq_Some_conv)
  let ?w2 = "announce_occupied app ch resp (adopt_user a ch resp w1)"
  have t: "(\<forall>c. subscription (w_heap w1 a) c = (if c = ch_Name ch then
           Some (case subscription (w_heap w a) c of None \<Rightarrow> ch | Some x \<Rightarrow> x) else subscription (w_heap w a) c))
      \<and> ws_PresenceData (w_heap w1 a) = ws_PresenceData (w_heap w a) \<and> ws_app (w_heap w1 a) = ws_app (w_heap w a)
      \<and> w_Namespaces w1 = w_Namespaces w \<and> same_setup w w1"
    using w1(1) by (auto simp: track_channel_def subscription_def split: if_splits option.splits)
  have mk: "map_ok (w_heap w a) \<longrightarrow> map_ok (w_heap w1 a)"
    using w1(1) by (auto simp: track_channel_def map_ok_def split: if_splits)
  have r1: "registered w1 = registered w" "\<And>p. la_subs p w1 = la_subs p w"
    using t same_namespaces [of w1 w] by (simp_all add: la_subs_def)
  have v2: "same_view w1 ?w2" by (rule same_view_trans [OF adopt_user_view announce_view(1)])
  have fr: "\<not> free w1 a" "\<not> free ?w2 a" using r r1 v2 by (auto simp: free_def same_view_def)
  from w1(2) show ?thesis
  proof (cases rule: confirm_subscription_data)
    case 1
    from same_view_trans [OF v2 1] fr have
      "ws_SubscribedChannels (w_heap w' a) = ws_SubscribedChannels (w_heap w1 a)" by (simp add: same_view_def)
    then have "map_ok (w_heap w' a) = map_ok (w_heap w1 a)" by (simp add: map_ok_def)
    with same_view_trans [OF v2 1] fr t r1 mk show ?thesis
      by (auto simp: entered_def same_view_def subscription_def getPresenceDataForChannel_def)
  next
    case (2 d w3)
    have p: "ws_SubscribedChannels (w_heap w3 a) = ws_SubscribedChannels (w_heap ?w2 a)" "ws_app (w_heap w3 a) = ws_app (w_heap ?w2 a)"
      "w_Namespaces w3 = w_Namespaces ?w2" "same_setup ?w2 w3"
      "\<And>c. c \<noteq> ch_Name ch \<Longrightarrow> getPresenceDataForChannel (w_heap w3 a) c = getPresenceDataForChannel (w_heap ?w2 a) c"
      using 2(2) by (auto simp: put_presence_def getPresenceDataForChannel_def split: option.splits)
    have r3: "registered w3 = registered ?w2" "\<And>p. la_subs p w3 = la_subs p ?w2"
      using p(3) same_namespaces [of w3 ?w2] by (simp_all add: la_subs_def)
    have fr3: "\<not> free w3 a" using fr(2) r3 by (simp add: free_def)
    then have "ws_SubscribedChannels (w_heap w' a) = ws_SubscribedChannels (w_heap w1 a)"
      using 2(3) v2 fr p(1) by (simp add: same_view_def)
    then have "map_ok (w_heap w' a) = map_ok (w_heap w1 a)" by (simp add: map_ok_def)
    with fr3 2(1,3) v2 fr t r1 p r3 mk show ?thesis
      by (auto simp: entered_def same_view_def subscription_def getPresenceDataForChannel_def)
  qed
qed

text \<open>What is left to show for one socket when the subscriptions of the others have not changed.\<close>

lemma coherent_own:
  assumes coh: "coherent w" and r: "registered w p i = Some a" and ok: "world_ok w'"
    and reg: "registered w' = registered w" and apps: "same_setup w w'" and oth: "others a w w'"
    and subs: "\<And>q c j. (q, j) \<noteq> (p, i) \<Longrightarrow> (c, j) \<in> la_subs q w' \<longleftrightarrow> (c, j) \<in> la_subs q w"
    and own: "ws_app (w_heap w' a) = ws_app (w_heap w a)" "map_ok (w_heap w a) \<Longrightarrow> map_ok (w_heap w' a)"
      "\<And>app c. ws_app (w_heap w a) = Some app \<Longrightarrow> tracks w p i a app c \<Longrightarrow> tracks w' p i a app c"
  shows "coherent w'"
  unfolding coherent_def
proof (intro conjI allI impI)
  show "registered w' q j \<noteq> None" if "(c, j) \<in> la_subs q w'" for q c j
    using that subs [of q j c] coh r reg by (cases "(q, j) = (p, i)") (auto simp: coherent_def)
  fix q j b assume "registered w' q j = Some b"
  then have rb: "registered w q j = Some b" by (simp add: reg)
  obtain app where app: "ws_app (w_heap w b) = Some app" by (rule coherent_registered [OF coh rb])
  note k = coherent_app [OF coh rb app]
  have wok: "world_ok w" using coh by (simp add: coherent_def)
  show "\<exists>app. ws_app (w_heap w' b) = Some app \<and> app \<in> snd ` set (w_apps w') \<and> map_ok (w_heap w' b)
      \<and> (\<forall>c. tracks w' q j b app c)"
  proof (cases "b = a")
    case True
    with registered_unique [OF wok rb, of p i] r have "q = p" "j = i" by simp_all
    with True own app k(2,3,6) apps show ?thesis by auto
  next
    case False
    have "(q, j) \<noteq> (p, i)" using False r rb by auto
    from subs [OF this] have m: "(c, j) \<in> la_subs q w' \<longleftrightarrow> (c, j) \<in> la_subs q w" for c .
    have f: "same_but_wire (w_heap w' b) (w_heap w b)" using oth False by (simp add: others_def)
    then have "subscription (w_heap w' b) c = subscription (w_heap w b) c"
      "getPresenceDataForChannel (w_heap w' b) c = getPresenceDataForChannel (w_heap w b) c" for c
      by (simp_all add: same_but_wire_def subscription_def getPresenceDataForChannel_def)
    then have "tracks w' q j b app c = tracks w q j b app c" for c
      by (intro tracks_cong) (simp_all add: m)
    with k(2,3,6) apps app f show ?thesis by (auto simp: same_but_wire_def map_ok_def)
  qed
qed (rule ok)

lemma step_others: "step a w w' \<Longrightarrow> others a w w'"
  by (simp add: step_def others_def)

lemma step_follows: "coherent w \<Longrightarrow> step a w w' \<Longrightarrow> same_view w w' \<Longrightarrow> follows [] w w'"
  using follows_view by (simp add: step_def)

lemma joined_follows:
  assumes coh: "coherent w" and r: "registered w p i = Some a" and app: "ws_app (w_heap w a) = Some app"
    and st: "step a w w'" and j: "Join_channel (w_lib w) (Some local_adapter) (CreateChannelFromString app c) a i sp w = Some (resp, w1)"
    and subs: "la_subs p w1 = insert (c, i) (la_subs p w)"
    and f: "finish_subscription a app (CreateChannelFromString app c) resp w1 = Some (res, w')"
  shows "follows [Subscribes p c i] w w'"
proof -
  let ?ch = "CreateChannelFromString app c"
  note k = coherent_app [OF coh r app]
  have h1: "w_heap w1 = w_heap w" by (rule Join_channel_keeps [OF j])
  from Join_channel_other [OF j] k(1) have o1: "\<And>q. q \<noteq> p \<Longrightarrow> la_subs q w1 = la_subs q w" "same_setup w w1" by auto
  have "quiet a w w1" using Join_channel_runs [OF k(5), of "w_lib w" ?ch i sp] j by (simp add: runs_iff)
  then have "\<not> free w1 a" using r by (auto simp: free_def quiet_def step_def)
  from finish_subscription_entered [OF f this] have e: "entered a ?ch w1 w'" .
  have s': "la_subs q w' = (if q = p then insert (c, i) (la_subs q w) else la_subs q w)" for q
    using e subs o1 by (simp add: entered_def)
  have reg: "registered w' = registered w" using st by (simp add: step_def)
  have apps: "same_setup w w'" using e o1 by (simp add: entered_def)
  have "coherent w'"
  proof (rule coherent_own [OF coh r _ reg apps step_others [OF st]])
    show "world_ok w'" using st by (simp add: step_def)
    show "ws_app (w_heap w' a) = ws_app (w_heap w a)" "map_ok (w_heap w a) \<Longrightarrow> map_ok (w_heap w' a)"
      using e h1 by (simp_all add: entered_def)
    show "(d, j) \<in> la_subs q w' \<longleftrightarrow> (d, j) \<in> la_subs q w" if "(q, j) \<noteq> (p, i)" for q d j
      using that s' by auto
    fix app' d assume a': "ws_app (w_heap w a) = Some app'" and t: "tracks w p i a app' d"
    show "tracks w' p i a app' d"
    proof (cases "d = c")
      case True
      have ty: "ch_Type ?ch = ChannelTypePresence \<longleftrightarrow> IsPresenceChannel c" by (simp add: CreateChannel_Type)
      from e h1 have "subscription (w_heap w' a) c = Some (case subscription (w_heap w a) c of None \<Rightarrow> ?ch | Some x \<Rightarrow> x)"
        by (simp add: entered_def)
      moreover from e h1 have "\<not> IsPresenceChannel c \<longrightarrow> getPresenceDataForChannel (w_heap w' a) c = getPresenceDataForChannel (w_heap w a) c"
        by (simp add: entered_def ty)
      ultimately show ?thesis using t True a' app s' by (auto simp: tracks_def split: option.splits)
    next
      case False
      then have "subscription (w_heap w' a) d = subscription (w_heap w a) d"
        "getPresenceDataForChannel (w_heap w' a) d = getPresenceDataForChannel (w_heap w a) d"
        using e h1 by (simp_all add: entered_def)
      moreover have "(d, i) \<in> la_subs p w' \<longleftrightarrow> (d, i) \<in> la_subs p w" using s' [of p] False by simp
      ultimately show ?thesis using t tracks_cong by blast
    qed
  qed
  moreover have "broker w' = (broker w)\<lparr>bk_subs := insert (p, c, i) (bk_subs (broker w))\<rparr>"
    using reg s' by (auto simp: broker_def split: if_splits)
  ultimately show ?thesis using apps r by (simp add: follows_def)
qed

lemma subscribe_follows:
  assumes coh: "coherent w" and s: "session_ok w a" and r: "registered w p i = Some a" and m: "member_given (w_lib w) msg"
    and h: "handleSubscribeRequest a msg w = Some (res, w')"
  shows "follows [] w w' \<or> (\<exists>sp app. decode_subscribe msg = Some sp \<and> ws_app (w_heap w a) = Some app
    \<and> ValidChannel (sp_Channel sp) (app_MaxChannelNameLength app)
    \<and> may_join (CreateChannelFromString app (sp_Channel sp)) i sp w \<and> follows [Subscribes p (sp_Channel sp) i] w w')"
proof -
  obtain app where app: "ws_app (w_heap w a) = Some app" by (rule coherent_registered [OF coh r])
  note k = coherent_app [OF coh r app]
  have st: "step a w w'" using handleSubscribeRequest_runs [OF k(5) s m] h by (simp add: runs_iff)
  have wok: "world_ok w" using coh by (simp add: coherent_def)
  then have wf: "la_wf w" and srv: "ws_server (w_heap w a)" "a \<noteq> 0"
    using k(5) by (simp_all add: world_ok_def okay_def attached_def)
  have ns: "ns_of w p \<noteq> None" using r by (auto simp: registered_def split: option.splits)
  show ?thesis
  proof (cases "\<exists>sp. \<not> w_Closing w \<and> decode_subscribe msg = Some sp \<and> ValidChannel (sp_Channel sp) (app_MaxChannelNameLength app)
      \<and> \<not> (ws_userID (w_heap w a) \<noteq> [] \<and> sp_Channel sp = SocketRushServerToUserPrefix @ ws_userID (w_heap w a))")
    case False
    have "same_view w w'"
      using h False app srv ValidateChannelName_None
      by (auto simp: handleSubscribeRequest_def server_of_def app_of_def Let_def bind_eq_Some_conv
          dest!: view_dests split: if_splits option.splits)
    with step_follows [OF coh st] show ?thesis by simp
  next
    case True
    then obtain sp where c: "\<not> w_Closing w" "decode_subscribe msg = Some sp" "ValidChannel (sp_Channel sp) (app_MaxChannelNameLength app)"
      "\<not> (ws_userID (w_heap w a) \<noteq> [] \<and> sp_Channel sp = SocketRushServerToUserPrefix @ ws_userID (w_heap w a))" by blast
    let ?ch = "CreateChannelFromString app (sp_Channel sp)"
    note e = subscribe_join [OF srv(1) c(1,2) app c(3,4)]
    show ?thesis
    proof (cases "may_join ?ch i sp w")
      case True
      from la.join_admitted [OF wf, of ?ch a i sp "w_lib w"] ns srv(2) k(1) True
      obtain resp w1 where w1: "Join_channel (w_lib w) (Some local_adapter) ?ch a i sp w = Some (resp, w1)" "jr_Success resp"
        "la_subs p w1 = insert (sp_Channel sp, la_ident w a) (la_subs p w)"
        by (auto simp: may_join_admits)
      from e h w1(1,2) k(4) have f: "finish_subscription a app ?ch resp w1 = Some (res, w')" by simp
      from joined_follows [OF coh r app st w1(1) _ f] w1(3) k(4) app c True show ?thesis by (simp add: la_ident_def)
    next
      case False
      from la.join_refused [OF wf, of ?ch i sp "w_lib w" a] False obtain resp where
        "Join_channel (w_lib w) (Some local_adapter) ?ch a i sp w = Some (resp, w)" "\<not> jr_Success resp"
        by (auto simp: may_join_admits)
      with e h k(4) have "refuse_subscription a ?ch resp w = Some (res, w')" by simp
      from step_follows [OF coh st refuse_subscription_view [OF this]] show ?thesis by simp
    qed
  qed
qed

subsection \<open>Unsubscribing\<close>

lemma la_RemoveFromChannel_other:
  "la_RemoveFromChannel p cs i w = Some (x, w') \<Longrightarrow>
     (\<forall>q. q \<noteq> p \<longrightarrow> la_subs q w' = la_subs q w) \<and> same_setup w w' \<and> w_heap w' = w_heap w"
  using ns_of_Some_init [of w p] ns_of_set_ns [of w p]
  by (auto simp: la_RemoveFromChannel_def bind_eq_Some_conv la_subs_def set_ns_def split: option.splits)

lemma Leave_channel_other:
  assumes "Leave_channel local_adapter ch s w = Some (resp, w')"
  shows "(\<forall>q. q \<noteq> app_ID (ch_App ch) \<longrightarrow> la_subs q w' = la_subs q w) \<and> same_setup w w' \<and> w_heap w' = w_heap w"
  using assms by (auto simp: Leave_channel_def Let_def local_adapter_def bind_eq_Some_conv simp del: all_simps
      dest!: la_RemoveFromChannel_other split: if_splits option.splits)

definition departed :: "addr \<Rightarrow> Channel \<Rightarrow> World \<Rightarrow> World \<Rightarrow> bool" where
  "departed a ch w w' =
     ((\<forall>c. c \<noteq> ch_Name ch \<longrightarrow> subscription (w_heap w' a) c = subscription (w_heap w a) c
            \<and> getPresenceDataForChannel (w_heap w' a) c = getPresenceDataForChannel (w_heap w a) c)
      \<and> (subscription (w_heap w' a) (ch_Name ch) = None
           \<or> ch_Type ch = ChannelTypePresence \<and> subscription (w_heap w' a) (ch_Name ch) = subscription (w_heap w a) (ch_Name ch))
      \<and> getPresenceDataForChannel (w_heap w' a) (ch_Name ch) =
          (if ch_Type ch = ChannelTypePresence then None else getPresenceDataForChannel (w_heap w a) (ch_Name ch))
      \<and> ws_app (w_heap w' a) = ws_app (w_heap w a) \<and> (\<forall>p. la_subs p w' = la_subs p w) \<and> same_setup w w'
      \<and> (map_ok (w_heap w a) \<longrightarrow> map_ok (w_heap w' a)))"

lemma untracked_departed:
  assumes "same_view v u" "\<not> free v a"
  shows "subscription (w_heap (untrack_channel a c u) a) d = (if d = c then None else subscription (w_heap v a) d)"
    "getPresenceDataForChannel (w_heap (untrack_channel a c u) a) d = getPresenceDataForChannel (w_heap v a) d"
    "ws_app (w_heap (untrack_channel a c u) a) = ws_app (w_heap v a)"
    "\<forall>p. la_subs p (untrack_channel a c u) = la_subs p v" "same_setup v (untrack_channel a c u)"
    "map_ok (w_heap v a) \<Longrightarrow> map_ok (w_heap (untrack_channel a c u) a)"
proof -
  from assms have h: "ws_SubscribedChannels (w_heap u a) = ws_SubscribedChannels (w_heap v a)"
    "ws_PresenceData (w_heap u a) = ws_PresenceData (w_heap v a)" "ws_app (w_heap u a) = ws_app (w_heap v a)"
    "\<forall>p. la_subs p u = la_subs p v" "same_setup v u" by (auto simp: same_view_def)
  have "w_Namespaces (untrack_channel a c u) = w_Namespaces u" by (simp add: untrack_channel_def)
  from ns_of_same_namespaces [OF this] h show "\<forall>p. la_subs p (untrack_channel a c u) = la_subs p v" by (simp add: la_subs_def)
  show "subscription (w_heap (untrack_channel a c u) a) d = (if d = c then None else subscription (w_heap v a) d)"
    using h(1) by (simp add: untrack_channel_def subscription_def split: option.split)
qed (use assms in \<open>auto simp: untrack_channel_def same_view_def map_ok_def getPresenceDataForChannel_def\<close>)

lemma forget_departed:
  "getPresenceDataForChannel (w_heap (forget_presence a c w) a) d = (if d = c then None else getPresenceDataForChannel (w_heap w a) d)"
  "subscription (w_heap (forget_presence a c w) a) d = subscription (w_heap w a) d"
  "map_ok (w_heap (forget_presence a c w) a) = map_ok (w_heap w a)"
  "ws_app (w_heap (forget_presence a c w) a) = ws_app (w_heap w a)"
  "la_subs p (forget_presence a c w) = la_subs p w" "same_setup w (forget_presence a c w)"
  "free (forget_presence a c w) b = free w b"
proof -
  have n: "w_Namespaces (forget_presence a c w) = w_Namespaces w" by (simp add: forget_presence_def)
  show "la_subs p (forget_presence a c w) = la_subs p w" "free (forget_presence a c w) b = free w b"
    using same_namespaces [OF n] by (simp_all add: la_subs_def free_def)
qed (auto simp: forget_presence_def getPresenceDataForChannel_def subscription_def map_ok_def split: option.split)

lemma after_leave_departed:
  assumes e: "after_leave a ch resp w = Some w'" "lr_Success resp" and f: "\<not> free w a"
  shows "departed a ch w w'"
proof (cases "ch_Type ch = ChannelTypePresence")
  case True
  let ?w1 = "forget_presence a (ch_Name ch) w"
  from e True consider "w' = ?w1" | app m ms w2 where "announce_member_removed a app ch m ms ?w1 = Some w2"
    "w' = untrack_channel a (ch_Name ch) (announce_vacated app ch resp w2)"
    by (auto simp: after_leave_def after_presence_leave_def bind_eq_Some_conv finish_unsubscribe_def split: option.splits)
  then show ?thesis
  proof cases
    case 1
    with True show ?thesis by (simp add: departed_def forget_departed)
  next
    case 2
    have "same_view ?w1 (announce_vacated app ch resp w2)"
      by (rule same_view_trans [OF announce_member_removed_view [OF 2(1)]]) simp
    from untracked_departed [OF this, of a "ch_Name ch"] f True 2(2) show ?thesis
      by (simp add: departed_def forget_departed)
  qed
next
  case False
  with e obtain app where w': "w' = untrack_channel a (ch_Name ch) (announce_vacated app ch resp w)"
    by (auto simp: after_leave_def bind_eq_Some_conv finish_unsubscribe_def)
  from untracked_departed [OF announce_view(2) f, of "ch_Name ch" app ch resp] w' False show ?thesis
    by (simp add: departed_def)
qed

lemma unsubscribe_follows:
  assumes coh: "coherent w" and r: "registered w p i = Some a" and app: "ws_app (w_heap w a) = Some app"
    and h: "unsubscribeFromChannel a (CreateChannelFromString app c) w = Some w'"
  shows "follows [Unsubscribes p c i] w w'" "registered w' = registered w" "ws_app (w_heap w' a) = Some app"
    "la_subs p w' = la_subs p w - {(c, i)}" "others a w w'"
proof -
  let ?ch = "CreateChannelFromString app c"
  note k = coherent_app [OF coh r app]
  have q: "quiet a w w'" using unsubscribe_runs [OF k(5), of ?ch] h by (simp add: runs_iff)
  then have reg: "registered w' = registered w" and ok: "world_ok w'" by (simp_all add: quiet_def step_def)
  show o: "others a w w'" using q by (simp add: quiet_def step_others)
  have "la_wf w" using coh by (simp add: coherent_def world_ok_def)
  from la.leave [OF this, of ?ch "w_heap w a"] k(1,4) obtain resp w1
    where w1: "Leave_channel local_adapter ?ch (w_heap w a) w = Some (resp, w1)" "lr_Success resp"
      "la_subs p w1 = la_subs p w - {(c, i)}" by auto
  have o1: "\<And>q. q \<noteq> p \<Longrightarrow> la_subs q w1 = la_subs q w" "same_setup w w1" "w_heap w1 = w_heap w"
    using Leave_channel_other [OF w1(1)] k(1) by simp_all
  have "quiet a w w1" using Leave_channel_runs [OF k(5), of ?ch "w_heap w a"] w1(1) by (simp add: runs_iff)
  then have fr: "\<not> free w1 a" using r by (auto simp: free_def quiet_def step_def)
  from h w1(1) have "after_leave a ?ch resp w1 = Some w'" by (auto simp: unsubscribeFromChannel_def bind_eq_Some_conv)
  from after_leave_departed [OF this w1(2) fr] have d: "departed a ?ch w1 w'" .
  have s': "la_subs q w' = (if q = p then la_subs q w - {(c, i)} else la_subs q w)" for q
    using d w1(3) o1(1) by (simp add: departed_def)
  have ty: "ch_Type ?ch = ChannelTypePresence \<longleftrightarrow> IsPresenceChannel c" by (simp add: CreateChannel_Type)
  have apps: "same_setup w w'" using d o1 by (simp add: departed_def)
  have own: "ws_app (w_heap w' a) = ws_app (w_heap w a)" "map_ok (w_heap w a) \<Longrightarrow> map_ok (w_heap w' a)"
    using d o1 by (simp_all add: departed_def)
  have "coherent w'"
  proof (rule coherent_own [OF coh r ok reg apps o _ own])
    show "(e, j) \<in> la_subs q w' \<longleftrightarrow> (e, j) \<in> la_subs q w" if "(q, j) \<noteq> (p, i)" for q e j
      using that s' by auto
    fix app' e assume a': "ws_app (w_heap w a) = Some app'" and t: "tracks w p i a app' e"
    show "tracks w' p i a app' e"
    proof (cases "e = c")
      case True
      have "(c, i) \<notin> la_subs p w'" using s' [of p] by simp
      moreover have "getPresenceDataForChannel (w_heap w' a) c = None"
        using d t True o1(3) by (auto simp: departed_def ty tracks_def split: if_splits)
      moreover have "subscription (w_heap w' a) c = None
          \<or> IsPresenceChannel c \<and> subscription (w_heap w' a) c = subscription (w_heap w a) c"
        using d o1(3) by (simp add: departed_def ty)
      ultimately show ?thesis using t True by (auto simp: tracks_def split: option.splits)
    next
      case False
      have "(e, i) \<in> la_subs p w' \<longleftrightarrow> (e, i) \<in> la_subs p w" using s' [of p] False by simp
      moreover have "subscription (w_heap w' a) e = subscription (w_heap w a) e"
        "getPresenceDataForChannel (w_heap w' a) e = getPresenceDataForChannel (w_heap w a) e"
        using d o1(3) False by (simp_all add: departed_def)
      ultimately show ?thesis using t tracks_cong by blast
    qed
  qed
  moreover have "broker w' = (broker w)\<lparr>bk_subs := bk_subs (broker w) - {(p, c, i)}\<rparr>"
    using reg s' by (auto simp: broker_def split: if_splits)
  ultimately show "follows [Unsubscribes p c i] w w'" using apps r by (simp add: follows_def)
  show "registered w' = registered w" "ws_app (w_heap w' a) = Some app" "la_subs p w' = la_subs p w - {(c, i)}"
    using reg own app s' by simp_all
qed

subsection \<open>Closing\<close>

lemma follows_coherent: "follows es w w' \<Longrightarrow> coherent w'"
  by (simp add: follows_def)

lemma unsubscribe_each_follows:
  "coherent w \<Longrightarrow> registered w p i = Some a \<Longrightarrow> ws_app (w_heap w a) = Some app
    \<Longrightarrow> unsubscribe_each a (map (CreateChannelFromString app) cs) w = Some w'
    \<Longrightarrow> follows (map (\<lambda>c. Unsubscribes p c i) cs) w w' \<and> registered w' = registered w \<and> ws_app (w_heap w' a) = Some app
      \<and> (\<forall>c. (c, i) \<in> la_subs p w' \<longleftrightarrow> (c, i) \<in> la_subs p w \<and> c \<notin> set cs) \<and> others a w w'"
proof (induction cs arbitrary: w)
  case Nil
  then show ?case by (simp add: follows_refl)
next
  case (Cons c cs)
  from Cons.prems(4) obtain w1 where w1: "unsubscribeFromChannel a (CreateChannelFromString app c) w = Some w1"
    "unsubscribe_each a (map (CreateChannelFromString app) cs) w1 = Some w'" by (auto simp: bind_eq_Some_conv)
  note u = unsubscribe_follows [OF Cons.prems(1-3) w1(1)]
  have "registered w1 p i = Some a" using u(2) Cons.prems(2) by simp
  from Cons.IH [OF follows_coherent [OF u(1)] this u(3) w1(2)] u follows_trans [OF u(1)] others_trans [OF u(5)]
  show ?case by auto
qed

lemma unsubscribe_all_follows:
  assumes coh: "coherent w" and r: "registered w p i = Some a" and app: "ws_app (w_heap w a) = Some app"
    and h: "unsubscribeFromAllChannels a w = Some w'"
  obtains cs where "follows (map (\<lambda>c. Unsubscribes p c i) cs) w w'" "registered w' = registered w"
    "ws_app (w_heap w' a) = Some app" "\<And>c. (c, i) \<notin> la_subs p w'"
proof -
  note k = coherent_app [OF coh r app]
  let ?m = "case ws_SubscribedChannels (w_heap w a) of None \<Rightarrow> [] | Some m \<Rightarrow> m"
  have sub: "subscription (w_heap w a) c = map_of ?m c" for c by (simp add: subscription_def split: option.split)
  have "wf_map ?m" using k(6) by (simp add: map_ok_def wf_map_def split: option.split)
  then have "ch = CreateChannelFromString app c" if "(c, ch) \<in> set ?m" for c ch
    using that k(3) [of c] wf_map_of_iff [of ?m c ch] sub [of c] by (auto simp: tracks_def)
  then have chs: "map snd ?m = map (CreateChannelFromString app) (map fst ?m)" by auto
  have "(case ws_SubscribedChannels (w_heap w a) of None \<Rightarrow> [] | Some m \<Rightarrow> map snd m) = map snd ?m" by (simp split: option.split)
  with h chs obtain w1 where w1: "unsubscribe_each a (map (CreateChannelFromString app) (map fst ?m)) w = Some w1"
    "w' = upd_ws a (\<lambda>s. s\<lparr>ws_SubscribedChannels := None\<rparr>) w1"
    by (auto simp: unsubscribeFromAllChannels_def bind_eq_Some_conv)
  from unsubscribe_each_follows [OF coh r app w1(1)] have
    f: "follows (map (\<lambda>c. Unsubscribes p c i) (map fst ?m)) w w1" "registered w1 = registered w" "ws_app (w_heap w1 a) = Some app"
    and s1: "\<And>c. (c, i) \<in> la_subs p w1 \<longleftrightarrow> (c, i) \<in> la_subs p w \<and> c \<notin> set (map fst ?m)" by blast+
  have no: "(c, i) \<notin> la_subs p w1" for c
  proof
    assume "(c, i) \<in> la_subs p w1"
    with s1 have "(c, i) \<in> la_subs p w" "map_of ?m c = None" by (auto simp: map_of_eq_None_iff)
    with k(3) [of c] sub [of c] show False by (simp add: tracks_def)
  qed
  have n: "w_Namespaces w' = w_Namespaces w1" by (simp add: w1(2))
  have same: "registered w' = registered w1" "\<And>q. la_subs q w' = la_subs q w1" "la_wf w' = la_wf w1"
    using same_namespaces [OF n] by (simp_all add: la_subs_def)
  have c1: "coherent w1" using f(1) by (rule follows_coherent)
  have "coherent w'"
  proof (rule coherent_own [OF c1 _ _ same(1)])
    show "registered w1 p i = Some a" using r f(2) by simp
    show "world_ok w'"
      by (rule world_ok_transfer [of w1]) (use c1 same in \<open>simp_all add: coherent_def world_ok_iff same_id_def w1(2)\<close>)
    show "others a w1 w'" by (simp add: w1(2) upd_others)
    show "tracks w' p i a app' c" if "tracks w1 p i a app' c" for app' c
      using that no same by (auto simp: tracks_def w1(2) subscription_def getPresenceDataForChannel_def split: option.splits)
  qed (use same in \<open>simp_all add: w1(2) map_ok_def\<close>)
  moreover have "broker w' = broker w1" by (simp add: broker_def same)
  ultimately have "follows [] w1 w'" by (simp add: follows_def w1(2))
  from follows_trans [OF f(1) this] have "follows (map (\<lambda>c. Unsubscribes p c i) (map fst ?m)) w w'" by simp
  then show thesis
    by (rule that) (use f(2,3) no same in \<open>simp_all add: w1(2)\<close>)
qed

text \<open>The adapter forgets the socket.\<close>

lemma la_RemoveSocket_other:
  "la_RemoveSocket p i w = Some w' \<Longrightarrow> q \<noteq> p \<Longrightarrow> la_subs q w' = la_subs q w"
  "la_RemoveSocket p i w = Some w' \<Longrightarrow> same_setup w w'"
  using ns_of_Some_init [of w p] ns_of_set_ns [of w p]
  by (auto simp: la_RemoveSocket_def bind_eq_Some_conv la_subs_def set_ns_def split: option.splits)

lemma coherent_unregister:
  assumes coh: "coherent w" and ok: "world_ok w'" and reg: "registered w' = unregister p i (registered w)"
    and apps: "same_setup w w'" and h: "w_heap w' = w_heap w"
    and subs: "\<And>q c j. (c, j) \<in> la_subs q w' \<longleftrightarrow> (c, j) \<in> la_subs q w \<and> (q, j) \<noteq> (p, i)"
  shows "coherent w'"
  unfolding coherent_def
proof (intro conjI allI impI)
  show "registered w' q j \<noteq> None" if "(c, j) \<in> la_subs q w'" for q c j
    using that subs coh reg by (auto simp: coherent_def unregister_def)
  fix q j b assume "registered w' q j = Some b"
  then have rb: "registered w q j = Some b" and ne: "(q, j) \<noteq> (p, i)" by (auto simp: reg unregister_def split: if_splits)
  obtain app where app: "ws_app (w_heap w b) = Some app" by (rule coherent_registered [OF coh rb])
  have "tracks w' q j b app c = tracks w q j b app c" for c
    using subs [of c j q] ne by (intro tracks_cong) (simp_all add: h)
  with coherent_app [OF coh rb app] app show "\<exists>app. ws_app (w_heap w' b) = Some app \<and> app \<in> snd ` set (w_apps w')
      \<and> map_ok (w_heap w' b) \<and> (\<forall>c. tracks w' q j b app c)" by (auto simp: h apps)
qed (rule ok)

lemma leave_adapter_follows:
  assumes coh: "coherent w" and r: "registered w p i = Some a" and app: "ws_app (w_heap w a) = Some app"
    and h: "leave_adapter a w = Some w'"
  shows "follows [Disconnects p i] w w'" "registered w' = unregister p i (registered w)" "free w' a"
proof -
  note k = coherent_app [OF coh r app]
  from leave_adapter_runs [OF k(5) app k(4)] h r k(1) have
    e: "okay a w'" "free w' a" "w_heap w' = w_heap w" "registered w' = unregister p i (registered w)"
      "la_subs p w' = {(c, j) \<in> la_subs p w. j \<noteq> i}" by simp_all
  from h app k(1,4,5) obtain w1 where w1: "la_RemoveSocket p i w = Some w1" "w' = w1\<lparr>w_metrics := MarkDisconnection p (w_metrics w1)\<rparr>"
    by (auto simp: leave_adapter_def okay_def attached_def bind_eq_Some_conv)
  have o: "la_subs q w' = la_subs q w" if "q \<noteq> p" for q
    using la_RemoveSocket_other(1) [OF w1(1) that] same_namespaces [of w' w1] by (simp add: la_subs_def w1(2))
  have apps: "same_setup w w'" using la_RemoveSocket_other(2) [OF w1(1)] by (simp add: w1(2))
  have subs: "(c, j) \<in> la_subs q w' \<longleftrightarrow> (c, j) \<in> la_subs q w \<and> (q, j) \<noteq> (p, i)" for q c j
    using e(5) o [of q] by (cases "q = p") auto
  have "coherent w'"
    by (rule coherent_unregister [OF coh _ e(4) apps e(3) subs]) (use e(1) in \<open>simp add: okay_def\<close>)
  moreover have "broker w' = (broker w)\<lparr>bk_conns := bk_conns (broker w) - {(p, i)},
      bk_subs := {(q, c, j) \<in> bk_subs (broker w). (q, j) \<noteq> (p, i)}\<rparr>"
    using subs by (auto simp: broker_def e(4) unregister_def)
  ultimately show "follows [Disconnects p i] w w'" using apps r by (simp add: follows_def)
  show "registered w' = unregister p i (registered w)" "free w' a" by (fact e)+
qed

text \<open>Nothing the broker sees depends on a socket that is registered nowhere.\<close>

lemma free_view:
  assumes "free w a" "others a w w'" "w_Namespaces w' = w_Namespaces w" "same_setup w w'"
  shows "same_view w w'"
proof (rule same_viewI [OF assms(3,4)])
  fix b assume "\<not> free w b"
  with assms(1) have "b \<noteq> a" by auto
  with assms(2) show "ws_SubscribedChannels (w_heap w' b) = ws_SubscribedChannels (w_heap w b)
      \<and> ws_PresenceData (w_heap w' b) = ws_PresenceData (w_heap w b) \<and> ws_app (w_heap w' b) = ws_app (w_heap w b)"
    by (simp add: others_def same_but_wire_def)
qed

lemma leave_user_view:
  assumes "okay a w" "leave_user a w = Some w'"
  shows "same_view w w'"
proof -
  from assms(1) obtain app where app: "ws_app (w_heap w a) = Some app" by (auto simp: okay_def attached_def)
  let ?p = "app_ID app"
  have wf: "la_wf w" "a \<noteq> 0" using assms(1) by (simp_all add: okay_def world_ok_def attached_def)
  show ?thesis
  proof (cases "ws_userID (w_heap w a) = [] \<or> ns_of w ?p = None")
    case True
    with assms(2) app show ?thesis
      by (auto simp: leave_user_def la_RemoveUser_def app_of_def bind_eq_Some_conv split: if_splits)
  next
    case False
    then obtain n where n: "ns_of w ?p = Some n" by blast
    from wf obtain n' where e: "n_RemoveUser (w_heap w) a n = Some n'"
      using ns_step [OF la_wf_ns [OF wf(1) n], of "OpRemoveUser (w_heap w) a"] by auto
    have "same_view w (set_ns ?p n' w)"
      by (rule user_op_view [OF wf(1) n, of "OpRemoveUser (w_heap w) a"]) (use e wf in simp_all)
    with False n e assms app show ?thesis
      by (auto simp: leave_user_def la_RemoveUser_def app_of_def bind_eq_Some_conv split: if_splits)
  qed
qed

lemma farewell_view:
  assumes "free w a" "farewell a code w = Some w'"
  shows "same_view w w'"
proof -
  have "same_view w (shut_conn a w1)" if "same_view w w1" for w1
    by (rule same_view_trans [OF that]) (simp add: shut_conn_def upd_view split: option.split)
  with assms(2) ws_Send_view show ?thesis by (auto simp: farewell_def bind_eq_Some_conv split: if_splits)
qed

lemma mark_closed_view: "free w a \<Longrightarrow> same_view w (mark_closed a w)"
  by (rule free_view) (auto simp: mark_closed_def upd_others)

lemma close_follows:
  assumes coh: "coherent w" and r: "registered w p i = Some a" and h: "closeConnection a code w = Some w'"
  obtains cs where "follows (map (\<lambda>c. Unsubscribes p c i) cs @ [Disconnects p i]) w w'"
    "registered w' = unregister p i (registered w)"
proof -
  obtain app where app: "ws_app (w_heap w a) = Some app" by (rule coherent_registered [OF coh r])
  note k = coherent_app [OF coh r app]
  from h obtain w1 w2 w3 w4 where s: "unsubscribeFromAllChannels a w = Some w1" "leave_adapter a w1 = Some w2"
    "leave_user a w2 = Some w3" "farewell a code w3 = Some w4" "w' = mark_closed a w4"
    by (auto simp: closeConnection_def bind_eq_Some_conv)
  obtain cs where f1: "follows (map (\<lambda>c. Unsubscribes p c i) cs) w w1" "registered w1 = registered w"
    "ws_app (w_heap w1 a) = Some app" by (rule unsubscribe_all_follows [OF coh r app s(1)])
  have r1: "registered w1 p i = Some a" using r f1(2) by simp
  note f2 = leave_adapter_follows [OF follows_coherent [OF f1(1)] r1 f1(3) s(2)]
  have ok1: "okay a w1" by (rule coherent_app(5) [OF follows_coherent [OF f1(1)] r1 f1(3)])
  have id1: "ws_ID (w_heap w1 a) = i" by (rule coherent_app(4) [OF follows_coherent [OF f1(1)] r1 f1(3)])
  have ok2: "okay a w2" and id2: "w_heap w2 = w_heap w1"
    using leave_adapter_runs [OF ok1 f1(3) id1] s(2) by simp_all
  have v3: "same_view w2 w3" by (rule leave_user_view [OF ok2 s(3)])
  have fr3: "free w3 a" using f2(3) v3 by (simp add: free_def same_view_def)
  have v4: "same_view w3 w4" by (rule farewell_view [OF fr3 s(4)])
  have fr4: "free w4 a" using fr3 v4 by (simp add: free_def same_view_def)
  have v: "same_view w2 w'"
    using same_view_trans [OF v3 same_view_trans [OF v4 mark_closed_view [OF fr4]]] s(5) by simp
  have "world_ok w'" using closeConnection_runs [OF k(5) app refl refl, of code] h by (simp add: runs_iff)
  from follows_view [OF follows_coherent [OF f2(1)] v this] have "follows [] w2 w'" .
  from follows_trans [OF f1(1) follows_trans [OF f2(1) this]]
  have "follows (map (\<lambda>c. Unsubscribes p c i) cs @ [Disconnects p i]) w w'" by simp
  then show thesis by (rule that) (use v f2(2) f1(2) in \<open>simp add: same_view_def\<close>)
qed

end
