(* ===== verification/Broker_Server.thy ===== *)
theory Broker_Server
  imports Broker_Steps Server
begin

text \<open>
  Every step of the server (\<open>server_step\<close>) is a run of the broker. A subscription is only ever added by a frame of
  the socket itself, whose token is right; in a reachable state the sockets and the adapter agree about who is
  subscribed to what.
\<close>

subsection \<open>A frame\<close>

definition authorised :: "App \<Rightarrow> SocketID \<Rightarrow> SubscribePayload \<Rightarrow> bool" where
  "authorised app i sp = (ValidChannel (sp_Channel sp) (app_MaxChannelNameLength app)
     \<and> (IsPrivateChannel (sp_Channel sp) \<or> IsPresenceChannel (sp_Channel sp) \<longrightarrow>
          ValidateChannelAuth (sp_Auth sp) (app_Secret app) i (sp_Channel sp) (sp_ChannelData sp)))"

text \<open>
  What the broker may see of a piece of work: a socket that leaves ends its subscriptions and disconnects; a
  message has at most one effect, on the socket that has sent it, and a subscription needs a right token and a server
  that is not closing.
\<close>

definition leaving :: "AppID \<Rightarrow> SocketID \<Rightarrow> broker_event list \<Rightarrow> bool" where
  "leaving p i es = (\<exists>cs. es = map (\<lambda>c. Unsubscribes p c i) cs @ [Disconnects p i])"

definition modest :: "bool \<Rightarrow> AppID \<Rightarrow> SocketID \<Rightarrow> App \<Rightarrow> string \<Rightarrow> broker_event list \<Rightarrow> bool" where
  "modest closing p i app msg es = (es = [] \<or> leaving p i es \<or> (\<exists>c. es = [Unsubscribes p c i])
     \<or> (\<exists>sp. \<not> closing \<and> decode_subscribe msg = Some sp \<and> authorised app i sp \<and> es = [Subscribes p (sp_Channel sp) i]))"

lemma handleUnsubscribe_follows:
  assumes coh: "coherent w" and r: "registered w p i = Some a" and h: "handleUnsubscribeRequest a msg w = Some (res, w')"
  shows "\<exists>es. follows es w w' \<and> (es = [] \<or> (\<exists>c. es = [Unsubscribes p c i]))"
proof -
  obtain app where app: "ws_app (w_heap w a) = Some app" by (rule coherent_registered [OF coh r])
  from h consider "w' = w" | c ch where "subscription (w_heap w a) c = Some ch" "unsubscribeFromChannel a ch w = Some w'"
    by (auto simp: handleUnsubscribeRequest_def bind_eq_Some_conv split: option.splits)
  then show ?thesis
  proof cases
    case 1
    with follows_refl [OF coh] show ?thesis by (intro exI [of _ "[]"]) simp
  next
    case 2
    with coherent_app(3) [OF coh r app, of c] have "ch = CreateChannelFromString app c" by (simp add: tracks_def)
    with unsubscribe_follows(1) [OF coh r app, of c w'] 2(2) show ?thesis
      by (intro exI [of _ "[Unsubscribes p c i]"]) simp
  qed
qed

lemma handleUserSignin_follows:
  assumes coh: "coherent w" and s: "session_ok w a" and r: "registered w p i = Some a"
    and d: "decode_signin msg \<noteq> Some None" and h: "handleUserSignin a msg w = Some (res, w')"
  shows "\<exists>es. follows es w w' \<and> (es = [] \<or> leaving p i es)"
proof -
  obtain app where app: "ws_app (w_heap w a) = Some app" by (rule coherent_registered [OF coh r])
  note k = coherent_app [OF coh r app]
  have "served a w w'" using handleUserSignin_runs [OF k(5) s d] h by (simp add: runs_iff)
  then have ok: "world_ok w'" by (simp add: served_def)
  from h have "w' = w \<or> (\<exists>pl u. check_signin a pl u w = Some (res, w'))"
    by (auto simp: handleUserSignin_def split: option.split_asm Option.bind_split_asm if_split_asm)
  then consider "w' = w" | pl u where "check_signin a pl u w = Some (res, w')" by blast
  then show ?thesis
  proof cases
    case 1
    with follows_refl [OF coh] show ?thesis by (intro exI [of _ "[]"]) simp
  next
    case 2
    with app consider "accept_signin a app u (us_UserData pl) w = Some (res, w')"
      | "closeConnection a ErrCodeUnauthorizedConnection w = Some w'"
      by (auto simp: check_signin_def app_of_def bind_eq_Some_conv split: if_splits)
    then show ?thesis
    proof cases
      case 1
      from follows_view [OF coh accept_signin_view [OF k(5) this] ok] show ?thesis by (intro exI [of _ "[]"]) simp
    next
      case 2
      from close_follows [OF coh r this] obtain cs where
        "follows (map (\<lambda>c. Unsubscribes p c i) cs @ [Disconnects p i]) w w'" by blast
      then show ?thesis by (intro exI conjI, assumption) (auto simp: leaving_def)
    qed
  qed
qed

lemma dispatch_follows:
  assumes coh: "coherent w" and s: "session_ok w a" and r: "registered w p i = Some a"
    and app: "ws_app (w_heap w a) = Some app" and f: "frame_ok (w_lib w) msg"
    and e: "decode_request_event msg = Some ev" and h: "dispatch a ev msg w = Some (res, w')"
  shows "\<exists>es. follows es w w' \<and> modest (w_Closing w) p i app msg es"
proof -
  note k = coherent_app [OF coh r app]
  have "served a w w'" using dispatch_runs [OF k(5) s f e] h by (simp add: runs_iff)
  then have ok: "world_ok w'" by (simp add: served_def)
  have quietly: ?thesis if "same_view w w'"
    using follows_view [OF coh that ok] by (intro exI [of _ "[]"]) (simp add: modest_def)
  consider "ev = ''pusher:ping''" | "ev = ''pusher:subscribe''" | "ev = ''pusher:unsubscribe''" | "ev = ''pusher:signin''"
    | "ev \<notin> {''pusher:ping'', ''pusher:subscribe'', ''pusher:unsubscribe'', ''pusher:signin''}" by blast
  then show ?thesis
  proof cases
    case 1
    with h have "ws_Send a PongPack w = Some w'" by (auto simp: dispatch_def bind_eq_Some_conv)
    from quietly [OF ws_Send_view [OF this]] show ?thesis .
  next
    case 2
    with h have h': "handleSubscribeRequest a msg w = Some (res, w')" by (simp add: dispatch_def)
    have "member_given (w_lib w) msg" using f e 2 by (simp add: frame_ok_def)
    have "w' = w" if "w_Closing w" using h' that by (auto simp: handleSubscribeRequest_def bind_eq_Some_conv)
    with follows_refl [OF coh] subscribe_follows [OF coh s r \<open>member_given (w_lib w) msg\<close> h']
    consider "follows [] w w'" | sp where "\<not> w_Closing w" "decode_subscribe msg = Some sp"
        "ValidChannel (sp_Channel sp) (app_MaxChannelNameLength app)"
        "may_join (CreateChannelFromString app (sp_Channel sp)) i sp w" "follows [Subscribes p (sp_Channel sp) i] w w'"
      using app by (cases "w_Closing w") auto
    then show ?thesis
    proof cases
      case 1
      then show ?thesis by (intro exI [of _ "[]"]) (simp add: modest_def)
    next
      case 2
      then have "authorised app i sp" by (auto simp: authorised_def may_join_def CreateChannel_Type)
      with 2 show ?thesis by (intro exI [of _ "[Subscribes p (sp_Channel sp) i]"]) (simp add: modest_def)
    qed
  next
    case 3
    with h have "handleUnsubscribeRequest a msg w = Some (res, w')" by (simp add: dispatch_def)
    from handleUnsubscribe_follows [OF coh r this] show ?thesis unfolding modest_def by blast
  next
    case 4
    with h have "handleUserSignin a msg w = Some (res, w')" by (simp add: dispatch_def)
    from handleUserSignin_follows [OF coh s r signin_ptr [OF e] this] 4 show ?thesis unfolding modest_def by blast
  next
    case 5
    with h have "w' = w \<or> handleClientEvent a msg w = Some (res, w')" by (auto simp: dispatch_def split: if_splits)
    with quietly handleClientEvent_view show ?thesis by auto
  qed
qed

lemma frame_follows:
  assumes coh: "coherent w" and s: "session_ok w a" and r: "registered w p i = Some a"
    and app: "ws_app (w_heap w a) = Some app" and f: "frame_ok (w_lib w) msg" and h: "handle_frame a msg w = Some w'"
  shows "\<exists>es. follows es w w' \<and> modest (w_Closing w) p i app msg es"
proof -
  note k = coherent_app [OF coh r app]
  have "served a w w'" using handle_frame_runs [OF k(5) s f] h by (simp add: runs_iff)
  then have ok: "world_ok w'" by (simp add: served_def)
  from h obtain w1 w2 e w3 where s1: "resetReadTimeout a w = Some w1" "count_frame a w1 = Some w2"
    "parseIncomingPayload a msg w2 = Some (e, w3)" "report_error a e w3 = Some w'"
    by (auto simp: handle_frame_def bind_eq_Some_conv)
  have q1: "quiet a w w1" using resetReadTimeout_runs [OF k(5)] s1(1) by (simp add: runs_iff)
  have "quiet a w1 w2" using count_frame_runs [OF step_okay(2) [OF q1]] s1(2) by (simp add: runs_iff)
  from quiet_trans [OF q1 this] have q: "quiet a w w2" .
  have v: "same_view w w2" by (rule same_view_trans [OF frame_views(1) [OF s1(1)] frame_views(2) [OF s1(2)]])
  from q have w2: "world_ok w2" "session_ok w2 a" "registered w2 p i = Some a" "ws_app (w_heap w2 a) = Some app"
    "frame_ok (w_lib w2) msg"
    using s r app f by (simp_all add: quiet_def step_def same_id_def)
  have c: "w_Closing w2 = w_Closing w"
    using s1(1,2) by (auto simp: resetReadTimeout_def count_frame_def bind_eq_Some_conv split: option.splits if_splits)
  from follows_view [OF coh v w2(1)] have f2: "follows [] w w2" .
  from s1(3) consider "w3 = w2" | ev r' w4 where "decode_request_event msg = Some ev" "dispatch a ev msg w2 = Some (r', w4)"
      "mark_received a w4 = Some w3"
    by (auto simp: parseIncomingPayload_def bind_eq_Some_conv split: option.splits)
  then show ?thesis
  proof cases
    case 1
    from same_view_trans [OF v] frame_views(4) [OF s1(4)] 1 have "same_view w w'" by simp
    from follows_view [OF coh this ok] show ?thesis by (intro exI [of _ "[]"]) (simp add: modest_def)
  next
    case 2
    from dispatch_follows [OF follows_coherent [OF f2] w2(2-5) 2(1,2)] obtain es where
      es: "follows es w2 w4" "modest (w_Closing w2) p i app msg es" by blast
    have "same_view w4 w'" by (rule same_view_trans [OF frame_views(3) [OF 2(3)] frame_views(4) [OF s1(4)]])
    from follows_view [OF follows_coherent [OF es(1)] this ok] have "follows [] w4 w'" .
    from follows_trans [OF f2 follows_trans [OF es(1) this]] es(2) c show ?thesis by (intro exI [of _ es]) simp
  qed
qed

text \<open>The other pieces of work on a socket.\<close>

lemma silent_follows: "coherent w \<Longrightarrow> same_view w w' \<Longrightarrow> world_ok w' \<Longrightarrow> \<exists>es. follows es w w' \<and> es = []"
  using follows_view by blast

lemma close_leaving:
  assumes "coherent w" "registered w p i = Some a" "closeConnection a code w = Some w'"
  shows "\<exists>es. follows es w w' \<and> leaving p i es"
  using close_follows [OF assms] unfolding leaving_def by metis

lemma read_error_follows:
  assumes coh: "coherent w" and r: "registered w p i = Some a" and h: "handleReadMessageError a err w = Some w'"
  shows "\<exists>es. follows es w w' \<and> leaving p i es"
proof -
  from h obtain code m where c: "closeConnection a code (w\<lparr>w_metrics := m\<rparr>) = Some w'"
    by (auto simp: handleReadMessageError_def bind_eq_Some_conv split: if_splits)
  let ?w = "w\<lparr>w_metrics := m\<rparr>"
  have "world_ok ?w"
    by (rule world_ok_transfer [of w])
      (use coh same_namespaces [of ?w w] in \<open>simp_all add: coherent_def world_ok_iff same_id_def\<close>)
  with follows_view [OF coh plain_view(3)] have f: "follows [] w ?w" .
  have "registered ?w p i = Some a" using r same_namespaces [of ?w w] by simp
  from close_leaving [OF follows_coherent [OF f] this c] obtain es where es: "follows es ?w w'" "leaving p i es" by blast
  from follows_trans [OF f es(1)] es(2) show ?thesis by (intro exI [of _ es]) simp
qed

lemma round_follows:
  assumes coh: "coherent w" and s: "session_ok w a" and r: "registered w p i = Some a"
    and app: "ws_app (w_heap w a) = Some app" and f: "\<And>msg. rd = Frame msg \<Longrightarrow> frame_ok (w_lib w) msg"
    and h: "listen_round a rd w = Some (go, w')"
  shows "\<exists>es. follows es w w' \<and> (case rd of Frame msg \<Rightarrow> modest (w_Closing w) p i app msg es | _ \<Rightarrow> es = [] \<or> leaving p i es)"
proof -
  from h consider "w' = w" | msg where "rd = Frame msg" "handle_frame a msg w = Some w'"
    | "\<forall>msg. rd \<noteq> Frame msg" "handleReadMessageError a rd w = Some w'"
    by (cases rd) (auto simp: listen_round_def bind_eq_Some_conv split: if_splits)
  then show ?thesis
  proof cases
    case 1
    with follows_refl [OF coh] show ?thesis by (intro exI [of _ "[]"]) (simp add: modest_def split: read.split)
  next
    case 2
    from frame_follows [OF coh s r app f [OF 2(1)] 2(2)] 2(1) show ?thesis by simp
  next
    case 3
    from read_error_follows [OF coh r 3(2)] 3(1) show ?thesis by (cases rd) auto
  qed
qed

lemma watcher_follows:
  assumes coh: "coherent w" and r: "registered w p i = Some a" and ok: "world_ok w'"
  shows "watcher_signal a w = Some w' \<Longrightarrow> \<exists>es. follows es w w' \<and> es = []"
    "watcher_timeout a w = Some w' \<Longrightarrow> \<exists>es. follows es w w' \<and> (es = [] \<or> leaving p i es)"
proof -
  show "\<exists>es. follows es w w' \<and> es = []" if "watcher_signal a w = Some w'"
    by (rule silent_follows [OF coh frame_views(5) [OF that] ok])
  assume "watcher_timeout a w = Some w'"
  then have "w' = w \<or> closeConnection a ErrCodeUnauthorizedConnection w = Some w'"
    by (cases "ws_userAuthChannel (w_heap w a)") (simp_all add: watcher_timeout_def)
  then consider "w' = w" | "closeConnection a ErrCodeUnauthorizedConnection w = Some w'" by blast
  then show "\<exists>es. follows es w w' \<and> (es = [] \<or> leaving p i es)"
  proof cases
    case 1
    with silent_follows [OF coh same_view_refl] ok show ?thesis by auto
  next
    case 2
    from close_leaving [OF coh r this] show ?thesis by blast
  qed
qed

subsection \<open>REST requests\<close>

text \<open>A request can only make sockets of its app leave.\<close>

definition dismissing :: "AppID \<Rightarrow> broker_event list \<Rightarrow> bool" where
  "dismissing p es = (\<forall>e \<in> set es. (\<exists>c i. e = Unsubscribes p c i) \<or> (\<exists>i. e = Disconnects p i))"

lemma dismissing_simps [simp]:
  "dismissing p []" "dismissing p (es @ fs) \<longleftrightarrow> dismissing p es \<and> dismissing p fs" "leaving p i es \<Longrightarrow> dismissing p es"
  by (auto simp: dismissing_def leaving_def)

lemma terminate_each_follows:
  "coherent w \<Longrightarrow> terminate_each p u ids w = Some w' \<Longrightarrow> \<exists>es. follows es w w' \<and> dismissing p es"
proof (induction ids arbitrary: w)
  case Nil
  then show ?case using follows_refl by (intro exI [of _ "[]"]) simp
next
  case (Cons i ids)
  have reg: "(case ns_of w p of None \<Rightarrow> None | Some n \<Rightarrow> map_of (ns_Sockets n) i) = registered w p i"
    by (simp add: registered_def)
  from Cons.prems(2) consider "terminate_each p u ids w = Some w'"
    | a msg w1 w2 where "registered w p i = Some a" "ws_Send a msg w = Some w1"
        "closeConnection a ErrCodeUnauthorizedConnection w1 = Some w2" "terminate_each p u ids w2 = Some w'"
    by (auto simp: reg bind_eq_Some_conv split: option.splits if_splits)
  then show ?case
  proof cases
    case 1
    from Cons.IH [OF Cons.prems(1) this] show ?thesis .
  next
    case 2
    obtain app where app: "ws_app (w_heap w a) = Some app" by (rule coherent_registered [OF Cons.prems(1) 2(1)])
    have "okay a w" by (rule coherent_app(5) [OF Cons.prems(1) 2(1) app])
    from ws_Send_runs [OF this, of msg] 2(2) have "quiet a w w1" by (simp add: runs_iff)
    then have ok: "world_ok w1" "registered w1 p i = Some a" using 2(1) by (simp_all add: quiet_def step_def)
    from follows_view [OF Cons.prems(1) ws_Send_view [OF 2(2)] ok(1)] have f: "follows [] w w1" .
    from close_leaving [OF follows_coherent [OF f] ok(2) 2(3)] obtain es where
      es: "follows es w1 w2" "leaving p i es" by blast
    from Cons.IH [OF follows_coherent [OF es(1)] 2(4)] obtain fs where fs: "follows fs w2 w'" "dismissing p fs" by blast
    from follows_trans [OF f follows_trans [OF es(1) fs(1)]] es(2) fs(2) show ?thesis
      by (intro exI [of _ "es @ fs"]) simp
  qed
qed

lemma broadcast_view [view_dests]:
  "broadcast_one m app c w = Some w' \<Longrightarrow> same_view w w'"
  "broadcast_each m app cs w = Some w' \<Longrightarrow> same_view w w'"
  "broadcastMessage m app w = Some w' \<Longrightarrow> same_view w w'"
proof -
  show one: "same_view w w'" if "broadcast_one m app c w = Some w'" for c w w'
    using that by (auto simp: broadcast_one_def Let_def bind_eq_Some_conv dest!: la_Send_view intro: view_after split: if_splits)
  show each: "same_view w w'" if "broadcast_each m app cs w = Some w'" for cs w w'
    using that by (induction cs arbitrary: w) (auto simp: bind_eq_Some_conv intro: same_view_trans dest!: one)
  show "broadcastMessage m app w = Some w' \<Longrightarrow> same_view w w'" by (simp add: broadcastMessage_def each)
qed

lemma batch_view: "batch_each app batch w = Some (resp, w') \<Longrightarrow> same_view w w'"
  by (induction batch arbitrary: w)
    (auto simp: bind_eq_Some_conv intro: same_view_trans dest!: broadcast_view(3) split: option.splits)

lemma route_effect:
  assumes "route r app c w = Some (resp, w')"
  shows "same_view w w' \<or> (\<exists>u. c = PostTerminate u \<and> la_TerminateUserConnections (app_ID app) u w = Some w')"
  using assms by (cases c)
    (auto simp: EventTrigger_def BatchEventTrigger_def mark_api_error_def ChannelIndex_def ChannelShow_def ChannelUsers_def
      TerminateUserConnections_def Let_def bind_eq_Some_conv dest!: batch_view broadcast_view(3)
      intro: view_after split: sum.splits option.splits if_splits)

lemma api_follows:
  assumes coh: "coherent w" and b: "bound_ok (ar_Call req)" and h: "backendGroup req w = Some (resp, w')"
    and ids: "wf_apps (w_apps w)"
  shows "\<exists>es. follows es w w' \<and> dismissing (ar_AppID req) es \<and> ((\<exists>u. ar_Call req = PostTerminate u) \<or> es = [])"
proof -
  have "thinned w w'" using backendGroup_runs [OF _ b, of w] coh h by (simp add: coherent_def runs_iff)
  then have ok: "world_ok w'" by (rule thinned_ok)
  have quietly: ?thesis if "same_view w w'"
    using follows_view [OF coh that ok] by (intro exI [of _ "[]"]) simp
  from h consider "w' = w" | app where "FindByID (w_apps w) (ar_AppID req) = Inr app"
      "route (ar_Http req) app (ar_Call req) w = Some (resp, w')"
    by (auto simp: backendGroup_def AppMiddleware_def SignatureMiddleware_def split: sum.splits)
  then show ?thesis
  proof cases
    case 1
    with quietly show ?thesis by simp
  next
    case 2
    from 2(1) ids have p: "app_ID app = ar_AppID req"
      by (auto simp: FindByID_def wf_apps_def dest!: map_of_SomeD split: option.splits)
    from route_effect [OF 2(2)] consider "same_view w w'" | u where "ar_Call req = PostTerminate u"
      "la_TerminateUserConnections (ar_AppID req) u w = Some w'" using p by auto
    then show ?thesis
    proof cases
      case 2
      show ?thesis
      proof (cases "ns_of w (ar_AppID req)")
        case None
        with 2(2) quietly show ?thesis by (simp add: la_TerminateUserConnections_def)
      next
        case (Some n)
        with 2 terminate_each_follows [OF coh] show ?thesis by (auto simp: la_TerminateUserConnections_def)
      qed
    qed (rule quietly)
  qed
qed

subsection \<open>A new connection\<close>

lemma n_AddSocket_subs: "n_AddSocket h a n = Some (b, n') \<Longrightarrow> a_subs (abs_ns n') = a_subs (abs_ns n)"
  by (auto simp: n_AddSocket_def abs_ns_def bind_eq_Some_conv split: if_splits)

lemma la_AddSocket_other:
  assumes "la_AddSocket p a w = Some (err, w')"
  shows "(\<forall>q. la_subs q w' = la_subs q w) \<and> same_setup w w' \<and> w_heap w' = w_heap w"
proof (cases "w_Namespaces w = None")
  case False
  let ?w1 = "if ns_of w p = None then set_ns p blankNamespace w else w"
  have w1: "w_Namespaces ?w1 \<noteq> None" "w_apps ?w1 = w_apps w" "w_heap ?w1 = w_heap w"
    using False by (simp_all add: set_ns_def)
  have s1: "la_subs q ?w1 = la_subs q w" for q
    using ns_of_set_ns [OF False] by (simp add: la_subs_def blank_abs_def)
  have "(if ns_of w p = None then put_ns p blankNamespace w else Some w) = Some ?w1"
    using False by (auto simp: put_ns_def set_ns_def)
  with assms False obtain n b n' where n: "ns_of ?w1 p = Some n" "n_AddSocket (w_heap ?w1) a n = Some (b, n')"
    and w': "w' = (if b then updateChannelMetrics p (set_ns p n' ?w1) else ?w1)"
    by (auto simp: la_AddSocket_def bind_eq_Some_conv split: if_splits)
  have "la_subs q (set_ns p n' ?w1) = la_subs q ?w1" for q
    using ns_of_set_ns [OF w1(1), of p n' q] n_AddSocket_subs [OF n(2)] n(1) by (simp add: la_subs_def)
  then show ?thesis using w1(2,3) s1 by (auto simp: w' la_subs_def set_ns_def)
qed (use assms in \<open>simp add: la_AddSocket_def\<close>)

lemma initialize_view:
  assumes "initializeWebSocketConnection a app w = Some w'"
  shows "same_view w w'"
proof -
  from assms obtain m w1 where w1: "ws_Send a m w = Some w1"
    "w' = (if app_RequireChannelAuthorization app then WatchForAuthentication a w1 else w1)
      \<lparr>w_metrics := MarkNewConnection (app_ID app)
        (w_metrics (if app_RequireChannelAuthorization app then WatchForAuthentication a w1 else w1))\<rparr>"
    by (auto simp: initializeWebSocketConnection_def Let_def bind_eq_Some_conv)
  have "same_view w1 (WatchForAuthentication a w1)" by (simp add: WatchForAuthentication_def upd_view)
  with ws_Send_view [OF w1(1)] same_view_trans show ?thesis unfolding w1(2) by (intro view_after(2)) auto
qed

lemma connect_follows:
  assumes coh: "coherent w" and a: "a \<noteq> 0" "free w a" and h: "serveWs a i up key proto w = Some (out, w')"
  shows "\<exists>es. follows es w w' \<and> (if out = Accepted then \<exists>p. es = [Connects p i] else es = [])"
proof -
  have wok: "world_ok w" using coh by (simp add: coherent_def)
  note runs = serveWs_runs [OF wok a, of i up key proto]
  have ok: "world_ok w'" using runs h by (auto simp: runs_iff accepted_def split: if_splits)
  consider "w' = w" "out \<noteq> Accepted" | conn app where "validateApp (w_apps w) key = Inr app"
      "admit_socket a i conn app w = Some (out, w')"
    using h by (auto simp: serveWs_def refuse_def split: option.splits sum.splits if_splits)
  then show ?thesis
  proof cases
    case 1
    with follows_refl [OF coh] show ?thesis by simp
  next
    case 2
    let ?w1 = "upd_ws a (\<lambda>_. createWebSocket i conn app) w"
    have v1: "same_view w ?w1" by (rule free_view [OF a(2) upd_others]) simp_all
    from 2(2) obtain err w2 where w2: "la_AddSocket (app_ID app) a ?w1 = Some (err, w2)"
      "if err = None then out = Accepted \<and> initializeWebSocketConnection a app w2 = Some w' else out \<noteq> Accepted \<and> w' = w2"
      by (auto simp: admit_socket_def addSocketToAdapter_def Let_def refuse_def bind_eq_Some_conv split: option.splits)
    note o = la_AddSocket_other [OF w2(1)]
    show ?thesis
    proof (cases "out = Accepted")
      case False
      with w2(2) have "w' = w2" by (auto split: if_splits)
      with runs h False o v1 have "same_view w w'"
        by (auto simp: runs_iff same_view_def)
      with follows_view [OF coh _ ok] False show ?thesis by simp
    next
      case True
      with w2(2) have i: "initializeWebSocketConnection a app w2 = Some w'" by (auto split: if_splits)
      note v = initialize_view [OF i]
      from runs h True 2(1) have acc: "accepted a app i w w'" by (auto simp: runs_iff)
      then have reg: "registered w' = (\<lambda>q j. if q = app_ID app \<and> j = i then Some a else registered w q j)"
        "registered w (app_ID app) i = None" and oth: "others a w w'" by (simp_all add: accepted_def)
      have subs: "la_subs q w' = la_subs q w" for q using v o v1 by (simp add: same_view_def)
      have apps: "same_setup w w'" using v o by (simp add: same_view_def)
      have "\<not> free w2 a" using v reg(1) by (auto simp: free_def same_view_def fun_eq_iff split: if_splits)
      with v o have own: "ws_SubscribedChannels (w_heap w' a) = Some []" "ws_PresenceData (w_heap w' a) = Some []"
        "ws_app (w_heap w' a) = Some app" by (simp_all add: same_view_def)
      have "coherent w'"
        unfolding coherent_def
      proof (intro conjI allI impI)
        show "registered w' q j \<noteq> None" if "(c, j) \<in> la_subs q w'" for q c j
          using that subs coh reg by (simp add: coherent_def)
        fix q j b assume r: "registered w' q j = Some b"
        show "\<exists>app. ws_app (w_heap w' b) = Some app \<and> app \<in> snd ` set (w_apps w') \<and> map_ok (w_heap w' b)
            \<and> (\<forall>c. tracks w' q j b app c)"
        proof (cases "q = app_ID app \<and> j = i")
          case True
          have "(c, i) \<notin> la_subs (app_ID app) w'" for c
            using coh reg(2) unfolding coherent_def subs by blast
          moreover have "app \<in> snd ` set (w_apps w)"
            using 2(1) FindByKey_Inr [of "w_apps w" key app]
            by (auto simp: validateApp_def GetAllApps_def split: sum.splits if_splits)
          moreover have "b = a" using r reg(1) True by simp
          ultimately show ?thesis using own True apps
            by (simp add: tracks_def subscription_def getPresenceDataForChannel_def map_ok_def)
        next
          case False
          with r reg(1) have rb: "registered w q j = Some b" by auto
          with a(2) have "b \<noteq> a" by (auto simp: free_def)
          with oth have f: "same_but_wire (w_heap w' b) (w_heap w b)" by (simp add: others_def)
          then have "subscription (w_heap w' b) c = subscription (w_heap w b) c"
            "getPresenceDataForChannel (w_heap w' b) c = getPresenceDataForChannel (w_heap w b) c" for c
            by (simp_all add: same_but_wire_def subscription_def getPresenceDataForChannel_def)
          then have "tracks w' q j b app' c = tracks w q j b app' c" for app' c
            by (intro tracks_cong) (simp_all add: subs)
          moreover obtain app' where app': "ws_app (w_heap w b) = Some app'" by (rule coherent_registered [OF coh rb])
          ultimately show ?thesis
            using f coherent_app(2,3,6) [OF coh rb app'] app' apps by (auto simp: same_but_wire_def map_ok_def)
        qed
      qed (rule ok)
      moreover have "broker w' = (broker w)\<lparr>bk_conns := insert (app_ID app, i) (bk_conns (broker w))\<rparr>"
        using subs by (auto simp: broker_def reg(1))
      ultimately have "follows [Connects (app_ID app) i] w w'" using reg(2) apps by (simp add: follows_def)
      with True show ?thesis by auto
    qed
  qed
qed

subsection \<open>The server as a broker\<close>

text \<open>The steps of the server, with what each of them works on.\<close>

datatype work =
    Connection SocketID
  | Message AppID SocketID string
  | Ending AppID SocketID      \<comment> \<open>a read error, the timeout of the watcher, a close\<close>
  | Request ApiRequest
  | Background

inductive works :: "work \<Rightarrow> World \<Rightarrow> World \<Rightarrow> bool" where
  "\<lbrakk>a \<noteq> 0; free w a; serveWs a i upgraded key protocol w = Some (out, w')\<rbrakk> \<Longrightarrow> works (Connection i) w w'"
| "\<lbrakk>registered w p i = Some a; frame_ok (w_lib w) msg; listen_round a (Frame msg) w = Some (go, w')\<rbrakk>
     \<Longrightarrow> works (Message p i msg) w w'"
| "\<lbrakk>registered w p i = Some a; \<forall>msg. r \<noteq> Frame msg; listen_round a r w = Some (go, w')\<rbrakk> \<Longrightarrow> works (Ending p i) w w'"
| "\<lbrakk>registered w p i = Some a; watcher_timeout a w = Some w'\<rbrakk> \<Longrightarrow> works (Ending p i) w w'"
| "\<lbrakk>registered w p i = Some a; ws_Close a w = Some w'\<rbrakk> \<Longrightarrow> works (Ending p i) w w'"
| "\<lbrakk>bound_ok (ar_Call req); backendGroup req w = Some (resp, w')\<rbrakk> \<Longrightarrow> works (Request req) w w'"
| "\<lbrakk>registered w p i = Some a; watcher_signal a w = Some w'\<rbrakk> \<Longrightarrow> works Background w w'"
| "works Background w (la_Compact appID w)"
| "works Background w (on_queue (queue_timer (w_now w) t) w)"
| "works Background w (on_cache (cleanupJob (w_now w)) w)"
| "u \<ge> w_now w \<Longrightarrow> works Background w (w\<lparr>w_now := u\<rparr>)"
| "works Background w (w\<lparr>w_Closing := True\<rparr>)"

lemma server_step_works: "server_step w w' \<longleftrightarrow> (\<exists>l. works l w w')"
proof
  assume "server_step w w'"
  then show "\<exists>l. works l w w'"
  proof (cases rule: server_step.cases)
    case (frame p i a r go)
    then show ?thesis by (cases r) (auto intro: works.intros)
  qed (auto intro: works.intros)
next
  assume "\<exists>l. works l w w'"
  then show "server_step w w'" by (auto elim!: works.cases intro: server_step.intros)
qed

fun allowed :: "World \<Rightarrow> work \<Rightarrow> broker_event list \<Rightarrow> bool" where
  "allowed w (Connection i) es = (es = [] \<or> (\<exists>p. es = [Connects p i]))"
| "allowed w (Message p i msg) es = (\<exists>a app. registered w p i = Some a \<and> ws_app (w_heap w a) = Some app \<and> modest (w_Closing w) p i app msg es)"
| "allowed w (Ending p i) es = (es = [] \<or> leaving p i es)"
| "allowed w (Request req) es = (dismissing (ar_AppID req) es \<and> ((\<exists>u. ar_Call req = PostTerminate u) \<or> es = []))"
| "allowed w Background es = (es = [])"

lemma Compact_view:
  assumes "la_wf w"
  shows "same_view w (la_Compact p w)"
proof (cases "ns_of w p")
  case (Some n)
  have "same_view w (set_ns p (n_CompactMaps n) w)"
    by (rule user_op_view [OF assms Some, of OpCompact]) simp_all
  with Some show ?thesis by (simp add: la_Compact_def)
qed (simp add: la_Compact_def)

lemma works_follows:
  assumes w: "works l w w'" and coh: "coherent w" and ok: "server_ok w" and ids: "wf_apps (w_apps w)"
  shows "\<exists>es. follows es w w' \<and> allowed w l es"
proof -
  have "server_step w w'" using w server_step_works by blast
  from step_ok [OF this ok] have ok': "world_ok w'" by (simp add: server_ok_def)
  have silent: "\<exists>es. follows es w w' \<and> allowed w Background es" if "same_view w w'"
    using silent_follows [OF coh that ok'] by simp
  from w show ?thesis
  proof (cases rule: works.cases)
    case (1 a i upgraded key protocol out)
    from connect_follows [OF coh 1(2-4)] 1(1) show ?thesis by (auto split: if_splits)
  next
    case (2 p i a msg go)
    obtain app where app: "ws_app (w_heap w a) = Some app" by (rule coherent_registered [OF coh 2(2)])
    from round_follows [OF coh server_ok_session(2) [OF ok 2(2)] 2(2) app _ 2(4)] 2 app show ?thesis by auto
  next
    case (3 p i a r go)
    obtain app where app: "ws_app (w_heap w a) = Some app" by (rule coherent_registered [OF coh 3(2)])
    from round_follows [OF coh server_ok_session(2) [OF ok 3(2)] 3(2) app _ 3(4)] 3 show ?thesis by (cases r) auto
  next
    case (4 p i a)
    from watcher_follows(2) [OF coh 4(2) ok' 4(3)] 4(1) show ?thesis by simp
  next
    case (5 p i a)
    from close_leaving [OF coh 5(2) 5(3) [unfolded ws_Close_def]] 5(1) show ?thesis by auto
  next
    case (6 req resp)
    from api_follows [OF coh 6(2,3) ids] 6(1) show ?thesis by simp
  next
    case (7 p i a)
    from watcher_follows(1) [OF coh 7(2) ok' 7(3)] 7(1) show ?thesis by simp
  next
    case (8 appID)
    have "la_wf w" using coh by (simp add: coherent_def world_ok_def)
    from silent [unfolded 8(2), OF Compact_view [OF this]] 8 show ?thesis by simp
  qed (use silent in simp_all)
qed

lemma fresh_coherent: "coherent (fresh_world metrics apps queue h now lib)"
  using fresh_ok [of metrics apps queue h now lib]
  by (simp add: coherent_def server_ok_def fresh_world_def la_Init_def registered_def ns_of_def namespaces_def la_subs_def)

lemma reachable_follows:
  assumes "reachable (fresh_world metrics apps queue h now lib) w" "wf_apps apps"
  shows "server_ok w" "coherent w" "w_apps w = apps"
proof -
  have "server_ok w \<and> coherent w \<and> w_apps w = apps"
    using assms(1) unfolding reachable_def
  proof (induction rule: rtranclp_induct)
    case base
    have "w_apps (fresh_world metrics apps queue h now lib) = apps" by (simp add: fresh_world_def la_Init_def)
    then show ?case using fresh_ok fresh_coherent by simp
  next
    case (step v w)
    then obtain l where "works l v w" using server_step_works by blast
    with works_follows [of l v w] step assms(2) obtain es where "follows es v w" by auto
    with step step_ok [OF step.hyps(2)] show ?case by (simp add: follows_def)
  qed
  then show "server_ok w" "coherent w" "w_apps w = apps" by simp_all
qed

subsection \<open>Properties\<close>

text \<open>C8
  The data of a reachable server are well-typed: a registered socket has an app of the configuration, the app
  it is registered under; every channel it tracks is the object that this app and the name of the channel
  determine; it tracks every channel the adapter has it subscribed to; it has member data for presence channels only,
  and only while it is subscribed to them; and the adapter has connected subscribers only.
\<close>
theorem reachable_typed:
  assumes "reachable (fresh_world metrics apps queue h now lib) w" "wf_apps apps"
  shows "(\<forall>p i a. registered w p i = Some a \<longrightarrow> (\<exists>app. ws_app (w_heap w a) = Some app \<and> app \<in> snd ` set apps \<and> app_ID app = p
      \<and> (\<forall>c ch. subscription (w_heap w a) c = Some ch \<longrightarrow> ch = CreateChannelFromString app c)
      \<and> (\<forall>c. (c, i) \<in> la_subs p w \<longrightarrow> subscription (w_heap w a) c \<noteq> None)
      \<and> (\<forall>c. getPresenceDataForChannel (w_heap w a) c \<noteq> None \<longrightarrow> IsPresenceChannel c \<and> (c, i) \<in> la_subs p w)))
    \<and> (\<forall>p c i. (c, i) \<in> la_subs p w \<longrightarrow> registered w p i \<noteq> None)"
proof (intro conjI allI impI)
  note coh = reachable_follows(2) [OF assms]
  show "registered w p i \<noteq> None" if "(c, i) \<in> la_subs p w" for p c i using coh that unfolding coherent_def by blast
  fix p i a assume r: "registered w p i = Some a"
  obtain app where app: "ws_app (w_heap w a) = Some app" by (rule coherent_registered [OF coh r])
  note k = coherent_app [OF coh r app]
  have t: "subscription (w_heap w a) c = Some ch \<longrightarrow> ch = CreateChannelFromString app c"
    "(c, i) \<in> la_subs p w \<longrightarrow> subscription (w_heap w a) c \<noteq> None"
    "getPresenceDataForChannel (w_heap w a) c \<noteq> None \<longrightarrow> IsPresenceChannel c \<and> (c, i) \<in> la_subs p w" for c ch
    using k(3) [of c] unfolding tracks_def by (auto split: option.splits)
  show "\<exists>app. ws_app (w_heap w a) = Some app \<and> app \<in> snd ` set apps \<and> app_ID app = p
      \<and> (\<forall>c ch. subscription (w_heap w a) c = Some ch \<longrightarrow> ch = CreateChannelFromString app c)
      \<and> (\<forall>c. (c, i) \<in> la_subs p w \<longrightarrow> subscription (w_heap w a) c \<noteq> None)
      \<and> (\<forall>c. getPresenceDataForChannel (w_heap w a) c \<noteq> None \<longrightarrow> IsPresenceChannel c \<and> (c, i) \<in> la_subs p w)"
    using app k(1,2) t reachable_follows(3) [OF assms] by blast
qed

text \<open>C3
  The server refines the broker: from a reachable state every piece of work is a run of the broker with the
  events that are allowed for it. A connection connects at most the new socket; a message has at most one effect,
  on its own socket: a subscription that it asks for with a right token, one unsubscription, or that the socket
  leaves; a read error, a timeout or a close makes the socket leave; of the REST requests only the termination of a
  user's connections has an effect, and it makes sockets of that app leave; the background has none.
\<close>
theorem server_refines_broker:
  assumes "reachable (fresh_world metrics apps queue h now lib) w" "wf_apps apps" "works l w w'"
  shows "\<exists>es. broker_run es (broker w) (broker w') \<and> allowed w l es"
proof -
  note r = reachable_follows [OF assms(1,2)]
  from works_follows [OF assms(3) r(2,1)] r(3) assms(2) show ?thesis by (auto simp: follows_def)
qed

text \<open>
  Nobody is subscribed without authorisation: when a step of a reachable server adds a subscription, the server is not closing and the step is a frame
  of that socket, registered under that id, which asks for this channel, and whose token, for a private or
  presence channel, was made with the secret of its app for the socket's id, the channel and the channel data.
\<close>
theorem only_authorised_subscribe:
  assumes "reachable (fresh_world metrics apps queue h now lib) w" "wf_apps apps" "server_step w w'"
    and "(c, i) \<in> la_subs p w'" "(c, i) \<notin> la_subs p w"
  shows "\<not> w_Closing w \<and> (\<exists>a app msg go sp. registered w p i = Some a \<and> ws_app (w_heap w a) = Some app \<and> app \<in> snd ` set apps
    \<and> listen_round a (Frame msg) w = Some (go, w') \<and> decode_subscribe msg = Some sp \<and> sp_Channel sp = c
    \<and> authorised app i sp)"
proof -
  note r = reachable_follows [OF assms(1,2)]
  from assms(3) obtain l where l: "works l w w'" using server_step_works by blast
  from works_follows [OF l r(2,1)] r(3) assms(2) obtain es where
    es: "broker_run es (broker w) (broker w')" "allowed w l es" by (auto simp: follows_def)
  from broker_run_subs [OF es(1), of p c i] assms(4,5) have "Subscribes p c i \<in> set es" by simp
  with es(2) obtain msg a app sp where m: "l = Message p i msg" "registered w p i = Some a" "ws_app (w_heap w a) = Some app"
    "decode_subscribe msg = Some sp" "sp_Channel sp = c" "authorised app i sp" "\<not> w_Closing w"
    by (cases l) (auto simp: modest_def leaving_def dismissing_def)
  from l m(1,2) obtain go where "listen_round a (Frame msg) w = Some (go, w')" by (cases rule: works.cases) auto
  with m coherent_app(2) [OF r(2) m(2,3)] r(3) show ?thesis by blast
qed

subsection \<open>An example\<close>

text \<open>A client of a fresh server, which then subscribes to the public channel \<open>d\<close>.\<close>

lemma demo_client:
  obtains w where "reachable demo_start w" "registered w ''1'' ''9.9'' = Some 5" "\<not> w_Closing w"
    "\<not> ws_closed (w_heap w 5)" "ws_conn (w_heap w 5) \<noteq> None" "ws_userID (w_heap w 5) = []"
    "ws_app (w_heap w 5) = Some demo_app" "la_subs ''1'' w = {}"
proof -
  have n: "fst (Str2Int ''7'') = 7" by code_simp
  have "\<exists>w. serveWs 5 ''9.9'' (Some demo_conn) ''k'' ''7'' demo_start = Some (Accepted, w) \<and> \<not> w_Closing w
    \<and> \<not> ws_closed (w_heap w 5) \<and> ws_conn (w_heap w 5) \<noteq> None \<and> ws_userID (w_heap w 5) = []
    \<and> ws_app (w_heap w 5) = Some demo_app \<and> la_subs ''1'' w = {} \<and> registered w ''1'' ''9.9'' = Some 5"
    using n by (simp add: Let_def serveWs_def demo_start_def fresh_world_def la_Init_def validateApp_def
        validateConnectionLimits_def la_GetSocketsCount_def admit_socket_def addSocketToAdapter_def la_AddSocket_def put_ns_def
        ns_of_def namespaces_def set_ns_def n_AddSocket_def blankNamespace_def initializeWebSocketConnection_def ws_Send_def
        resetReadTimeout_def deref_def createWebSocket_def demo_conn_def la_subs_def registered_def abs_ns_def rel_of_def)
  then obtain w where w: "serveWs 5 ''9.9'' (Some demo_conn) ''k'' ''7'' demo_start = Some (Accepted, w)"
    "\<not> w_Closing w" "\<not> ws_closed (w_heap w 5)" "ws_conn (w_heap w 5) \<noteq> None" "ws_userID (w_heap w 5) = []"
    "ws_app (w_heap w 5) = Some demo_app" "la_subs ''1'' w = {}" "registered w ''1'' ''9.9'' = Some 5"
    by (elim exE conjE) (rule that)
  have "free demo_start 5"
    by (simp add: free_def registered_def ns_of_def namespaces_def demo_start_def fresh_world_def la_Init_def)
  then have "reachable demo_start w"
    unfolding reachable_def by (intro r_into_rtranclp server_step.connect [OF _ _ w(1)]) simp_all
  then show thesis by (rule that) (use w in simp_all)
qed

lemma demo_apps: "wf_apps [(''1'', demo_app)]"
  by (simp add: wf_apps_def wf_map_def)

lemma demo_round:
  obtains w go w' where "reachable demo_start w" "registered w ''1'' ''9.9'' = Some 5" "frame_ok (w_lib w) demo_subscribe"
    "listen_round 5 (Frame demo_subscribe) w = Some (go, w')" "(''d'', ''9.9'') \<in> la_subs ''1'' w'" "la_subs ''1'' w = {}"
proof -
  obtain w where w: "reachable demo_start w" "registered w ''1'' ''9.9'' = Some 5" "\<not> w_Closing w"
    "\<not> ws_closed (w_heap w 5)" "ws_conn (w_heap w 5) \<noteq> None" "ws_userID (w_heap w 5) = []"
    "ws_app (w_heap w 5) = Some demo_app" "la_subs ''1'' w = {}" by (rule demo_client)
  note r = reachable_follows [OF w(1) [unfolded demo_start_def] demo_apps]
  note s = server_ok_session [OF r(1) w(2)]
  have f: "frame_ok (w_lib w) demo_subscribe"
    using demo_channel by (simp add: frame_ok_def member_given_def)
  have len: "2 < length demo_subscribe" "length demo_subscribe \<le> MaxMessageSize" by code_simp+
  from listen_round_runs [OF s(4), of "Frame demo_subscribe"] f obtain go w' where
    h: "listen_round 5 (Frame demo_subscribe) w = Some (go, w')" by (auto simp: runs_iff)
  with w len have "handle_frame 5 demo_subscribe w = Some w'" by (auto simp: listen_round_def bind_eq_Some_conv)
  then obtain w1 w2 e w3 w4 where
    st: "resetReadTimeout 5 w = Some w1" "count_frame 5 w1 = Some w2" "handleSubscribeRequest 5 demo_subscribe w2 = Some (e, w3)"
      "mark_received 5 w3 = Some w4" "report_error 5 e w4 = Some w'"
    by (auto simp: handle_frame_def parseIncomingPayload_def dispatch_def bind_eq_Some_conv)
  have q1: "quiet 5 w w1" using resetReadTimeout_runs [OF s(3)] st(1) by (simp add: runs_iff)
  have "quiet 5 w1 w2" using count_frame_runs [OF step_okay(2) [OF q1]] st(2) by (simp add: runs_iff)
  from quiet_trans [OF q1 this] have q: "quiet 5 w w2" .
  have c: "\<not> w_Closing w2"
    using w(3) st(1,2) by (auto simp: resetReadTimeout_def count_frame_def bind_eq_Some_conv split: option.splits if_splits)
  have w2: "world_ok w2" "registered w2 ''1'' ''9.9'' = Some 5" "ws_app (w_heap w2 5) = Some demo_app" "ws_userID (w_heap w2 5) = []"
    using q w by (simp_all add: quiet_def step_def same_id_def)
  have "la_subs ''1'' w3 = insert (''d'', ''9.9'') (la_subs ''1'' w2)"
    using subscribe_spec [OF w2(1,2) c _ w2(3) _ _ st(3)] demo_channel demo_may_join w2(4) by simp
  moreover have "same_view w3 w'" by (rule same_view_trans [OF frame_views(3) [OF st(4)] frame_views(4) [OF st(5)]])
  ultimately have "(''d'', ''9.9'') \<in> la_subs ''1'' w'" by (simp add: same_view_def)
  with that w f h show thesis by blast
qed

theorem reachable_typed_witness:
  "\<exists>w. registered w ''1'' ''9.9'' = Some 5 \<and> (\<exists>app. ws_app (w_heap w 5) = Some app \<and> app_ID app = ''1'')"
proof -
  obtain w where w: "reachable demo_start w" "registered w ''1'' ''9.9'' = Some 5" by (rule demo_client)
  from reachable_typed [OF w(1) [unfolded demo_start_def] demo_apps] w(2) show ?thesis by blast
qed

theorem server_refines_broker_witness:
  "\<exists>w w' es. (''d'', ''9.9'') \<in> la_subs ''1'' w' \<and> broker_run es (broker w) (broker w')
    \<and> allowed w (Message ''1'' ''9.9'' demo_subscribe) es"
proof -
  obtain w go w' where w: "reachable demo_start w" "registered w ''1'' ''9.9'' = Some 5" "frame_ok (w_lib w) demo_subscribe"
    "listen_round 5 (Frame demo_subscribe) w = Some (go, w')" "(''d'', ''9.9'') \<in> la_subs ''1'' w'" by (rule demo_round)
  from server_refines_broker [OF w(1) [unfolded demo_start_def] demo_apps works.intros(2) [OF w(2-4)]] w(5) show ?thesis by blast
qed

theorem only_authorised_subscribe_witness:
  "\<exists>w w' a app msg go sp. (''d'', ''9.9'') \<in> la_subs ''1'' w' \<and> registered w ''1'' ''9.9'' = Some a
    \<and> listen_round a (Frame msg) w = Some (go, w') \<and> decode_subscribe msg = Some sp \<and> sp_Channel sp = ''d'' \<and> authorised app ''9.9'' sp"
proof -
  obtain w go w' where w: "reachable demo_start w" "registered w ''1'' ''9.9'' = Some 5" "frame_ok (w_lib w) demo_subscribe"
    "listen_round 5 (Frame demo_subscribe) w = Some (go, w')" "(''d'', ''9.9'') \<in> la_subs ''1'' w'" "la_subs ''1'' w = {}"
    by (rule demo_round)
  have "server_step w w'" by (rule server_step.frame [OF w(2) _ w(4)]) (use w(3) in simp)
  from only_authorised_subscribe [OF w(1) [unfolded demo_start_def] demo_apps this w(5)] w(5,6) show ?thesis by blast
qed

end
