(* ===== verification/Broker_Safety.thy ===== *)
theory Broker_Safety
  imports Broker_Server
begin

text \<open>
  What follows from the refinement of the broker for whole runs of the server: every subscription there is
  was authorised when it was made, apps are separated from one another, and a server that is closing only
  loses connections and subscriptions.
\<close>

subsection \<open>Brokers ordered by what they hold\<close>

instantiation Broker_ext :: (order) order
begin

definition less_eq_Broker_ext :: "'a Broker_scheme \<Rightarrow> 'a Broker_scheme \<Rightarrow> bool" where
  "less_eq_Broker_ext b b' = (bk_conns b \<subseteq> bk_conns b' \<and> bk_subs b \<subseteq> bk_subs b' \<and> Broker.more b \<le> Broker.more b')"

definition less_Broker_ext :: "'a Broker_scheme \<Rightarrow> 'a Broker_scheme \<Rightarrow> bool" where
  "less_Broker_ext b b' = (b \<le> b' \<and> \<not> b' \<le> b)"

instance
  by standard (auto simp: less_eq_Broker_ext_def less_Broker_ext_def)

end

lemma broker_le_iff:
  "broker w \<le> broker w' \<longleftrightarrow> (\<forall>p i. registered w p i \<noteq> None \<longrightarrow> registered w' p i \<noteq> None) \<and> (\<forall>p. la_subs p w \<subseteq> la_subs p w')"
  by (simp add: less_eq_Broker_ext_def subset_iff)

text \<open>The events that take something away, and those that concern an app.\<close>

fun lessens :: "broker_event \<Rightarrow> bool" where
  "lessens (Connects p i) = False"
| "lessens (Disconnects p i) = True"
| "lessens (Subscribes p c i) = False"
| "lessens (Unsubscribes p c i) = True"

fun event_app :: "broker_event \<Rightarrow> AppID" where
  "event_app (Connects p i) = p"
| "event_app (Disconnects p i) = p"
| "event_app (Subscribes p c i) = p"
| "event_app (Unsubscribes p c i) = p"

lemma broker_step_lessens: "broker_step e b b' \<Longrightarrow> lessens e \<Longrightarrow> b' \<le> b"
  by (cases e) (auto simp: less_eq_Broker_ext_def)

lemma broker_run_lessens: "broker_run es b b' \<Longrightarrow> list_all lessens es \<Longrightarrow> b' \<le> b"
  by (induction rule: broker_run.induct) (auto intro: order_trans dest: broker_step_lessens)

lemma broker_step_other:
  "broker_step e b b' \<Longrightarrow> event_app e \<noteq> q \<Longrightarrow>
     ((q, i) \<in> bk_conns b' \<longleftrightarrow> (q, i) \<in> bk_conns b) \<and> ((q, c, i) \<in> bk_subs b' \<longleftrightarrow> (q, c, i) \<in> bk_subs b)"
  by (cases e) auto

lemma broker_run_other:
  "broker_run es b b' \<Longrightarrow> \<forall>e \<in> set es. event_app e \<noteq> q \<Longrightarrow>
     ((q, i) \<in> bk_conns b' \<longleftrightarrow> (q, i) \<in> bk_conns b) \<and> ((q, c, i) \<in> bk_subs b' \<longleftrightarrow> (q, c, i) \<in> bk_subs b)"
  by (induction rule: broker_run.induct) (use broker_step_other in auto)

subsection \<open>Steps of a reachable server\<close>

lemma reachable_step:
  assumes "reachable (fresh_world metrics apps queue h now lib) w" "wf_apps apps" "works l w w'"
  obtains es where "broker_run es (broker w) (broker w')" "allowed w l es" "w_Closing w \<longrightarrow> w_Closing w'"
    "reachable (fresh_world metrics apps queue h now lib) w'"
proof -
  note r = reachable_follows [OF assms(1,2)]
  from assms(3) have "server_step w w'" using server_step_works by blast
  with assms(1) have r': "reachable (fresh_world metrics apps queue h now lib) w'" unfolding reachable_def by simp
  from works_follows [OF assms(3) r(2,1)] r(3) assms(2) obtain es where "follows es w w'" "allowed w l es" by auto
  with r' show thesis by (intro that [of es]) (auto simp: follows_def)
qed


subsection \<open>Separation of apps\<close>

text \<open>The app a piece of work belongs to: that of its socket, or the one a request is signed for.\<close>

fun work_app :: "work \<Rightarrow> AppID option" where
  "work_app (Connection i) = None"
| "work_app (Message p i msg) = Some p"
| "work_app (Ending p i) = Some p"
| "work_app (Request req) = Some (ar_AppID req)"
| "work_app Background = None"

text \<open>C7
  Apps are separated: what a client or the backend of one app does, through any sequence of its frames, errors, timeouts,
  closes and REST requests, changes nothing for another app: its sockets stay connected and keep their subscriptions, and it
  gains none.
\<close>
theorem apps_separated:
  assumes "reachable (fresh_world metrics apps queue h now lib) w" "wf_apps apps"
    and "(\<lambda>u v. \<exists>l. works l u v \<and> work_app l = Some p)\<^sup>*\<^sup>* w w'" "q \<noteq> p"
  shows "(registered w' q i \<noteq> None \<longleftrightarrow> registered w q i \<noteq> None) \<and> la_subs q w' = la_subs q w"
proof -
  have "(\<forall>i. registered w' q i \<noteq> None \<longleftrightarrow> registered w q i \<noteq> None) \<and> la_subs q w' = la_subs q w
    \<and> reachable (fresh_world metrics apps queue h now lib) w'"
    using assms(3)
  proof (induction rule: rtranclp_induct)
    case base
    with assms(1) show ?case by simp
  next
    case (step u v)
    then obtain l where l: "works l u v" "work_app l = Some p" by blast
    obtain es where es: "broker_run es (broker u) (broker v)" "allowed u l es" "reachable (fresh_world metrics apps queue h now lib) v"
      by (rule reachable_step [OF conjunct2 [OF conjunct2 [OF step.IH]] assms(2) l(1)])
    have "\<forall>e \<in> set es. event_app e = p"
      using es(2) l(2) by (cases l) (auto simp: modest_def leaving_def dismissing_def)
    with assms(4) have "\<forall>e \<in> set es. event_app e \<noteq> q" by simp
    from broker_run_other [OF es(1) this] have "\<forall>i. registered v q i \<noteq> None \<longleftrightarrow> registered u q i \<noteq> None" "la_subs q v = la_subs q u"
      by auto
    with step.IH es(3) show ?case by simp
  qed
  then show ?thesis by simp
qed

subsection \<open>Every subscription was authorised\<close>

text \<open>The state in which the frame that made a subscription arrived.\<close>

definition subscribed_by :: "ArrayAppManager \<Rightarrow> AppID \<Rightarrow> ChannelName \<Rightarrow> SocketID \<Rightarrow> World \<Rightarrow> World \<Rightarrow> bool" where
  "subscribed_by apps p c i u v =
     (\<exists>a app msg sp. registered u p i = Some a \<and> ws_app (w_heap u a) = Some app \<and> app \<in> snd ` set apps \<and> app_ID app = p
        \<and> works (Message p i msg) u v \<and> decode_subscribe msg = Some sp \<and> sp_Channel sp = c \<and> authorised app i sp)"

lemma added_subscription:
  assumes "reachable (fresh_world metrics apps queue h now lib) u" "wf_apps apps" "server_step u v"
    and "(c, i) \<in> la_subs p v" "(c, i) \<notin> la_subs p u"
  shows "subscribed_by apps p c i u v"
proof -
  note r = reachable_follows [OF assms(1,2)]
  from assms(3) obtain l where l: "works l u v" using server_step_works by blast
  obtain es where es: "broker_run es (broker u) (broker v)" "allowed u l es" by (rule reachable_step [OF assms(1,2) l])
  from broker_run_subs [OF es(1), of p c i] assms(4,5) have "Subscribes p c i \<in> set es" by simp
  with es(2) obtain msg a app sp where m: "l = Message p i msg" "registered u p i = Some a" "ws_app (w_heap u a) = Some app"
    "decode_subscribe msg = Some sp" "sp_Channel sp = c" "authorised app i sp"
    by (cases l) (auto simp: modest_def leaving_def dismissing_def)
  with l coherent_app(1,2) [OF r(2) m(2,3)] r(3) show ?thesis unfolding subscribed_by_def by blast
qed

text \<open>C4
  Nobody is subscribed who was not authorised: for every subscription that a reachable server holds there was a moment, earlier in
  its run, when a frame of this very socket asked for this channel with a token that, for a private or presence channel,
  was made with the secret of its app, and from that frame on the subscription has been held without a gap.
\<close>
theorem subscriptions_authorised:
  assumes "reachable (fresh_world metrics apps queue h now lib) w" "wf_apps apps" "(c, i) \<in> la_subs p w"
  shows "\<exists>u v. reachable (fresh_world metrics apps queue h now lib) u \<and> subscribed_by apps p c i u v
    \<and> (\<lambda>x y. server_step x y \<and> (c, i) \<in> la_subs p x \<and> (c, i) \<in> la_subs p y)\<^sup>*\<^sup>* v w"
  using assms(1,3) unfolding reachable_def
proof (induction rule: rtranclp_induct)
  case base
  then show ?case by (simp add: fresh_world_def la_Init_def la_subs_def ns_of_def namespaces_def)
next
  case (step x y)
  let ?kept = "\<lambda>x y. server_step x y \<and> (c, i) \<in> la_subs p x \<and> (c, i) \<in> la_subs p y"
  show ?case
  proof (cases "(c, i) \<in> la_subs p x")
    case True
    from step.IH [OF this] obtain u v where "server_step\<^sup>*\<^sup>* (fresh_world metrics apps queue h now lib) u" "subscribed_by apps p c i u v"
      "?kept\<^sup>*\<^sup>* v x" by blast
    moreover from step.hyps(2) step.prems True have "?kept x y" by simp
    ultimately show ?thesis using rtranclp.rtrancl_into_rtrancl [of ?kept v x y] by blast
  next
    case False
    from added_subscription [OF _ assms(2) step.hyps(2) step.prems False] step.hyps(1)
    have "subscribed_by apps p c i x y" unfolding reachable_def .
    with step.hyps(1) show ?thesis by blast
  qed
qed

subsection \<open>Examples\<close>


theorem apps_separated_witness:
  "\<exists>w w'. (''d'', ''9.9'') \<in> la_subs ''1'' w' \<and> (''d'', ''9.9'') \<notin> la_subs ''1'' w \<and> la_subs ''2'' w' = la_subs ''2'' w"
proof -
  obtain w go w' where w: "reachable demo_start w" "registered w ''1'' ''9.9'' = Some 5" "frame_ok (w_lib w) demo_subscribe"
    "listen_round 5 (Frame demo_subscribe) w = Some (go, w')" "(''d'', ''9.9'') \<in> la_subs ''1'' w'" "la_subs ''1'' w = {}"
    by (rule demo_round)
  have "works (Message ''1'' ''9.9'' demo_subscribe) w w'" by (rule works.intros(2) [OF w(2-4)])
  then have "(\<lambda>u v. \<exists>l. works l u v \<and> work_app l = Some ''1'')\<^sup>*\<^sup>* w w'" by (intro r_into_rtranclp) auto
  from apps_separated [OF w(1) [unfolded demo_start_def] demo_apps this, of "''2''" "[]"] have "la_subs ''2'' w' = la_subs ''2'' w" by simp
  with w(5,6) show ?thesis by (intro exI [of _ w] exI [of _ w']) simp
qed

theorem subscriptions_authorised_witness:
  "\<exists>u v. reachable demo_start u \<and> subscribed_by [(''1'', demo_app)] ''1'' ''d'' ''9.9'' u v"
proof -
  obtain w go w' where w: "reachable demo_start w" "registered w ''1'' ''9.9'' = Some 5" "frame_ok (w_lib w) demo_subscribe"
    "listen_round 5 (Frame demo_subscribe) w = Some (go, w')" "(''d'', ''9.9'') \<in> la_subs ''1'' w'" by (rule demo_round)
  have "server_step w w'" by (rule server_step.frame [OF w(2) _ w(4)]) (use w(3) in simp)
  with w(1) have "reachable demo_start w'" unfolding reachable_def by (rule rtranclp.rtrancl_into_rtrancl)
  from subscriptions_authorised [OF this [unfolded demo_start_def] demo_apps w(5)] show ?thesis
    unfolding demo_start_def by blast
qed

end
