(* ===== verification/Requests.thy ===== *)
theory Requests
  imports Handlers
begin

text \<open>
  Client events and signing in (\<open>handleClientEvent\<close>, \<open>handleUserSignin\<close> of
  \<open>internal/websocket.go\<close>): who receives what, and whose identity a socket can take; and the
  requests the server does not survive or answers wrongly.
\<close>

subsection \<open>Who receives a message\<close>

text \<open>The sockets of an app that a message to a channel reaches, the sender left out.\<close>

definition audience :: "AppID \<Rightarrow> ChannelName \<Rightarrow> addr \<Rightarrow> World \<Rightarrow> addr set" where
  "audience p channel sender w =
     {b. b \<noteq> sender \<and> live w b \<and> (\<exists>j. (channel, j) \<in> la_subs p w \<and> registered w p j = Some b)}"

lemma world_ok_sockets: "world_ok w \<Longrightarrow> ns_of w p = Some n \<Longrightarrow> sockets_ok (w_heap w) n"
  unfolding sockets_ok_def world_ok_def
  by (fastforce simp: ns_of_def reg_ok_def dest: map_of_SomeD)

lemma la_subs_IsInChannel: "ns_of w p = Some n \<Longrightarrow> (c, j) \<in> la_subs p w \<longleftrightarrow> n_IsInChannel n j c"
  by (auto simp: la_subs_def abs_ns_def rel_of_def n_IsInChannel_def split: option.split)

lemma la_IsInChannel_subs: "la_IsInChannel p c j w \<longleftrightarrow> (c, j) \<in> la_subs p w"
  by (auto simp: la_IsInChannel_def la_subs_def abs_ns_def rel_of_def n_IsInChannel_def split: option.split)

lemma la_Send_except_self:
  assumes ok: "world_ok w" and r: "registered w p i = Some a" and i: "i \<noteq> []"
    and c: "\<not> HasPrefix c SocketRushServerToUserPrefix"
  obtains w' where "la_Send p c msg [i] w = Some (None, w')" "send_frame w' w"
    "\<And>b. wire w' b = wire w b @ (if b \<in> audience p c a w then [msg] else [])" "\<And>b. live w' b = live w b"
proof -
  from r obtain n where n: "ns_of w p = Some n" by (auto simp: registered_def split: option.splits)
  have aud: "b \<in> subscribers n c [i] \<and> live w b \<longleftrightarrow> b \<in> audience p c a w" for b
  proof -
    have "registered w p j = Some b \<Longrightarrow> j \<noteq> i \<longleftrightarrow> b \<noteq> a" for j
      using registered_unique [OF ok, of p j b p i] r by auto
    then show ?thesis
      using n i by (auto simp: subscribers_def audience_def la_subs_IsInChannel [OF n] registered_def)
  qed
  have sn: "\<forall>b \<in> subscribers n c [i]. sane w b"
    using world_okD(3) [OF ok, of p] n by (auto simp: subscribers_def registered_def)
  have "\<exists>w'. la_Send p c msg [i] w = Some (None, w') \<and> send_frame w' w
      \<and> (\<forall>b. wire w' b = wire w b @ (if b \<in> subscribers n c [i] \<and> live w b then [msg] else []))
      \<and> (\<forall>b. live w' b = live w b)"
    by (rule la_Send_channel [OF n world_ok_sockets [OF ok n] c sn, where msg = msg]) (intro exI conjI allI)
  then show thesis unfolding aud by (elim exE conjE) (rule that, assumption, assumption, blast+)
qed

lemma wire_on_queue [simp]: "wire (on_queue f w) b = wire w b"
  by (simp add: wire_def on_queue_def)

text \<open>Changes of the state that a client does not see.\<close>

definition unseen :: "World \<Rightarrow> World \<Rightarrow> bool" where
  "unseen w w' = ((\<forall>b. ws_conn (w_heap w' b) = ws_conn (w_heap w b) \<and> ws_closed (w_heap w' b) = ws_closed (w_heap w b)
       \<and> ws_server (w_heap w' b) = ws_server (w_heap w b) \<and> ws_app (w_heap w' b) = ws_app (w_heap w b))
     \<and> w_cache w' = w_cache w \<and> w_now w' = w_now w)"

lemma unseen_wire: "unseen w w' \<Longrightarrow> wire w' b = wire w b" "unseen w w' \<Longrightarrow> live w' b = live w b"
  by (simp_all add: unseen_def wire_def live_def)

lemma unseen_refl [simp]: "unseen w w"
  by (simp add: unseen_def)

lemma unseen_trans: "unseen w w' \<Longrightarrow> unseen w' w'' \<Longrightarrow> unseen w w''"
  by (simp add: unseen_def)

lemma unseen_adopt: "unseen w (adopt_user a ch resp w)"
  by (auto simp: unseen_def adopt_user_def signalAuthenticated_def Let_def split: option.split)

lemma unseen_announce: "unseen w (announce_occupied app ch resp w)"
  by (simp add: unseen_def announce_occupied_def on_queue_def)

lemma unseen_track: "track_channel a ch w = Some w' \<Longrightarrow> unseen w w'"
  by (auto simp: unseen_def track_channel_def split: if_splits)

text \<open>One message to the socket itself.\<close>

lemma ws_Send_self:
  assumes "sane w a"
  obtains w' where "ws_Send a msg w = Some w'" "send_frame w' w"
    "\<And>b. wire w' b = wire w b @ (if b = a \<and> live w a then [msg] else [])"
proof -
  have "\<exists>w'. ws_Send a msg w = Some w' \<and> send_frame w' w
      \<and> (\<forall>b. wire w' b = wire w b @ (if b = a \<and> live w a then [msg] else []))"
    by (rule ws_Send_effect [OF assms, where msg = msg]) (intro exI conjI allI, assumption+, simp cong: conj_cong)
  then show thesis by (elim exE conjE) (rule that, assumption, assumption, blast)
qed

subsection \<open>Client events\<close>

text \<open>The conditions on a client event.\<close>

definition event_allowed :: "App \<Rightarrow> string \<Rightarrow> string \<Rightarrow> bool" where
  "event_allowed app eventName msgRaw =
     (app_EnableClientMessages app \<and> int (length eventName) \<le> app_MaxEventNameLength app
      \<and> int (length msgRaw) div 1024 \<le> app_MaxEventPayloadInKb app)"

lemma validateClientEvent_allowed:
  assumes "ws_app (w_heap w a) = Some app" "event_allowed app ev msg"
  shows "validateClientEvent a c ev msg w = Some (None, w)"
  using assms by (simp add: validateClientEvent_def app_of_def event_allowed_def not_less)

lemma validateClientEvent_refused:
  assumes "ws_app (w_heap w a) = Some app" "\<not> event_allowed app ev msg"
  shows "\<exists>t. validateClientEvent a c ev msg w =
    do { w \<leftarrow> sendChannelError a c ErrCodeClientEventRejected t w;
         Some (Some (NewError ErrCodeClientEventRejected []), w) }"
  using assms
  by (intro exI [of _ "if \<not> app_EnableClientMessages app then ''Client events are disabled for this app''
        else if int (length ev) > app_MaxEventNameLength app then ''Event name is too long'' else ''Payload is too big''"])
    (simp add: validateClientEvent_def app_of_def event_allowed_def not_le, blast)

text \<open>C18
  A client event that is allowed, on a channel the socket is subscribed to, reaches every other
  live subscriber of the channel exactly once, carrying the name, the data and the user id of the
  sender's presence member, and nobody else; no subscription changes.
\<close>
theorem client_event_relayed:
  assumes "world_ok w" "registered w p i = Some a" "i \<noteq> []" "ws_app (w_heap w a) = Some app"
    and "decode_client_event msg = Some ev" "subscription (w_heap w a) (cce_Channel ev) = Some ch"
    and "event_allowed app (cce_Event ev) msg" "(cce_Channel ev, i) \<in> la_subs p w"
    and "client_event_user (w_heap w a) ch (cce_Channel ev) = Some (Some u)"
    and "\<not> HasPrefix (cce_Channel ev) SocketRushServerToUserPrefix"
  shows "\<exists>w'. handleClientEvent a msg w = Some (None, w') \<and> w_Namespaces w' = w_Namespaces w
    \<and> (\<forall>b. wire w' b = wire w b @ (if b \<in> audience p (cce_Channel ev) a w
         then [ToJson (w_lib w) True (event_msg (cce_Event ev) (DRaw (cce_Data ev)) (cce_Channel ev) u)] else []))"
proof -
  from world_okD(2) [OF assms(1,2)] assms(4) have id: "ws_ID (w_heap w a) = i" "app_ID app = p" "ws_server (w_heap w a)"
    by (auto simp: reg_ok_def attached_def)
  from la_Send_except_self [OF assms(1,2,3,10)] obtain w' where
    w': "la_Send p (cce_Channel ev) (ToJson (w_lib w) True (event_msg (cce_Event ev) (DRaw (cce_Data ev)) (cce_Channel ev) u)) [i] w = Some (None, w')"
    "send_frame w' w"
    "\<And>b. wire w' b = wire w b @ (if b \<in> audience p (cce_Channel ev) a w
         then [ToJson (w_lib w) True (event_msg (cce_Event ev) (DRaw (cce_Data ev)) (cce_Channel ev) u)] else [])" by blast
  have "handleClientEvent a msg w = relayClientEvent a ch ev w"
    using assms(5,6) validateClientEvent_allowed [OF assms(4,7), of "cce_Channel ev"] by (simp add: handleClientEvent_def)
  also have "relayClientEvent a ch ev w = Some (None, on_queue (SendClientEvent (w_now w') app (cce_Channel ev) (cce_Event ev)
      (case cce_Data ev of None \<Rightarrow> [] | Some d \<Rightarrow> d) i u) w')"
    using assms(4,8,9) id w'(1) by (simp add: relayClientEvent_def server_of_def app_of_def Let_def la_IsInChannel_subs)
  finally show ?thesis using w'(2,3) by (simp add: send_frame_def on_queue_def wire_def)
qed

text \<open>The channel \<open>c\<close> of the example has two subscribers; the first one sends an event.\<close>

abbreviation demo_event :: string where
  "demo_event \<equiv> client_event_request ''client-e'' ''c'' (JStr ''1'')"

lemma demo_subs: "la_subs ''1'' demo_world = {(''c'', ''1.1''), (''c'', ''2.2'')}"
  by (auto simp: la_subs_def abs_ns_def rel_of_def demo_ns_def split: if_splits)

lemma demo_subscription: "subscription (w_heap demo_world a) ''c'' = Some (CreateChannelFromString demo_app ''c'')"
  by (simp add: subscription_def)

lemma demo_c: "ch_Type (CreateChannelFromString app ''c'') \<noteq> ChannelTypePresence" "\<not> HasPrefix ''c'' SocketRushServerToUserPrefix"
proof -
  have "\<not> IsPresenceChannel ''c''" "\<not> HasPrefix ''c'' SocketRushServerToUserPrefix" by code_simp+
  then show "ch_Type (CreateChannelFromString app ''c'') \<noteq> ChannelTypePresence"
    "\<not> HasPrefix ''c'' SocketRushServerToUserPrefix" by (simp_all add: CreateChannel_Type)
qed

theorem client_event_relayed_witness:
  "\<exists>w'. handleClientEvent 1 demo_event demo_world = Some (None, w')
    \<and> wire w' 2 = [ToJson (w_lib demo_world) True (event_msg ''client-e'' (DRaw (Some (marshal (JStr ''1'')))) ''c'' [])] \<and> wire w' 1 = []"
proof -
  have "event_allowed demo_app ''client-e'' demo_event" by (simp add: event_allowed_def client_event_request_def marshal_string_def) code_simp
  moreover have "client_event_user (demo_heap 1) (CreateChannelFromString demo_app ''c'') ''c'' = Some (Some [])"
    using demo_c by (simp add: client_event_user_def)
  moreover have "1 \<notin> audience ''1'' ''c'' 1 demo_world" "2 \<in> audience ''1'' ''c'' 1 demo_world"
    by (simp_all add: audience_def live_def demo_subs demo_registered demo_conn_def exI [of _ "''2.2''"])
  moreover have "wire demo_world b = []" for b by (simp add: wire_def demo_conn_def)
  ultimately obtain w' where "handleClientEvent 1 demo_event demo_world = Some (None, w')"
    "\<forall>b. wire w' b = (if b \<in> audience ''1'' ''c'' 1 demo_world
       then [ToJson (w_lib demo_world) True (event_msg ''client-e'' (DRaw (Some (marshal (JStr ''1'')))) ''c'' [])] else [])"
    using client_event_relayed [of demo_world "''1''" "''1.1''" 1 demo_app demo_event _ "CreateChannelFromString demo_app ''c''" "[]"] demo_c demo_subscription
    by (auto simp: demo_registered demo_subs)
  with \<open>1 \<notin> audience ''1'' ''c'' 1 demo_world\<close> \<open>2 \<in> audience ''1'' ''c'' 1 demo_world\<close> show ?thesis by simp
qed

text \<open>
  A client event that is not allowed is refused: on a channel the socket is not subscribed to, in an
  app without client events, or with a name or payload over the limit, the sender alone is sent one
  error, nobody receives the event and no subscription changes.
\<close>
theorem client_event_refused:
  assumes "world_ok w" "registered w p i = Some a" "ws_app (w_heap w a) = Some app"
    and "decode_client_event msg = Some ev"
    and "subscription (w_heap w a) (cce_Channel ev) = None \<or> \<not> event_allowed app (cce_Event ev) msg"
  shows "\<exists>r w' t. handleClientEvent a msg w = Some (r, w') \<and> w_Namespaces w' = w_Namespaces w
    \<and> (\<forall>b. wire w' b = wire w b @ (if b = a \<and> live w a
         then [ToJson (w_lib w) True (event_msg ''pusher:error'' (DError (code_int ErrCodeClientEventRejected) t) (cce_Channel ev) [])] else []))"
proof -
  have sane: "sane w a" by (rule world_okD(3) [OF assms(1,2)])
  have send: "\<exists>w'. sendChannelError a (cce_Channel ev) ErrCodeClientEventRejected t w = Some w' \<and> w_Namespaces w' = w_Namespaces w
    \<and> (\<forall>b. wire w' b = wire w b @ (if b = a \<and> live w a
         then [ToJson (w_lib w) True (event_msg ''pusher:error'' (DError (code_int ErrCodeClientEventRejected) t) (cce_Channel ev) [])] else []))"
    for t
    by (rule ws_Send_self [OF sane, of "ToJson (w_lib w) True (event_msg ''pusher:error'' (DError (code_int ErrCodeClientEventRejected) t) (cce_Channel ev) [])"])
      (simp add: sendChannelError_def send_frame_def)
  show ?thesis
  proof (cases "subscription (w_heap w a) (cce_Channel ev)")
    case None
    from send [of "''Client is not subscribed to '' @ cce_Channel ev"] None assms(4) show ?thesis
      by (auto simp: handleClientEvent_def Let_def)
  next
    case (Some ch)
    with assms(5) have "\<not> event_allowed app (cce_Event ev) msg" by simp
    from validateClientEvent_refused [OF assms(3) this] obtain t where
      "validateClientEvent a (cce_Channel ev) (cce_Event ev) msg w =
       do { w \<leftarrow> sendChannelError a (cce_Channel ev) ErrCodeClientEventRejected t w;
            Some (Some (NewError ErrCodeClientEventRejected []), w) }" by blast
    with send [of t] Some assms(4) show ?thesis by (auto simp: handleClientEvent_def Let_def)
  qed
qed

theorem client_event_refused_witness:
  "\<exists>r w'. handleClientEvent 1 demo_event (upd_ws 1 (\<lambda>s. s\<lparr>ws_SubscribedChannels := Some []\<rparr>) demo_world) = Some (r, w')
    \<and> wire w' 2 = []"
proof -
  let ?w = "upd_ws 1 (\<lambda>s. s\<lparr>ws_SubscribedChannels := Some []\<rparr>) demo_world"
  have n: "w_Namespaces ?w = w_Namespaces demo_world" by simp
  note s = same_namespaces [OF n]
  have "world_ok ?w" by (rule world_ok_transfer [of demo_world]) (use s in \<open>simp_all add: world_okD(1) same_id_def\<close>)
  moreover have "registered ?w ''1'' ''1.1'' = Some 1" using s by (simp add: demo_registered)
  moreover have "wire ?w 2 = []" by (simp add: wire_def demo_conn_def)
  ultimately show ?thesis
    using client_event_refused [of ?w "''1''" "''1.1''" 1 demo_app demo_event]
    by (simp add: subscription_def) (elim exE conjE, intro exI conjI, assumption, simp)
qed

subsection \<open>Signing in\<close>

lemma signalAuthenticated_user [simp]: "ws_userID (w_heap (signalAuthenticated a w) b) = ws_userID (w_heap w b)"
  by (simp add: signalAuthenticated_def split: option.split)

lemma la_AddUser_spec:
  assumes wf: "la_wf w" "a \<noteq> 0" and n: "ns_of w p \<noteq> None" and u: "ws_userID (w_heap w a) \<noteq> []"
  shows "\<exists>w'. la_AddUser p a w = Some (None, w') \<and> w_heap w' = w_heap w \<and> registered w' = registered w
    \<and> la_users p w' = insert (ws_userID (w_heap w a), ws_ID (w_heap w a)) (la_users p w)"
proof -
  from n obtain n where n: "ns_of w p = Some n" by blast
  from ns_step [OF la_wf_ns [OF wf(1) n], of "OpAddUser (w_heap w) a"] wf(2) obtain n'
    where e: "n_AddUser (w_heap w) a n = Some n'" by auto
  have x: "ns_exec (OpAddUser (w_heap w) a) n = Some n'" "ns_valid (OpAddUser (w_heap w) a)"
    "\<And>s. a_socks (ns_spec (OpAddUser (w_heap w) a) s) = a_socks s" using e wf(2) by simp_all
  note sp = user_op_spec [OF wf(1) n x]
  show ?thesis
    by (rule exI [of _ "set_ns p n' w"]) (use n e sp u in \<open>simp add: la_AddUser_def la_users_def\<close>)
qed

lemma accept_signin_spec:
  assumes ok: "world_ok w" and r: "registered w p i = Some a" and app: "ws_app (w_heap w a) = Some app" and u: "u \<noteq> []"
  obtains w' where "accept_signin a app u d w = Some (None, w')" "ws_userID (w_heap w' a) = u"
    "la_users p w' = insert (u, i) (la_users p w)" "registered w' = registered w"
proof -
  from world_okD(2) [OF ok r] app have id: "ws_ID (w_heap w a) = i" "app_ID app = p" "ws_server (w_heap w a)" "a \<noteq> 0"
    by (auto simp: reg_ok_def attached_def)
  let ?w = "upd_ws a (\<lambda>s. s\<lparr>ws_userID := u\<rparr>) w"
  have n: "ns_of ?w p \<noteq> None" using r by (auto simp: registered_def split: option.splits)
  have wf: "la_wf ?w" using ok same_namespaces [of ?w w] by (simp add: world_ok_def)
  have us: "la_users p ?w = la_users p w" by (simp add: la_users_def)
  have "ws_userID (w_heap ?w a) \<noteq> []" using u by simp
  from la_AddUser_spec [OF wf id(4) n this] obtain w1 where
    w1: "la_AddUser p a ?w = Some (None, w1)" "la_users p w1 = insert (u, i) (la_users p w)" "w_heap w1 = w_heap ?w"
    "registered w1 = registered ?w"
    using id(1) us by fastforce
  have "sane w1 a" using w1(3) id app by (simp add: sane_def)
  from ws_Send_sane [OF this] obtain w2 where
    w2: "ws_Send a (PayloadPack ''pusher:signin_success'' (marshal (JObj [(''user_data'', JStr d)]))) w1 = Some w2" by blast
  have k: "keeps w1 (signalAuthenticated a w2)" using keeps_trans [OF ws_Send_keeps [OF w2]] by simp
  have "ws_userID (w_heap w2 a) = u" using ws_Send_frame [OF w2] w1(3) by (simp add: send_frame_def same_but_wire_def)
  moreover have "registered (signalAuthenticated a w2) = registered w"
    using same_namespaces [of "signalAuthenticated a w2" w1] same_namespaces [of ?w w] k w1(4) by (simp add: keeps_def)
  ultimately show thesis
    using that [of "signalAuthenticated a w2"] w1 w2 id keeps_subs(2) [OF k]
    by (simp add: accept_signin_def Let_def server_of_def)
qed

text \<open>C14
  A socket takes the identity of a user exactly when the request carries the app's signature of the
  user data for this very socket id; the user is then entered in the adapter and a success is
  reported. With any other token the connection is closed and unregistered.
\<close>
theorem signin_decides:
  assumes "world_ok w" "registered w p i = Some a" "ws_app (w_heap w a) = Some app"
    and "decode_signin msg = Some (Some pl)" "decode_user_data (us_UserData pl) = Some (Some ud)" "ud_ID ud \<noteq> []"
  shows "\<exists>r w'. handleUserSignin a msg w = Some (r, w')
    \<and> (if signinTokenIsValid i app (us_UserData pl) (us_Auth pl)
       then r = None \<and> ws_userID (w_heap w' a) = ud_ID ud \<and> la_users p w' = insert (ud_ID ud, i) (la_users p w)
       else r = Some (NewError ErrCodeUnauthorizedConnection []) \<and> ws_closed (w_heap w' a)
         \<and> registered w' = unregister p i (registered w))"
proof -
  from world_okD(2) [OF assms(1,2)] assms(3) have id: "ws_ID (w_heap w a) = i" "app_ID app = p" "attached w a"
    by (auto simp: reg_ok_def)
  have e: "handleUserSignin a msg w = check_signin a pl (ud_ID ud) w"
    using assms(4-6) by (simp add: handleUserSignin_def)
  show ?thesis
  proof (cases "signinTokenIsValid i app (us_UserData pl) (us_Auth pl)")
    case True
    from accept_signin_spec [OF assms(1-3,6), of "us_UserData pl"] obtain w' where
      "accept_signin a app (ud_ID ud) (us_UserData pl) w = Some (None, w')" "ws_userID (w_heap w' a) = ud_ID ud"
      "la_users p w' = insert (ud_ID ud, i) (la_users p w)" by blast
    with True e id assms(3) show ?thesis by (simp add: check_signin_def app_of_def)
  next
    case False
    have ok: "okay a w" using assms(1) id by (simp add: okay_def)
    from closeConnection_runs [OF ok assms(3) id(1) refl, of ErrCodeUnauthorizedConnection] False e id assms(3)
    show ?thesis by (auto simp: check_signin_def app_of_def runs_iff ended_def)
  qed
qed

text \<open>A user who signs in with a good and with a bad token.\<close>

definition demo_user_text :: string where
  "demo_user_text = marshal (JObj [(''id'', JStr ''u'')])"

definition demo_signin :: "string \<Rightarrow> string" where
  "demo_signin token = request ''pusher:signin'' [(''auth'', JStr token), (''user_data'', JStr demo_user_text)]"

definition demo_token :: string where
  "demo_token = ''k:'' @ HmacSignature (signin_string ''1.1'' demo_user_text) ''s''"

lemma demo_user_data: "decode_user_data demo_user_text = Some (Some \<lparr>ud_ID = ''u'', ud_Name = [], ud_Watchlist = []\<rparr>)"
proof -
  have "json_parse (marshal (JObj [(''id'', JStr ''u'')])) = Some (JObj [(''id'', JStr ''u'')])"
    by (rule json_parse_marshal) (auto simp: depth_Suc)
  then show ?thesis by (simp add: demo_user_text_def decode_user_data_def decode_ptr_def decode_obj_def field_str_def)
qed

theorem signin_decides_witness:
  "\<exists>w' w''. handleUserSignin 1 (demo_signin demo_token) demo_world = Some (None, w') \<and> ws_userID (w_heap w' 1) = ''u''
    \<and> la_users ''1'' w' = {(''u'', ''1.1'')}
    \<and> handleUserSignin 1 (demo_signin ''x'') demo_world = Some (Some (NewError ErrCodeUnauthorizedConnection []), w'')
    \<and> ws_closed (w_heap w'' 1)"
proof -
  have t: "signinTokenIsValid ''1.1'' demo_app demo_user_text demo_token"
    "\<not> signinTokenIsValid ''1.1'' demo_app demo_user_text ''x''"
    by (simp_all add: signinTokenIsValid_def demo_token_def)
  have n: "la_users ''1'' demo_world = {}" by (simp add: la_users_def abs_ns_def rel_of_def demo_ns_def)
  note s = signin_decides [of demo_world "''1''" "''1.1''" 1 demo_app, OF _ _ _ _ _, where msg = "demo_signin t" for t]
  obtain w' where "handleUserSignin 1 (demo_signin demo_token) demo_world = Some (None, w')" "ws_userID (w_heap w' 1) = ''u''"
    "la_users ''1'' w' = {(''u'', ''1.1'')}"
    using s [of demo_token "\<lparr>us_Event = ''pusher:signin'', us_UserData = demo_user_text, us_Auth = demo_token\<rparr>"] t(1) n
    by (auto simp: demo_registered demo_user_data demo_signin_def)
  moreover obtain w'' where "handleUserSignin 1 (demo_signin ''x'') demo_world = Some (Some (NewError ErrCodeUnauthorizedConnection []), w'')"
    "ws_closed (w_heap w'' 1)"
    using s [of "''x''" "\<lparr>us_Event = ''pusher:signin'', us_UserData = demo_user_text, us_Auth = ''x''\<rparr>"] t(2)
    by (auto simp: demo_registered demo_user_data demo_signin_def)
  ultimately show ?thesis by blast
qed

text \<open>
  A socket that signs in again as another user keeps its entry under the first one: messages to the
  first user are still delivered to it.
\<close>
theorem resignin_keeps_old_user:
  assumes "world_ok w" "registered w p i = Some a" "ws_app (w_heap w a) = Some app"
    and "decode_signin msg = Some (Some pl)" "decode_user_data (us_UserData pl) = Some (Some ud)" "ud_ID ud \<noteq> []"
    and "signinTokenIsValid i app (us_UserData pl) (us_Auth pl)"
    and "(u0, i) \<in> la_users p w" "u0 \<noteq> ud_ID ud"
  shows "\<exists>w' ss. handleUserSignin a msg w = Some (None, w') \<and> ws_userID (w_heap w' a) = ud_ID ud
    \<and> (u0, i) \<in> la_users p w' \<and> la_GetUserSockets p u0 w' = Inr ss \<and> a \<in> set ss"
proof -
  from world_okD(2) [OF assms(1,2)] assms(3) have id: "ws_ID (w_heap w a) = i" by (auto simp: reg_ok_def)
  from accept_signin_spec [OF assms(1-3,6), of "us_UserData pl"] obtain w' where
    w': "accept_signin a app (ud_ID ud) (us_UserData pl) w = Some (None, w')" "ws_userID (w_heap w' a) = ud_ID ud"
    "la_users p w' = insert (ud_ID ud, i) (la_users p w)" "registered w' = registered w" by blast
  have "handleUserSignin a msg w = Some (None, w')"
    using w'(1) assms(3-7) id by (simp add: handleUserSignin_def check_signin_def app_of_def)
  moreover from w'(3) assms(8) have u: "(u0, i) \<in> la_users p w'" by simp
  moreover have r: "registered w' p i = Some a" using w'(4) assms(2) by simp
  from u r obtain n ids where n: "ns_of w' p = Some n" "map_of (ns_Sockets n) i = Some a"
    "map_of (ns_Users n) u0 = Some ids" "i \<in> set ids"
    by (auto simp: la_users_def abs_ns_def rel_of_def registered_def split: option.splits)
  then have "a \<in> set (n_GetUserSockets n u0)"
    by (auto simp: n_GetUserSockets_def map_filter_def intro!: rev_image_eqI [of i])
  ultimately show ?thesis using w'(2) u n(1) by (auto simp: la_GetUserSockets_def)
qed

definition demo_two_users :: World where
  "demo_two_users = upd_ws 1 (\<lambda>s. s\<lparr>ws_userID := ''v''\<rparr>)
     (demo_world\<lparr>w_Namespaces := Some [(''1'', demo_ns\<lparr>ns_Users := [(''v'', [''1.1''])]\<rparr>)]\<rparr>)"

lemma demo_two_users_ok: "world_ok demo_two_users" "registered demo_two_users = registered demo_world"
  "(''v'', ''1.1'') \<in> la_users ''1'' demo_two_users"
proof -
  let ?n = "demo_ns\<lparr>ns_Users := [(''v'', [''1.1''])]\<rparr>"
  have ns: "ns_of demo_two_users p = (if p = ''1'' then Some ?n else None)" for p
    by (simp add: demo_two_users_def ns_of_def namespaces_def)
  have wf: "la_wf demo_two_users"
    by (simp add: la_wf_def namespaces_def demo_two_users_def wf_map_def ns_wf_def demo_ns_def no_empty_def)
  show r: "registered demo_two_users = registered demo_world"
    by (intro ext) (simp add: registered_def ns demo_ns_def ns_of_def [of demo_world] namespaces_def)
  show "world_ok demo_two_users"
    by (rule world_ok_transfer [of demo_world]) (use r wf in \<open>simp_all add: same_id_def demo_two_users_def\<close>)
  show "(''v'', ''1.1'') \<in> la_users ''1'' demo_two_users" by (simp add: la_users_def ns abs_ns_def rel_of_def)
qed

theorem resignin_keeps_old_user_witness:
  "\<exists>w' ss. handleUserSignin 1 (demo_signin demo_token) demo_two_users = Some (None, w') \<and> ws_userID (w_heap w' 1) = ''u''
    \<and> la_GetUserSockets ''1'' ''v'' w' = Inr ss \<and> 1 \<in> set ss"
proof -
  have "signinTokenIsValid ''1.1'' demo_app demo_user_text demo_token" by (simp add: signinTokenIsValid_def demo_token_def)
  moreover have "ws_app (w_heap demo_two_users 1) = Some demo_app" by (simp add: demo_two_users_def)
  ultimately show ?thesis
    using resignin_keeps_old_user [of demo_two_users "''1''" "''1.1''" 1 demo_app "demo_signin demo_token"
        "\<lparr>us_Event = ''pusher:signin'', us_UserData = demo_user_text, us_Auth = demo_token\<rparr>"
        "\<lparr>ud_ID = ''u'', ud_Name = [], ud_Watchlist = []\<rparr>" "''v''"] demo_two_users_ok
    by (auto simp: demo_registered demo_user_data demo_signin_def)
qed

subsection \<open>Subscriptions that go wrong\<close>

text \<open>C39
  A presence subscription that is let in but whose \<open>channel_data\<close> does not decode to a member
  dereferences a nil pointer: the goroutine of the connection panics, and no handler recovers.
\<close>
theorem nil_member_panics:
  assumes "world_ok w" "registered w p i = Some a" "\<not> w_Closing w" "ws_app (w_heap w a) = Some app"
    and "decode_request_event msg = Some ''pusher:subscribe''" "decode_subscribe msg = Some sp"
    and "IsPresenceChannel (sp_Channel sp)" "ValidChannel (sp_Channel sp) (app_MaxChannelNameLength app)"
    and "may_join (CreateChannelFromString app (sp_Channel sp)) i sp w"
    and "unmarshal_member (w_lib w) (sp_ChannelData sp) = None"
  shows "parseIncomingPayload a msg w = None"
proof -
  let ?ch = "CreateChannelFromString app (sp_Channel sp)"
  from world_okD(2) [OF assms(1,2)] assms(4) have id: "a \<noteq> 0" "ws_server (w_heap w a)" "ws_ID (w_heap w a) = i" "app_ID app = p"
    by (auto simp: reg_ok_def attached_def)
  have wf: "la_wf w" and ns: "ns_of w p \<noteq> None"
    using assms(1,2) by (auto simp: world_ok_def registered_def split: option.splits)
  from la.join_admitted [OF wf, of ?ch a i sp "w_lib w"] ns id(1,4) assms(7,9,10)
  obtain resp w1 where w1: "Join_channel (w_lib w) (Some local_adapter) ?ch a i sp w = Some (resp, w1)" "jr_Success resp"
    "jr_Member resp = None"
    by (auto simp: may_join_admits CreateChannel_Type)
  have "\<not> (ws_userID (w_heap w a) \<noteq> [] \<and> sp_Channel sp = SocketRushServerToUserPrefix @ ws_userID (w_heap w a))"
    using assms(7) by (auto simp: IsPresenceChannel_def HasPrefix_def prefix_def SocketRushServerToUserPrefix_def)
  from subscribe_join [OF id(2) assms(3,6,4,8) this] w1 id(3)
  have "handleSubscribeRequest a msg w = finish_subscription a app ?ch resp w1" by simp
  also have "\<dots> = None"
    using w1(3) assms(7)
    by (cases "track_channel a ?ch w1")
      (simp_all add: finish_subscription_def confirm_subscription_def handlePresenceChannelSubscription_def CreateChannel_Type)
  finally show ?thesis using assms(5) by (simp add: parseIncomingPayload_def dispatch_def)
qed

definition demo_presence :: SubscribePayload where
  "demo_presence = \<lparr>sp_Event = ''pusher:subscribe'', sp_Channel = ''presence-x'',
     sp_Auth = ''k:'' @ HmacSignature (auth_string ''1.1'' ''presence-x'' []) ''s'', sp_ChannelData = []\<rparr>"

lemma demo_presence_channel: "IsPresenceChannel ''presence-x''" "ValidChannel ''presence-x'' 100"
  by code_simp+

theorem nil_member_panics_witness: "parseIncomingPayload 1 (subscribe_request demo_presence) demo_world = None"
proof -
  have "ValidateChannelAuth (sp_Auth demo_presence) ''s'' ''1.1'' ''presence-x'' []"
    unfolding ValidateChannelAuth_iff by (rule exI [of _ "''k''"]) (simp add: demo_presence_def)
  moreover have "la_GetChannelMembersCount ''1'' ''presence-x'' demo_world = Some 0"
    by (simp add: la_GetChannelMembersCount_def n_GetChannelMembers_def n_GetChannelSockets_def demo_ns_def)
  ultimately have "may_join (CreateChannelFromString demo_app ''presence-x'') ''1.1'' demo_presence demo_world"
    by (simp add: may_join_def demo_presence_def)
  then show ?thesis
    using nil_member_panics [of demo_world "''1''" "''1.1''" 1 demo_app "subscribe_request demo_presence" demo_presence]
      demo_presence_channel
    by (simp add: demo_registered demo_presence_def blank_world_def)
qed

text \<open>
  A subscription refused for its token is reported twice: the client is sent the same
  \<open>subscription_error\<close> event two times, and an error is returned that the caller reports again.
\<close>
theorem refused_reported_twice:
  assumes "world_ok w" "registered w p i = Some a" "live w a" "\<not> w_Closing w" "ws_app (w_heap w a) = Some app"
    and "decode_subscribe msg = Some sp" "ValidChannel (sp_Channel sp) (app_MaxChannelNameLength app)"
    and "IsPresenceChannel (sp_Channel sp) \<or> IsPrivateChannel (sp_Channel sp)"
    and "\<not> ValidateChannelAuth (sp_Auth sp) (app_Secret app) i (sp_Channel sp) (sp_ChannelData sp)"
    and "ws_userID (w_heap w a) = [] \<or> sp_Channel sp \<noteq> SocketRushServerToUserPrefix @ ws_userID (w_heap w a)"
  shows "\<exists>w'. handleSubscribeRequest a msg w = Some (Some (NewError ErrCodeSubscriptionAccessDenied []), w')
    \<and> wire w' a = wire w a @ replicate 2 (SubscriptionErrPack (sp_Channel sp) ''AuthError'' ''Invalid signature'' (code_int ErrCodeSubscriptionAccessDenied))"
proof -
  let ?ch = "CreateChannelFromString app (sp_Channel sp)"
  let ?m = "SubscriptionErrPack (sp_Channel sp) ''AuthError'' ''Invalid signature'' (code_int ErrCodeSubscriptionAccessDenied)"
  from world_okD(2) [OF assms(1,2)] assms(5) have id: "ws_server (w_heap w a)" "ws_ID (w_heap w a) = i"
    by (auto simp: reg_ok_def attached_def)
  from ws_Send_live [OF assms(3), of ?m] obtain w1 where w1: "ws_Send a ?m w = Some w1" "wire w1 a = wire w a @ [?m]" "live w1 a"
    by blast
  from ws_Send_live [OF w1(3), of ?m] obtain w2 where w2: "ws_Send a ?m w1 = Some w2" "wire w2 a = wire w1 a @ [?m]" by blast
  have "Join_channel (w_lib w) (Some local_adapter) ?ch a i sp w =
      Some (join_error ErrCodeSubscriptionAccessDenied ''Invalid signature'' ''AuthError'', w)"
    using assms(8,9) by (simp add: Join_channel_def CreateChannel_Type)
  then have "handleSubscribeRequest a msg w =
      refuse_subscription a ?ch (join_error ErrCodeSubscriptionAccessDenied ''Invalid signature'' ''AuthError'') w"
    using subscribe_join [OF id(1) assms(4,6,5,7)] assms(10) id(2) by simp
  also have "\<dots> = Some (Some (NewError ErrCodeSubscriptionAccessDenied []), w2)"
    using w1(1) w2(1) by (simp add: refuse_subscription_def sendSubscriptionError_def join_error_def)
  finally show ?thesis using w1(2) w2(2) by (simp add: numeral_2_eq_2)
qed

theorem refused_reported_twice_witness:
  "\<exists>w'. handleSubscribeRequest 1 (subscribe_request (demo_presence\<lparr>sp_Auth := []\<rparr>)) demo_world
      = Some (Some (NewError ErrCodeSubscriptionAccessDenied []), w')
    \<and> wire w' 1 = replicate 2 (SubscriptionErrPack ''presence-x'' ''AuthError'' ''Invalid signature'' (code_int ErrCodeSubscriptionAccessDenied))"
proof -
  have "live demo_world 1" "wire demo_world 1 = []" by (simp_all add: live_def wire_def demo_conn_def)
  then show ?thesis
    using refused_reported_twice [of demo_world "''1''" "''1.1''" 1 demo_app _ "demo_presence\<lparr>sp_Auth := []\<rparr>"]
      demo_presence_channel
    by (simp add: demo_registered demo_presence_def ValidateChannelAuth_def)
qed

subsection \<open>Cache channels\<close>

lemma sendCacheIfNeeded_live:
  assumes "live w a" "ws_app (w_heap w a) = Some app" "ch_IsCache ch"
  shows "\<exists>w'. sendCacheIfNeeded a ch w = Some w' \<and> wire w' a = wire w a
    @ [case cache_Get (w_now w) (w_cache w) (GetChannelCacheKey (app_ID app) (ch_Name ch)) of
         Some d \<Rightarrow> d | None \<Rightarrow> PayloadPack ''pusher:cache_miss'' []]"
proof -
  have s: "ws_server (w_heap w a)" using assms(1) by (simp add: live_def)
  let ?key = "GetChannelCacheKey (app_ID app) (ch_Name ch)"
  show ?thesis
  proof (cases "cache_Get (w_now w) (w_cache w) ?key")
    case None
    from ws_Send_live [OF assms(1), of "PayloadPack ''pusher:cache_miss'' []"] None assms(2,3) s show ?thesis
      by (auto simp: sendCacheIfNeeded_def app_of_def server_of_def)
  next
    case (Some d)
    from ws_Send_live [OF assms(1), of d] Some assms(2,3) s show ?thesis
      by (auto simp: sendCacheIfNeeded_def app_of_def server_of_def)
  qed
qed

lemma Join_channel_cache:
  assumes "Join_channel lib (Some local_adapter) ch a i sp w = Some (resp, w')"
  shows "unseen w w'"
proof -
  have add: "la_AddToChannel p c a w = Some (x, w1) \<Longrightarrow> unseen w w1" for p c x w1
    by (auto simp: la_AddToChannel_def bind_eq_Some_conv unseen_def split: option.splits)
  show ?thesis
    using assms
    by (auto simp: sum_pair Join_channel_def joinPresenceChannel_def joinNonPresenceChannel_def local_adapter_def Let_def
        bind_eq_Some_conv dest!: add split: if_splits)
qed

text \<open>
  A live client that is let into a public or private cache channel is sent the success message and
  then the last cached event of the channel, or a cache miss when there is none or it has expired.
\<close>
theorem cache_replayed:
  assumes "world_ok w" "registered w p i = Some a" "live w a" "\<not> w_Closing w" "ws_app (w_heap w a) = Some app"
    and "ws_SubscribedChannels (w_heap w a) = Some m" "decode_subscribe msg = Some sp"
    and "ValidChannel (sp_Channel sp) (app_MaxChannelNameLength app)" "IsCacheChannel (sp_Channel sp)"
    and "\<not> IsPresenceChannel (sp_Channel sp)" "may_join (CreateChannelFromString app (sp_Channel sp)) i sp w"
    and "ws_userID (w_heap w a) = [] \<or> sp_Channel sp \<noteq> SocketRushServerToUserPrefix @ ws_userID (w_heap w a)"
  shows "\<exists>w'. handleSubscribeRequest a msg w = Some (None, w') \<and> wire w' a = wire w a
    @ [SubscriptionSucceededPack (sp_Channel sp) ''{}'',
       case cache_Get (w_now w) (w_cache w) (GetChannelCacheKey p (sp_Channel sp)) of
         Some d \<Rightarrow> d | None \<Rightarrow> PayloadPack ''pusher:cache_miss'' []]"
proof -
  let ?ch = "CreateChannelFromString app (sp_Channel sp)"
  from world_okD(2) [OF assms(1,2)] assms(5) have id: "a \<noteq> 0" "ws_server (w_heap w a)" "ws_ID (w_heap w a) = i" "app_ID app = p"
    by (auto simp: reg_ok_def attached_def)
  have wf: "la_wf w" and ns: "ns_of w p \<noteq> None"
    using assms(1,2) by (auto simp: world_ok_def registered_def split: option.splits)
  from la.join_admitted [OF wf, of ?ch a i sp "w_lib w"] ns id(1,4) assms(11) obtain resp w1 where
    w1: "Join_channel (w_lib w) (Some local_adapter) ?ch a i sp w = Some (resp, w1)" "jr_Success resp"
    by (auto simp: may_join_admits)
  have "w_heap w1 = w_heap w" by (rule Join_channel_keeps [OF w1(1)])
  then obtain w2 where w2: "track_channel a ?ch w1 = Some w2" using assms(6)
    by (cases "subscription (w_heap w a) (sp_Channel sp)") (auto simp: track_channel_def)
  let ?w3 = "announce_occupied app ?ch resp (adopt_user a ?ch resp w2)"
  have u: "unseen w ?w3"
    by (rule unseen_trans [OF Join_channel_cache [OF w1(1)] unseen_trans [OF unseen_track [OF w2]
          unseen_trans [OF unseen_adopt unseen_announce]]])
  have "live ?w3 a" using unseen_wire(2) [OF u] assms(3) by simp
  from ws_Send_live [OF this, of "SubscriptionSucceededPack (sp_Channel sp) ''{}''"] obtain w4 where
    w4: "ws_Send a (SubscriptionSucceededPack (sp_Channel sp) ''{}'') ?w3 = Some w4" "live w4 a"
    "wire w4 a = wire w a @ [SubscriptionSucceededPack (sp_Channel sp) ''{}'']" using unseen_wire(1) [OF u] by auto
  note f = ws_Send_frame [OF w4(1)]
  have c: "w_cache w4 = w_cache w" "w_now w4 = w_now w" "ws_app (w_heap w4 a) = Some app"
    using f u assms(5) by (simp_all add: send_frame_def unseen_def same_but_wire_def)
  have k: "ch_IsCache ?ch" "ch_Type ?ch \<noteq> ChannelTypePresence" using assms(9,10) by (simp_all add: CreateChannel_IsCache CreateChannel_Type)
  from sendCacheIfNeeded_live [OF w4(2) c(3) k(1)] c id(4) obtain w5 where w5: "sendCacheIfNeeded a ?ch w4 = Some w5"
    "wire w5 a = wire w4 a @ [case cache_Get (w_now w) (w_cache w) (GetChannelCacheKey p (sp_Channel sp)) of
         Some d \<Rightarrow> d | None \<Rightarrow> PayloadPack ''pusher:cache_miss'' []]" by auto
  have e: "handleSubscribeRequest a msg w = Some (None, w5)"
    using subscribe_join [OF id(2) assms(4,7,5,8)] assms(12) w1 w2 w4(1) w5(1) k(2) id(3)
    by (simp add: finish_subscription_def confirm_subscription_def)
  from w4(3) w5(2) have "wire w5 a = wire w a @ [SubscriptionSucceededPack (sp_Channel sp) ''{}'',
       case cache_Get (w_now w) (w_cache w) (GetChannelCacheKey p (sp_Channel sp)) of
         Some d \<Rightarrow> d | None \<Rightarrow> PayloadPack ''pusher:cache_miss'' []]" by simp
  with e show ?thesis by blast
qed

lemma demo_cache_channel: "IsCacheChannel ''cache-c''" "\<not> IsPresenceChannel ''cache-c''" "\<not> IsPrivateChannel ''cache-c''"
  "ValidChannel ''cache-c'' 100"
  by code_simp+

theorem cache_replayed_witness:
  "\<exists>w'. handleSubscribeRequest 1 (subscribe_request (demo_payload\<lparr>sp_Channel := ''cache-c''\<rparr>)) demo_world = Some (None, w')
    \<and> wire w' 1 = [SubscriptionSucceededPack ''cache-c'' ''{}'', PayloadPack ''pusher:cache_miss'' []]"
proof -
  have "live demo_world 1" "wire demo_world 1 = []" by (simp_all add: live_def wire_def demo_conn_def)
  moreover have "may_join (CreateChannelFromString demo_app ''cache-c'') ''1.1'' (demo_payload\<lparr>sp_Channel := ''cache-c''\<rparr>) demo_world"
    using demo_cache_channel by (simp add: may_join_def CreateChannel_Type)
  ultimately show ?thesis
    using cache_replayed [of demo_world "''1''" "''1.1''" 1 demo_app _ _ "demo_payload\<lparr>sp_Channel := ''cache-c''\<rparr>"]
      demo_cache_channel
    by (simp add: demo_registered cache_Get_def existsAndNotExpired_def)
qed

end
