(* ===== verification/Identity.thy ===== *)
theory Identity
  imports Broker_Safety Requests
begin

text \<open>
  Whose identity a socket can take. A socket has a user id after it has signed in, or, while it waits for its
  authorisation, from the member it joins a presence channel with. In both cases a token made with the secret of
  its app binds the id to the socket (\<open>handleUserSignin\<close> and \<open>handleSubscribeRequest\<close> of \<open>internal/websocket.go\<close>).
  The handlers are followed first, then every step of the server, then its runs.
\<close>

subsection \<open>Handlers\<close>

text \<open>A frame that proves that the socket speaks for a user.\<close>

definition signs_in :: "App \<Rightarrow> SocketID \<Rightarrow> string \<Rightarrow> UserID \<Rightarrow> bool" where
  "signs_in app i msg u =
     (\<exists>pl ud. decode_signin msg = Some (Some pl) \<and> decode_user_data (us_UserData pl) = Some (Some ud) \<and> ud_ID ud = u
        \<and> signinTokenIsValid i app (us_UserData pl) (us_Auth pl))"

definition joins_as :: "Lib \<Rightarrow> App \<Rightarrow> SocketID \<Rightarrow> string \<Rightarrow> UserID \<Rightarrow> bool" where
  "joins_as lib app i msg u =
     (\<exists>sp m. decode_subscribe msg = Some sp \<and> IsPresenceChannel (sp_Channel sp) \<and> authorised app i sp
        \<and> unmarshal_member lib (sp_ChannelData sp) = Some m \<and> md_UserID m = u)"

definition proves :: "Lib \<Rightarrow> App \<Rightarrow> SocketID \<Rightarrow> string \<Rightarrow> UserID \<Rightarrow> bool" where
  "proves lib app i msg u =
     (decode_request_event msg = Some ''pusher:signin'' \<and> signs_in app i msg u
      \<or> decode_request_event msg = Some ''pusher:subscribe'' \<and> joins_as lib app i msg u)"

abbreviation same_user :: "addr \<Rightarrow> World \<Rightarrow> World \<Rightarrow> bool" where
  "same_user a w w' \<equiv> ws_userID (w_heap w' a) = ws_userID (w_heap w a)"

lemma signalAuthenticated_userID : "ws_userID (w_heap (signalAuthenticated a w) b) = ws_userID (w_heap w b)"
  by (simp add: signalAuthenticated_def split: option.split)

lemma adopt_user_userID:
  "same_user a w (adopt_user a ch resp w) \<or> (\<exists>m. jr_Member resp = Some m \<and> ws_userID (w_heap (adopt_user a ch resp w) a) = md_UserID m)"
  by (simp add: adopt_user_def Let_def split: option.split)

text \<open>A user that a socket adopts from its member is not entered in the users of the app, unlike one who signs in.\<close>

lemma adopted_user_unlisted: "la_users p (adopt_user a ch resp w) = la_users p w"
  using same_namespaces [of "adopt_user a ch resp w" w]
  by (simp add: la_users_def adopt_user_def signalAuthenticated_def Let_def ns_of_def namespaces_def split: option.split)

lemma Join_channel_member:
  assumes "Join_channel lib (Some A) ch a i sp w = Some (resp, w')" "ch_Type ch \<noteq> ChannelTypePresence"
  shows "jr_Member resp = None"
  using assms by (auto simp: sum_pair Join_channel_def joinNonPresenceChannel_def join_error_def Let_def bind_eq_Some_conv
      split: if_splits sum.split)

text \<open>Of all that finishing a subscription does, only adopting the member's id changes the user of the socket.\<close>

lemma finish_subscription_user:
  assumes ok: "okay a w" "session_ok w a" and m: "ch_Type ch = ChannelTypePresence \<Longrightarrow> jr_Member resp \<noteq> None"
    and h: "finish_subscription a app ch resp w = Some (res, w')"
  shows "same_user a w w' \<or> (\<exists>m. jr_Member resp = Some m \<and> ws_userID (w_heap w' a) = md_UserID m)"
proof -
  from h obtain w1 where w1: "track_channel a ch w = Some w1"
    "confirm_subscription a ch resp (announce_occupied app ch resp (adopt_user a ch resp w1)) = Some (res, w')"
    by (auto simp: finish_subscription_def bind_eq_Some_conv)
  let ?w2 = "announce_occupied app ch resp (adopt_user a ch resp w1)"
  have q1: "quiet a w w1" using track_channel_runs [OF ok, of ch] w1(1) by (simp add: runs_iff)
  have "step a w (adopt_user a ch resp w1)"
    by (rule step_trans [OF quiet_step [OF q1] adopt_user_step [OF step_okay(2) [OF q1]]])
  then have s: "step a w ?w2" by (simp add: announce_occupied_def)
  have "runs (confirm_subscription a ch resp ?w2) (\<lambda>r. quiet a ?w2 (snd r))"
    by (rule confirm_subscription_runs [OF step_okay(1) [OF s] step_session [OF s ok(2)] m])
  with w1(2) have "quiet a ?w2 w'" by (simp add: runs_iff)
  with q1 have "same_user a w w1" "same_user a ?w2 w'" by (simp_all add: quiet_def)
  then show ?thesis using adopt_user_userID [where a = a and w = w1 and ch = ch and resp = resp] by (auto simp: announce_occupied_def on_queue_def)
qed

lemma handleSubscribe_user:
  assumes ok: "okay a w" and s: "session_ok w a" and m: "member_given (w_lib w) msg"
    and app: "ws_app (w_heap w a) = Some app" and i: "ws_ID (w_heap w a) = i"
    and h: "handleSubscribeRequest a msg w = Some (res, w')"
  shows "same_user a w w' \<or> joins_as (w_lib w) app i msg (ws_userID (w_heap w' a))"
proof (cases "\<exists>sp. \<not> w_Closing w \<and> decode_subscribe msg = Some sp \<and> ValidChannel (sp_Channel sp) (app_MaxChannelNameLength app)
      \<and> \<not> (ws_userID (w_heap w a) \<noteq> [] \<and> sp_Channel sp = SocketRushServerToUserPrefix @ ws_userID (w_heap w a))")
  case False
  have q: "quiet a w w'" if "ws_Send a x w = Some w'" for x
    using ws_Send_runs [OF ok, of x] that by (simp add: runs_iff)
  from h False app ok have "w' = w \<or> (\<exists>x. ws_Send a x w = Some w')"
    using ValidateChannelName_None
    by (auto simp: handleSubscribeRequest_def subscribeToUserChannel_def server_of_def app_of_def Let_def bind_eq_Some_conv
        split: if_splits option.splits)
  with q show ?thesis by (auto simp: quiet_def)
next
  case True
  then obtain sp where c: "\<not> w_Closing w" "decode_subscribe msg = Some sp" "ValidChannel (sp_Channel sp) (app_MaxChannelNameLength app)"
    "\<not> (ws_userID (w_heap w a) \<noteq> [] \<and> sp_Channel sp = SocketRushServerToUserPrefix @ ws_userID (w_heap w a))" by blast
  let ?ch = "CreateChannelFromString app (sp_Channel sp)"
  have srv: "ws_server (w_heap w a)" "la_wf w" using ok by (simp_all add: okay_def attached_def world_ok_def)
  from h [unfolded subscribe_join [OF srv(1) c(1,2) app c(3,4)] i] obtain resp w1 where
    j: "Join_channel (w_lib w) (Some local_adapter) ?ch a i sp w = Some (resp, w1)"
    and r: "(if \<not> jr_Success resp then refuse_subscription a ?ch resp w1 else finish_subscription a app ?ch resp w1) = Some (res, w')"
    by (auto simp: bind_eq_Some_conv)
  from Join_channel_runs [OF ok, of "w_lib w" ?ch i sp] j have q: "quiet a w w1"
    and mem: "jr_Success resp \<Longrightarrow> ch_Type ?ch = ChannelTypePresence \<Longrightarrow> jr_Member resp = unmarshal_member (w_lib w) (sp_ChannelData sp)"
    by (simp_all add: runs_iff)
  note ok1 = step_okay(2) [OF q] step_session [OF quiet_step [OF q] s]
  show ?thesis
  proof (cases "jr_Success resp")
    case False
    with r have "quiet a w1 w'" using refuse_subscription_runs [OF ok1(1), of ?ch resp] by (simp add: runs_iff)
    with quiet_trans [OF q] show ?thesis by (simp add: quiet_def)
  next
    case True
    have adm: "la.admits ?ch i sp w"
      using la.join_refused [OF srv(2), of ?ch i sp "w_lib w" a] j True by auto
    then have au: "authorised app i sp" using c(3) by (auto simp: authorised_def may_join_def may_join_admits CreateChannel_Type)
    have given: "jr_Member resp \<noteq> None" if "ch_Type ?ch = ChannelTypePresence"
      using m c(2) mem [OF True that] that by (auto simp: member_given_def CreateChannel_Type)
    from True r have "finish_subscription a app ?ch resp w1 = Some (res, w')" by simp
    from finish_subscription_user [OF ok1 given this] consider "same_user a w1 w'"
      | m where "jr_Member resp = Some m" "ws_userID (w_heap w' a) = md_UserID m" by blast
    then show ?thesis
    proof cases
      case 1
      with q show ?thesis by (simp add: quiet_def)
    next
      case 2
      with Join_channel_member [OF j] have p: "ch_Type ?ch = ChannelTypePresence" by auto
      have "unmarshal_member (w_lib w) (sp_ChannelData sp) = Some m" using mem [OF True p] 2(1) by simp
      with c(2) au p have "joins_as (w_lib w) app i msg (md_UserID m)" unfolding joins_as_def CreateChannel_Type by blast
      with 2 show ?thesis by simp
    qed
  qed
qed

text \<open>Signing in: the socket takes the id of a valid token, or is closed.\<close>

lemma accept_signin_user:
  assumes ok: "okay a w" and h: "accept_signin a app u d w = Some (res, w')"
  shows "ws_userID (w_heap w' a) = u"
proof -
  let ?w = "upd_ws a (\<lambda>s. s\<lparr>ws_userID := u\<rparr>) w"
  have "step a w ?w" by (rule upd_step [OF ok]) (simp_all add: same_id_def session_ok_def attached_def)
  note ok1 = step_okay(1) [OF this]
  from h obtain err w1 where w1: "la_AddUser (app_ID app) a ?w = Some (err, w1)"
    "w' = w1 \<or> (\<exists>x w2. ws_Send a x w1 = Some w2 \<and> w' = signalAuthenticated a w2)"
    by (auto simp: accept_signin_def Let_def bind_eq_Some_conv split: option.splits)
  have q: "quiet a ?w w1" using la_AddUser_runs [OF ok1, of "app_ID app"] w1(1) by (simp add: runs_iff)
  have "quiet a w1 w2" if "ws_Send a x w1 = Some w2" for x w2
    using ws_Send_runs [OF step_okay(2) [OF q], of x] that by (simp add: runs_iff)
  with w1(2) q show ?thesis by (auto simp: quiet_def)
qed

lemma handleUserSignin_user:
  assumes ok: "okay a w" and r: "registered w p i = Some a" and app: "ws_app (w_heap w a) = Some app"
    and i: "ws_ID (w_heap w a) = i" and p: "app_ID app = p"
    and d: "decode_signin msg \<noteq> Some None" and h: "handleUserSignin a msg w = Some (res, w')"
  shows "same_user a w w' \<or> signs_in app i msg (ws_userID (w_heap w' a)) \<or> free w' a"
proof -
  from h consider "w' = w" | pl ud where "decode_signin msg = Some (Some pl)" "decode_user_data (us_UserData pl) = Some (Some ud)"
      "check_signin a pl (ud_ID ud) w = Some (res, w')"
    by (auto simp: handleUserSignin_def bind_eq_Some_conv split: option.splits if_splits)
  then show ?thesis
  proof cases
    case 2
    from 2(3) app i consider "signinTokenIsValid i app (us_UserData pl) (us_Auth pl)"
        "accept_signin a app (ud_ID ud) (us_UserData pl) w = Some (res, w')"
      | "closeConnection a ErrCodeUnauthorizedConnection w = Some w'"
      by (auto simp: check_signin_def app_of_def bind_eq_Some_conv split: if_splits)
    then show ?thesis
    proof cases
      case 1
      from accept_signin_user [OF ok 1(2)] 1(1) 2(1,2) show ?thesis by (auto simp: signs_in_def)
    next
      case 2
      with closeConnection_runs [OF ok app i refl, of ErrCodeUnauthorizedConnection] show ?thesis by (simp add: runs_iff)
    qed
  qed simp
qed

text \<open>What a frame does to the user of its socket, unless it ends the connection.\<close>

definition identifies :: "App \<Rightarrow> SocketID \<Rightarrow> string \<Rightarrow> addr \<Rightarrow> World \<Rightarrow> World \<Rightarrow> bool" where
  "identifies app i msg a w w' = (same_user a w w' \<or> proves (w_lib w) app i msg (ws_userID (w_heap w' a)) \<or> free w' a)"

lemma quiet_identifies: "quiet a w w' \<Longrightarrow> identifies app i msg a w w'"
  by (simp add: identifies_def quiet_def)

lemma dispatch_identifies:
  assumes ok: "okay a w" and s: "session_ok w a" and r: "registered w p i = Some a"
    and app: "ws_app (w_heap w a) = Some app" and i: "ws_ID (w_heap w a) = i" and p: "app_ID app = p"
    and f: "frame_ok (w_lib w) msg" and e: "decode_request_event msg = Some ev" and h: "dispatch a ev msg w = Some (res, w')"
  shows "identifies app i msg a w w'"
proof -
  have q: "quiet a w w" using step_refl [OF ok] by simp
  consider "ev = ''pusher:ping''" | "ev = ''pusher:subscribe''" | "ev = ''pusher:unsubscribe''" | "ev = ''pusher:signin''"
    | "ev \<notin> {''pusher:ping'', ''pusher:subscribe'', ''pusher:unsubscribe'', ''pusher:signin''}" by blast
  then show ?thesis
  proof cases
    case 1
    with h ws_Send_runs [OF ok, of PongPack] show ?thesis
      by (intro quiet_identifies) (auto simp: dispatch_def bind_eq_Some_conv runs_iff)
  next
    case 2
    with h have h': "handleSubscribeRequest a msg w = Some (res, w')" by (simp add: dispatch_def)
    have "member_given (w_lib w) msg" using f e 2 by (simp add: frame_ok_def)
    from handleSubscribe_user [OF ok s this app i h'] e 2 show ?thesis by (auto simp: identifies_def proves_def)
  next
    case 3
    with h handleUnsubscribeRequest_runs [OF ok, of msg] show ?thesis
      by (intro quiet_identifies) (simp add: dispatch_def runs_iff)
  next
    case 4
    with h have h': "handleUserSignin a msg w = Some (res, w')" by (simp add: dispatch_def)
    from handleUserSignin_user [OF ok r app i p signin_ptr [OF e] h'] e 4 show ?thesis by (auto simp: identifies_def proves_def)
  next
    case 5
    with h handleClientEvent_runs [OF ok s, of msg] q show ?thesis
      by (intro quiet_identifies) (auto simp: dispatch_def runs_iff split: if_splits)
  qed
qed

lemma wire_keeps_user:
  "ws_Send b x w = Some w' \<Longrightarrow> same_user a w w'"
  "mark_received b w = Some w' \<Longrightarrow> same_user a w w'"
  "report_error b e w = Some w' \<Longrightarrow> same_user a w w'"
  by (auto simp: mark_received_def report_error_def bind_eq_Some_conv send_frame_def same_but_wire_def
      dest!: ws_Send_frame split: option.splits if_splits)

lemma identifies_trans:
  "quiet a w w1 \<Longrightarrow> identifies app i msg a w1 w2 \<Longrightarrow> same_user a w2 w3 \<Longrightarrow> same_view w2 w3 \<Longrightarrow> identifies app i msg a w w3"
  by (auto simp: identifies_def quiet_def step_def same_view_def free_def)

lemma frame_identifies:
  assumes ok: "okay a w" and s: "session_ok w a" and r: "registered w p i = Some a"
    and app: "ws_app (w_heap w a) = Some app" and i: "ws_ID (w_heap w a) = i" and p: "app_ID app = p"
    and f: "frame_ok (w_lib w) msg" and h: "handle_frame a msg w = Some w'"
  shows "identifies app i msg a w w'"
proof -
  from h obtain w1 w2 e w3 where s1: "resetReadTimeout a w = Some w1" "count_frame a w1 = Some w2"
    "parseIncomingPayload a msg w2 = Some (e, w3)" "report_error a e w3 = Some w'"
    by (auto simp: handle_frame_def bind_eq_Some_conv)
  have q1: "quiet a w w1" using resetReadTimeout_runs [OF ok] s1(1) by (simp add: runs_iff)
  have "quiet a w1 w2" using count_frame_runs [OF step_okay(2) [OF q1]] s1(2) by (simp add: runs_iff)
  from quiet_trans [OF q1 this] have q: "quiet a w w2" .
  from s1(3) consider "w3 = w2" | ev r' w4 where "decode_request_event msg = Some ev" "dispatch a ev msg w2 = Some (r', w4)"
      "mark_received a w4 = Some w3"
    by (auto simp: parseIncomingPayload_def bind_eq_Some_conv split: option.splits)
  then show ?thesis
  proof cases
    case 1
    have "identifies app i msg a w2 w3" using 1 by (simp add: identifies_def)
    from identifies_trans [OF q this wire_keeps_user(3) [OF s1(4)] frame_views(4) [OF s1(4)]] show ?thesis .
  next
    case 2
    have w2: "session_ok w2 a" "registered w2 p i = Some a" "ws_app (w_heap w2 a) = Some app" "ws_ID (w_heap w2 a) = i"
      "frame_ok (w_lib w2) msg" using q s r app i f by (simp_all add: quiet_def step_def same_id_def)
    have "same_user a w4 w'" using wire_keeps_user(2) [OF 2(3), of a] wire_keeps_user(3) [OF s1(4), of a] by simp
    moreover have "same_view w4 w'" by (rule same_view_trans [OF frame_views(3) [OF 2(3)] frame_views(4) [OF s1(4)]])
    ultimately show ?thesis by (rule identifies_trans [OF q dispatch_identifies [OF step_okay(2) [OF q] w2(1-4) p w2(5) 2(1,2)]])
  qed
qed

subsection \<open>Steps\<close>

text \<open>A step for a socket: the others keep their users; it keeps its own, proves a new one, or leaves.\<close>

definition user_step :: "work \<Rightarrow> AppID \<Rightarrow> SocketID \<Rightarrow> addr \<Rightarrow> World \<Rightarrow> World \<Rightarrow> bool" where
  "user_step l p i a w w' =
     (registered w p i = Some a \<and> (same_user a w w'
        \<or> (\<exists>app msg. ws_app (w_heap w a) = Some app \<and> l = Message p i msg
             \<and> proves (w_lib w) app i msg (ws_userID (w_heap w' a)))))"

lemma user_step_served:
  assumes s: "served b w w'" and ok: "world_ok w" and b: "registered w q j = Some b"
    and own: "\<not> free w' b \<Longrightarrow> same_user b w w' \<or> user_step l q j b w w'" and r: "registered w' p i = Some a"
  shows "user_step l p i a w w'"
proof -
  have r0: "registered w p i = Some a" using s r by (simp add: served_def shrinks_def)
  show ?thesis
  proof (cases "a = b")
    case True
    with registered_unique [OF ok r0, of q j] b have "p = q" "i = j" by simp_all
    moreover have "\<not> free w' b" using r True by (auto simp: free_def)
    ultimately show ?thesis using own r0 True by (auto simp: user_step_def)
  next
    case False
    with s have "same_user a w w'" by (simp add: served_def others_def same_but_wire_def)
    with r0 show ?thesis by (simp add: user_step_def)
  qed
qed

lemma user_step_thinned: "thinned w w' \<Longrightarrow> registered w' p i = Some a \<Longrightarrow> user_step l p i a w w'"
  by (auto simp: thinned_def same_but_wire_def user_step_def)

lemma closed_free:
  assumes "okay a w" "closeConnection a code w = Some w'"
  shows "free w' a"
proof -
  from assms(1) obtain app where "ws_app (w_heap w a) = Some app" by (auto simp: okay_def attached_def)
  from closeConnection_runs [OF assms(1) this refl refl, of code] assms(2) show ?thesis by (simp add: runs_iff)
qed

lemma round_user:
  assumes ok: "server_ok w" and r: "registered w p i = Some a" and f: "\<And>msg. rd = Frame msg \<Longrightarrow> frame_ok (w_lib w) msg"
    and h: "listen_round a rd w = Some (go, w')" and l: "\<And>msg. rd = Frame msg \<Longrightarrow> l = Message p i msg"
    and live: "\<not> free w' a"
  shows "same_user a w w' \<or> user_step l p i a w w'"
proof -
  note s = server_ok_session [OF ok r]
  from world_okD(2) [OF s(1) r] obtain app where id: "ws_app (w_heap w a) = Some app" "ws_ID (w_heap w a) = i" "app_ID app = p"
    by (auto simp: reg_ok_def)
  from h consider "w' = w" | msg where "rd = Frame msg" "handle_frame a msg w = Some w'"
    | "handleReadMessageError a rd w = Some w'"
    by (cases rd) (auto simp: listen_round_def bind_eq_Some_conv split: if_splits)
  then show ?thesis
  proof cases
    case 2
    from frame_identifies [OF s(3,2) r id f [OF 2(1)] 2(2)] live l [OF 2(1)] id r show ?thesis
      by (auto simp: identifies_def user_step_def)
  next
    case 3
    then obtain code m where c: "closeConnection a code (w\<lparr>w_metrics := m\<rparr>) = Some w'"
      by (auto simp: handleReadMessageError_def bind_eq_Some_conv split: if_splits)
    have "thinned w (w\<lparr>w_metrics := m\<rparr>)" by (rule thinned_background [OF s(1)]) (simp add: background_def)
    with s(3) have "okay a (w\<lparr>w_metrics := m\<rparr>)" by (simp add: okay_def thinned_def attached_def)
    from closed_free [OF this c] live show ?thesis by simp
  qed simp
qed

lemma connect_user:
  assumes ok: "world_ok w" and b: "b \<noteq> 0" "free w b" and h: "serveWs b j up key proto w = Some (out, w')"
    and r: "registered w' p i = Some a" and u: "ws_userID (w_heap w' a) \<noteq> []"
  shows "user_step l p i a w w'"
proof -
  have new: "ws_userID (w_heap w' b) = []" if o: "out = Accepted"
  proof -
    from h o obtain conn app where "admit_socket b j conn app w = Some (Accepted, w')"
      by (auto simp: serveWs_def refuse_def split: option.splits sum.splits if_splits)
    then obtain w2 where w2: "la_AddSocket (app_ID app) b (upd_ws b (\<lambda>_. createWebSocket j conn app) w) = Some (None, w2)"
      "initializeWebSocketConnection b app w2 = Some w'"
      by (auto simp: admit_socket_def addSocketToAdapter_def Let_def refuse_def bind_eq_Some_conv split: option.splits)
    have "ws_userID (w_heap w2 b) = []"
      using w2(1) by (auto simp: la_AddSocket_def put_ns_def set_ns_def bind_eq_Some_conv createWebSocket_def split: option.splits if_splits)
    with w2(2) wire_keeps_user(1) show ?thesis
      by (auto simp: initializeWebSocketConnection_def WatchForAuthentication_def Let_def bind_eq_Some_conv)
  qed
  have o: "others b w w'" and r0: "a \<noteq> b \<Longrightarrow> registered w p i = Some a" and rej: "out \<noteq> Accepted \<Longrightarrow> registered w' = registered w"
    using serveWs_runs [OF ok b, of j up key proto] h r by (auto simp: runs_iff accepted_def split: if_splits)
  have ab: "a \<noteq> b" using new u rej r b(2) by (cases "out = Accepted") (auto simp: free_def)
  with o have "same_user a w w'" by (simp add: others_def same_but_wire_def)
  with r0 [OF ab] show ?thesis by (simp add: user_step_def)
qed

text \<open>Every step of the server: a registered socket with a user had it before, or proves it in this step.\<close>

lemma work_user:
  assumes w: "works l w w'" and ok: "server_ok w" and r: "registered w' p i = Some a" and u: "ws_userID (w_heap w' a) \<noteq> []"
  shows "user_step l p i a w w'"
proof -
  have wok: "world_ok w" using ok by (simp add: server_ok_def)
  have calm: "user_step l p i a w w'" if "background w w'"
    by (rule user_step_thinned [OF thinned_background [OF wok that] r])
  from w show ?thesis
  proof (cases rule: works.cases)
    case (1 b j upgraded key protocol out)
    from connect_user [OF wok 1(2-4) r u] show ?thesis .
  next
    case (2 q j b msg go)
    note s = server_ok_session [OF ok 2(2)]
    from listen_round_runs [OF s(4), of "Frame msg"] 2(3,4) have "served b w w'" by (auto simp: runs_iff)
    from user_step_served [OF this wok 2(2) round_user [OF ok 2(2) _ 2(4)] r] 2(1,3) show ?thesis by auto
  next
    case (3 q j b rd go)
    note s = server_ok_session [OF ok 3(2)]
    from listen_round_runs [OF s(4), of rd] 3(3,4) have "served b w w'" by (auto simp: runs_iff)
    from user_step_served [OF this wok 3(2) round_user [OF ok 3(2) _ 3(4)] r] 3(3) show ?thesis by auto
  next
    case (4 q j b)
    note s = server_ok_session [OF ok 4(2)]
    from watcher_runs(2) [OF s(3,2)] 4(3) have sv: "served b w w'" by simp
    have "same_user b w w'" if "\<not> free w' b"
      using 4(3) closed_free [OF s(3)] that by (auto simp: watcher_timeout_def split: option.splits)
    from user_step_served [OF sv wok 4(2) disjI1 [OF this] r] show ?thesis by simp
  next
    case (5 q j b)
    note s = server_ok_session [OF ok 5(2)]
    from close_served [OF s(3), of ErrCodeServerShuttingDown] 5(3) have sv: "served b w w'" by (simp add: ws_Close_def)
    have "free w' b" using 5(3) closed_free [OF s(3)] by (simp add: ws_Close_def)
    with user_step_served [OF sv wok 5(2) _ r] show ?thesis by blast
  next
    case (6 req resp)
    from backendGroup_runs [OF wok 6(2)] 6(3) have "thinned w w'" by (simp add: runs_iff)
    from user_step_thinned [OF this r] show ?thesis .
  next
    case (7 q j b)
    note s = server_ok_session [OF ok 7(2)]
    from watcher_runs(1) [OF s(3,2)] 7(3) have sv: "served b w w'" by simp
    have "same_user b w w'" using 7(3) by (auto simp: watcher_signal_def split: option.splits list.splits)
    from user_step_served [OF sv wok 7(2) disjI1 [OF this] r] show ?thesis by simp
  next
    case (8 appID)
    from user_step_thinned [OF Compact_thinned [OF wok] r [unfolded 8(2)]] show ?thesis unfolding 8(2) .
  qed (use calm in \<open>simp_all add: background_def on_queue_def on_cache_def\<close>)
qed

subsection \<open>Runs\<close>

definition speaks_for :: "World \<Rightarrow> AppID \<Rightarrow> SocketID \<Rightarrow> UserID \<Rightarrow> bool" where
  "speaks_for w p i u = (\<exists>a. registered w p i = Some a \<and> ws_userID (w_heap w a) = u)"

text \<open>The frame by which a socket proved its user.\<close>

definition identified_by :: "ArrayAppManager \<Rightarrow> AppID \<Rightarrow> SocketID \<Rightarrow> UserID \<Rightarrow> World \<Rightarrow> World \<Rightarrow> bool" where
  "identified_by apps p i u x y =
     (\<exists>a app msg. registered x p i = Some a \<and> ws_app (w_heap x a) = Some app \<and> app \<in> snd ` set apps \<and> app_ID app = p
        \<and> works (Message p i msg) x y \<and> proves (w_lib x) app i msg u)"

lemma speaker_step:
  assumes "reachable (fresh_world metrics apps queue h now lib) x" "wf_apps apps" "server_step x y"
    and "speaks_for y p i u" "u \<noteq> []"
  shows "speaks_for x p i u \<or> identified_by apps p i u x y"
proof -
  note r = reachable_follows [OF assms(1,2)]
  from assms(3) obtain l where l: "works l x y" using server_step_works by blast
  from assms(4) obtain a where a: "registered y p i = Some a" "ws_userID (w_heap y a) = u" unfolding speaks_for_def by blast
  from work_user [OF l r(1) a(1)] a(2) assms(5) consider "registered x p i = Some a" "same_user a x y"
    | app msg where "registered x p i = Some a" "ws_app (w_heap x a) = Some app" "l = Message p i msg" "proves (w_lib x) app i msg u"
    by (auto simp: user_step_def)
  then show ?thesis
  proof cases
    case 1
    with a(2) show ?thesis by (auto simp: speaks_for_def)
  next
    case 2
    with l coherent_app(1,2) [OF r(2) 2(1,2)] r(3) show ?thesis unfolding identified_by_def by blast
  qed
qed

text \<open>C5
  Nobody speaks for a user without proof: for every socket of a reachable server that has a user id there was a moment, earlier in
  its run, when a frame of this very socket either signed in with user data that contain this id, or subscribed to a
  presence channel as a member with this id, with a token made with the secret of its app for the id of this socket; and
  since then it has been this user without a gap.
\<close>
theorem identities_proved:
  assumes "reachable (fresh_world metrics apps queue h now lib) w" "wf_apps apps" "speaks_for w p i u" "u \<noteq> []"
  shows "\<exists>x y. reachable (fresh_world metrics apps queue h now lib) x \<and> identified_by apps p i u x y
    \<and> (\<lambda>v v'. server_step v v' \<and> speaks_for v p i u \<and> speaks_for v' p i u)\<^sup>*\<^sup>* y w"
  using assms(1,3) unfolding reachable_def
proof (induction rule: rtranclp_induct)
  case base
  then show ?case by (simp add: speaks_for_def fresh_world_def la_Init_def registered_def ns_of_def namespaces_def)
next
  case (step v v')
  let ?since = "\<lambda>v v'. server_step v v' \<and> speaks_for v p i u \<and> speaks_for v' p i u"
  have "reachable (fresh_world metrics apps queue h now lib) v" using step.hyps(1) unfolding reachable_def .
  from speaker_step [OF this assms(2) step.hyps(2) step.prems assms(4)] show ?case
  proof
    assume s: "speaks_for v p i u"
    from step.IH [OF this] obtain x y where "server_step\<^sup>*\<^sup>* (fresh_world metrics apps queue h now lib) x"
      "identified_by apps p i u x y" "?since\<^sup>*\<^sup>* y v" by blast
    moreover from step.hyps(2) step.prems s have "?since v v'" by simp
    ultimately show ?thesis using rtranclp.rtrancl_into_rtrancl [of ?since y v v'] by blast
  next
    assume "identified_by apps p i u v v'"
    with step.hyps(1) show ?thesis by blast
  qed
qed

subsection \<open>An example\<close>

text \<open>The client of a fresh server signs in as the user \<open>u\<close>.\<close>

definition demo_proof :: string where
  "demo_proof = demo_signin (''k:'' @ HmacSignature (signin_string ''9.9'' demo_user_text) ''s'')"

lemma length_marshal_string: "length (marshal_string s) \<le> 6 * length s + 2"
proof -
  have "length (concat (map escape_char s)) \<le> 6 * length s"
  proof (induction s)
    case (Cons c s)
    have "length (escape_char c) \<le> 6" by (simp add: escape_char_def Let_def hex4_def)
    with Cons show ?case by simp
  qed simp
  then show ?thesis by (simp add: marshal_string_def)
qed

lemma demo_proof_simps:
  "2 < length demo_proof" "length demo_proof \<le> MaxMessageSize" "decode_request_event demo_proof = Some ''pusher:signin''"
  "decode_signin demo_proof = Some (Some \<lparr>us_Event = ''pusher:signin'', us_UserData = demo_user_text,
     us_Auth = ''k:'' @ HmacSignature (signin_string ''9.9'' demo_user_text) ''s''\<rparr>)"
proof -
  let ?token = "''k:'' @ HmacSignature (signin_string ''9.9'' demo_user_text) ''s''"
  have t: "length (marshal_string ?token) \<le> 398" using length_marshal_string [of ?token] by (simp add: length_HmacSignature)
  have "length demo_user_text = 10" by code_simp
  then have u: "length (marshal_string demo_user_text) \<le> 62" using length_marshal_string [of demo_user_text] by simp
  have k: "length (marshal_string ''event'') = 7" "length (marshal_string ''pusher:signin'') = 15" "length (marshal_string ''data'') = 6"
    "length (marshal_string ''auth'') = 6" "length (marshal_string ''user_data'') = 11" by code_simp+
  from t u k show "2 < length demo_proof" "length demo_proof \<le> MaxMessageSize"
    by (simp_all add: demo_proof_def demo_signin_def request_def MaxMessageSize_def Join_Cons)
  show "decode_request_event demo_proof = Some ''pusher:signin''"
    by (simp add: demo_proof_def demo_signin_def decode_request_event_def request_parses decode_obj_def)
  show "decode_signin demo_proof = Some (Some \<lparr>us_Event = ''pusher:signin'', us_UserData = demo_user_text, us_Auth = ?token\<rparr>)"
    by (simp add: demo_proof_def demo_signin_def)
qed

lemma demo_signed_in:
  obtains w where "reachable demo_start w" "speaks_for w ''1'' ''9.9'' ''u''"
proof -
  let ?token = "''k:'' @ HmacSignature (signin_string ''9.9'' demo_user_text) ''s''"
  obtain w where w: "reachable demo_start w" "registered w ''1'' ''9.9'' = Some 5" "\<not> w_Closing w"
    "\<not> ws_closed (w_heap w 5)" "ws_conn (w_heap w 5) \<noteq> None" "ws_userID (w_heap w 5) = []"
    "ws_app (w_heap w 5) = Some demo_app" "la_subs ''1'' w = {}" by (rule demo_client)
  note r = reachable_follows [OF w(1) [unfolded demo_start_def] demo_apps]
  note s = server_ok_session [OF r(1) w(2)]
  have f: "frame_ok (w_lib w) demo_proof" by (simp add: frame_ok_def demo_proof_simps)
  from listen_round_runs [OF s(4), of "Frame demo_proof"] f obtain go w' where
    h: "listen_round 5 (Frame demo_proof) w = Some (go, w')" by (auto simp: runs_iff)
  with w demo_proof_simps(1,2) have "handle_frame 5 demo_proof w = Some w'" by (auto simp: listen_round_def bind_eq_Some_conv)
  then obtain w1 w2 e w3 w4 where
    st: "resetReadTimeout 5 w = Some w1" "count_frame 5 w1 = Some w2" "handleUserSignin 5 demo_proof w2 = Some (e, w3)"
      "mark_received 5 w3 = Some w4" "report_error 5 e w4 = Some w'"
    by (auto simp: handle_frame_def parseIncomingPayload_def dispatch_def demo_proof_simps bind_eq_Some_conv)
  have q1: "quiet 5 w w1" using resetReadTimeout_runs [OF s(3)] st(1) by (simp add: runs_iff)
  have "quiet 5 w1 w2" using count_frame_runs [OF step_okay(2) [OF q1]] st(2) by (simp add: runs_iff)
  from quiet_trans [OF q1 this] have q: "quiet 5 w w2" .
  have w2: "registered w2 ''1'' ''9.9'' = Some 5" "ws_app (w_heap w2 5) = Some demo_app" "world_ok w2"
    using q w by (simp_all add: quiet_def step_def same_id_def)
  have "ws_ID (w_heap w2 5) = ''9.9''" using world_okD(2) [OF w2(3,1)] by (simp add: reg_ok_def)
  then have a: "accept_signin 5 demo_app ''u'' demo_user_text w2 = Some (e, w3)"
    using st(3) w2(2) by (simp add: handleUserSignin_def demo_proof_simps demo_user_data check_signin_def app_of_def
        signinTokenIsValid_def demo_app_def)
  have "registered w3 = registered w2"
    using accept_signin_runs [OF step_okay(2) [OF q], of demo_app "''u''" demo_user_text] a by (simp add: runs_iff step_def)
  moreover have "ws_userID (w_heap w3 5) = ''u''" by (rule accept_signin_user [OF step_okay(2) [OF q] a])
  moreover have "same_view w3 w'" by (rule same_view_trans [OF frame_views(3) [OF st(4)] frame_views(4) [OF st(5)]])
  ultimately have "speaks_for w' ''1'' ''9.9'' ''u''"
    using wire_keeps_user(2) [OF st(4), of 5] wire_keeps_user(3) [OF st(5), of 5] w2(1)
    by (auto simp: speaks_for_def same_view_def)
  moreover have "server_step w w'" by (rule server_step.frame [OF w(2) _ h]) (use f in simp)
  with w(1) have "reachable demo_start w'" unfolding reachable_def by (rule rtranclp.rtrancl_into_rtrancl)
  ultimately show thesis using that by blast
qed

theorem identities_proved_witness:
  "\<exists>x y. reachable demo_start x \<and> identified_by [(''1'', demo_app)] ''1'' ''9.9'' ''u'' x y"
proof -
  obtain w where w: "reachable demo_start w" "speaks_for w ''1'' ''9.9'' ''u''" by (rule demo_signed_in)
  have u: "''u'' \<noteq> []" by simp
  from identities_proved [OF w(1) [unfolded demo_start_def] demo_apps w(2) u] show ?thesis unfolding demo_start_def by blast
qed

end
