(* ===== verification/Gauge.thy ===== *)
theory Gauge
  imports Broker_Server
begin

text \<open>
  The metrics of a server count its connections: in every reachable state the gauge of active connections, and the
  difference between the counters of connections and disconnections, are the number of registered sockets
  (\<open>internal/metrics/metricPrometheus.go\<close>, \<open>internal/serve.go\<close>, \<open>closeConnection\<close> of \<open>internal/websocket.go\<close>).
  Almost every operation leaves these metrics and the registered sockets alone; accepting and closing change both.
\<close>

subsection \<open>The connection metrics\<close>

text \<open>The gauge and the balance of the counters; a server without metrics has neither.\<close>

fun tally :: "MetricsManager \<Rightarrow> (int \<times> int) option" where
  "tally NoOpMetrics = None"
| "tally (Prometheus pm) = Some (pm_activeConnections pm, pm_connectionsTotal pm - pm_disconnectionsTotal pm)"

definition shift :: "int \<Rightarrow> (int \<times> int) option \<Rightarrow> (int \<times> int) option" where
  "shift d = map_option (\<lambda>(x, y). (x + d, y + d))"

lemma shift_simps [simp]: "shift 0 t = t" "shift d (shift e t) = shift (e + d) t"
  by (cases t; auto simp: shift_def)+

lemma tally_connection:
  "tally (MarkNewConnection p m) = shift 1 (tally m)" "tally (MarkDisconnection p m) = shift (-1) (tally m)"
  by (cases m; simp add: MarkNewConnection_def MarkDisconnection_def pm_MarkNewConnection_def pm_MarkDisconnection_def shift_def)+

lemma tally_other [simp]:
  "tally (MarkApiMessage p e m) = tally m" "tally (MarkWsMessageSent p m) = tally m" "tally (MarkWsMessageReceived p m) = tally m"
  "tally (MarkError r p m) = tally m" "tally (SetChannelsTotal n m) = tally m" "tally (SetPresenceChannels n m) = tally m"
  "tally (SetPrivateChannels n m) = tally m" "tally (SetPublicChannels n m) = tally m"
  by (cases m; simp add: Let_def MarkApiMessage_def MarkWsMessageSent_def MarkWsMessageReceived_def MarkError_def SetChannelsTotal_def
      SetPresenceChannels_def SetPrivateChannels_def SetPublicChannels_def pm_MarkApiMessage_def pm_MarkWsMessageSent_def
      pm_MarkWsMessageReceived_def pm_MarkError_def split: option.split prod.split)+

abbreviation same_tally :: "World \<Rightarrow> World \<Rightarrow> bool" where
  "same_tally w w' \<equiv> tally (w_metrics w') = tally (w_metrics w)"

subsection \<open>Operations that leave them alone\<close>

named_theorems tally_dests \<open>operations that keep the connection metrics\<close>

lemma world_metrics [simp]:
  "w_metrics (on_queue f w) = w_metrics w" "w_metrics (signalAuthenticated a w) = w_metrics w"
  "w_metrics (adopt_user a ch resp w) = w_metrics w" "w_metrics (announce_occupied app ch resp w) = w_metrics w"
  "w_metrics (forget_presence a c w) = w_metrics w" "w_metrics (untrack_channel a c w) = w_metrics w"
  "w_metrics (announce_vacated app ch lr w) = w_metrics w" "w_metrics (shut_conn a w) = w_metrics w"
  "w_metrics (mark_closed a w) = w_metrics w" "w_metrics (on_cache g w) = w_metrics w"
  by (simp_all add: on_queue_def signalAuthenticated_def adopt_user_def announce_occupied_def forget_presence_def
      untrack_channel_def announce_vacated_def shut_conn_def mark_closed_def on_cache_def Let_def split: option.split)

lemma finish_unsubscribe_metrics [simp]: "w_metrics (finish_unsubscribe a app ch lr w) = w_metrics w"
  by (simp add: finish_unsubscribe_def)

lemma updateChannelMetrics_tally [simp]: "tally (w_metrics (updateChannelMetrics p w)) = tally (w_metrics w)"
  by (simp add: updateChannelMetrics_def Let_def)

lemma wire_tally [tally_dests]:
  "resetReadTimeout a w = Some w' \<Longrightarrow> same_tally w w'"
  by (auto simp: resetReadTimeout_def bind_eq_Some_conv split: option.splits)

lemma ws_Send_tally [tally_dests]: "ws_Send a m w = Some w' \<Longrightarrow> same_tally w w'"
  by (auto simp: ws_Send_def Let_def bind_eq_Some_conv dest: wire_tally split: option.splits if_splits)

lemma send_all_tally [tally_dests]: "send_all m as w = Some w' \<Longrightarrow> same_tally w w'"
  by (induction as arbitrary: w) (auto simp: bind_eq_Some_conv dest: ws_Send_tally)

lemma adapter_tally [tally_dests]:
  "la_Send p c m e w = Some (x, w') \<Longrightarrow> same_tally w w'"
  "la_AddToChannel p c a w = Some (k, w') \<Longrightarrow> same_tally w w'"
  "la_RemoveFromChannel p cs i w = Some (k', w') \<Longrightarrow> same_tally w w'"
  "la_RemoveSocket p i w = Some w' \<Longrightarrow> same_tally w w'"
  "la_AddSocket p a w = Some (y, w') \<Longrightarrow> same_tally w w'"
  "la_AddUser p a w = Some (y, w') \<Longrightarrow> same_tally w w'"
  "la_RemoveUser p a w = Some (y, w') \<Longrightarrow> same_tally w w'"
  by (auto simp: la_Send_def la_AddToChannel_def la_RemoveFromChannel_def la_RemoveSocket_def la_AddSocket_def la_AddUser_def
      la_RemoveUser_def put_ns_def Let_def bind_eq_Some_conv dest: send_all_tally split: option.splits sum.splits if_splits)

lemma sends_tally [tally_dests]:
  "sendChannelError a c k m w = Some w' \<Longrightarrow> same_tally w w'"
  "sendSubscriptionError a c t m n w = Some w' \<Longrightarrow> same_tally w w'"
  "sendPresenceSubscriptionSuccess a ch ms w = Some w' \<Longrightarrow> same_tally w w'"
  "subscribeToUserChannel a w = Some w' \<Longrightarrow> same_tally w w'"
  "sendCacheIfNeeded a ch w = Some w' \<Longrightarrow> same_tally w w'"
  by (auto simp: sendChannelError_def sendSubscriptionError_def sendPresenceSubscriptionSuccess_def subscribeToUserChannel_def
      sendCacheIfNeeded_def Let_def bind_eq_Some_conv dest: ws_Send_tally split: option.splits if_splits)

lemma presence_tally [tally_dests]:
  "put_presence a c d w = Some w' \<Longrightarrow> same_tally w w'"
  "handleMemberAddedEvent a ch m ms w = Some (ms', w') \<Longrightarrow> same_tally w w'"
  "announce_member_removed a app ch m ms w = Some w' \<Longrightarrow> same_tally w w'"
  by (auto simp: put_presence_def handleMemberAddedEvent_def announce_member_removed_def Let_def bind_eq_Some_conv
      dest!: adapter_tally split: option.splits if_splits)

lemma subscription_tally [tally_dests]:
  "handlePresenceChannelSubscription a ch resp w = Some (r, w') \<Longrightarrow> same_tally w w'"
  "confirm_subscription a ch resp w = Some (r, w') \<Longrightarrow> same_tally w w'"
  "track_channel a ch w = Some w' \<Longrightarrow> same_tally w w'"
  "refuse_subscription a ch resp w = Some (r, w') \<Longrightarrow> same_tally w w'"
proof -
  show p: "same_tally w w'" if "handlePresenceChannelSubscription a ch resp w = Some (r, w')" for w w' r
    using that by (auto simp: handlePresenceChannelSubscription_def bind_eq_Some_conv dest!: tally_dests split: if_splits)
  show "confirm_subscription a ch resp w = Some (r, w') \<Longrightarrow> same_tally w w'"
    by (auto simp: confirm_subscription_def bind_eq_Some_conv dest!: tally_dests p split: if_splits)
qed (auto simp: track_channel_def refuse_subscription_def Let_def bind_eq_Some_conv dest!: tally_dests split: option.splits if_splits)

lemma finish_subscription_tally [tally_dests]: "finish_subscription a app ch resp w = Some (r, w') \<Longrightarrow> same_tally w w'"
  by (auto simp: finish_subscription_def bind_eq_Some_conv dest!: subscription_tally)

lemma Join_channel_tally [tally_dests]:
  "Join_channel lib (Some local_adapter) ch a i sp w = Some (resp, w') \<Longrightarrow> same_tally w w'"
  by (auto simp: sum_pair Join_channel_def joinPresenceChannel_def joinNonPresenceChannel_def local_adapter_def Let_def
      bind_eq_Some_conv simp del: all_simps dest!: adapter_tally split: if_splits)

lemma handleSubscribeRequest_tally [tally_dests]: "handleSubscribeRequest a msg w = Some (r, w') \<Longrightarrow> same_tally w w'"
  by (auto simp: handleSubscribeRequest_def Let_def bind_eq_Some_conv dest!: tally_dests split: option.splits if_splits)

lemma Leave_channel_tally [tally_dests]: "Leave_channel local_adapter ch s w = Some (lr, w') \<Longrightarrow> same_tally w w'"
  by (auto simp: Leave_channel_def local_adapter_def Let_def bind_eq_Some_conv dest!: adapter_tally)

lemma after_leave_tally [tally_dests]: "after_leave a ch lr w = Some w' \<Longrightarrow> same_tally w w'"
  by (auto simp: after_leave_def after_presence_leave_def Let_def bind_eq_Some_conv dest!: presence_tally split: option.splits if_splits)

lemma unsubscribe_tally [tally_dests]: "unsubscribeFromChannel a ch w = Some w' \<Longrightarrow> same_tally w w'"
  by (auto simp: unsubscribeFromChannel_def bind_eq_Some_conv dest!: Leave_channel_tally after_leave_tally)

lemma unsubscribe_each_tally [tally_dests]: "unsubscribe_each a chs w = Some w' \<Longrightarrow> same_tally w w'"
  by (induction chs arbitrary: w) (auto simp: bind_eq_Some_conv dest: unsubscribe_tally)

lemma unsubscribes_tally [tally_dests]:
  "unsubscribeFromAllChannels a w = Some w' \<Longrightarrow> same_tally w w'"
  "handleUnsubscribeRequest a msg w = Some (r, w') \<Longrightarrow> same_tally w w'"
  by (auto simp: unsubscribeFromAllChannels_def handleUnsubscribeRequest_def Let_def bind_eq_Some_conv
      dest!: unsubscribe_each_tally unsubscribe_tally split: option.splits)

lemma closing_tally [tally_dests]:
  "leave_user a w = Some w' \<Longrightarrow> same_tally w w'"
  "farewell a code w = Some w' \<Longrightarrow> same_tally w w'"
  by (auto simp: leave_user_def farewell_def bind_eq_Some_conv dest!: tally_dests split: if_splits)

lemma client_event_tally [tally_dests]:
  "validateClientEvent a c e m w = Some (res, w') \<Longrightarrow> same_tally w w'"
  "relayClientEvent a ch ev w = Some (r, w') \<Longrightarrow> same_tally w w'"
  by (auto simp: validateClientEvent_def relayClientEvent_def Let_def bind_eq_Some_conv dest!: tally_dests
      split: option.splits if_splits)

lemma handleClientEvent_tally [tally_dests]: "handleClientEvent a msg w = Some (r, w') \<Longrightarrow> same_tally w w'"
  by (auto simp: handleClientEvent_def Let_def bind_eq_Some_conv dest!: tally_dests split: option.splits if_splits)

lemma frame_tally [tally_dests]:
  "count_frame a w = Some w' \<Longrightarrow> same_tally w w'"
  "mark_received a w = Some w' \<Longrightarrow> same_tally w w'"
  "report_error a e w = Some w' \<Longrightarrow> same_tally w w'"
  "watcher_signal a w = Some w' \<Longrightarrow> same_tally w w'"
  "accept_signin a app u d w = Some (r, w') \<Longrightarrow> same_tally w w'"
  by (auto simp: count_frame_def mark_received_def report_error_def watcher_signal_def accept_signin_def Let_def bind_eq_Some_conv
      dest!: tally_dests split: option.splits if_splits list.splits)

lemma broadcast_tally [tally_dests]:
  "broadcast_one m app c w = Some w' \<Longrightarrow> same_tally w w'"
  "broadcastMessage m app w = Some w' \<Longrightarrow> same_tally w w'"
proof -
  show one: "same_tally w w'" if "broadcast_one m app c w = Some w'" for c w w'
    using that by (auto simp: broadcast_one_def Let_def bind_eq_Some_conv dest!: adapter_tally(1) split: if_splits)
  have "broadcast_each m app cs w = Some w' \<Longrightarrow> same_tally w w'" for cs
    by (induction cs arbitrary: w) (auto simp: bind_eq_Some_conv dest: one)
  then show "broadcastMessage m app w = Some w' \<Longrightarrow> same_tally w w'" by (simp add: broadcastMessage_def)
qed

lemma batch_tally: "batch_each app batch w = Some (resp, w') \<Longrightarrow> same_tally w w'"
  by (induction batch arbitrary: w) (auto simp: bind_eq_Some_conv dest: broadcast_tally(2) split: option.splits)

lemma route_tally:
  assumes "route r app c w = Some (resp, w')"
  shows "registered w' = registered w \<and> same_tally w w'
    \<or> (\<exists>u. c = PostTerminate u \<and> la_TerminateUserConnections (app_ID app) u w = Some w')"
proof -
  have "same_tally w w' \<or> (\<exists>u. c = PostTerminate u \<and> la_TerminateUserConnections (app_ID app) u w = Some w')"
    using assms by (cases c)
      (auto simp: EventTrigger_def BatchEventTrigger_def mark_api_error_def ChannelIndex_def ChannelShow_def ChannelUsers_def
        TerminateUserConnections_def Let_def bind_eq_Some_conv dest!: batch_tally broadcast_tally(2)
        split: sum.splits option.splits if_splits)
  with route_effect [OF assms] show ?thesis by (auto simp: same_view_def)
qed

subsection \<open>The number of connections\<close>

definition online :: "World \<Rightarrow> int" where
  "online w = int (card {(p, i). registered w p i \<noteq> None})"

definition balanced :: "World \<Rightarrow> World \<Rightarrow> bool" where
  "balanced w w' = (tally (w_metrics w') = shift (online w' - online w) (tally (w_metrics w)))"

lemma balanced_trans: "balanced w w' \<Longrightarrow> balanced w' w'' \<Longrightarrow> balanced w w''"
  by (simp add: balanced_def)

lemma balanced_same: "registered w' = registered w \<Longrightarrow> same_tally w w' \<Longrightarrow> balanced w w'"
  by (simp add: balanced_def online_def)

lemma finite_online: "finite {(p, i). registered w p i \<noteq> None}"
proof (rule finite_subset)
  have "(p, i) \<in> (\<Union>(p, n) \<in> set (namespaces w). {p} \<times> fst ` set (ns_Sockets n))" if "registered w p i = Some a" for p i a
  proof -
    from that obtain n where "(p, n) \<in> set (namespaces w)" "(i, a) \<in> set (ns_Sockets n)"
      by (auto simp: registered_def ns_of_def dest: map_of_SomeD split: option.splits)
    then show ?thesis by force
  qed
  then show "{(p, i). registered w p i \<noteq> None} \<subseteq> (\<Union>(p, n) \<in> set (namespaces w). {p} \<times> fst ` set (ns_Sockets n))" by auto
  show "finite (\<Union>(p, n) \<in> set (namespaces w). {p} \<times> fst ` set (ns_Sockets n))" by auto
qed

lemma online_leaves:
  assumes "registered w p i \<noteq> None" "registered w' = unregister p i (registered w)"
  shows "online w' = online w - 1"
proof -
  have "{(q, j). registered w' q j \<noteq> None} = {(q, j). registered w q j \<noteq> None} - {(p, i)}"
    using assms(2) by (auto simp: unregister_def split: if_splits)
  moreover have "(p, i) \<in> {(q, j). registered w q j \<noteq> None}" using assms(1) by simp
  from card.remove [OF finite_online this] have
    "card {(q, j). registered w q j \<noteq> None} = Suc (card ({(q, j). registered w q j \<noteq> None} - {(p, i)}))" .
  ultimately show ?thesis unfolding online_def by simp
qed

lemma online_joins:
  assumes "registered w p i = None" "registered w' = (\<lambda>q j. if q = p \<and> j = i then Some a else registered w q j)"
  shows "online w' = online w + 1"
proof -
  have "{(q, j). registered w' q j \<noteq> None} = insert (p, i) {(q, j). registered w q j \<noteq> None}"
    using assms(2) by auto
  with assms(1) show ?thesis unfolding online_def using finite_online [of w] by simp
qed

subsection \<open>Closing and accepting\<close>

lemma close_balanced:
  assumes ok: "world_ok w" and r: "registered w p i = Some a" and h: "closeConnection a code w = Some w'"
  shows "balanced w w'"
proof -
  from world_okD(2) [OF ok r] ok obtain app where app: "ws_app (w_heap w a) = Some app" "ws_ID (w_heap w a) = i" "app_ID app = p"
    "okay a w" by (auto simp: reg_ok_def okay_def)
  from closeConnection_runs [OF app(4,1,2) refl, of code] h app(3) have "registered w' = unregister p i (registered w)"
    by (simp add: runs_iff)
  then have o: "online w' = online w - 1" using online_leaves [of w p i w'] r by simp
  from h obtain w1 w2 w3 w4 where s: "unsubscribeFromAllChannels a w = Some w1" "leave_adapter a w1 = Some w2"
    "leave_user a w2 = Some w3" "farewell a code w3 = Some w4" "w' = mark_closed a w4"
    by (auto simp: closeConnection_def bind_eq_Some_conv)
  from unsubscribe_all_runs [OF app(4)] s(1) have "attached w1 a" by (simp add: runs_iff okay_def)
  with s(2) have "tally (w_metrics w2) = shift (-1) (tally (w_metrics w1))"
    by (auto simp: leave_adapter_def attached_def bind_eq_Some_conv tally_connection dest!: adapter_tally(4))
  then show ?thesis
    using unsubscribes_tally(1) [OF s(1)] closing_tally(1) [OF s(3)] closing_tally(2) [OF s(4)] s(5) o
    by (simp add: balanced_def)
qed

lemma connect_balanced:
  assumes ok: "world_ok w" and a: "a \<noteq> 0" "free w a" and h: "serveWs a i up key proto w = Some (out, w')"
  shows "balanced w w'"
proof -
  note runs = serveWs_runs [OF ok a, of i up key proto]
  consider "w' = w" | conn app where "admit_socket a i conn app w = Some (out, w')"
    using h by (auto simp: serveWs_def refuse_def split: option.splits sum.splits if_splits)
  then show ?thesis
  proof cases
    case 2
    let ?w1 = "upd_ws a (\<lambda>_. createWebSocket i conn app) w"
    from 2 obtain err w2 where w2: "la_AddSocket (app_ID app) a ?w1 = Some (err, w2)"
      "if err = None then out = Accepted \<and> initializeWebSocketConnection a app w2 = Some w' else out \<noteq> Accepted \<and> w' = w2"
      by (auto simp: admit_socket_def addSocketToAdapter_def Let_def refuse_def bind_eq_Some_conv split: option.splits)
    from adapter_tally(5) [OF w2(1)] have t: "same_tally w w2" by simp
    show ?thesis
    proof (cases "out = Accepted")
      case True
      with runs h obtain app' where "accepted a app' i w w'" by (auto simp: runs_iff)
      then have "registered w (app_ID app') i = None"
        "registered w' = (\<lambda>q j. if q = app_ID app' \<and> j = i then Some a else registered w q j)"
        by (simp_all add: accepted_def)
      then have "online w' = online w + 1" by (rule online_joins)
      moreover from True w2(2) have "initializeWebSocketConnection a app w2 = Some w'" by (auto split: if_splits)
      then have "tally (w_metrics w') = shift 1 (tally (w_metrics w2))"
        by (auto simp: initializeWebSocketConnection_def WatchForAuthentication_def Let_def bind_eq_Some_conv tally_connection
            dest: ws_Send_tally)
      ultimately show ?thesis using t by (simp add: balanced_def)
    next
      case False
      with w2(2) t runs h show ?thesis by (intro balanced_same) (auto simp: runs_iff split: if_splits)
    qed
  qed (simp add: balanced_same)
qed

subsection \<open>Every step\<close>

lemma dispatch_balanced:
  assumes ok: "okay a w" and s: "session_ok w a" and r: "registered w p i = Some a" and f: "frame_ok (w_lib w) msg"
    and e: "decode_request_event msg = Some ev" and h: "dispatch a ev msg w = Some (res, w')"
  shows "balanced w w'"
proof -
  have wok: "world_ok w" using ok by (simp add: okay_def)
  consider "ev = ''pusher:ping''" | "ev = ''pusher:subscribe''" | "ev = ''pusher:unsubscribe''" | "ev = ''pusher:signin''"
    | "ev \<notin> {''pusher:ping'', ''pusher:subscribe'', ''pusher:unsubscribe'', ''pusher:signin''}" by blast
  then show ?thesis
  proof cases
    case 1
    with h ws_Send_runs [OF ok, of PongPack] show ?thesis
      by (intro balanced_same) (auto simp: dispatch_def bind_eq_Some_conv runs_iff quiet_def step_def dest: ws_Send_tally)
  next
    case 2
    with h have h': "handleSubscribeRequest a msg w = Some (res, w')" by (simp add: dispatch_def)
    have m: "member_given (w_lib w) msg" using f e 2 by (simp add: frame_ok_def)
    from handleSubscribeRequest_runs [OF ok s m] handleSubscribeRequest_tally [OF h'] h' show ?thesis
      by (intro balanced_same) (simp_all add: runs_iff step_def)
  next
    case 3
    with h have h': "handleUnsubscribeRequest a msg w = Some (res, w')" by (simp add: dispatch_def)
    from handleUnsubscribeRequest_runs [OF ok, of msg] unsubscribes_tally(2) [OF h'] h' show ?thesis
      by (intro balanced_same) (simp_all add: runs_iff quiet_def step_def)
  next
    case 4
    with h have "handleUserSignin a msg w = Some (res, w')" by (simp add: dispatch_def)
    then have "w' = w \<or> (\<exists>pl u. check_signin a pl u w = Some (res, w'))"
      by (auto simp: handleUserSignin_def split: option.split_asm Option.bind_split_asm if_split_asm)
    then consider "w' = w" | app u d where "accept_signin a app u d w = Some (res, w')"
      | "closeConnection a ErrCodeUnauthorizedConnection w = Some w'"
      by (auto simp: check_signin_def app_of_def bind_eq_Some_conv split: if_splits)
    then show ?thesis
    proof cases
      case 2
      from accept_signin_runs [OF ok, of app u d] frame_tally(5) [OF 2] 2 show ?thesis
        by (intro balanced_same) (simp_all add: runs_iff step_def)
    next
      case 3
      from close_balanced [OF wok r this] show ?thesis .
    qed (simp add: balanced_same)
  next
    case 5
    with h consider "w' = w" | "handleClientEvent a msg w = Some (res, w')" by (auto simp: dispatch_def split: if_splits)
    then show ?thesis
    proof cases
      case 2
      from handleClientEvent_runs [OF ok s, of msg] handleClientEvent_tally [OF 2] 2 show ?thesis
        by (intro balanced_same) (simp_all add: runs_iff quiet_def step_def)
    qed (simp add: balanced_same)
  qed
qed

lemma frame_balanced:
  assumes ok: "okay a w" and s: "session_ok w a" and r: "registered w p i = Some a" and f: "frame_ok (w_lib w) msg"
    and h: "handle_frame a msg w = Some w'"
  shows "balanced w w'"
proof -
  from h obtain w1 w2 e w3 where s1: "resetReadTimeout a w = Some w1" "count_frame a w1 = Some w2"
    "parseIncomingPayload a msg w2 = Some (e, w3)" "report_error a e w3 = Some w'"
    by (auto simp: handle_frame_def bind_eq_Some_conv)
  have q1: "quiet a w w1" using resetReadTimeout_runs [OF ok] s1(1) by (simp add: runs_iff)
  have "quiet a w1 w2" using count_frame_runs [OF step_okay(2) [OF q1]] s1(2) by (simp add: runs_iff)
  from quiet_trans [OF q1 this] have q: "quiet a w w2" .
  then have b: "balanced w w2" using wire_tally [OF s1(1)] frame_tally(1) [OF s1(2)]
    by (intro balanced_same) (simp_all add: quiet_def step_def)
  have w2: "session_ok w2 a" "registered w2 p i = Some a" "frame_ok (w_lib w2) msg"
    using q s r f by (simp_all add: quiet_def step_def)
  from s1(3) consider "w3 = w2" | ev r' w4 where "decode_request_event msg = Some ev" "dispatch a ev msg w2 = Some (r', w4)"
      "mark_received a w4 = Some w3"
    by (auto simp: parseIncomingPayload_def bind_eq_Some_conv split: option.splits)
  then have b3: "balanced w w3"
  proof cases
    case 2
    from frame_views(3) [OF 2(3)] frame_tally(2) [OF 2(3)] have "balanced w4 w3"
      by (intro balanced_same) (simp_all add: same_view_def)
    with b dispatch_balanced [OF step_okay(2) [OF q] w2 2(1,2)] show ?thesis using balanced_trans by blast
  qed (simp add: b)
  from frame_views(4) [OF s1(4)] frame_tally(3) [OF s1(4)] have "balanced w3 w'"
    by (intro balanced_same) (simp_all add: same_view_def)
  with b3 show ?thesis by (rule balanced_trans)
qed

lemma metrics_balanced:
  assumes "tally m = tally (w_metrics w)"
  shows "balanced w (w\<lparr>w_metrics := m\<rparr>)"
  using assms same_namespaces [of "w\<lparr>w_metrics := m\<rparr>" w] by (intro balanced_same) simp_all

lemma round_balanced:
  assumes ok: "server_ok w" and r: "registered w p i = Some a" and f: "\<And>msg. rd = Frame msg \<Longrightarrow> frame_ok (w_lib w) msg"
    and h: "listen_round a rd w = Some (go, w')"
  shows "balanced w w'"
proof -
  note s = server_ok_session [OF ok r]
  from h consider "w' = w" | msg where "rd = Frame msg" "handle_frame a msg w = Some w'"
    | "handleReadMessageError a rd w = Some w'"
    by (cases rd) (auto simp: listen_round_def bind_eq_Some_conv split: if_splits)
  then show ?thesis
  proof cases
    case 2
    from frame_balanced [OF s(3,2) r f [OF 2(1)] 2(2)] show ?thesis .
  next
    case 3
    then obtain code m where c: "closeConnection a code (w\<lparr>w_metrics := m\<rparr>) = Some w'" "tally m = tally (w_metrics w)"
      by (auto simp: handleReadMessageError_def bind_eq_Some_conv split: if_splits)
    have "world_ok (w\<lparr>w_metrics := m\<rparr>)"
      by (rule thinned_ok [OF thinned_background [OF s(1)]]) (simp add: background_def)
    moreover have "registered (w\<lparr>w_metrics := m\<rparr>) p i = Some a"
      using r same_namespaces [of "w\<lparr>w_metrics := m\<rparr>" w] by simp
    ultimately show ?thesis using balanced_trans [OF metrics_balanced [OF c(2)] close_balanced [OF _ _ c(1)]] by blast
  qed (simp add: balanced_same)
qed

lemma terminate_each_balanced:
  "world_ok w \<Longrightarrow> terminate_each p u ids w = Some w' \<Longrightarrow> balanced w w'"
proof (induction ids arbitrary: w)
  case Nil
  then show ?case by (simp add: balanced_same)
next
  case (Cons i ids)
  have reg: "(case ns_of w p of None \<Rightarrow> None | Some n \<Rightarrow> map_of (ns_Sockets n) i) = registered w p i"
    by (simp add: registered_def)
  from Cons.prems(2) consider "terminate_each p u ids w = Some w'"
    | a msg w1 w2 where "registered w p i = Some a" "ws_Send a msg w = Some w1"
        "closeConnection a ErrCodeUnauthorizedConnection w1 = Some w2" "terminate_each p u ids w2 = Some w'"
    by (auto simp: reg bind_eq_Some_conv split: option.splits if_splits)
  then show ?case
  proof cases
    case 1
    from Cons.IH [OF Cons.prems(1) this] show ?thesis .
  next
    case 2
    from Cons.prems(1) world_okD(2) [OF Cons.prems(1) 2(1)] have ok: "okay a w" by (simp add: okay_def reg_ok_def)
    from ws_Send_runs [OF this, of msg] 2(2) have q: "quiet a w w1" by (simp add: runs_iff)
    then have b1: "balanced w w1" using ws_Send_tally [OF 2(2)] by (intro balanced_same) (simp_all add: quiet_def step_def)
    have r1: "world_ok w1" "registered w1 p i = Some a" using q 2(1) by (simp_all add: quiet_def step_def)
    from r1(1) world_okD(2) [OF r1] obtain app where "okay a w1" "ws_app (w_heap w1 a) = Some app"
      by (auto simp: okay_def reg_ok_def)
    from closeConnection_runs [OF this refl refl, of ErrCodeUnauthorizedConnection] 2(3) have "world_ok w2" by (simp add: runs_iff)
    from balanced_trans [OF b1 balanced_trans [OF close_balanced [OF r1 2(3)] Cons.IH [OF this 2(4)]]] show ?thesis .
  qed
qed

lemma api_balanced:
  assumes ok: "world_ok w" and h: "backendGroup req w = Some (resp, w')"
  shows "balanced w w'"
proof -
  from h consider "w' = w" | app where "route (ar_Http req) app (ar_Call req) w = Some (resp, w')"
    by (auto simp: backendGroup_def AppMiddleware_def SignatureMiddleware_def split: sum.splits)
  then show ?thesis
  proof cases
    case 2
    from route_tally [OF this] consider "registered w' = registered w" "same_tally w w'"
      | u where "la_TerminateUserConnections (app_ID app) u w = Some w'" by blast
    then show ?thesis
    proof cases
      case 2
      with terminate_each_balanced [OF ok] show ?thesis
        by (auto simp: la_TerminateUserConnections_def balanced_same split: option.splits)
    qed (rule balanced_same)
  qed (simp add: balanced_same)
qed

lemma step_balanced: "server_step w w' \<Longrightarrow> server_ok w \<Longrightarrow> balanced w w'"
proof (induction rule: server_step.induct)
  case (connect a w i upgraded key protocol out w')
  then show ?case using connect_balanced [of w a i upgraded key protocol out w'] by (simp add: server_ok_def)
next
  case (frame w p i a r go w')
  from round_balanced [OF frame.prems frame.hyps(1) _ frame.hyps(3)] frame.hyps(2) show ?case by blast
next
  case (signal w p i a w')
  from frame_views(5) [OF signal.hyps(2)] frame_tally(4) [OF signal.hyps(2)] show ?case
    by (intro balanced_same) (simp_all add: same_view_def)
next
  case (timeout w p i a w')
  have "world_ok w" using timeout.prems by (simp add: server_ok_def)
  from close_balanced [OF this timeout.hyps(1)] timeout.hyps(2) show ?case
    by (auto simp: watcher_timeout_def balanced_same split: option.splits)
next
  case (api req w resp w')
  from api_balanced [OF _ api.hyps(2)] api.prems show ?case by (simp add: server_ok_def)
next
  case (compact w appID)
  have "la_wf w" using compact.prems by (simp add: server_ok_def world_ok_def)
  from Compact_view [OF this, of appID] show ?case
    by (intro balanced_same) (simp_all add: same_view_def la_Compact_def split: option.split)
next
  case (close w p i a w')
  have "world_ok w" using close.prems by (simp add: server_ok_def)
  from close_balanced [OF this close.hyps(1)] close.hyps(2) show ?case by (simp add: ws_Close_def)
qed (intro balanced_same; use plain_view in \<open>simp add: same_view_def\<close>)+


text \<open>
  The gauge of channels, by contrast, is that of one app: every change of a namespace sets it to the number of
  channels of its own app, whatever the other apps have.
\<close>

lemma channel_gauge_one_app:
  "w_metrics w = Prometheus pm \<Longrightarrow> \<exists>pm'. w_metrics (updateChannelMetrics p w) = Prometheus pm'
     \<and> pm_channelsTotal pm' = int (length (la_GetChannelsWithSocketsCount p w))"
  by (simp add: updateChannelMetrics_def Let_def SetChannelsTotal_def SetPresenceChannels_def SetPrivateChannels_def SetPublicChannels_def)

text \<open>A first client of a server with metrics.\<close>

definition metered_start :: World where
  "metered_start = fresh_world (Prometheus (blank_metrics ''socketrush'' ''mac'')) [(''1'', demo_app)] (w_queue blank_world)
     demo_heap 0 (w_lib blank_world)"


end
