(* ===== verification/Presence.thy ===== *)
theory Presence
  imports Requests
begin

text \<open>
  Presence channels and webhooks (\<open>internal/websocket.go\<close>, \<open>internal/channels.go\<close>,
  \<open>internal/namespace.go\<close>): who is shown as present, what the members of a presence channel are told
  when somebody comes or goes, and when a channel is reported occupied or vacated.
\<close>

subsection \<open>Who is present\<close>

text \<open>The users of a presence channel: those some connected subscriber of it has given as its member.\<close>

definition present :: "AppID \<Rightarrow> ChannelName \<Rightarrow> World \<Rightarrow> UserID set" where
  "present p c w = {u. \<exists>j b d. (c, j) \<in> la_subs p w \<and> registered w p j = Some b
     \<and> getPresenceDataForChannel (w_heap w b) c = Some d \<and> md_UserID d = u}"

lemma members_present:
  assumes "world_ok w" "registered w p i = Some a"
  obtains m where "la_GetChannelMembers p c w = Some m" "wf_map m" "\<And>u. mhas m u \<longleftrightarrow> u \<in> present p c w"
    "\<forall>(u, d) \<in> set m. md_UserID d = u"
proof -
  from assms(2) obtain n where n: "ns_of w p = Some n" by (auto simp: registered_def split: option.splits)
  from GetChannelMembers_spec [OF la_wf_ns [OF world_okD(1) [OF assms(1)] n], of "w_heap w" c] obtain m where
    m: "n_GetChannelMembers (w_heap w) n c = Some m" "wf_map m"
      "\<And>u. mhas m u \<longleftrightarrow> (\<exists>i a d. n_IsInChannel n i c \<and> map_of (ns_Sockets n) i = Some a
        \<and> getPresenceDataForChannel (w_heap w a) c = Some d \<and> md_UserID d = u)"
      "\<forall>(u, d) \<in> set m. md_UserID d = u" by blast
  show thesis
    by (rule that [of m]) (use n m in \<open>simp_all add: la_GetChannelMembers_def present_def la_subs_IsInChannel [OF n] registered_def\<close>)
qed

text \<open>Steps that change nobody's membership.\<close>

definition same_presence :: "World \<Rightarrow> World \<Rightarrow> bool" where
  "same_presence w w' = (w_Namespaces w' = w_Namespaces w
     \<and> (\<forall>b. ws_PresenceData (w_heap w' b) = ws_PresenceData (w_heap w b)))"

lemma same_presence_present:
  assumes "same_presence w w'"
  shows "present p c w' = present p c w" "la_subs p w' = la_subs p w" "registered w' = registered w"
    "getPresenceDataForChannel (w_heap w' b) c = getPresenceDataForChannel (w_heap w b) c"
    "ws_PresenceData (w_heap w' b) = ws_PresenceData (w_heap w b)"
proof -
  from assms have n: "w_Namespaces w' = w_Namespaces w" by (simp add: same_presence_def)
  show s: "la_subs p w' = la_subs p w" and r: "registered w' = registered w"
    using same_namespaces [OF n] by (simp_all add: la_subs_def)
  show g: "getPresenceDataForChannel (w_heap w' b) c = getPresenceDataForChannel (w_heap w b) c" for b
    using assms by (simp add: same_presence_def getPresenceDataForChannel_def)
  show "present p c w' = present p c w" by (simp add: present_def s r g)
  show "ws_PresenceData (w_heap w' b) = ws_PresenceData (w_heap w b)" using assms by (simp add: same_presence_def)
qed

lemma same_presence_refl [simp]: "same_presence w w"
  by (simp add: same_presence_def)

lemma same_presence_trans: "same_presence w w' \<Longrightarrow> same_presence w' w'' \<Longrightarrow> same_presence w w''"
  by (simp add: same_presence_def)

lemma same_presence_frame: "send_frame w' w \<Longrightarrow> same_presence w w'"
  by (simp add: same_presence_def send_frame_def same_but_wire_def)

lemma same_presence_queue [simp]: "same_presence w (on_queue f w)"
  by (simp add: same_presence_def on_queue_def)

lemma ws_Send_presence: "ws_Send a m w = Some w' \<Longrightarrow> same_presence w w' \<and> (\<forall>b. b \<noteq> a \<longrightarrow> w_heap w' b = w_heap w b)"
  using same_presence_frame [OF ws_Send_frame] ws_Send_others by blast

lemma sendCacheIfNeeded_presence:
  assumes "sendCacheIfNeeded a ch w = Some w'"
  shows "same_presence w w' \<and> (\<forall>b. b \<noteq> a \<longrightarrow> w_heap w' b = w_heap w b)"
proof -
  have "same_presence w (on_queue f w1) \<and> (\<forall>b. b \<noteq> a \<longrightarrow> w_heap (on_queue f w1) b = w_heap w b)"
    if "ws_Send a m w = Some w1" for m f w1
    using ws_Send_presence [OF that] same_presence_trans [OF _ same_presence_queue] by (simp add: on_queue_def)
  with assms ws_Send_presence show ?thesis
    by (auto simp: sendCacheIfNeeded_def bind_eq_Some_conv split: if_splits option.splits)
qed

lemma same_presence_adopt: "same_presence w (adopt_user a ch resp w)"
  by (auto simp: same_presence_def adopt_user_def signalAuthenticated_def Let_def split: option.split)

lemma same_presence_track: "track_channel a ch w = Some w' \<Longrightarrow> same_presence w w'"
  by (auto simp: same_presence_def track_channel_def split: if_splits)

lemma same_presence_announce: "same_presence w (announce_occupied app ch resp w)"
  by (simp add: announce_occupied_def)

lemma audience_cong: "same_presence w w' \<Longrightarrow> unseen w w' \<Longrightarrow> audience p c a w' = audience p c a w"
  by (simp add: audience_def same_presence_present unseen_wire)

subsection \<open>A member joins\<close>

definition member_added_text :: "Lib \<Rightarrow> ChannelName \<Rightarrow> MemberData \<Rightarrow> string" where
  "member_added_text lib c d =
     ToJson lib True (event_msg ''pusher_internal:member_added'' (DMember (Some d)) c [])"

definition members_text :: "ChannelName \<Rightarrow> (UserID, MemberData) gomap \<Rightarrow> string" where
  "members_text c members =
     SubscriptionSucceededPack c (marshal (JObj [(''presence'', json_presence (presence_data members))]))"

text \<open>Telling the others: one message each when the user is new, none when it is not.\<close>

lemma member_added_effect:
  assumes ok: "world_ok w" and r: "registered w p i = Some a" "i \<noteq> []"
    and app: "ws_app (w_heap w a) = Some app" and c: "\<not> HasPrefix (ch_Name ch) SocketRushServerToUserPrefix"
  shows "\<exists>w'. handleMemberAddedEvent a ch d ms w = Some (if mhas ms (md_UserID d) then ms else mput (md_UserID d) d ms, w')
    \<and> same_presence w w' \<and> w_cache w' = w_cache w \<and> w_now w' = w_now w \<and> (\<forall>b. live w' b = live w b)
    \<and> (\<forall>b. same_but_wire (w_heap w' b) (w_heap w b))
    \<and> (\<forall>b. wire w' b = wire w b @ (if \<not> mhas ms (md_UserID d) \<and> b \<in> audience p (ch_Name ch) a w
         then [member_added_text (w_lib w) (ch_Name ch) d] else []))"
proof (cases "mhas ms (md_UserID d)")
  case True
  then show ?thesis by (simp add: handleMemberAddedEvent_def)
next
  case False
  from world_okD(2) [OF ok r(1)] app have id: "ws_ID (w_heap w a) = i" "app_ID app = p" "ws_server (w_heap w a)"
    by (auto simp: reg_ok_def attached_def)
  let ?w = "on_queue (SendMemberAdded (w_now w) app (ch_Name ch) (md_UserID d)) w"
  let ?t = "member_added_text (w_lib w) (ch_Name ch) d"
  have q: "same_presence w ?w" "unseen w ?w" "w_heap ?w = w_heap w" "w_lib ?w = w_lib w"
    by (simp_all add: same_presence_def unseen_def on_queue_def)
  note sp = same_presence_present [OF q(1)]
  have "world_ok ?w"
    using ok same_namespaces [of ?w w] q(1) by (auto simp: world_ok_iff reg_ok_def attached_def same_presence_def on_queue_def)
  moreover have "registered ?w p i = Some a" using sp(3) r(1) by simp
  ultimately obtain w' where w': "la_Send p (ch_Name ch) ?t [i] ?w = Some (None, w')" "send_frame w' ?w"
    "\<And>b. wire w' b = wire ?w b @ (if b \<in> audience p (ch_Name ch) a ?w then [?t] else [])" "\<And>b. live w' b = live ?w b"
    using la_Send_except_self [OF _ _ r(2) c, of ?w p a ?t] by blast
  have "handleMemberAddedEvent a ch d ms w = Some (if mhas ms (md_UserID d) then ms else mput (md_UserID d) d ms, w')"
    using False app id w'(1) q(3,4)
    by (simp add: handleMemberAddedEvent_def app_of_def server_of_def Let_def member_added_text_def)
  moreover have "same_presence w w'" by (rule same_presence_trans [OF q(1) same_presence_frame [OF w'(2)]])
  ultimately show ?thesis
    using w'(2-4) False audience_cong [OF q(1,2)] unseen_wire [OF q(2)] q(3)
    by (simp add: send_frame_def on_queue_def)
qed

text \<open>The presence data of a socket after it has given itself a member.\<close>

lemma put_presence_effect:
  assumes ok: "okay a w" "session_ok w a"
  obtains w' where "put_presence a c (Some d) w = Some w'" "quiet a w w'" "unseen w w'"
    "w_Namespaces w' = w_Namespaces w" "getPresenceDataForChannel (w_heap w' a) c = Some d"
    "\<And>b. b \<noteq> a \<Longrightarrow> w_heap w' b = w_heap w b"
proof -
  from ok(2) obtain m where m: "ws_PresenceData (w_heap w a) = Some m" by (auto simp: session_ok_def split: option.splits)
  let ?w = "upd_ws a (\<lambda>s. s\<lparr>ws_PresenceData := Some (mput c (Some d) m)\<rparr>) w"
  have "put_presence a c (Some d) w = Some ?w" using m by (simp add: put_presence_def)
  with put_presence_runs [OF ok, of c d] show thesis
    by (intro that [of ?w]) (auto simp: unseen_def getPresenceDataForChannel_def)
qed

definition joined :: "AppID \<Rightarrow> ChannelName \<Rightarrow> addr \<Rightarrow> MemberData \<Rightarrow> World \<Rightarrow> World \<Rightarrow> bool" where
  "joined p c a d w w' =
     ((\<forall>b. b \<noteq> a \<longrightarrow> wire w' b = wire w b @
        (if md_UserID d \<notin> present p c w \<and> b \<in> audience p c a w then [member_added_text (w_lib w) c d] else []))
      \<and> (\<exists>ms. wf_map ms \<and> fst ` set ms = insert (md_UserID d) (present p c w) \<and> (\<forall>(u, m) \<in> set ms. md_UserID m = u)
         \<and> wire w' a = wire w a @ members_text c ms # (if IsCacheChannel c
             then [case cache_Get (w_now w) (w_cache w) (GetChannelCacheKey p c) of
                     Some t \<Rightarrow> t | None \<Rightarrow> PayloadPack ''pusher:cache_miss'' []] else [])))"

lemma presence_subscription_effect:
  assumes ok: "world_ok w" "session_ok w a" and r: "registered w p i = Some a" "i \<noteq> []" and l: "live w a"
    and app: "ws_app (w_heap w a) = Some app" and d: "jr_Member resp = Some d" "md_UserID d \<noteq> []"
    and c: "\<not> HasPrefix c SocketRushServerToUserPrefix" and ch: "ch = CreateChannelFromString app c"
  obtains w' where "handlePresenceChannelSubscription a ch resp w = Some (None, w')" "joined p c a d w w'"
    "w_Namespaces w' = w_Namespaces w" "getPresenceDataForChannel (w_heap w' a) c = Some d"
    "\<And>b. b \<noteq> a \<Longrightarrow> ws_PresenceData (w_heap w' b) = ws_PresenceData (w_heap w b)"
proof -
  from world_okD(2) [OF ok(1) r(1)] app have id: "app_ID app = p" "ws_server (w_heap w a)" by (auto simp: reg_ok_def attached_def)
  have okay: "okay a w" using ok by (simp add: okay_def session_ok_def)
  from members_present [OF ok(1) r(1), of c] obtain m where
    m: "la_GetChannelMembers p c w = Some m" "wf_map m" "\<And>u. mhas m u \<longleftrightarrow> u \<in> present p c w" "\<forall>(u, d) \<in> set m. md_UserID d = u"
    by blast
  from put_presence_effect [OF okay ok(2), of c d] obtain w1 where w1: "put_presence a c (Some d) w = Some w1" "quiet a w w1"
    "unseen w w1" "w_Namespaces w1 = w_Namespaces w" "getPresenceDataForChannel (w_heap w1 a) c = Some d"
    "\<And>b. b \<noteq> a \<Longrightarrow> w_heap w1 b = w_heap w b" by blast
  have aud: "audience p c a w1 = audience p c a w"
    using w1(4) same_namespaces [OF w1(4)] unseen_wire [OF w1(3)] by (simp add: audience_def la_subs_def)
  have st: "world_ok w1" "registered w1 p i = Some a" "ws_app (w_heap w1 a) = Some app" "w_lib w1 = w_lib w"
    using w1(2) r app by (simp_all add: quiet_def step_def same_id_def)
  let ?new = "md_UserID d \<notin> present p c w" and ?t = "member_added_text (w_lib w) c d"
  let ?ms = "if mhas m (md_UserID d) then m else mput (md_UserID d) d m"
  have cn: "\<not> HasPrefix (ch_Name ch) SocketRushServerToUserPrefix" using c ch by simp
  from member_added_effect [OF st(1,2) r(2) st(3) cn, of d m] obtain w2 where
    w2: "handleMemberAddedEvent a ch d m w1 = Some (?ms, w2)" "same_presence w1 w2"
      "w_cache w2 = w_cache w1" "w_now w2 = w_now w1" "\<forall>b. live w2 b = live w1 b"
      "\<forall>b. same_but_wire (w_heap w2 b) (w_heap w1 b)"
      "\<forall>b. wire w2 b = wire w1 b @ (if \<not> mhas m (md_UserID d) \<and> b \<in> audience p (ch_Name ch) a w1
         then [member_added_text (w_lib w1) (ch_Name ch) d] else [])"
    by (elim exE conjE) (rule that)
  have wire2: "wire w2 b = wire w b @ (if ?new \<and> b \<in> audience p c a w then [?t] else [])" for b
    using w2(7) unseen_wire(1) [OF w1(3)] ch st(4) m(3) aud by simp
  have live2: "live w2 a" using w2(5) unseen_wire(2) [OF w1(3)] l by simp
  from ws_Send_live [OF live2, of "members_text c ?ms"] obtain w3 where w3: "ws_Send a (members_text c ?ms) w2 = Some w3"
    "wire w3 a = wire w2 a @ [members_text c ?ms]" "\<forall>b. b \<noteq> a \<longrightarrow> w_heap w3 b = w_heap w2 b" "live w3 a" by blast
  note f3 = ws_Send_frame [OF w3(1)]
  have s3: "ws_app (w_heap w3 a) = Some app" "w_now w3 = w_now w" "w_cache w3 = w_cache w"
    using f3 w2(3,4,6) w1(3) st(3) by (auto simp: send_frame_def same_but_wire_def unseen_def)
  let ?cache = "[case cache_Get (w_now w) (w_cache w) (GetChannelCacheKey p c) of
      Some t \<Rightarrow> t | None \<Rightarrow> PayloadPack ''pusher:cache_miss'' []]"
  have "\<exists>w4. sendCacheIfNeeded a ch w3 = Some w4 \<and> wire w4 a = wire w3 a @ (if IsCacheChannel c then ?cache else [])"
  proof (cases "IsCacheChannel c")
    case True
    with sendCacheIfNeeded_live [OF w3(4) s3(1), of ch] s3(2,3) id(1) ch show ?thesis by (simp add: CreateChannel_IsCache)
  next
    case False
    with ch show ?thesis by (simp add: sendCacheIfNeeded_def CreateChannel_IsCache)
  qed
  then obtain w4 where w4: "sendCacheIfNeeded a ch w3 = Some w4" "wire w4 a = wire w3 a @ (if IsCacheChannel c then ?cache else [])"
    by blast
  have p4: "same_presence w3 w4" "\<And>b. b \<noteq> a \<Longrightarrow> w_heap w4 b = w_heap w3 b"
    using sendCacheIfNeeded_presence [OF w4(1)] by blast+
  have sp: "same_presence w1 w4" by (rule same_presence_trans [OF w2(2) same_presence_trans [OF same_presence_frame [OF f3] p4(1)]])
  have e: "handlePresenceChannelSubscription a ch resp w = Some (None, w4)"
    using d m(1) w1(1) w2(1) w3(1) w4(1) id app ch
    by (simp add: handlePresenceChannelSubscription_def server_of_def app_of_def sendPresenceSubscriptionSuccess_def members_text_def)
  have not_self: "a \<notin> audience p c a w" by (simp add: audience_def)
  have keys: "fst ` set x = {u. mhas x u}" for x :: "(UserID, MemberData) gomap" by (auto simp: mhas_iff)
  have ms: "wf_map ?ms" "fst ` set ?ms = insert (md_UserID d) (present p c w)"
    using m(2,3) by (simp_all add: keys set_eq_iff, blast)
  have "md_UserID x = u" if "(u, x) \<in> set (mput (md_UserID d) d m)" for u x
    using in_mput [OF m(2) that] m(4) by auto
  with m(4) have names: "\<forall>(u, m) \<in> set ?ms. md_UserID m = u" by auto
  have "joined p c a d w w4"
    unfolding joined_def
  proof (intro conjI allI impI exI [of _ ?ms])
    show "wire w4 b = wire w b @ (if ?new \<and> b \<in> audience p c a w then [?t] else [])" if "b \<noteq> a" for b
      using wire2 [of b] w3(3) p4(2) [OF that] that by (simp add: wire_def)
    show "wire w4 a = wire w a @ members_text c ?ms # (if IsCacheChannel c then ?cache else [])"
      using w4(2) w3(2) wire2 [of a] not_self by simp
  qed (use ms names in simp_all)
  with that [OF e] sp w1(4-6) same_presence_present(4,5) [OF sp] show thesis by (simp add: same_presence_def)
qed

lemma presence_not_user_channel: "IsPresenceChannel c \<Longrightarrow> \<not> HasPrefix c SocketRushServerToUserPrefix"
  "IsPresenceChannel c \<Longrightarrow> c \<noteq> SocketRushServerToUserPrefix @ u"
  by (auto simp: IsPresenceChannel_def HasPrefix_def prefix_def SocketRushServerToUserPrefix_def)

text \<open>The first half of a subscription, up to the point where the member is known.\<close>

lemma presence_admitted:
  assumes ok: "world_ok w" "session_ok w a" and r: "registered w p i = Some a"
    and app: "ws_app (w_heap w a) = Some app" and c: "IsPresenceChannel c" and ch: "ch = CreateChannelFromString app c"
    and j: "may_join ch i sp w" "unmarshal_member (w_lib w) (sp_ChannelData sp) = Some d"
    and n: "getPresenceDataForChannel (w_heap w a) c = None"
  obtains resp w1 w2 where
    "Join_channel (w_lib w) (Some local_adapter) ch a i sp w = Some (resp, w1)" "jr_Success resp" "jr_Member resp = Some d"
    "track_channel a ch w1 = Some w2" "step a w (announce_occupied app ch resp (adopt_user a ch resp w2))"
    "unseen w (announce_occupied app ch resp (adopt_user a ch resp w2))"
    "la_subs p (announce_occupied app ch resp (adopt_user a ch resp w2)) = insert (c, i) (la_subs p w)"
    "present p c (announce_occupied app ch resp (adopt_user a ch resp w2)) = present p c w"
    "\<And>b. ws_PresenceData (w_heap (announce_occupied app ch resp (adopt_user a ch resp w2)) b) = ws_PresenceData (w_heap w b)"
proof -
  from world_okD(2) [OF ok(1) r] app have id: "a \<noteq> 0" "ws_ID (w_heap w a) = i" "app_ID app = p"
    by (auto simp: reg_ok_def attached_def)
  have okay: "okay a w" using ok by (simp add: okay_def session_ok_def)
  have wf: "la_wf w" and ns: "ns_of w p \<noteq> None" using ok(1) r by (auto simp: world_ok_def registered_def split: option.splits)
  from la.join_admitted [OF wf, of ch a i sp "w_lib w"] ns id(1,3) j c ch obtain resp w1 where
    w1: "Join_channel (w_lib w) (Some local_adapter) ch a i sp w = Some (resp, w1)" "jr_Success resp" "jr_Member resp = Some d"
      "la_subs p w1 = insert (c, i) (la_subs p w)"
    by (auto simp: may_join_admits CreateChannel_Type la_ident_def id(2))
  have q1: "quiet a w w1" using Join_channel_runs [OF okay, of "w_lib w" ch i sp] w1(1) id(2) by (simp add: runs_iff)
  from step_okay(2) [OF q1] step_session [OF quiet_step [OF q1] ok(2)] obtain w2 where
    w2: "track_channel a ch w1 = Some w2" "quiet a w1 w2" using track_channel_runs [of a w1 ch] by (auto simp: runs_iff)
  let ?w3 = "announce_occupied app ch resp (adopt_user a ch resp w2)"
  have "step a w2 (adopt_user a ch resp w2)" by (rule adopt_user_step [OF step_okay(2) [OF w2(2)]])
  then have st: "step a w ?w3"
    using step_trans [OF quiet_step [OF q1] step_trans [OF quiet_step [OF w2(2)]]] by (simp add: announce_occupied_def)
  have un: "unseen w ?w3"
    by (rule unseen_trans [OF Join_channel_cache [OF w1(1)] unseen_trans [OF unseen_track [OF w2(1)]
          unseen_trans [OF unseen_adopt unseen_announce]]])
  have sp: "same_presence w1 ?w3"
    by (rule same_presence_trans [OF same_presence_track [OF w2(1)] same_presence_trans [OF same_presence_adopt same_presence_announce]])
  note h = Join_channel_keeps [OF w1(1)]
  have reg: "registered w1 = registered w" using q1 by (simp add: quiet_def step_def)
  have "present p c w1 = present p c w" using w1(4) reg h r n by (auto simp: present_def)
  with that [OF w1(1-3) w2(1) st un] same_presence_present [OF sp] w1(4) h show thesis by simp
qed

lemma joined_cong:
  assumes "joined p c a d v w'" "unseen w v" "w_lib v = w_lib w" "present p c v = present p c w"
    and "la_subs p v = insert (c, i) (la_subs p w)" "registered v = registered w" "registered w p i = Some a"
  shows "joined p c a d w w'"
proof -
  have "audience p c a v = audience p c a w" using assms(5-7) unseen_wire(2) [OF assms(2)] by (auto simp: audience_def)
  moreover have "w_cache v = w_cache w" "w_now v = w_now w" using assms(2) by (simp_all add: unseen_def)
  ultimately show ?thesis
    using assms(1) unfolding joined_def by (simp only: assms(3,4) unseen_wire(1) [OF assms(2)]) blast
qed

text \<open>C20
  A member that joins a presence channel: the socket is sent the list of the users present, itself
  among them (and, on a cache channel, the cached event or a cache miss). The other subscribers are told of
  the user exactly once when it was not present before, and nothing when it has another connection
  there already. Then the user is present.
\<close>
theorem presence_join:
  assumes "world_ok w" "session_ok w a" "registered w p i = Some a" "i \<noteq> []" "live w a" "\<not> w_Closing w"
    and "ws_app (w_heap w a) = Some app" "decode_subscribe msg = Some sp" "IsPresenceChannel (sp_Channel sp)"
    and "ValidChannel (sp_Channel sp) (app_MaxChannelNameLength app)"
    and "may_join (CreateChannelFromString app (sp_Channel sp)) i sp w"
    and "unmarshal_member (w_lib w) (sp_ChannelData sp) = Some d" "md_UserID d \<noteq> []"
    and "getPresenceDataForChannel (w_heap w a) (sp_Channel sp) = None"
  shows "\<exists>w'. handleSubscribeRequest a msg w = Some (None, w') \<and> joined p (sp_Channel sp) a d w w'
    \<and> present p (sp_Channel sp) w' = insert (md_UserID d) (present p (sp_Channel sp) w)"
proof -
  let ?c = "sp_Channel sp" and ?ch = "CreateChannelFromString app (sp_Channel sp)"
  from world_okD(2) [OF assms(1,3)] have id: "ws_server (w_heap w a)" "ws_ID (w_heap w a) = i" by (auto simp: reg_ok_def attached_def)
  from presence_admitted [OF assms(1-3,7,9) refl assms(11,12,14)] obtain resp w1 w2 where
    j: "Join_channel (w_lib w) (Some local_adapter) ?ch a i sp w = Some (resp, w1)" "jr_Success resp" "jr_Member resp = Some d"
      "track_channel a ?ch w1 = Some w2"
    and s: "step a w (announce_occupied app ?ch resp (adopt_user a ?ch resp w2))"
      "unseen w (announce_occupied app ?ch resp (adopt_user a ?ch resp w2))"
      "la_subs p (announce_occupied app ?ch resp (adopt_user a ?ch resp w2)) = insert (?c, i) (la_subs p w)"
      "present p ?c (announce_occupied app ?ch resp (adopt_user a ?ch resp w2)) = present p ?c w"
      "\<forall>b. ws_PresenceData (w_heap (announce_occupied app ?ch resp (adopt_user a ?ch resp w2)) b) = ws_PresenceData (w_heap w b)"
    by blast
  let ?w3 = "announce_occupied app ?ch resp (adopt_user a ?ch resp w2)"
  have st: "world_ok ?w3" "session_ok ?w3 a" "registered ?w3 = registered w" "ws_app (w_heap ?w3 a) = Some app"
    "w_lib ?w3 = w_lib w" "live ?w3 a"
    using s(1) unseen_wire(2) [OF s(2)] assms(2,5,7) by (simp_all add: step_def same_id_def)
  have r3: "registered ?w3 p i = Some a" using st(3) assms(3) by simp
  obtain w4 where w4: "handlePresenceChannelSubscription a ?ch resp ?w3 = Some (None, w4)" "joined p ?c a d ?w3 w4"
    "w_Namespaces w4 = w_Namespaces ?w3" "getPresenceDataForChannel (w_heap w4 a) ?c = Some d"
    "\<And>b. b \<noteq> a \<Longrightarrow> ws_PresenceData (w_heap w4 b) = ws_PresenceData (w_heap ?w3 b)"
    using presence_subscription_effect [OF st(1,2) r3 assms(4) st(6,4) j(3) assms(13) presence_not_user_channel(1) [OF assms(9)] refl]
    by blast
  have e: "handleSubscribeRequest a msg w = Some (None, w4)"
    using subscribe_join [OF id(1) assms(6,8,7,10)] presence_not_user_channel(2) [OF assms(9)] j w4(1) id(2) assms(9)
    by (simp add: finish_subscription_def confirm_subscription_def CreateChannel_Type)
  have n4: "la_subs p w4 = insert (?c, i) (la_subs p w)" "registered w4 = registered w"
    using same_namespaces [OF w4(3)] s(3) st(3) by (simp_all add: la_subs_def)
  have g: "getPresenceDataForChannel (w_heap w4 b) ?c = (if b = a then Some d else getPresenceDataForChannel (w_heap w b) ?c)" for b
    using w4(4,5) s(5) by (simp add: getPresenceDataForChannel_def)
  have "present p ?c w4 = insert (md_UserID d) (present p ?c w)"
    unfolding present_def n4 g using assms(3,14) by (fastforce split: if_splits)
  with e joined_cong [OF w4(2) s(2) st(5) s(4,3) st(3) assms(3)] show ?thesis by blast
qed

text \<open>The socket 1 joins the presence channel of the example as the user \<open>u\<close>.\<close>

definition demo_member :: MemberData where
  "demo_member = \<lparr>md_UserID = ''u'', md_UserInfo = None\<rparr>"

definition demo_presence_world :: World where
  "demo_presence_world = demo_world\<lparr>w_lib := \<lparr>unmarshal_member = (\<lambda>_. Some demo_member),
     marshal_member = (\<lambda>_. []), json_error_text = (\<lambda>_. [])\<rparr>\<rparr>"

lemma demo_presence_world_ok: "world_ok demo_presence_world" "a \<noteq> 0 \<Longrightarrow> session_ok demo_presence_world a"
  "registered demo_presence_world = registered demo_world" "w_heap demo_presence_world = demo_heap"
  "la_subs p demo_presence_world = la_subs p demo_world" "\<not> w_Closing demo_presence_world"
  "live demo_presence_world a = live demo_world a" "wire demo_presence_world a = wire demo_world a"
  "ns_of demo_presence_world = ns_of demo_world"
proof -
  have n: "w_Namespaces demo_presence_world = w_Namespaces demo_world" by (simp add: demo_presence_world_def)
  show h: "w_heap demo_presence_world = demo_heap" by (simp add: demo_presence_world_def)
  show r: "registered demo_presence_world = registered demo_world" "ns_of demo_presence_world = ns_of demo_world"
    using same_namespaces [OF n] by simp_all
  then show "la_subs p demo_presence_world = la_subs p demo_world" by (simp add: la_subs_def)
  show "world_ok demo_presence_world"
    by (rule world_ok_transfer [of demo_world]) (use r h same_namespaces [OF n] in \<open>simp_all add: same_id_def\<close>)
  show "session_ok demo_presence_world a" if "a \<noteq> 0"
    using demo_session_ok [OF that] h by (simp add: session_ok_def attached_def)
qed (simp_all add: demo_presence_world_def live_def wire_def)

lemma demo_may_join_presence:
  "may_join (CreateChannelFromString demo_app ''presence-x'') ''1.1'' demo_presence demo_presence_world"
proof -
  have "ValidateChannelAuth (sp_Auth demo_presence) ''s'' ''1.1'' ''presence-x'' []"
    unfolding ValidateChannelAuth_iff by (rule exI [of _ "''k''"]) (simp add: demo_presence_def)
  moreover have "la_GetChannelMembersCount ''1'' ''presence-x'' demo_presence_world = Some 0"
    by (simp add: la_GetChannelMembersCount_def demo_presence_world_ok n_GetChannelMembers_def n_GetChannelSockets_def demo_ns_def)
  ultimately show ?thesis by (simp add: may_join_def demo_presence_def)
qed

theorem presence_join_witness:
  "\<exists>w'. handleSubscribeRequest 1 (subscribe_request demo_presence) demo_presence_world = Some (None, w')
    \<and> joined ''1'' ''presence-x'' 1 demo_member demo_presence_world w' \<and> present ''1'' ''presence-x'' w' = {''u''}"
proof -
  have "live demo_presence_world 1" by (simp add: demo_presence_world_ok live_def demo_conn_def)
  moreover have "present ''1'' ''presence-x'' demo_presence_world = {}"
    by (simp add: present_def demo_presence_world_ok demo_subs)
  moreover have "unmarshal_member (w_lib demo_presence_world) t = Some demo_member" for t by (simp add: demo_presence_world_def)
  ultimately show ?thesis
    using presence_join [of demo_presence_world 1 "''1''" "''1.1''" demo_app "subscribe_request demo_presence" demo_presence demo_member]
      demo_may_join_presence demo_presence_channel
    by (simp add: demo_presence_world_ok demo_registered demo_presence_def demo_member_def getPresenceDataForChannel_def)
qed

subsection \<open>A member leaves\<close>

definition member_removed_text :: "Lib \<Rightarrow> ChannelName \<Rightarrow> UserID \<Rightarrow> string" where
  "member_removed_text lib c u =
     ToJson lib True (event_msg ''pusher_internal:member_removed'' (DUserID u) c [])"

lemma member_removed_effect:
  assumes ok: "world_ok w" and r: "registered w p i = Some a" "i \<noteq> []"
    and app: "ws_app (w_heap w a) = Some app" and c: "\<not> HasPrefix (ch_Name ch) SocketRushServerToUserPrefix"
  shows "\<exists>w'. announce_member_removed a app ch d ms w = Some w' \<and> same_presence w w'
    \<and> (\<forall>b. same_but_wire (w_heap w' b) (w_heap w b))
    \<and> (\<forall>b. wire w' b = wire w b @ (if \<not> mhas ms (md_UserID d) \<and> b \<in> audience p (ch_Name ch) a w
         then [member_removed_text (w_lib w) (ch_Name ch) (md_UserID d)] else []))"
proof (cases "mhas ms (md_UserID d)")
  case True
  then show ?thesis by (simp add: announce_member_removed_def)
next
  case False
  from world_okD(2) [OF ok r(1)] app have id: "ws_ID (w_heap w a) = i" "app_ID app = p"
    by (auto simp: reg_ok_def)
  let ?w = "on_queue (SendMemberRemoved (w_now w) app (ch_Name ch) (md_UserID d)) w"
  let ?t = "member_removed_text (w_lib w) (ch_Name ch) (md_UserID d)"
  have q: "same_presence w ?w" "unseen w ?w" "w_heap ?w = w_heap w" "w_lib ?w = w_lib w"
    by (simp_all add: same_presence_def unseen_def on_queue_def)
  have "world_ok ?w"
    using ok same_namespaces [of ?w w] q(1) by (auto simp: world_ok_iff reg_ok_def attached_def same_presence_def on_queue_def)
  moreover have "registered ?w p i = Some a" using same_presence_present(3) [OF q(1)] r(1) by simp
  ultimately obtain w' where w': "la_Send p (ch_Name ch) ?t [i] ?w = Some (None, w')" "send_frame w' ?w"
    "\<And>b. wire w' b = wire ?w b @ (if b \<in> audience p (ch_Name ch) a ?w then [?t] else [])" "\<And>b. live w' b = live ?w b"
    using la_Send_except_self [OF _ _ r(2) c, of ?w p a ?t] by blast
  have "announce_member_removed a app ch d ms w = Some w'"
    using False id w'(1) q(3,4) by (simp add: announce_member_removed_def Let_def member_removed_text_def)
  moreover have "same_presence w w'" by (rule same_presence_trans [OF q(1) same_presence_frame [OF w'(2)]])
  ultimately show ?thesis
    using w'(2,3) False audience_cong [OF q(1,2)] unseen_wire [OF q(2)] q(3)
    by (simp add: send_frame_def)
qed

lemma Leave_channel_keeps:
  assumes "Leave_channel local_adapter ch s w = Some (resp, w')"
  shows "unseen w w'" "w_heap w' = w_heap w" "w_lib w' = w_lib w" "w_queue w' = w_queue w"
    "lr_Member resp = (if ch_Type ch = ChannelTypePresence then getPresenceDataForChannel s (ch_Name ch) else None)"
    "lr_RemainingConnections resp = la_GetChannelSocketsCount (app_ID (ch_App ch)) (ch_Name ch) w'"
  using assms
  by (auto simp: Leave_channel_def local_adapter_def la_RemoveFromChannel_def bind_eq_Some_conv unseen_def split: option.splits)

lemma finish_unsubscribe_keeps:
  "same_presence w (finish_unsubscribe a app ch resp w)" "wire (finish_unsubscribe a app ch resp w) b = wire w b"
  by (auto simp: same_presence_def wire_def finish_unsubscribe_def untrack_channel_def announce_vacated_def on_queue_def)

text \<open>The users who are present by a socket other than the one given.\<close>

definition present_elsewhere :: "AppID \<Rightarrow> ChannelName \<Rightarrow> SocketID \<Rightarrow> World \<Rightarrow> UserID set" where
  "present_elsewhere p c i w = {u. \<exists>j b d. j \<noteq> i \<and> (c, j) \<in> la_subs p w \<and> registered w p j = Some b
     \<and> getPresenceDataForChannel (w_heap w b) c = Some d \<and> md_UserID d = u}"

text \<open>The sockets of other users of the channel keep their members.\<close>

lemma forget_presence_data:
  "getPresenceDataForChannel (w_heap (forget_presence a c w) b) c = (if b = a then None else getPresenceDataForChannel (w_heap w b) c)"
  by (auto simp: forget_presence_def getPresenceDataForChannel_def split: option.split)

text \<open>After the socket has left, present are those who were present by another socket.\<close>

lemma left_present:
  assumes "world_ok w" "registered w p i = Some a" "la_subs p w1 = la_subs p w - {(c, i)}"
    and "w_heap w1 = w_heap w" "registered w1 = registered w"
  shows "present p c (forget_presence a c w1) = present_elsewhere p c i w"
proof -
  have n: "w_Namespaces (forget_presence a c w1) = w_Namespaces w1" by (simp add: forget_presence_def)
  have s: "la_subs p (forget_presence a c w1) = la_subs p w - {(c, i)}" "registered (forget_presence a c w1) = registered w"
    using same_namespaces [OF n] assms(3,5) by (simp_all add: la_subs_def)
  have g: "getPresenceDataForChannel (w_heap (forget_presence a c w1) b) c
      = (if b = a then None else getPresenceDataForChannel (w_heap w b) c)" for b
    using assms(4) by (simp add: forget_presence_data)
  have "registered w p j = Some b \<Longrightarrow> j = i \<longleftrightarrow> b = a" for j b
    using registered_unique [OF assms(1), of p j b p i] assms(2) by auto
  then show ?thesis unfolding present_def present_elsewhere_def s g by (intro Collect_cong) auto
qed

text \<open>C21
  A member that leaves a presence channel: its subscription ends, and the remaining subscribers are told
  exactly once that the user is gone when this was its last connection to the channel, and nothing
  otherwise. Present are then those who are present by another socket.
\<close>
theorem presence_leave:
  assumes "world_ok w" "session_ok w a" "registered w p i = Some a" "i \<noteq> []"
    and "ws_app (w_heap w a) = Some app" "decode_unsubscribe msg = Some c" "IsPresenceChannel c"
    and "subscription (w_heap w a) c = Some (CreateChannelFromString app c)" "(c, i) \<in> la_subs p w"
    and "getPresenceDataForChannel (w_heap w a) c = Some d"
  shows "\<exists>w'. handleUnsubscribeRequest a msg w = Some (None, w') \<and> la_subs p w' = la_subs p w - {(c, i)}
    \<and> present p c w' = present_elsewhere p c i w
    \<and> (\<forall>b. wire w' b = wire w b @ (if md_UserID d \<notin> present_elsewhere p c i w \<and> b \<in> audience p c a w
         then [member_removed_text (w_lib w) c (md_UserID d)] else []))"
proof -
  let ?ch = "CreateChannelFromString app c"
  from world_okD(2) [OF assms(1,3)] assms(5) have id: "ws_server (w_heap w a)" "ws_ID (w_heap w a) = i" "app_ID app = p"
    by (auto simp: reg_ok_def attached_def)
  have okay: "okay a w" using assms(1,2) by (simp add: okay_def session_ok_def)
  from la.leave [OF world_okD(1) [OF assms(1)], of ?ch "w_heap w a"] id obtain resp w1 where
    w1: "Leave_channel local_adapter ?ch (w_heap w a) w = Some (resp, w1)" "lr_Success resp" "la_subs p w1 = la_subs p w - {(c, i)}"
    by auto
  note k = Leave_channel_keeps [OF w1(1)]
  have q1: "quiet a w w1" using Leave_channel_runs [OF okay, of ?ch "w_heap w a"] w1(1) by (simp add: runs_iff)
  let ?w2 = "forget_presence a c w1"
  have q2: "quiet a w ?w2" by (rule quiet_trans [OF q1 forget_quiet(1) [OF step_okay(2) [OF q1]]])
  have n2: "w_Namespaces ?w2 = w_Namespaces w1" and u2: "unseen w ?w2"
    using k(1) by (auto simp: forget_presence_def unseen_def)
  have s2: "world_ok ?w2" "registered ?w2 = registered w" "ws_app (w_heap ?w2 a) = Some app" "w_lib ?w2 = w_lib w"
    using q2 assms(5) by (simp_all add: quiet_def step_def same_id_def)
  have subs2: "la_subs p ?w2 = la_subs p w - {(c, i)}" using same_namespaces [OF n2] w1(3) by (simp add: la_subs_def)
  have r2: "registered ?w2 p i = Some a" using s2(2) assms(3) by simp
  have aud: "audience p c a ?w2 = audience p c a w"
    using subs2 s2(2) assms(3) unseen_wire(2) [OF u2] by (auto simp: audience_def)
  have pres: "present p c ?w2 = present_elsewhere p c i w"
    by (rule left_present [OF assms(1,3) w1(3) k(2)]) (use q1 in \<open>simp add: quiet_def step_def\<close>)
  from members_present [OF s2(1) r2, of c] obtain m where
    m: "la_GetChannelMembers p c ?w2 = Some m" "wf_map m" "\<And>u. mhas m u \<longleftrightarrow> u \<in> present p c ?w2"
      "\<forall>(u, d) \<in> set m. md_UserID d = u" by blast
  have cn: "\<not> HasPrefix (ch_Name ?ch) SocketRushServerToUserPrefix" using presence_not_user_channel(1) [OF assms(7)] by simp
  from member_removed_effect [OF s2(1) r2 assms(4) s2(3) cn, of d m] obtain w3 where
    w3: "announce_member_removed a app ?ch d m ?w2 = Some w3" "same_presence ?w2 w3"
      "\<forall>b. wire w3 b = wire ?w2 b @ (if \<not> mhas m (md_UserID d) \<and> b \<in> audience p (ch_Name ?ch) a ?w2
         then [member_removed_text (w_lib ?w2) (ch_Name ?ch) (md_UserID d)] else [])"
    by (elim exE conjE) (rule that)
  let ?w4 = "finish_unsubscribe a app ?ch resp w3"
  have "handleUnsubscribeRequest a msg w = Some (None, ?w4)"
    using assms(5,6,7,8,10) id(1,3) w1(1,2) k(5) m(1) w3(1) s2(3)
    by (simp add: handleUnsubscribeRequest_def unsubscribeFromChannel_def server_of_def after_leave_def after_presence_leave_def
        app_of_def CreateChannel_Type)
  moreover have sp: "same_presence ?w2 ?w4" by (rule same_presence_trans [OF w3(2) finish_unsubscribe_keeps(1)])
  ultimately show ?thesis
    using w3(3) pres subs2 aud unseen_wire(1) [OF u2] s2(4) m(3) same_presence_present(1,2) [OF sp] finish_unsubscribe_keeps(2)
    by (intro exI [of _ ?w4]) simp
qed

text \<open>Two sockets in a presence channel of the example; the first one is the user \<open>u\<close> and leaves.\<close>

definition demo_members_world :: World where
  "demo_members_world = demo_world\<lparr>
     w_heap := demo_heap(1 := (demo_heap 1)\<lparr>ws_PresenceData := Some [(''presence-x'', Some demo_member)],
       ws_SubscribedChannels := Some [(''presence-x'', CreateChannelFromString demo_app ''presence-x'')]\<rparr>),
     w_Namespaces := Some [(''1'', demo_ns\<lparr>ns_Channels := [(''presence-x'', [''1.1'', ''2.2''])]\<rparr>)]\<rparr>"

lemma demo_members_ok:
  "world_ok demo_members_world" "session_ok demo_members_world 1" "registered demo_members_world = registered demo_world"
  "la_subs ''1'' demo_members_world = {(''presence-x'', ''1.1''), (''presence-x'', ''2.2'')}"
  "getPresenceDataForChannel (w_heap demo_members_world b) ''presence-x'' = (if b = 1 then Some demo_member else None)"
  "wire demo_members_world b = []" "live demo_members_world 2" "\<not> w_Closing demo_members_world"
  "ws_app (w_heap demo_members_world 1) = Some demo_app"
  "subscription (w_heap demo_members_world 1) ''presence-x'' = Some (CreateChannelFromString demo_app ''presence-x'')"
proof -
  let ?n = "demo_ns\<lparr>ns_Channels := [(''presence-x'', [''1.1'', ''2.2''])]\<rparr>"
  have ns: "ns_of demo_members_world p = (if p = ''1'' then Some ?n else None)" for p
    by (simp add: demo_members_world_def ns_of_def namespaces_def)
  have wf: "la_wf demo_members_world"
    by (simp add: la_wf_def namespaces_def demo_members_world_def wf_map_def ns_wf_def demo_ns_def no_empty_def)
  show r: "registered demo_members_world = registered demo_world"
    by (intro ext) (simp add: registered_def ns demo_ns_def ns_of_def [of demo_world] namespaces_def)
  show "world_ok demo_members_world"
    by (rule world_ok_transfer [of demo_world]) (use r wf in \<open>simp_all add: same_id_def demo_members_world_def\<close>)
  show "session_ok demo_members_world 1"
    by (simp add: session_ok_def attached_def demo_members_world_def)
  show "la_subs ''1'' demo_members_world = {(''presence-x'', ''1.1''), (''presence-x'', ''2.2'')}"
    by (auto simp: la_subs_def ns abs_ns_def rel_of_def split: if_splits)
qed (simp_all add: demo_members_world_def getPresenceDataForChannel_def wire_def live_def demo_conn_def subscription_def)

theorem presence_leave_witness:
  "\<exists>w'. handleUnsubscribeRequest 1 (request ''pusher:unsubscribe'' [(''channel'', JStr ''presence-x'')]) demo_members_world = Some (None, w')
    \<and> present ''1'' ''presence-x'' w' = {} \<and> wire w' 2 = [member_removed_text (w_lib demo_members_world) ''presence-x'' ''u'']"
proof -
  note d = demo_members_ok
  have e: "present_elsewhere ''1'' ''presence-x'' ''1.1'' demo_members_world = {}"
    by (auto simp: present_elsewhere_def d demo_registered split: if_splits)
  have aud: "2 \<in> audience ''1'' ''presence-x'' 1 demo_members_world"
    by (simp add: audience_def d demo_registered exI [of _ "''2.2''"])
  have "decode_unsubscribe (request ''pusher:unsubscribe'' [(''channel'', JStr ''presence-x'')]) = Some ''presence-x''" by simp
  from presence_leave [OF d(1,2) _ _ d(9) this demo_presence_channel(1) d(10), of "''1''" "''1.1''" demo_member] e aud show ?thesis
    by (auto simp: d(3-6) demo_registered demo_member_def)
qed

end
