(* ===== verification/Occupancy.thy ===== *)
theory Occupancy
  imports Presence
begin

text \<open>
  What the webhooks are told about a channel: the counts of \<open>internal/namespace.go\<close>, what \<open>Join\<close> and
  \<open>Leave\<close> of \<open>internal/channels.go\<close> make of them, the events the handlers of \<open>internal/websocket.go\<close>
  hand to the queue, and what the flap detector of the queue makes of a short visit.
\<close>

subsection \<open>What reaches the queue\<close>

definition member_event :: "string \<Rightarrow> ChannelName \<Rightarrow> UserID \<Rightarrow> WebhookEvent" where
  "member_event name c u = \<lparr>we_Name = name, we_Channel = c, we_Data = [], we_SocketID = [], we_UserID = u\<rparr>"

abbreviation channel_event :: "string \<Rightarrow> ChannelName \<Rightarrow> WebhookEvent" where
  "channel_event name c \<equiv> member_event name c []"

text \<open>Handing events to the queue one after the other.\<close>

definition hand :: "int \<Rightarrow> App \<Rightarrow> WebhookEvent list \<Rightarrow> Queue \<Rightarrow> Queue" where
  "hand now app evs q = foldl (\<lambda>q e. queue_Send now app e q) q evs"

lemma hand_simps [simp]: "hand now app [] q = q" "hand now app (xs @ ys) q = hand now app ys (hand now app xs q)"
  "hand now app [e] q = queue_Send now app e q"
  by (simp_all add: hand_def)

text \<open>Between two states the queue has been handed these events on behalf of the app, and no others.\<close>

definition handed :: "App \<Rightarrow> WebhookEvent list \<Rightarrow> World \<Rightarrow> World \<Rightarrow> bool" where
  "handed app evs w w' = (w_now w' = w_now w \<and> w_queue w' = hand (w_now w) app evs (w_queue w))"

lemma handed_trans: "handed app xs w w' \<Longrightarrow> handed app ys w' w'' \<Longrightarrow> handed app (xs @ ys) w w''"
  by (simp add: handed_def)

lemma handed_after: "handed app [] w w' \<Longrightarrow> handed app ys w' w'' \<Longrightarrow> handed app ys w w''"
  using handed_trans [of app "[]"] by simp

lemma handed_refl [simp]: "handed app [] w w"
  by (simp add: handed_def)

lemma sends_hand:
  "SendChannelOccupied now app c = hand now app (if app_HasChannelOccupiedWebhooks app then [channel_event ''channel_occupied'' c] else [])"
  "SendChannelVacated now app c = hand now app (if app_HasChannelVacatedWebhooks app then [channel_event ''channel_vacated'' c] else [])"
  "SendCacheMissed now app c = hand now app (if app_HasCacheMissWebhooks app then [channel_event ''cache_miss'' c] else [])"
  "SendMemberAdded now app c u = hand now app (if app_HasMemberAddedWebhooks app then [member_event ''member_added'' c u] else [])"
  "SendMemberRemoved now app c u = hand now app (if app_HasMemberRemovedWebhooks app then [member_event ''member_removed'' c u] else [])"
  by (simp_all add: fun_eq_iff SendChannelOccupied_def SendChannelVacated_def SendCacheMissed_def SendMemberAdded_def
      SendMemberRemoved_def member_event_def)

lemma handed_on_queue: "handed app evs w (on_queue (hand (w_now w) app evs) w)"
  by (simp add: handed_def on_queue_def)

text \<open>The rest of what the events depend on: the clock, the cache and the app of every socket.\<close>

definition same_ground :: "World \<Rightarrow> World \<Rightarrow> bool" where
  "same_ground w w' = (w_now w' = w_now w \<and> w_cache w' = w_cache w \<and> (\<forall>b. ws_app (w_heap w' b) = ws_app (w_heap w b)))"

definition silent :: "World \<Rightarrow> World \<Rightarrow> bool" where
  "silent w w' = (w_queue w' = w_queue w \<and> same_ground w w')"

lemma silent_handed: "silent w w' \<Longrightarrow> handed app [] w w'"
  by (simp add: silent_def handed_def same_ground_def)

lemma silent_trans: "silent w w' \<Longrightarrow> silent w' w'' \<Longrightarrow> silent w w''"
  by (simp add: silent_def same_ground_def)

lemma silent_refl [simp]: "silent w w"
  by (simp add: silent_def same_ground_def)

lemma same_ground_trans: "same_ground w w' \<Longrightarrow> same_ground w' w'' \<Longrightarrow> same_ground w w''"
  by (simp add: same_ground_def)

lemma send_frame_silent: "send_frame w' w \<Longrightarrow> silent w w'"
  by (simp add: silent_def same_ground_def send_frame_def same_but_wire_def)

lemma ws_Send_silent: "ws_Send a m w = Some w' \<Longrightarrow> silent w w'"
  using send_frame_silent ws_Send_frame by blast

lemma la_Send_silent:
  assumes "la_Send p c m e w = Some (x, w')"
  shows "silent w w'"
proof -
  have "send_all m as w = Some w' \<Longrightarrow> silent w w'" for as w w'
    by (induction as arbitrary: w) (auto simp: bind_eq_Some_conv intro: silent_trans ws_Send_silent)
  with assms show ?thesis
    by (auto simp: la_Send_def Let_def bind_eq_Some_conv split: if_splits sum.splits option.splits)
qed

lemma upd_silent: "ws_app (f (w_heap w a)) = ws_app (w_heap w a) \<Longrightarrow> silent w (upd_ws a f w)"
  by (simp add: silent_def same_ground_def)

lemma put_presence_silent: "put_presence a c d w = Some w' \<Longrightarrow> silent w w'"
  by (auto simp: put_presence_def intro: upd_silent)

lemma track_channel_silent: "track_channel a ch w = Some w' \<Longrightarrow> silent w w'"
  by (auto simp: track_channel_def intro: upd_silent split: if_splits)

lemma adopt_user_silent: "silent w (adopt_user a ch resp w)"
  by (auto simp: silent_def same_ground_def adopt_user_def signalAuthenticated_def Let_def split: option.split)

subsection \<open>Counting subscribers\<close>

text \<open>The sockets subscribed to a channel, and whether all of them are connected.\<close>

definition occupants :: "AppID \<Rightarrow> ChannelName \<Rightarrow> World \<Rightarrow> SocketID set" where
  "occupants p c w = {j. (c, j) \<in> la_subs p w}"

definition all_connected :: "AppID \<Rightarrow> ChannelName \<Rightarrow> World \<Rightarrow> bool" where
  "all_connected p c w = (\<forall>j \<in> occupants p c w. registered w p j \<noteq> None)"

lemma sockets_count:
  assumes "ns_of w p \<noteq> None" "all_connected p c w"
  shows "finite (occupants p c w)" "la_GetChannelSocketsCount p c w = int (card (occupants p c w))"
proof -
  from assms(1) obtain n where n: "ns_of w p = Some n" by blast
  have o: "occupants p c w = {i. n_IsInChannel n i c}" by (simp add: occupants_def la_subs_IsInChannel [OF n])
  have "{i. n_IsInChannel n i c} = {i. n_IsInChannel n i c \<and> mhas (ns_Sockets n) i}"
    using assms(2) n by (auto simp: all_connected_def o registered_def mhas_def)
  with o show "la_GetChannelSocketsCount p c w = int (card (occupants p c w))"
    by (simp add: la_GetChannelSocketsCount_def n GetChannelSockets_count)
  show "finite (occupants p c w)"
    unfolding o n_IsInChannel_def by (cases "map_of (ns_Channels n) c") auto
qed

text \<open>The count that adding to a channel returns is one exactly when nobody was subscribed.\<close>

lemma add_count:
  assumes "la_wf w" "la_AddToChannel p c a w = Some (Inr k, w')"
  shows "k = 1 \<longleftrightarrow> occupants p c w = {}"
proof -
  from assms(2) obtain n where n: "ns_of w p = Some n" by (auto simp: la_AddToChannel_def split: option.splits)
  have "k = int (length (mget0 [] (ns_Channels n) c @ [ws_ID (w_heap w a)]))"
    using assms(2) n mget0_created [of "ns_Channels n" c]
    by (auto simp: la_AddToChannel_def n_AddToChannel_def Let_def bind_eq_Some_conv split: if_splits)
  then have "k = 1 \<longleftrightarrow> mget0 [] (ns_Channels n) c = []" by simp
  also have "\<dots> \<longleftrightarrow> occupants p c w = {}"
  proof (cases "map_of (ns_Channels n) c")
    case None
    then show ?thesis by (simp add: mget0_def occupants_def la_subs_IsInChannel [OF n] n_IsInChannel_def)
  next
    case (Some ids)
    with no_emptyD [OF ns_wfD(4) [OF la_wf_ns [OF assms(1) n]] Some] show ?thesis
      by (auto simp: mget0_def occupants_def la_subs_IsInChannel [OF n] n_IsInChannel_def neq_Nil_conv)
  qed
  finally show ?thesis .
qed

lemma join_result:
  "(case r of Inl e \<Rightarrow> join_error c (f e) t | Inr k \<Rightarrow> join_ok (g k) m) = resp \<longleftrightarrow>
     (\<exists>e. r = Inl e \<and> resp = join_error c (f e) t) \<or> (\<exists>k. r = Inr k \<and> resp = join_ok (g k) m)"
  by (cases r) auto

lemma join_connections:
  assumes j: "Join_channel lib (Some local_adapter) ch a i sp w = Some (resp, w1)" "jr_Success resp"
    and w: "la_wf w" "app_ID (ch_App ch) = p" "ns_of w1 p \<noteq> None"
    and s: "occupants p (ch_Name ch) w1 = insert i (occupants p (ch_Name ch) w)" "all_connected p (ch_Name ch) w1"
    and n: "i \<notin> occupants p (ch_Name ch) w"
  shows "jr_ChannelConnections resp = 1 \<longleftrightarrow> occupants p (ch_Name ch) w = {}"
proof -
  have count: "la_GetChannelSocketsCount p (ch_Name ch) w1 = 1 \<longleftrightarrow> occupants p (ch_Name ch) w = {}"
    using sockets_count [OF w(3) s(2)] n by (auto simp: s(1))
  show "jr_ChannelConnections resp = 1 \<longleftrightarrow> occupants p (ch_Name ch) w = {}"
  proof (cases "ch_Type ch = ChannelTypePresence")
    case True
    with j have "joinPresenceChannel lib local_adapter ch a sp w = Some (resp, w1)"
      by (auto simp: Join_channel_def split: if_splits)
    then have "jr_ChannelConnections resp = la_GetChannelSocketsCount p (ch_Name ch) w1"
      using j(2) w(2) by (auto simp: sum_pair join_result joinPresenceChannel_def local_adapter_def Let_def bind_eq_Some_conv split: if_splits)
    with count show ?thesis by simp
  next
    case False
    with j have "joinNonPresenceChannel local_adapter ch a w = Some (resp, w1)"
      by (auto simp: Join_channel_def split: if_splits)
    then have "\<exists>k. la_AddToChannel p (ch_Name ch) a w = Some (Inr k, w1) \<and> jr_ChannelConnections resp = k"
      using j(2) w(2) by (auto simp: sum_pair join_result joinNonPresenceChannel_def local_adapter_def bind_eq_Some_conv)
    with add_count [OF w(1)] show ?thesis by blast
  qed
qed

lemma Join_silent: "Join_channel lib (Some local_adapter) ch a i sp w = Some (resp, w') \<Longrightarrow> silent w w'"
proof -
  have add: "la_AddToChannel p c a w = Some (x, w1) \<Longrightarrow> silent w w1" for p c x w1
    by (auto simp: la_AddToChannel_def bind_eq_Some_conv silent_def same_ground_def split: option.splits)
  show "Join_channel lib (Some local_adapter) ch a i sp w = Some (resp, w') \<Longrightarrow> silent w w'"
    by (auto simp: sum_pair Join_channel_def joinPresenceChannel_def joinNonPresenceChannel_def local_adapter_def Let_def
        bind_eq_Some_conv dest: add split: if_splits)
qed

subsection \<open>What the handlers hand to the queue\<close>

text \<open>A cache channel without a cached event.\<close>

definition cache_events :: "App \<Rightarrow> ChannelName \<Rightarrow> World \<Rightarrow> WebhookEvent list" where
  "cache_events app c w =
     (if IsCacheChannel c \<and> cache_Get (w_now w) (w_cache w) (GetChannelCacheKey (app_ID app) c) = None
         \<and> app_HasCacheMissWebhooks app
      then [channel_event ''cache_miss'' c] else [])"

lemma cache_events_cong: "same_ground w w' \<Longrightarrow> cache_events app c w' = cache_events app c w"
  by (simp add: cache_events_def same_ground_def)

lemma queued_silent:
  assumes "silent w1 w2"
  shows "w_queue w = w_queue w1 \<Longrightarrow> w_now w = w_now w1 \<Longrightarrow> handed app evs w (on_queue (hand (w_now w2) app evs) w2)"
  using assms by (simp add: handed_def on_queue_def silent_def same_ground_def)

lemma sendCacheIfNeeded_hands:
  assumes s: "sendCacheIfNeeded a ch w = Some w'" and app: "ws_app (w_heap w a) = Some app" and ch: "ch = CreateChannelFromString app c"
  shows "handed app (cache_events app c w) w w'"
proof (cases "IsCacheChannel c")
  case False
  with s ch show ?thesis by (simp add: sendCacheIfNeeded_def CreateChannel_IsCache cache_events_def)
next
  case True
  let ?v = "cache_Get (w_now w) (w_cache w) (GetChannelCacheKey (app_ID app) c)"
  show ?thesis
  proof (cases ?v)
    case None
    with True s app ch obtain w1 where w1: "ws_Send a (PayloadPack ''pusher:cache_miss'' []) w = Some w1"
      "w' = on_queue (SendCacheMissed (w_now w1) app c) w1"
      by (auto simp: sendCacheIfNeeded_def CreateChannel_IsCache app_of_def bind_eq_Some_conv)
    from queued_silent [OF ws_Send_silent [OF w1(1)] refl refl] None True w1(2) show ?thesis
      by (simp add: sends_hand cache_events_def)
  next
    case (Some d)
    with True s app ch have "ws_Send a d w = Some w'"
      by (auto simp: sendCacheIfNeeded_def CreateChannel_IsCache app_of_def bind_eq_Some_conv)
    from silent_handed [OF ws_Send_silent [OF this]] Some show ?thesis by (simp add: cache_events_def)
  qed
qed

lemma on_queue_ground: "same_ground w (on_queue f w)"
  by (simp add: same_ground_def on_queue_def)

lemma member_added_hands:
  assumes s: "handleMemberAddedEvent a ch d ms w = Some (ms', w')" and app: "ws_app (w_heap w a) = Some app"
  shows "handed app (if \<not> mhas ms (md_UserID d) \<and> app_HasMemberAddedWebhooks app
      then [member_event ''member_added'' (ch_Name ch) (md_UserID d)] else []) w w'" "same_ground w w'"
proof -
  let ?evs = "if app_HasMemberAddedWebhooks app then [member_event ''member_added'' (ch_Name ch) (md_UserID d)] else []"
  let ?w = "on_queue (hand (w_now w) app ?evs) w"
  have "handed app (if mhas ms (md_UserID d) then [] else ?evs) w w' \<and> same_ground w w'"
  proof (cases "mhas ms (md_UserID d)")
    case False
    with s app obtain x p c m e where "la_Send p c m e ?w = Some (x, w')"
      by (auto simp: handleMemberAddedEvent_def app_of_def Let_def bind_eq_Some_conv sends_hand)
    then have sil: "silent ?w w'" by (rule la_Send_silent)
    have "handed app (?evs @ []) w w'" by (rule handed_trans [OF handed_on_queue silent_handed [OF sil]])
    moreover have "same_ground ?w w'" using sil by (simp add: silent_def)
    then have "same_ground w w'" by (rule same_ground_trans [OF on_queue_ground])
    ultimately show ?thesis using False by simp
  qed (use s in \<open>auto simp: handleMemberAddedEvent_def same_ground_def\<close>)
  then show "handed app (if \<not> mhas ms (md_UserID d) \<and> app_HasMemberAddedWebhooks app
      then [member_event ''member_added'' (ch_Name ch) (md_UserID d)] else []) w w'" "same_ground w w'"
    by (simp_all split: if_splits)
qed

lemma member_removed_hands:
  assumes s: "announce_member_removed a app ch d ms w = Some w'"
  shows "handed app (if \<not> mhas ms (md_UserID d) \<and> app_HasMemberRemovedWebhooks app
      then [member_event ''member_removed'' (ch_Name ch) (md_UserID d)] else []) w w'"
proof (cases "mhas ms (md_UserID d)")
  case False
  let ?evs = "if app_HasMemberRemovedWebhooks app then [member_event ''member_removed'' (ch_Name ch) (md_UserID d)] else []"
  from False s obtain x p c m e where "la_Send p c m e (on_queue (hand (w_now w) app ?evs) w) = Some (x, w')"
    by (auto simp: announce_member_removed_def Let_def bind_eq_Some_conv sends_hand)
  then have sil: "silent (on_queue (hand (w_now w) app ?evs) w) w'" by (rule la_Send_silent)
  have "handed app (?evs @ []) w w'" by (rule handed_trans [OF handed_on_queue silent_handed [OF sil]])
  with False show ?thesis by simp
qed (use s in \<open>simp add: announce_member_removed_def\<close>)

text \<open>The events of a subscription that is let in: the channel is new, the user is new, nothing is cached.\<close>

definition subscription_events :: "App \<Rightarrow> ChannelName \<Rightarrow> string \<Rightarrow> World \<Rightarrow> WebhookEvent list" where
  "subscription_events app c data w =
     (if occupants (app_ID app) c w = {} \<and> app_HasChannelOccupiedWebhooks app
      then [channel_event ''channel_occupied'' c] else [])
     @ (case unmarshal_member (w_lib w) data of
          None \<Rightarrow> []
        | Some d \<Rightarrow>
            if IsPresenceChannel c \<and> md_UserID d \<notin> present (app_ID app) c w \<and> app_HasMemberAddedWebhooks app
            then [member_event ''member_added'' c (md_UserID d)] else [])
     @ cache_events app c w"

lemma confirm_hands:
  assumes c: "confirm_subscription a ch resp w = Some (r, w')" and app: "ws_app (w_heap w a) = Some app"
    and ch: "ch = CreateChannelFromString app c"
    and d: "IsPresenceChannel c \<Longrightarrow> jr_Member resp = Some d \<and> md_UserID d \<noteq> [] \<and>
      (\<exists>m. la_GetChannelMembers (app_ID app) c w = Some m \<and> (mhas m (md_UserID d) \<longleftrightarrow> md_UserID d \<in> P))"
  shows "handed app ((if IsPresenceChannel c \<and> md_UserID d \<notin> P \<and> app_HasMemberAddedWebhooks app
      then [member_event ''member_added'' c (md_UserID d)] else []) @ cache_events app c w) w w'"
proof (cases "IsPresenceChannel c")
  case False
  with c ch obtain w1 where w1: "ws_Send a (SubscriptionSucceededPack c ''{}'') w = Some w1" "sendCacheIfNeeded a ch w1 = Some w'"
    by (auto simp: confirm_subscription_def CreateChannel_Type bind_eq_Some_conv)
  note s = ws_Send_silent [OF w1(1)]
  have "ws_app (w_heap w1 a) = Some app" "same_ground w w1" using s app by (simp_all add: silent_def same_ground_def)
  from handed_after [OF silent_handed [OF s] sendCacheIfNeeded_hands [OF w1(2) this(1) ch]] cache_events_cong [OF this(2)] False
  show ?thesis by simp
next
  case True
  with c ch d app obtain m ms w1 w2 w3 where m: "mhas m (md_UserID d) \<longleftrightarrow> md_UserID d \<in> P"
    and w1: "put_presence a c (Some d) w = Some w1" and w2: "handleMemberAddedEvent a ch d m w1 = Some (ms, w2)"
    and w3: "sendPresenceSubscriptionSuccess a ch ms w2 = Some w3" and w4: "sendCacheIfNeeded a ch w3 = Some w'"
    by (auto simp: confirm_subscription_def CreateChannel_Type handlePresenceChannelSubscription_def app_of_def
        bind_eq_Some_conv split: if_splits)
  note s1 = put_presence_silent [OF w1]
  have a1: "ws_app (w_heap w1 a) = Some app" using s1 app by (simp add: silent_def same_ground_def)
  have s3: "silent w2 w3" using w3 by (auto simp: sendPresenceSubscriptionSuccess_def intro: ws_Send_silent)
  have g: "same_ground w w3"
    using s1 s3 same_ground_trans [OF _ same_ground_trans [OF member_added_hands(2) [OF w2 a1]]] by (simp add: silent_def)
  then have a3: "ws_app (w_heap w3 a) = Some app" using app by (simp add: same_ground_def)
  from handed_after [OF silent_handed [OF s1] handed_trans [OF member_added_hands(1) [OF w2 a1]
        handed_after [OF silent_handed [OF s3] sendCacheIfNeeded_hands [OF w4 a3 ch]]]]
  show ?thesis using True m ch cache_events_cong [OF g] by (auto split: if_splits)
qed

text \<open>The members of a channel are read from the namespace and the presence data alone.\<close>

lemma same_presence_members:
  assumes "same_presence w w'"
  shows "la_GetChannelMembers p c w' = la_GetChannelMembers p c w"
proof -
  note g = same_presence_present(4) [OF assms]
  have "collect_members (w_heap w') c ss m = collect_members (w_heap w) c ss m" for ss m
  proof (induction ss arbitrary: m)
    case (Cons s ss)
    then show ?case by (cases s) (simp add: deref_def g)
  qed simp
  moreover have "ns_of w' = ns_of w" by (rule ns_of_same_namespaces) (use assms in \<open>simp add: same_presence_def\<close>)
  ultimately show ?thesis by (simp add: la_GetChannelMembers_def n_GetChannelMembers_def split: option.split)
qed

lemma finish_hands:
  assumes f: "finish_subscription a app ch resp w = Some (r, w')" and app: "ws_app (w_heap w a) = Some app"
    and ch: "ch = CreateChannelFromString app c"
    and d: "IsPresenceChannel c \<Longrightarrow> jr_Member resp = Some d \<and> md_UserID d \<noteq> []"
    and m: "IsPresenceChannel c \<Longrightarrow> la_GetChannelMembers (app_ID app) c w = Some m"
  shows "handed app ((if jr_ChannelConnections resp = 1 \<and> app_HasChannelOccupiedWebhooks app
      then [channel_event ''channel_occupied'' c] else [])
    @ (if IsPresenceChannel c \<and> \<not> mhas m (md_UserID d) \<and> app_HasMemberAddedWebhooks app
      then [member_event ''member_added'' c (md_UserID d)] else []) @ cache_events app c w) w w'"
proof -
  from f obtain w1 where w1: "track_channel a ch w = Some w1"
    "confirm_subscription a ch resp (announce_occupied app ch resp (adopt_user a ch resp w1)) = Some (r, w')"
    by (auto simp: finish_subscription_def bind_eq_Some_conv)
  let ?w2 = "adopt_user a ch resp w1" and ?w3 = "announce_occupied app ch resp (adopt_user a ch resp w1)"
  let ?occ = "if jr_ChannelConnections resp = 1 \<and> app_HasChannelOccupiedWebhooks app then [channel_event ''channel_occupied'' c] else []"
  have s: "silent w ?w2" by (rule silent_trans [OF track_channel_silent [OF w1(1)] adopt_user_silent])
  have "?w3 = on_queue (hand (w_now ?w2) app ?occ) ?w2 \<or> ?occ = [] \<and> ?w3 = ?w2"
    using ch by (auto simp: announce_occupied_def sends_hand)
  then have "handed app ?occ ?w2 ?w3" using handed_on_queue [of app ?occ ?w2] by fastforce
  note h = handed_after [OF silent_handed [OF s] this]
  have "same_ground ?w2 ?w3" by (simp add: announce_occupied_def same_ground_def on_queue_def)
  then have g: "same_ground w ?w3" using s same_ground_trans by (auto simp: silent_def)
  then have app3: "ws_app (w_heap ?w3 a) = Some app" using app by (simp add: same_ground_def)
  have sp: "same_presence w ?w3"
    by (rule same_presence_trans [OF same_presence_track [OF w1(1)] same_presence_trans [OF same_presence_adopt same_presence_announce]])
  have "la_GetChannelMembers (app_ID app) c ?w3 = Some m" if "IsPresenceChannel c"
    using m [OF that] same_presence_members [OF sp] by simp
  then have "handed app ((if IsPresenceChannel c \<and> md_UserID d \<notin> {u. mhas m u} \<and> app_HasMemberAddedWebhooks app
      then [member_event ''member_added'' c (md_UserID d)] else []) @ cache_events app c ?w3) ?w3 w'"
    using d by (intro confirm_hands [OF w1(2) app3 ch]) simp
  from handed_trans [OF h this] cache_events_cong [OF g] show ?thesis by simp
qed

text \<open>The state after a join: who is subscribed, registered and present.\<close>

lemma join_state:
  assumes ok: "world_ok w" "session_ok w a" and r: "registered w p i = Some a" and app: "ws_app (w_heap w a) = Some app"
    and c: "ch = CreateChannelFromString app c" and j: "may_join ch i sp w"
  obtains resp w1 where "Join_channel (w_lib w) (Some local_adapter) ch a i sp w = Some (resp, w1)" "jr_Success resp"
    "quiet a w w1" "w_heap w1 = w_heap w" "la_subs p w1 = insert (c, i) (la_subs p w)" "ns_of w1 p \<noteq> None"
    "IsPresenceChannel c \<longrightarrow> jr_Member resp = unmarshal_member (w_lib w) (sp_ChannelData sp)"
proof -
  from world_okD(2) [OF ok(1) r] app have id: "a \<noteq> 0" "ws_ID (w_heap w a) = i" "app_ID app = p"
    by (auto simp: reg_ok_def attached_def)
  have okay: "okay a w" using ok by (simp add: okay_def session_ok_def)
  have wf: "la_wf w" and ns: "ns_of w p \<noteq> None" using ok(1) r by (auto simp: world_ok_def registered_def split: option.splits)
  from la.join_admitted [OF wf, of ch a i sp "w_lib w"] ns id(1,3) j c obtain resp w1 where
    w1: "Join_channel (w_lib w) (Some local_adapter) ch a i sp w = Some (resp, w1)" "jr_Success resp" "ns_of w1 p \<noteq> None"
      "la_subs p w1 = insert (c, i) (la_subs p w)"
      "IsPresenceChannel c \<longrightarrow> jr_Member resp = unmarshal_member (w_lib w) (sp_ChannelData sp)"
    by (auto simp: may_join_admits CreateChannel_Type la_ident_def id(2))
  have "quiet a w w1" using Join_channel_runs [OF okay, of "w_lib w" ch i sp] w1(1) id(2) by (simp add: runs_iff)
  from that [OF w1(1,2) this Join_channel_keeps [OF w1(1)] w1(4,3,5)] show thesis .
qed

text \<open>C22
  A subscription that is let in tells the webhooks of the app exactly this: that the channel is occupied when
  nobody was subscribed to it before, that the member has been added when its user was not present
  before, and that the cache was missed when a cache channel has no cached event; in this order, each at most once.
\<close>
theorem subscription_reported:
  assumes "world_ok w" "session_ok w a" "registered w p i = Some a" "\<not> w_Closing w"
    and "decode_subscribe msg = Some sp" "ws_app (w_heap w a) = Some app"
    and "ValidChannel (sp_Channel sp) (app_MaxChannelNameLength app)"
    and "ws_userID (w_heap w a) = [] \<or> sp_Channel sp \<noteq> SocketRushServerToUserPrefix @ ws_userID (w_heap w a)"
    and "may_join (CreateChannelFromString app (sp_Channel sp)) i sp w"
    and "i \<notin> occupants p (sp_Channel sp) w" "all_connected p (sp_Channel sp) w"
    and "IsPresenceChannel (sp_Channel sp) \<longrightarrow> (\<exists>d. unmarshal_member (w_lib w) (sp_ChannelData sp) = Some d \<and> md_UserID d \<noteq> [])
      \<and> getPresenceDataForChannel (w_heap w a) (sp_Channel sp) = None"
  shows "\<exists>w'. handleSubscribeRequest a msg w = Some (None, w')
    \<and> handed app (subscription_events app (sp_Channel sp) (sp_ChannelData sp) w) w w'"
proof -
  let ?c = "sp_Channel sp" and ?ch = "CreateChannelFromString app (sp_Channel sp)"
  from world_okD(2) [OF assms(1,3)] assms(6) have id: "ws_server (w_heap w a)" "ws_ID (w_heap w a) = i" "app_ID app = p"
    by (auto simp: reg_ok_def attached_def)
  from join_state [OF assms(1-3,6) refl assms(9)] obtain resp w1 where
    w1: "Join_channel (w_lib w) (Some local_adapter) ?ch a i sp w = Some (resp, w1)" "jr_Success resp"
      "quiet a w w1" "w_heap w1 = w_heap w" "la_subs p w1 = insert (?c, i) (la_subs p w)" "ns_of w1 p \<noteq> None"
      "IsPresenceChannel ?c \<longrightarrow> jr_Member resp = unmarshal_member (w_lib w) (sp_ChannelData sp)"
    by blast
  have reg: "registered w1 = registered w" "world_ok w1" using w1(3) by (simp_all add: quiet_def step_def)
  have occ: "occupants p ?c w1 = insert i (occupants p ?c w)" using w1(5) by (auto simp: occupants_def)
  then have con: "all_connected p ?c w1" using assms(3,11) reg by (simp add: all_connected_def)
  from join_connections [OF w1(1,2) world_okD(1) [OF assms(1)] _ w1(6)] occ con assms(10) id(3) have
    k: "jr_ChannelConnections resp = 1 \<longleftrightarrow> occupants p ?c w = {}" by simp
  have h: "handleSubscribeRequest a msg w = finish_subscription a app ?ch resp w1"
    using subscribe_join [OF id(1) assms(4,5,6,7)] assms(8) w1(1,2) id(2) by auto
  have "member_given (w_lib w) msg" using assms(5,12) by (auto simp: member_given_def)
  moreover have "okay a w" using assms(1,2) by (simp add: okay_def session_ok_def)
  ultimately obtain res w' where w': "finish_subscription a app ?ch resp w1 = Some (res, w')"
    using handleSubscribeRequest_runs [of a w msg] assms(2) h by (auto simp: runs_iff)
  have res: "res = None"
    using subscribe_spec [OF assms(1,3-7) _ h [unfolded w']] assms(8,9,12) by auto
  note s1 = Join_silent [OF w1(1)]
  have g1: "same_ground w w1" using s1 by (simp add: silent_def)
  have app1: "ws_app (w_heap w1 a) = Some app" using w1(4) assms(6) by simp
  have "registered w1 p i = Some a" using reg assms(3) by simp
  from members_present [OF reg(2) this, of ?c] obtain m where
    m: "la_GetChannelMembers p ?c w1 = Some m" "wf_map m" "\<And>u. mhas m u \<longleftrightarrow> u \<in> present p ?c w1"
      "\<forall>(u, d) \<in> set m. md_UserID d = u" by blast
  have pres: "present p ?c w1 = present p ?c w" if "IsPresenceChannel ?c"
    using that assms(3,12) w1(4,5) reg(1) by (auto simp: present_def)
  have evs: "subscription_events app ?c (sp_ChannelData sp) w
    = (if jr_ChannelConnections resp = 1 \<and> app_HasChannelOccupiedWebhooks app then [channel_event ''channel_occupied'' ?c] else [])
      @ (if IsPresenceChannel ?c \<and> \<not> mhas m (md_UserID (the (unmarshal_member (w_lib w) (sp_ChannelData sp)))) \<and> app_HasMemberAddedWebhooks app
         then [member_event ''member_added'' ?c (md_UserID (the (unmarshal_member (w_lib w) (sp_ChannelData sp))))] else [])
      @ cache_events app ?c w1"
    using k m(3) pres id(3) assms(12) cache_events_cong [OF g1] by (auto simp: subscription_events_def split: option.split)
  have "handed app (subscription_events app ?c (sp_ChannelData sp) w) w1 w'"
    unfolding evs
    by (rule finish_hands [OF w' app1 refl]) (use assms(12) w1(7) m(1) id(3) in auto)
  from handed_after [OF silent_handed [OF s1] this] h w' res show ?thesis by auto
qed

text \<open>The count after leaving is zero exactly when nobody else was subscribed.\<close>

lemma leave_remaining:
  assumes l: "Leave_channel local_adapter ch s w = Some (resp, w1)" and p: "app_ID (ch_App ch) = p" "ns_of w1 p \<noteq> None"
    and s: "la_subs p w1 = la_subs p w - {(ch_Name ch, i)}" "registered w1 = registered w" "all_connected p (ch_Name ch) w"
  shows "lr_RemainingConnections resp = 0 \<longleftrightarrow> occupants p (ch_Name ch) w \<subseteq> {i}"
proof -
  have o: "occupants p (ch_Name ch) w1 = occupants p (ch_Name ch) w - {i}" using s(1) by (auto simp: occupants_def)
  then have "all_connected p (ch_Name ch) w1" using s(2,3) by (simp add: all_connected_def)
  from sockets_count [OF p(2) this] Leave_channel_keeps(6) [OF l] p(1) o show ?thesis by auto
qed

lemma finish_unsubscribe_hands:
  "handed app (if lr_RemainingConnections resp = 0 \<and> app_HasChannelVacatedWebhooks app
     then [channel_event ''channel_vacated'' (ch_Name ch)] else []) w (finish_unsubscribe a app ch resp w)"
  by (simp add: finish_unsubscribe_def untrack_channel_def announce_vacated_def sends_hand handed_def on_queue_def)

text \<open>The events of a subscription that ends; a presence channel whose member is not known reports none.\<close>

definition unsubscription_events :: "App \<Rightarrow> ChannelName \<Rightarrow> SocketID \<Rightarrow> MemberData option \<Rightarrow> World \<Rightarrow> WebhookEvent list" where
  "unsubscription_events app c i member w =
     (let vacated = (if occupants (app_ID app) c w \<subseteq> {i} \<and> app_HasChannelVacatedWebhooks app
                     then [channel_event ''channel_vacated'' c] else [])
      in if \<not> IsPresenceChannel c then vacated
         else case member of
           None \<Rightarrow> []
         | Some d \<Rightarrow> (if md_UserID d \<notin> present_elsewhere (app_ID app) c i w \<and> app_HasMemberRemovedWebhooks app
                      then [member_event ''member_removed'' c (md_UserID d)] else []) @ vacated)"

lemma after_leave_hands:
  assumes l: "after_leave a ch resp w = Some w'" "lr_Success resp" and app: "ws_app (w_heap w a) = Some app"
    and ch: "ch = CreateChannelFromString app c"
    and m: "la_GetChannelMembers (app_ID app) c (forget_presence a c w) = Some m"
  shows "handed app (let vacated = (if lr_RemainingConnections resp = 0 \<and> app_HasChannelVacatedWebhooks app
          then [channel_event ''channel_vacated'' c] else [])
      in if \<not> IsPresenceChannel c then vacated
         else case lr_Member resp of
           None \<Rightarrow> []
         | Some d \<Rightarrow> (if \<not> mhas m (md_UserID d) \<and> app_HasMemberRemovedWebhooks app
                      then [member_event ''member_removed'' c (md_UserID d)] else []) @ vacated) w w'"
proof (cases "IsPresenceChannel c")
  case False
  with l app ch have "w' = finish_unsubscribe a app ch resp w"
    by (auto simp: after_leave_def CreateChannel_Type app_of_def split: if_splits)
  with False finish_unsubscribe_hands [of app resp ch w a] ch show ?thesis by (simp cong: if_cong split del: if_split)
next
  case True
  have f: "silent w (forget_presence a c w)" by (simp add: forget_presence_def upd_silent)
  have af: "app_of a (forget_presence a c w) = Some app" using app by (simp add: forget_presence_def app_of_def)
  show ?thesis
  proof (cases "lr_Member resp")
    case None
    with l True ch m af have "w' = forget_presence a c w"
      by (auto simp: after_leave_def after_presence_leave_def CreateChannel_Type)
    with silent_handed [OF f] True None show ?thesis by simp
  next
    case (Some d)
    with l True ch m af obtain w1 where w1: "announce_member_removed a app ch d m (forget_presence a c w) = Some w1"
      "w' = finish_unsubscribe a app ch resp w1"
      by (auto simp: after_leave_def after_presence_leave_def CreateChannel_Type bind_eq_Some_conv)
    from handed_after [OF silent_handed [OF f] handed_trans [OF member_removed_hands [OF w1(1)] finish_unsubscribe_hands [of app resp ch _ a]]]
    show ?thesis using True Some w1(2) ch by (simp cong: if_cong split del: if_split)
  qed
qed

text \<open>
  A subscription that ends tells the webhooks of the app exactly this: that the member has been removed
  when its user has no other socket in the presence channel, and that the channel is vacated when nobody
  else is subscribed. A presence channel that does not know the member of the socket reports neither.
\<close>
theorem unsubscription_reported:
  assumes "world_ok w" "session_ok w a" "registered w p i = Some a" "ws_app (w_heap w a) = Some app"
    and "decode_unsubscribe msg = Some c" "subscription (w_heap w a) c = Some (CreateChannelFromString app c)"
    and "all_connected p c w"
  shows "\<exists>w'. handleUnsubscribeRequest a msg w = Some (None, w')
    \<and> handed app (unsubscription_events app c i (getPresenceDataForChannel (w_heap w a) c) w) w w'"
proof -
  let ?ch = "CreateChannelFromString app c"
  from world_okD(2) [OF assms(1,3)] assms(4) have id: "ws_server (w_heap w a)" "ws_ID (w_heap w a) = i" "app_ID app = p"
    by (auto simp: reg_ok_def attached_def)
  have ok: "okay a w" using assms(1,2) by (simp add: okay_def session_ok_def)
  from unsubscribe_runs [OF ok, of ?ch] obtain w' where w': "unsubscribeFromChannel a ?ch w = Some w'" by (auto simp: runs_iff)
  from la.leave [OF world_okD(1) [OF assms(1)], of ?ch "w_heap w a"] id obtain resp w1 where
    w1: "Leave_channel local_adapter ?ch (w_heap w a) w = Some (resp, w1)" "lr_Success resp" "la_subs p w1 = la_subs p w - {(c, i)}"
    by auto
  note k = Leave_channel_keeps [OF w1(1)]
  have q1: "quiet a w w1" using Leave_channel_runs [OF ok, of ?ch "w_heap w a"] w1(1) by (simp add: runs_iff)
  let ?w2 = "forget_presence a c w1"
  have "quiet a w ?w2" by (rule quiet_trans [OF q1 forget_quiet(1) [OF step_okay(2) [OF q1]]])
  then have s2: "world_ok ?w2" "registered ?w2 = registered w" by (simp_all add: quiet_def step_def)
  have reg1: "registered w1 = registered w" using q1 by (simp add: quiet_def step_def)
  then have "registered w1 p i = Some a" using assms(3) by simp
  then have ns: "ns_of w1 p \<noteq> None" by (auto simp: registered_def split: option.splits)
  have r: "lr_RemainingConnections resp = 0 \<longleftrightarrow> occupants p c w \<subseteq> {i}"
    using leave_remaining [OF w1(1) _ ns, where i = i] w1(3) reg1 assms(7) id(3) by simp
  have "registered ?w2 p i = Some a" using s2(2) assms(3) by simp
  from members_present [OF s2(1) this, of c] obtain m where
    m: "la_GetChannelMembers p c ?w2 = Some m" "wf_map m" "\<And>u. mhas m u \<longleftrightarrow> u \<in> present p c ?w2"
      "\<forall>(u, d) \<in> set m. md_UserID d = u" by blast
  have pres: "present p c ?w2 = present_elsewhere p c i w"
    using left_present [OF assms(1,3) w1(3) k(2) reg1] .
  have "after_leave a ?ch resp w1 = Some w'" using w' w1(1) by (auto simp: unsubscribeFromChannel_def bind_eq_Some_conv)
  moreover have "ws_app (w_heap w1 a) = Some app" using k(2) assms(4) by simp
  ultimately have h: "handed app (unsubscription_events app c i (lr_Member resp) w) w1 w'"
    using after_leave_hands [of a ?ch resp w1 w' app c m] w1(2) m(1,3) r pres id(3)
    by (simp add: unsubscription_events_def Let_def cong: if_cong option.case_cong split del: if_split)
  have "silent w w1" using k(1,2,4) by (simp add: silent_def same_ground_def unseen_def)
  note handed_after [OF silent_handed [OF this] h]
  moreover have "unsubscription_events app c i (lr_Member resp) w = unsubscription_events app c i (getPresenceDataForChannel (w_heap w a) c) w"
    using k(5) by (simp add: unsubscription_events_def CreateChannel_Type)
  ultimately show ?thesis using assms(5,6) w' by (simp add: handleUnsubscribeRequest_def)
qed

subsection \<open>Short and long visits\<close>

lemma event_simps [simp]:
  "we_Name (member_event n c u) = n" "we_Channel (member_event n c u) = c" "we_UserID (member_event n c u) = u"
  by (simp_all add: member_event_def)

lemma queue_Send_flap:
  assumes "fd_FlapEnabled (q_flap q)" "q_webhookSender q" "app_WebhooksEnabled app"
    and "flap_class app e = Some (ty, key)" "flap_run [FEvent now app key ty e] (q_flap q) = (out, fd)"
  shows "queue_Send now app e q = deliver out (q\<lparr>q_flap := fd\<rparr>)"
  using assms by (simp add: queue_Send_def split_beta)

text \<open>The queue after a channel has been reported occupied and then vacated, before the timer has started.\<close>

lemma visit_pair:
  assumes fd: "fd_FlapEnabled (q_flap q)" "flap_inv (q_flap q)" "\<not> mhas (fd_pending (q_flap q)) (channel_key (app_ID app) c)"
  shows "q_jobs (hand t' app [channel_event ''channel_vacated'' c] (hand t app [channel_event ''channel_occupied'' c] q)) = q_jobs q"
    "fd_timers (q_flap (hand t' app [channel_event ''channel_vacated'' c] (hand t app [channel_event ''channel_occupied'' c] q)))
      = fd_timers (q_flap q)"
    "fd_pending (q_flap (hand t' app [channel_event ''channel_vacated'' c] (hand t app [channel_event ''channel_occupied'' c] q)))
      = fd_pending (q_flap q)"
proof -
  let ?occ = "channel_event ''channel_occupied'' c" and ?vac = "channel_event ''channel_vacated'' c"
  let ?k = "channel_key (app_ID app) c" and ?fd = "q_flap q"
  let ?q = "hand t' app [?vac] (hand t app [?occ] q)"
  have cls: "flap_class app ?occ = Some (Connect, ?k)" "flap_class app ?vac = Some (Disconnect, ?k)"
    by (simp_all add: flap_class_def)
  have pair: "flap_run [FEvent t app ?k Connect ?occ, FEvent t' app ?k Disconnect ?vac] ?fd = ([], ?fd\<lparr>fd_next := fd_next ?fd + 1\<rparr>)"
    using opposite_pair [OF fd(1) _ fd(3), of t app Connect ?occ t' ?vac] flap_invD(3) [OF fd(2)] by simp
  have "q_jobs ?q = q_jobs q \<and> fd_timers (q_flap ?q) = fd_timers ?fd \<and> fd_pending (q_flap ?q) = fd_pending ?fd"
  proof (cases "q_webhookSender q \<and> app_WebhooksEnabled app")
    case False
    then show ?thesis by (auto simp: queue_Send_def)
  next
    case True
    obtain out1 fd1 where 1: "flap_run [FEvent t app ?k Connect ?occ] ?fd = (out1, fd1)" by (cases "flap_run [FEvent t app ?k Connect ?occ] ?fd")
    obtain out2 fd2 where 2: "flap_run [FEvent t' app ?k Disconnect ?vac] fd1 = (out2, fd2)"
      by (cases "flap_run [FEvent t' app ?k Disconnect ?vac] fd1")
    have "flap_run ([FEvent t app ?k Connect ?occ] @ [FEvent t' app ?k Disconnect ?vac]) ?fd = (out1 @ out2, fd2)"
      using 1 2 by (simp only: flap_run_append Let_def case_prod_conv)
    with pair have o: "out1 = []" "out2 = []" "fd2 = ?fd\<lparr>fd_next := fd_next ?fd + 1\<rparr>" by simp_all
    have "fd_FlapEnabled fd1" using 1 fd(1) by (auto simp: CheckForFlapping_def Let_def split: option.splits if_splits)
    from queue_Send_flap [OF fd(1) _ _ cls(1) 1] queue_Send_flap [of "q\<lparr>q_flap := fd1\<rparr>", OF _ _ _ cls(2), of t' out2 fd2] this 2 o True
    show ?thesis by simp
  qed
  then show "q_jobs ?q = q_jobs q" "fd_timers (q_flap ?q) = fd_timers ?fd" "fd_pending (q_flap ?q) = fd_pending ?fd"
    by simp_all
qed

lemma queue_timer_simps:
  "q_jobs (queue_timer now i q) = q_jobs q @ concat (map jobs_of (fst (timer_step now i (q_flap q))))"
  "q_flap (queue_timer now i q) = snd (timer_step now i (q_flap q))"
  by (simp_all add: queue_timer_def split_beta q_jobs_deliver)

text \<open>A visitor to an empty channel, and the state it leaves when it has subscribed.\<close>

lemma first_visitor:
  assumes "world_ok w" "session_ok w a" "registered w p i = Some a" "\<not> w_Closing w"
    and "decode_subscribe msg = Some sp" "ws_app (w_heap w a) = Some app"
    and "ValidChannel (sp_Channel sp) (app_MaxChannelNameLength app)"
    and "ws_userID (w_heap w a) = [] \<or> sp_Channel sp \<noteq> SocketRushServerToUserPrefix @ ws_userID (w_heap w a)"
    and "may_join (CreateChannelFromString app (sp_Channel sp)) i sp w"
    and "\<not> IsPresenceChannel (sp_Channel sp)" "\<not> IsCacheChannel (sp_Channel sp)" "occupants p (sp_Channel sp) w = {}"
    and "app_HasChannelOccupiedWebhooks app" "subscription (w_heap w a) (sp_Channel sp) = None"
  obtains w1 where "handleSubscribeRequest a msg w = Some (None, w1)" "step a w w1"
    "handed app [channel_event ''channel_occupied'' (sp_Channel sp)] w w1" "occupants p (sp_Channel sp) w1 = {i}"
    "subscription (w_heap w1 a) (sp_Channel sp) = Some (CreateChannelFromString app (sp_Channel sp))"
proof -
  let ?c = "sp_Channel sp"
  from world_okD(2) [OF assms(1,3)] assms(6) have id: "app_ID app = p" by (auto simp: reg_ok_def)
  have con: "i \<notin> occupants p ?c w" "all_connected p ?c w" using assms(12) by (simp_all add: all_connected_def)
  have np: "IsPresenceChannel ?c \<longrightarrow> (\<exists>d. unmarshal_member (w_lib w) (sp_ChannelData sp) = Some d \<and> md_UserID d \<noteq> [])
      \<and> getPresenceDataForChannel (w_heap w a) ?c = None" using assms(10) by simp
  from subscription_reported [OF assms(1-9) con np] obtain w1 where
    w1: "handleSubscribeRequest a msg w = Some (None, w1)" "handed app (subscription_events app ?c (sp_ChannelData sp) w) w w1" by blast
  have evs: "subscription_events app ?c (sp_ChannelData sp) w = [channel_event ''channel_occupied'' ?c]"
    using assms(10-13) id by (simp add: subscription_events_def cache_events_def split: option.split)
  have "okay a w" "member_given (w_lib w) msg" using assms(1,2,5,10) by (simp_all add: okay_def session_ok_def member_given_def)
  from handleSubscribeRequest_runs [OF this(1) assms(2) this(2)] w1(1) have st: "step a w w1" by (simp add: runs_iff)
  from subscribe_spec [OF assms(1,3-7) _ w1(1)] assms(8,9,14) have
    s1: "la_subs p w1 = insert (?c, i) (la_subs p w)" "subscription (w_heap w1 a) ?c = Some (CreateChannelFromString app ?c)" by auto
  have "occupants p ?c w1 = {i}" using s1(1) assms(12) by (auto simp: occupants_def)
  from that [OF w1(1) st w1(2) [unfolded evs] this s1(2)] show thesis .
qed


text \<open>
  A socket that stays: when the window of the flap detector is over, the timer that its subscription has armed
  puts one job for each webhook whose filter lets the channel through into the queue.
\<close>

lemma long_visit_jobs:
  assumes "world_ok w" "session_ok w a" "registered w p i = Some a" "\<not> w_Closing w"
    and "decode_subscribe msg = Some sp" "ws_app (w_heap w a) = Some app"
    and "ValidChannel (sp_Channel sp) (app_MaxChannelNameLength app)"
    and "ws_userID (w_heap w a) = [] \<or> sp_Channel sp \<noteq> SocketRushServerToUserPrefix @ ws_userID (w_heap w a)"
    and "may_join (CreateChannelFromString app (sp_Channel sp)) i sp w"
    and "\<not> IsPresenceChannel (sp_Channel sp)" "\<not> IsCacheChannel (sp_Channel sp)" "occupants p (sp_Channel sp) w = {}"
    and "app_HasChannelOccupiedWebhooks app" "subscription (w_heap w a) (sp_Channel sp) = None"
    and "q_webhookSender (w_queue w)" "app_WebhooksEnabled app"
    and "fd_FlapEnabled (q_flap (w_queue w))" "flap_inv (q_flap (w_queue w))"
    and "\<not> mhas (fd_pending (q_flap (w_queue w))) (channel_key p (sp_Channel sp))"
    and "w_now w + fd_window (q_flap (w_queue w)) \<le> later"
  defines "tick \<equiv> queue_timer later (fd_next (q_flap (w_queue w)))"
  shows "\<exists>w1. handleSubscribeRequest a msg w = Some (None, w1) \<and> q_jobs (w_queue w1) = q_jobs (w_queue w)
    \<and> q_jobs (tick (tick (tick (w_queue w1))))
       = q_jobs (w_queue w) @ jobs_of (app, channel_event ''channel_occupied'' (sp_Channel sp))"
proof -
  let ?c = "sp_Channel sp" and ?fd = "q_flap (w_queue w)" and ?occ = "channel_event ''channel_occupied'' (sp_Channel sp)"
  let ?k = "channel_key p ?c" and ?i = "fd_next (q_flap (w_queue w))"
  from world_okD(2) [OF assms(1,3)] assms(6) have id: "app_ID app = p" by (auto simp: reg_ok_def)
  obtain w1 where w1: "handleSubscribeRequest a msg w = Some (None, w1)" "step a w w1" "handed app [?occ] w w1"
    "occupants p ?c w1 = {i}" "subscription (w_heap w1 a) ?c = Some (CreateChannelFromString app ?c)"
    by (rule first_visitor [OF assms(1-14)])
  have cls: "flap_class app ?occ = Some (Connect, ?k)" using id by (simp add: flap_class_def)
  let ?fd1 = "?fd\<lparr>fd_timers := fd_timers ?fd @ [burst_timer app ?k (w_now w, Connect, ?occ) ?fd ?i], fd_next := ?i + 1,
    fd_pending := mput ?k \<lparr>pe_eventType = Connect, pe_timer = ?i\<rparr> (fd_pending ?fd)\<rparr>"
  have "flap_run [FEvent (w_now w) app ?k Connect ?occ] ?fd = ([], ?fd1)"
    using lone_event [OF assms(17,19), of app "w_now w" Connect ?occ] by (simp add: burst_actions_def)
  from queue_Send_flap [OF assms(17,15,16) cls this] w1(3) have q1: "w_queue w1 = (w_queue w)\<lparr>q_flap := ?fd1\<rparr>"
    by (simp add: handed_def)
  have "\<forall>u \<in> set (fd_timers ?fd). tm_id u \<noteq> ?i" using flap_invD(3) [OF assms(18)] by fastforce
  then obtain fd2 where fd2: "flap_run [FTimer later ?i, FTimer later ?i, FTimer later ?i] ?fd1 = ([(app, ?occ)], fd2)"
    using timer_runs [of "fd_timers ?fd" ?i ?fd1 app ?k "(w_now w, Connect, ?occ)" ?fd later] assms(20) by simp
  then have "q_jobs (tick (tick (tick (w_queue w1)))) = q_jobs (w_queue w1) @ jobs_of (app, ?occ)"
    unfolding tick_def queue_timer_simps using q1 by (auto simp: split_beta concat_append [symmetric] map_append [symmetric]
        simp del: concat_append map_append)
  with w1(1) q1 show ?thesis by simp
qed

subsection \<open>An example\<close>

definition demo_hook :: Webhook where
  "demo_hook = \<lparr>wh_URL = ''http://h'', wh_Headers = [], wh_EventTypes = [], wh_Filter = \<lparr>wf_ChannelNameStartsWith = [], wf_ChannelNameEndsWith = []\<rparr>,
     wh_LambdaFunction = [], wh_Lambda = \<lparr>lc_Async = False, lc_Region = [], lc_ClientOptions = []\<rparr>, wh_SNSTopicARN = []\<rparr>"

definition demo_hook_app :: App where
  "demo_hook_app = demo_app\<lparr>app_WebhooksEnabled := True, app_HasChannelOccupiedWebhooks := True,
     app_HasChannelVacatedWebhooks := True, app_HasMemberRemovedWebhooks := True, app_Webhooks := Some [demo_hook]\<rparr>"

text \<open>An example in which the app of every socket has a webhook, and the queue a sender and a flap detector.\<close>

definition hook_world :: "World \<Rightarrow> World" where
  "hook_world w = w\<lparr>w_heap := (\<lambda>b. (w_heap w b)\<lparr>ws_app := Some demo_hook_app,
       ws_SubscribedChannels := map_option (map (\<lambda>(c, _). (c, CreateChannelFromString demo_hook_app c)))
         (ws_SubscribedChannels (w_heap w b))\<rparr>),
     w_queue := \<lparr>q_webhookSender = True, q_flap = NewFlapDetector True 0, q_jobs = []\<rparr>\<rparr>"

lemma hook_world_ok:
  "registered (hook_world w) = registered w" "la_subs p (hook_world w) = la_subs p w" "occupants p c (hook_world w) = occupants p c w"
  "ns_of (hook_world w) = ns_of w" "w_Closing (hook_world w) = w_Closing w" "w_lib (hook_world w) = w_lib w" "w_now (hook_world w) = w_now w"
  "getPresenceDataForChannel (w_heap (hook_world w) b) c = getPresenceDataForChannel (w_heap w b) c"
  "subscription (w_heap (hook_world w) b) c = map_option (\<lambda>_. CreateChannelFromString demo_hook_app c) (subscription (w_heap w b) c)"
  "ws_app (w_heap (hook_world w) b) = Some demo_hook_app" "ws_userID (w_heap (hook_world w) b) = ws_userID (w_heap w b)"
  "world_ok w \<Longrightarrow> \<forall>b. ws_app (w_heap w b) = Some demo_app \<Longrightarrow> world_ok (hook_world w)"
  "session_ok w b \<Longrightarrow> session_ok (hook_world w) b"
proof -
  have n: "w_Namespaces (hook_world w) = w_Namespaces w" by (simp add: hook_world_def)
  show r: "registered (hook_world w) = registered w" and ns: "ns_of (hook_world w) = ns_of w" using same_namespaces [OF n] by simp_all
  show s: "la_subs p (hook_world w) = la_subs p w" using ns by (simp add: la_subs_def)
  then show "occupants p c (hook_world w) = occupants p c w" by (simp add: occupants_def)
  show "world_ok (hook_world w)" if "world_ok w" "\<forall>b. ws_app (w_heap w b) = Some demo_app"
    using that r same_namespaces [OF n] by (auto simp: world_ok_iff reg_ok_def attached_def hook_world_def demo_hook_app_def)
  show "session_ok w b \<Longrightarrow> session_ok (hook_world w) b" by (auto simp: session_ok_def attached_def hook_world_def)
  have "map_of (map (\<lambda>(c, _). (c, f c)) m) c = map_option (\<lambda>_. f c) (map_of m c)"
    for f :: "ChannelName \<Rightarrow> Channel" and m :: "(ChannelName, Channel) gomap" by (induction m) auto
  then show "subscription (w_heap (hook_world w) b) c = map_option (\<lambda>_. CreateChannelFromString demo_hook_app c) (subscription (w_heap w b) c)"
    by (simp add: hook_world_def subscription_def split: option.split)
qed (simp_all add: hook_world_def getPresenceDataForChannel_def subscription_def)

lemma demo_hook_simps [simp]:
  "app_ID demo_hook_app = ''1''" "app_MaxChannelNameLength demo_hook_app = 100" "app_HasChannelOccupiedWebhooks demo_hook_app"
  "app_HasChannelVacatedWebhooks demo_hook_app" "app_HasMemberRemovedWebhooks demo_hook_app" "app_WebhooksEnabled demo_hook_app"
  "webhooks_of demo_hook_app = [demo_hook]"
  by (simp_all add: demo_hook_app_def webhooks_of_def)

lemma hook_queue [simp]: "w_queue (hook_world w) = \<lparr>q_webhookSender = True, q_flap = NewFlapDetector True 0, q_jobs = []\<rparr>"
  by (simp add: hook_world_def)

lemma demo_hook_join: "may_join (CreateChannelFromString demo_hook_app ''d'') ''1.1'' demo_payload (hook_world demo_world)"
  "occupants ''1'' ''d'' demo_world = {}" "\<not> IsCacheChannel ''d''"
proof -
  show "\<not> IsCacheChannel ''d''" by code_simp
qed (use demo_channel in \<open>simp_all add: may_join_def CreateChannel_Type occupants_def demo_subs\<close>)

theorem subscription_reported_witness:
  "\<exists>w'. handleSubscribeRequest 1 demo_subscribe (hook_world demo_world) = Some (None, w')
    \<and> handed demo_hook_app [channel_event ''channel_occupied'' ''d''] (hook_world demo_world) w'"
proof -
  have e: "subscription_events demo_hook_app ''d'' [] (hook_world demo_world) = [channel_event ''channel_occupied'' ''d'']"
    using demo_hook_join demo_channel by (simp add: subscription_events_def hook_world_ok cache_events_def split: option.split)
  show ?thesis
    using subscription_reported [of "hook_world demo_world" 1 "''1''" "''1.1''" demo_subscribe demo_payload demo_hook_app]
      demo_hook_join demo_channel e
    by (simp add: hook_world_ok demo_registered all_connected_def)
qed

theorem unsubscription_reported_witness:
  "\<exists>w'. handleUnsubscribeRequest 1 (request ''pusher:unsubscribe'' [(''channel'', JStr ''presence-x'')]) (hook_world demo_members_world) = Some (None, w')
    \<and> handed demo_hook_app [member_event ''member_removed'' ''presence-x'' ''u''] (hook_world demo_members_world) w'"
proof -
  note d = demo_members_ok
  let ?w = "hook_world demo_members_world" and ?msg = "request ''pusher:unsubscribe'' [(''channel'', JStr ''presence-x'')]"
  have occ: "occupants ''1'' ''presence-x'' demo_members_world = {''1.1'', ''2.2''}" by (auto simp: occupants_def d)
  have el: "present_elsewhere ''1'' ''presence-x'' ''1.1'' ?w = {}"
    by (auto simp: present_elsewhere_def hook_world_ok d demo_registered split: if_splits)
  have data: "getPresenceDataForChannel (w_heap ?w 1) ''presence-x'' = Some demo_member"
    unfolding hook_world_ok using d(5) [of 1] by simp
  have e: "unsubscription_events demo_hook_app ''presence-x'' ''1.1'' (Some demo_member) ?w
      = [member_event ''member_removed'' ''presence-x'' ''u'']"
    using demo_presence_channel by (simp add: unsubscription_events_def hook_world_ok occ el demo_member_def)
  have apps: "\<forall>b. ws_app (w_heap demo_members_world b) = Some demo_app" by (simp add: demo_members_world_def)
  have decode: "decode_unsubscribe ?msg = Some ''presence-x''" by simp
  have reg: "registered ?w ''1'' ''1.1'' = Some 1" by (simp add: hook_world_ok d demo_registered)
  have con: "all_connected ''1'' ''presence-x'' ?w" by (simp add: all_connected_def hook_world_ok occ d demo_registered)
  have sub: "subscription (w_heap ?w 1) ''presence-x'' = Some (CreateChannelFromString demo_hook_app ''presence-x'')"
    unfolding hook_world_ok d by simp
  show ?thesis
    using unsubscription_reported [OF hook_world_ok(12) [OF d(1) apps] hook_world_ok(13) [OF d(2)] reg hook_world_ok(10) decode sub con]
    unfolding data e .
qed

text \<open>What the two witnesses below share: a visitor to the empty channel d, in a server whose queue is new.\<close>

lemma demo_visit:
  "world_ok (hook_world demo_world)" "session_ok (hook_world demo_world) 1" "registered (hook_world demo_world) ''1'' ''1.1'' = Some 1"
  "\<not> w_Closing (hook_world demo_world)" "decode_subscribe demo_subscribe = Some demo_payload"
  "ws_app (w_heap (hook_world demo_world) 1) = Some demo_hook_app"
  "ValidChannel (sp_Channel demo_payload) (app_MaxChannelNameLength demo_hook_app)"
  "ws_userID (w_heap (hook_world demo_world) 1) = [] \<or>
     sp_Channel demo_payload \<noteq> SocketRushServerToUserPrefix @ ws_userID (w_heap (hook_world demo_world) 1)"
  "may_join (CreateChannelFromString demo_hook_app (sp_Channel demo_payload)) ''1.1'' demo_payload (hook_world demo_world)"
  "\<not> IsPresenceChannel (sp_Channel demo_payload)" "\<not> IsCacheChannel (sp_Channel demo_payload)"
  "occupants ''1'' (sp_Channel demo_payload) (hook_world demo_world) = {}" "app_HasChannelOccupiedWebhooks demo_hook_app"
  "subscription (w_heap (hook_world demo_world) 1) (sp_Channel demo_payload) = None"
  "fd_FlapEnabled (NewFlapDetector True 0)" "fd_timers (NewFlapDetector True 0) = []" "fd_pending (NewFlapDetector True 0) = []"
  "fd_window (NewFlapDetector True 0) = 3 * Second" "fd_next (NewFlapDetector True 0) = 0"
proof -
  show "subscription (w_heap (hook_world demo_world) 1) (sp_Channel demo_payload) = None"
    unfolding hook_world_ok by (simp add: subscription_def)
qed (use demo_hook_join demo_channel in
  \<open>simp_all add: hook_world_ok demo_registered NewFlapDetector_def FlapDetector_Init_def\<close>)


end
