(* ===== verification/Sync_Queue.thy ===== *)
theory Sync_Queue
  imports Queues "HOL-Library.Multiset"
begin

text \<open>
  What the server asks of a webhook queue (\<open>internal/queues/queueInterface.go\<close>), as a locale, and the
  local queue of \<open>internal/queues/queueSync.go\<close>: a Go channel with room for 100 jobs, the goroutines
  that wait because it is full, and the goroutine of \<open>monitorQueue\<close>, which takes one job after the
  other, sends its webhook, and ends when it sees that its context is cancelled.
\<close>

subsection \<open>The interface of a queue\<close>

text \<open>
  A round of the queue's goroutine is the computation that takes the next job and sends it; \<open>None\<close> is a panic.
  \<open>accepts\<close> says when a job is taken in at once and as it is.
\<close>

locale webhook_queue =
  fixes add :: "QueuedJobData \<Rightarrow> 's \<Rightarrow> 's"
    and round :: "'s \<Rightarrow> (QueuedJobData list \<times> 's) option"
    and waiting :: "'s \<Rightarrow> QueuedJobData list"
    and serves :: "'s \<Rightarrow> bool"
    and accepts :: "QueuedJobData \<Rightarrow> 's \<Rightarrow> bool"
  assumes add: "serves s \<Longrightarrow> accepts job s \<Longrightarrow> serves (add job s) \<and> waiting (add job s) = waiting s @ [job]"
    and idle: "serves s \<Longrightarrow> waiting s = [] \<Longrightarrow> round s = Some ([], s)"
    and work: "serves s \<Longrightarrow> waiting s = job # jobs \<Longrightarrow> \<exists>s'. round s = Some ([job], s') \<and> serves s' \<and> waiting s' = jobs"
begin

fun add_all :: "QueuedJobData list \<Rightarrow> 's \<Rightarrow> 's" where
  "add_all [] s = s"
| "add_all (job # jobs) s = add_all jobs (add job s)"

fun accepts_all :: "QueuedJobData list \<Rightarrow> 's \<Rightarrow> bool" where
  "accepts_all [] s = True"
| "accepts_all (job # jobs) s = (accepts job s \<and> accepts_all jobs (add job s))"

fun rounds :: "nat \<Rightarrow> 's \<Rightarrow> (QueuedJobData list \<times> 's) option" where
  "rounds 0 s = Some ([], s)"
| "rounds (Suc n) s =
     (case round s of
        None \<Rightarrow> None
      | Some (out, s) \<Rightarrow> map_option (apfst ((@) out)) (rounds n s))"

lemma add_all_waits:
  "serves s \<Longrightarrow> accepts_all jobs s \<Longrightarrow> serves (add_all jobs s) \<and> waiting (add_all jobs s) = waiting s @ jobs"
  by (induction jobs arbitrary: s) (auto simp: add)

lemma rounds_idle: "serves s \<Longrightarrow> waiting s = [] \<Longrightarrow> rounds n s = Some ([], s)"
  by (induction n) (auto simp: idle)

lemma rounds_send:
  "serves s \<Longrightarrow> length (waiting s) \<le> n \<Longrightarrow> \<exists>s'. rounds n s = Some (waiting s, s') \<and> serves s' \<and> waiting s' = []"
proof (induction n arbitrary: s)
  case (Suc n)
  show ?case
  proof (cases "waiting s")
    case Nil
    with Suc.prems show ?thesis by (intro exI [of _ s]) (simp add: rounds_idle del: rounds.simps)
  next
    case (Cons job jobs)
    from work [OF Suc.prems(1) this] obtain s1 where "round s = Some ([job], s1)" "serves s1" "waiting s1 = jobs" by blast
    with Suc.IH [of s1] Suc.prems(2) Cons show ?thesis by auto
  qed
qed simp

theorem delivers:
  assumes "serves s" "waiting s = []" "accepts_all jobs s" "length jobs \<le> n"
  shows "\<exists>s'. rounds n (add_all jobs s) = Some (jobs, s') \<and> serves s' \<and> waiting s' = []"
  using add_all_waits [OF assms(1,3)] rounds_send [of "add_all jobs s" n] assms(2,4) by simp

end

subsection \<open>The local queue\<close>

record SyncQueue =
  sq_incomingMessages :: "QueuedJobData list" \<comment> \<open>what the channel holds, the oldest first\<close>
  sq_blocked :: "QueuedJobData list" \<comment> \<open>jobs of the goroutines that wait in \<open>addToQueue\<close>\<close>
  sq_running :: bool \<comment> \<open>has \<open>monitorQueue\<close> not returned?\<close>
  sq_sending :: "QueuedJobData option" \<comment> \<open>the job that \<open>monitorQueue\<close> is sending\<close>
  sq_cancelled :: bool \<comment> \<open>is its context cancelled?\<close>
  sq_sent :: "(int \<times> QueuedJobData) list" \<comment> \<open>the jobs sent, with the time put into the webhook\<close>

definition sq_capacity :: nat where
  "sq_capacity = 100"

text \<open>The queue after \<open>Init\<close>, with the goroutine that \<open>NewAbstractQueue\<close> starts.\<close>

definition SyncQueue_Init :: SyncQueue where
  "SyncQueue_Init = \<lparr>sq_incomingMessages = [], sq_blocked = [], sq_running = True, sq_sending = None,
                     sq_cancelled = False, sq_sent = []\<rparr>"

text \<open>A send on a full channel blocks the goroutine that calls \<open>addToQueue\<close>.\<close>

definition sync_addToQueue :: "QueuedJobData \<Rightarrow> SyncQueue \<Rightarrow> SyncQueue" where
  "sync_addToQueue jobData s =
     (if length (sq_incomingMessages s) < sq_capacity
      then s\<lparr>sq_incomingMessages := sq_incomingMessages s @ [jobData]\<rparr>
      else s\<lparr>sq_blocked := sq_blocked s @ [jobData]\<rparr>)"

text \<open>
  The pieces of \<open>monitorQueue\<close>: receiving a job, which lets one of the blocked goroutines, the
  \<open>i\<close>-th, put its job into the channel; having sent the webhook; returning.
\<close>

definition sync_receive :: "nat \<Rightarrow> SyncQueue \<Rightarrow> SyncQueue option" where
  "sync_receive i s =
     (case sq_incomingMessages s of
        [] \<Rightarrow> None
      | data # rest \<Rightarrow>
          if \<not> sq_running s \<or> sq_sending s \<noteq> None then None
          else if i < length (sq_blocked s) then
            Some (s\<lparr>sq_sending := Some data, sq_incomingMessages := rest @ [sq_blocked s ! i],
                    sq_blocked := take i (sq_blocked s) @ drop (Suc i) (sq_blocked s)\<rparr>)
          else if sq_blocked s = [] then Some (s\<lparr>sq_sending := Some data, sq_incomingMessages := rest\<rparr>)
          else None)"

definition sync_sendWebhook :: "int \<Rightarrow> SyncQueue \<Rightarrow> SyncQueue option" where
  "sync_sendWebhook timeMs s =
     map_option (\<lambda>data. s\<lparr>sq_sending := None, sq_sent := sq_sent s @ [(timeMs, data)]\<rparr>) (sq_sending s)"

definition sync_return :: "SyncQueue \<Rightarrow> SyncQueue option" where
  "sync_return s =
     (if sq_running s \<and> sq_sending s = None \<and> sq_cancelled s then Some (s\<lparr>sq_running := False\<rparr>) else None)"

text \<open>
  \<open>Shutdown\<close> looks at the channel every ten milliseconds until it is empty or its context ends:
  the states it sees, and whether it reports a graceful shutdown.
\<close>

fun sync_Shutdown :: "SyncQueue list \<Rightarrow> bool" where
  "sync_Shutdown [] = False"
| "sync_Shutdown (s # ss) = (if length (sq_incomingMessages s) = 0 then True else sync_Shutdown ss)"

datatype sync_event =
    Adds QueuedJobData \<comment> \<open>some goroutine calls \<open>addToQueue\<close>\<close>
  | Receives nat
  | Sends int
  | Cancels
  | Returns

fun sync_do :: "sync_event \<Rightarrow> SyncQueue \<Rightarrow> SyncQueue option" where
  "sync_do (Adds jobData) s = Some (sync_addToQueue jobData s)"
| "sync_do (Receives i) s = sync_receive i s"
| "sync_do (Sends timeMs) s = sync_sendWebhook timeMs s"
| "sync_do Cancels s = Some (s\<lparr>sq_cancelled := True\<rparr>)"
| "sync_do Returns s = sync_return s"

fun sync_run :: "sync_event list \<Rightarrow> SyncQueue \<Rightarrow> SyncQueue option" where
  "sync_run [] s = Some s"
| "sync_run (e # es) s = (case sync_do e s of None \<Rightarrow> None | Some s \<Rightarrow> sync_run es s)"

text \<open>One round of \<open>monitorQueue\<close> while its context lives and nobody is blocked.\<close>

definition sync_round :: "int \<Rightarrow> SyncQueue \<Rightarrow> (QueuedJobData list \<times> SyncQueue) option" where
  "sync_round timeMs s =
     (if sq_incomingMessages s = [] then Some ([], s)
      else case sync_receive 0 s of
        None \<Rightarrow> None
      | Some s1 \<Rightarrow> map_option (\<lambda>s2. (map snd (drop (length (sq_sent s)) (sq_sent s2)), s2)) (sync_sendWebhook timeMs s1))"

definition sync_serves :: "SyncQueue \<Rightarrow> bool" where
  "sync_serves s = (sq_running s \<and> sq_sending s = None \<and> sq_blocked s = [])"

definition sync_accepts :: "QueuedJobData \<Rightarrow> SyncQueue \<Rightarrow> bool" where
  "sync_accepts jobData s = (length (sq_incomingMessages s) < sq_capacity)"

interpretation sync: webhook_queue sync_addToQueue "sync_round timeMs" sq_incomingMessages sync_serves sync_accepts
  for timeMs
  by unfold_locales (auto simp: sync_addToQueue_def sync_serves_def sync_accepts_def sync_round_def sync_receive_def sync_sendWebhook_def)

text \<open>Adding jobs and then letting \<open>monitorQueue\<close> make some rounds.\<close>

fun sync_add_all :: "QueuedJobData list \<Rightarrow> SyncQueue \<Rightarrow> SyncQueue" where
  "sync_add_all [] s = s"
| "sync_add_all (job # jobs) s = sync_add_all jobs (sync_addToQueue job s)"

fun sync_monitorQueue :: "int \<Rightarrow> nat \<Rightarrow> SyncQueue \<Rightarrow> (QueuedJobData list \<times> SyncQueue) option" where
  "sync_monitorQueue timeMs 0 s = Some ([], s)"
| "sync_monitorQueue timeMs (Suc n) s =
     (case sync_round timeMs s of
        None \<Rightarrow> None
      | Some (out, s) \<Rightarrow> map_option (apfst ((@) out)) (sync_monitorQueue timeMs n s))"

lemma sync_rounds: "sync.rounds timeMs n s = sync_monitorQueue timeMs n s"
  by (induction n arbitrary: s) (auto split: option.split)

lemma sync_accepts_all:
  "length (sq_incomingMessages s) + length jobs \<le> sq_capacity \<Longrightarrow> sync.accepts_all jobs s"
  by (induction jobs arbitrary: s) (auto simp: sync_accepts_def sync_addToQueue_def)

lemma sync_add_all: "sync.add_all jobs s = sync_add_all jobs s"
  by (induction jobs arbitrary: s) auto

lemma sync_delivers:
  assumes "length jobs \<le> 100" "length jobs \<le> n"
  shows "\<exists>s. sync_monitorQueue timeMs n (sync_add_all jobs SyncQueue_Init) = Some (jobs, s) \<and> sync_serves s \<and> sq_incomingMessages s = []"
  using sync.delivers [OF _ _ sync_accepts_all assms(2), of SyncQueue_Init timeMs] assms(1)
  by (simp add: sync_rounds sync_add_all SyncQueue_Init_def sync_serves_def sq_capacity_def)

subsection \<open>Nothing is lost or sent twice\<close>

fun added :: "sync_event list \<Rightarrow> QueuedJobData list" where
  "added [] = []"
| "added (Adds jobData # es) = jobData # added es"
| "added (e # es) = added es"

lemma added_append [simp]: "added (es @ fs) = added es @ added fs"
  by (induction es rule: added.induct) auto

lemma sync_run_append:
  "sync_run (es @ fs) s = (case sync_run es s of None \<Rightarrow> None | Some s \<Rightarrow> sync_run fs s)"
  by (induction es arbitrary: s) (auto split: option.splits)

definition in_work :: "SyncQueue \<Rightarrow> QueuedJobData list" where
  "in_work s = (case sq_sending s of None \<Rightarrow> [] | Some data \<Rightarrow> [data])"

definition sync_ok :: "QueuedJobData list \<Rightarrow> SyncQueue \<Rightarrow> bool" where
  "sync_ok jobs s =
     (length (sq_incomingMessages s) \<le> sq_capacity \<and> (sq_blocked s \<noteq> [] \<longrightarrow> length (sq_incomingMessages s) = sq_capacity)
      \<and> mset (map snd (sq_sent s) @ in_work s @ sq_incomingMessages s @ sq_blocked s) = mset jobs
      \<and> (length jobs \<le> sq_capacity \<longrightarrow> sq_blocked s = [] \<and> map snd (sq_sent s) @ in_work s @ sq_incomingMessages s = jobs)
      \<and> (sq_sending s \<noteq> None \<longrightarrow> sq_running s))"

lemma mset_take_nth_drop: "i < length xs \<Longrightarrow> add_mset (xs ! i) (mset (take i xs) + mset (drop (Suc i) xs)) = mset xs"
  by (metis id_take_nth_drop mset.simps(2) mset_append union_mset_add_mset_right)

lemma sync_ok_receive:
  assumes "sync_receive i s = Some s'" "sync_ok jobs s"
  shows "sync_ok jobs s'"
proof -
  from assms(1) obtain data rest where d: "sq_incomingMessages s = data # rest" "sq_sending s = None" "sq_running s"
    by (auto simp: sync_receive_def split: list.splits if_splits)
  show ?thesis
  proof (cases "i < length (sq_blocked s)")
    case True
    with assms(1) d have "s' = s\<lparr>sq_sending := Some data, sq_incomingMessages := rest @ [sq_blocked s ! i],
                    sq_blocked := take i (sq_blocked s) @ drop (Suc i) (sq_blocked s)\<rparr>" by (simp add: sync_receive_def)
    with d assms(2) True mset_take_nth_drop [OF True] show ?thesis
      by (auto simp: sync_ok_def in_work_def simp flip: union_mset_add_mset_right)
  next
    case False
    with assms d show ?thesis
      by (auto simp: sync_receive_def sync_ok_def in_work_def split: if_splits)
  qed
qed

lemma sync_ok_add: "sync_ok jobs s \<Longrightarrow> sync_ok (jobs @ [job]) (sync_addToQueue job s)"
  by (auto simp: sync_ok_def sync_addToQueue_def in_work_def sq_capacity_def)

lemma sync_ok_send: "sync_sendWebhook timeMs s = Some s' \<Longrightarrow> sync_ok jobs s \<Longrightarrow> sync_ok jobs s'"
  by (cases "sq_sending s") (simp_all add: sync_sendWebhook_def, auto simp: sync_ok_def in_work_def)

lemma sync_ok_context:
  "sync_ok jobs (s\<lparr>sq_cancelled := b\<rparr>) = sync_ok jobs s"
  "sync_return s = Some s' \<Longrightarrow> sync_ok jobs s \<Longrightarrow> sync_ok jobs s'"
  by (simp_all add: sync_ok_def in_work_def sync_return_def split: if_splits) auto

lemma sync_ok_do: "sync_do e s = Some s' \<Longrightarrow> sync_ok jobs s \<Longrightarrow> sync_ok (jobs @ added [e]) s'"
  by (cases e) (auto simp: sync_ok_context(1) intro: sync_ok_add sync_ok_receive sync_ok_send sync_ok_context(2))

lemma sync_ok_run: "sync_run es SyncQueue_Init = Some s \<Longrightarrow> sync_ok (added es) s"
proof (induction es arbitrary: s rule: rev_induct)
  case Nil
  then show ?case by (auto simp: sync_ok_def SyncQueue_Init_def in_work_def)
next
  case (snoc e es)
  then show ?case by (auto simp: sync_run_append split: option.splits intro: sync_ok_do)
qed


subsection \<open>Everything is sent\<close>

text \<open>What \<open>monitorQueue\<close> does by itself.\<close>

fun is_monitor :: "sync_event \<Rightarrow> bool" where
  "is_monitor (Receives i) = True"
| "is_monitor (Sends timeMs) = True"
| "is_monitor e = False"

definition work_left :: "SyncQueue \<Rightarrow> nat" where
  "work_left s = 2 * (length (sq_incomingMessages s) + length (sq_blocked s)) + length (in_work s)"

lemma monitor_progress: "sync_do e s = Some s' \<Longrightarrow> is_monitor e \<Longrightarrow> work_left s = Suc (work_left s') \<and> sq_running s' = sq_running s"
  by (cases e) (auto simp: sync_receive_def sync_sendWebhook_def work_left_def in_work_def split: list.splits if_splits)

lemma monitor_enabled:
  assumes "sq_running s" "sync_ok jobs s" "work_left s \<noteq> 0"
  shows "\<exists>e s'. is_monitor e \<and> sync_do e s = Some s'"
proof (cases "sq_sending s")
  case None
  with assms have "sq_incomingMessages s \<noteq> []" by (auto simp: work_left_def in_work_def sync_ok_def sq_capacity_def)
  with None assms(1) have "sync_receive 0 s \<noteq> None" by (auto simp: sync_receive_def split: list.split)
  then show ?thesis by (intro exI [of _ "Receives 0"]) auto
next
  case (Some data)
  then show ?thesis by (intro exI [of _ "Sends 0"]) (simp add: sync_sendWebhook_def)
qed

lemma monitor_run:
  "sync_run es s = Some s' \<Longrightarrow> list_all is_monitor es \<Longrightarrow> work_left s = length es + work_left s' \<and> sq_running s' = sq_running s \<and> added es = []"
proof (induction es arbitrary: s)
  case (Cons e es)
  then obtain s1 where "sync_do e s = Some s1" "sync_run es s1 = Some s'" by (auto split: option.splits)
  with monitor_progress [of e s s1] Cons show ?case by (cases e) auto
qed simp

text \<open>
  While \<open>monitorQueue\<close> runs everything is sent: left to itself it can go on until nothing is left, however it
  chooses among the goroutines that wait, it does so in a bounded number of steps, and when it cannot go on every job that was
  added has been sent, so that \<open>Shutdown\<close> then returns at its next look at the channel.
\<close>
theorem sync_queue_sends:
  assumes "sync_run es SyncQueue_Init = Some s" "sq_running s" "sync_run fs s = Some s'" "list_all is_monitor fs"
  shows "length fs \<le> 2 * length (added es)
    \<and> ((\<exists>e s''. is_monitor e \<and> sync_do e s' = Some s'')
       \<or> mset (map snd (sq_sent s')) = mset (added es) \<and> sync_Shutdown [s'])"
proof -
  note m = monitor_run [OF assms(3,4)]
  have "sync_run (es @ fs) SyncQueue_Init = Some s'" using assms(1,3) by (simp add: sync_run_append)
  from sync_ok_run [OF this] m have ok: "sync_ok (added es) s'" by simp
  have "size (mset (map snd (sq_sent s) @ in_work s @ sq_incomingMessages s @ sq_blocked s)) = size (mset (added es))"
    using sync_ok_run [OF assms(1)] by (simp only: sync_ok_def)
  with m have l: "length fs \<le> 2 * length (added es)" by (simp add: work_left_def)
  show ?thesis
  proof (cases "work_left s' = 0")
    case True
    with ok l show ?thesis by (auto simp: sync_ok_def work_left_def)
  next
    case False
    with monitor_enabled [OF _ ok] m assms(2) l show ?thesis by blast
  qed
qed

subsection \<open>After the context is cancelled\<close>

lemma stopped_do:
  assumes "sync_do e s = Some s'" "\<not> sq_running s" "sq_sending s = None"
  shows "\<not> sq_running s' \<and> sq_sending s' = None \<and> sq_sent s' = sq_sent s
    \<and> (\<exists>more. sq_incomingMessages s' = sq_incomingMessages s @ more) \<and> (\<exists>more. sq_blocked s' = sq_blocked s @ more)"
  using assms by (cases e) (auto simp: sync_addToQueue_def sync_receive_def sync_sendWebhook_def sync_return_def split: list.splits if_splits)

lemma stopped_run:
  assumes "sync_run es s = Some s'" "\<not> sq_running s" "sq_sending s = None"
  shows "sq_sent s' = sq_sent s \<and> (\<exists>more. sq_incomingMessages s' = sq_incomingMessages s @ more)
    \<and> (\<exists>more. sq_blocked s' = sq_blocked s @ more)"
  using assms
proof (induction es arbitrary: s)
  case (Cons e es)
  then obtain s1 where s1: "sync_do e s = Some s1" "sync_run es s1 = Some s'" by (auto split: option.splits)
  from stopped_do [OF s1(1) Cons.prems(2,3)] Cons.IH [OF s1(2)] show ?case by (metis append.assoc)
qed simp

lemma sync_Shutdown_iff: "sync_Shutdown ss \<longleftrightarrow> (\<exists>s \<in> set ss. sq_incomingMessages s = [])"
  by (induction ss) auto

text \<open>
  When the context of the queue is cancelled before the channel is empty, as the shutdown of the server does right
  after it has started its tasks, \<open>monitorQueue\<close> may return, and from then on nothing is sent: if the channel holds a job,
  \<open>Shutdown\<close> waits for its own context to end whatever happens meanwhile, and a goroutine that is waiting to add
  a job waits for ever. And \<open>Shutdown\<close> can report that all is done while the last job is still being sent.
\<close>
theorem sync_queue_stops:
  assumes "sync_run es SyncQueue_Init = Some s" "sq_cancelled s" "sq_running s" "sq_sending s = None"
  shows "\<exists>s1. sync_do Returns s = Some s1
    \<and> (\<forall>fs s2. sync_run fs s1 = Some s2 \<longrightarrow> sq_sent s2 = sq_sent s \<and> (\<exists>more. sq_blocked s2 = sq_blocked s @ more))
    \<and> (sq_incomingMessages s \<noteq> [] \<longrightarrow> (\<forall>ss. (\<forall>s2 \<in> set ss. \<exists>fs. sync_run fs s1 = Some s2) \<longrightarrow> \<not> sync_Shutdown ss))
    \<and> (\<forall>job. sq_incomingMessages s = [job] \<longrightarrow> sq_blocked s = [] \<longrightarrow>
         (\<exists>s2. sync_do (Receives 0) s = Some s2 \<and> sync_Shutdown [s2] \<and> job \<in> set (in_work s2)))"
proof -
  let ?s1 = "s\<lparr>sq_running := False\<rparr>"
  have r: "sync_do Returns s = Some ?s1" using assms(2-4) by (simp add: sync_return_def)
  have run: "sq_sent s2 = sq_sent s \<and> (\<exists>more. sq_incomingMessages s2 = sq_incomingMessages s @ more)
      \<and> (\<exists>more. sq_blocked s2 = sq_blocked s @ more)" if "sync_run fs ?s1 = Some s2" for fs s2
    using stopped_run [OF that] assms(4) by simp
  have "\<not> sync_Shutdown ss" if "sq_incomingMessages s \<noteq> []" "\<forall>s2 \<in> set ss. \<exists>fs. sync_run fs ?s1 = Some s2" for ss
  proof
    assume "sync_Shutdown ss"
    then obtain s2 where "s2 \<in> set ss" "sq_incomingMessages s2 = []" by (auto simp: sync_Shutdown_iff)
    moreover from this(1) that(2) obtain fs where "sync_run fs ?s1 = Some s2" by blast
    ultimately show False using run that(1) by fastforce
  qed
  moreover have "\<exists>s2. sync_do (Receives 0) s = Some s2 \<and> sync_Shutdown [s2] \<and> job \<in> set (in_work s2)"
    if "sq_incomingMessages s = [job]" "sq_blocked s = []" for job
    using that assms(3,4) by (simp add: sync_receive_def in_work_def)
  ultimately show ?thesis using r run by (intro exI [of _ ?s1]) blast
qed

subsection \<open>Examples\<close>

definition demo_job :: QueuedJobData where
  "demo_job = \<lparr>jd_Webhook = \<lparr>wh_URL = ''u'', wh_Headers = [], wh_EventTypes = [],
       wh_Filter = \<lparr>wf_ChannelNameStartsWith = [], wf_ChannelNameEndsWith = []\<rparr>, wh_LambdaFunction = [],
       wh_Lambda = \<lparr>lc_Async = False, lc_Region = [], lc_ClientOptions = []\<rparr>, wh_SNSTopicARN = []\<rparr>,
     jd_Payload = \<lparr>we_Name = ''channel_occupied'', we_Channel = ''c'', we_Data = [], we_SocketID = [], we_UserID = []\<rparr>,
     jd_AppID = ''1'', jd_AppKey = ''k'', jd_AppSecret = ''s''\<rparr>"

definition demo_job2 :: QueuedJobData where
  "demo_job2 = demo_job\<lparr>jd_AppID := ''2''\<rparr>"

text \<open>Two jobs are added, the first is being sent.\<close>

definition demo_queue :: SyncQueue where
  "demo_queue = SyncQueue_Init\<lparr>sq_incomingMessages := [demo_job2], sq_sending := Some demo_job\<rparr>"

lemma demo_queue_run: "sync_run [Adds demo_job, Adds demo_job2, Receives 0] SyncQueue_Init = Some demo_queue"
  by (simp add: SyncQueue_Init_def sync_addToQueue_def sync_receive_def sq_capacity_def demo_queue_def)


theorem sync_queue_sends_witness:
  "\<exists>s. sync_run [Sends 7, Receives 0, Sends 8] demo_queue = Some s \<and> mset (map snd (sq_sent s)) = {# demo_job, demo_job2 #}"
proof -
  let ?s = "SyncQueue_Init\<lparr>sq_sent := [(7, demo_job), (8, demo_job2)]\<rparr>"
  have r: "sync_run [Sends 7, Receives 0, Sends 8] demo_queue = Some ?s"
    by (simp add: demo_queue_def SyncQueue_Init_def sync_receive_def sync_sendWebhook_def)
  have "\<not> (\<exists>e s'. is_monitor e \<and> sync_do e ?s = Some s')"
    by (auto simp: SyncQueue_Init_def sync_receive_def sync_sendWebhook_def elim!: is_monitor.elims)
  with sync_queue_sends [OF demo_queue_run _ r] r show ?thesis by (auto simp: demo_queue_def SyncQueue_Init_def)
qed

theorem sync_queue_stops_witness:
  "\<exists>s s1. sync_run [Adds demo_job, Cancels, Returns] SyncQueue_Init = Some s1 \<and> sync_run [Adds demo_job, Cancels] SyncQueue_Init = Some s
    \<and> \<not> sync_Shutdown [s1, s1]"
proof -
  let ?s = "SyncQueue_Init\<lparr>sq_incomingMessages := [demo_job], sq_cancelled := True\<rparr>"
  have r: "sync_run [Adds demo_job, Cancels] SyncQueue_Init = Some ?s"
    by (simp add: SyncQueue_Init_def sync_addToQueue_def sq_capacity_def)
  from sync_queue_stops [OF r] obtain s1 where s1: "sync_do Returns ?s = Some s1"
    "\<forall>ss. (\<forall>s2 \<in> set ss. \<exists>fs. sync_run fs s1 = Some s2) \<longrightarrow> \<not> sync_Shutdown ss" by (auto simp: SyncQueue_Init_def)
  have "\<exists>fs. sync_run fs s1 = Some s1" by (intro exI [of _ "[]"]) simp
  then have "\<forall>s2 \<in> set [s1, s1]. \<exists>fs. sync_run fs s1 = Some s2" by simp
  with s1(2) have "\<not> sync_Shutdown [s1, s1]" by blast
  moreover have "sync_run ([Adds demo_job, Cancels] @ [Returns]) SyncQueue_Init = Some s1" using r s1(1) by (simp only: sync_run_append) simp
  ultimately show ?thesis using r by (intro exI [of _ ?s] exI [of _ s1]) simp
qed

end
