(* ===== verification/Senders.thy ===== *)
theory Senders
  imports Sync_Queue
begin

text \<open>
  The senders of \<open>internal/webhooks\<close>: what a job of the queue causes to be sent over HTTP (\<open>http.go\<close>) and to an SNS
  topic (\<open>sns.go\<close>), composed by \<open>webhooks.go\<close>. The JSON form of the Pusher library's
  \<open>Webhook\<close>, building and doing an HTTP request, the AWS configuration and publishing are parameters.
\<close>

record HttpReq =
  hr_url :: string
  hr_body :: string
  hr_headers :: "(string \<times> string) list"

text \<open>A message attribute has a data type and a string value.\<close>

record PublishInput =
  pi_Message :: string
  pi_TopicArn :: string
  pi_MessageAttributes :: "(string \<times> string \<times> string) list"

record SenderLib =
  hl_marshal :: "int \<Rightarrow> WebhookEvent \<Rightarrow> string + string" \<comment> \<open>time and the one event\<close>
  hl_NewRequest :: "string \<Rightarrow> string option"                \<comment> \<open>an error for a bad URL\<close>
  hl_Do :: "HttpReq \<Rightarrow> string + (nat \<times> string)"             \<comment> \<open>an error, or status and status text\<close>
  sl_Publish :: "PublishInput \<Rightarrow> string option"

subsection \<open>HTTP\<close>

text \<open>\<open>HttpWebhook.Send\<close>: the request it sent, if any, and its error.\<close>

definition HttpWebhook_Send ::
  "SenderLib \<Rightarrow> int \<Rightarrow> WebhookEvent \<Rightarrow> string \<Rightarrow> string \<Rightarrow> string \<Rightarrow> HttpReq option \<times> string option" where
  "HttpWebhook_Send lib timeMs event url appKey appSecret =
     (if url = [] then (None, None)
      else case hl_marshal lib timeMs event of
        Inl mErr \<Rightarrow> (None, Some mErr)
      | Inr data \<Rightarrow>
          (case hl_NewRequest lib url of
             Some err \<Rightarrow> (None, Some err)
           | None \<Rightarrow>
               (let req = \<lparr>hr_url = url, hr_body = data,
                           hr_headers = [(''Content-Type'', ''application/json''), (''X-Pusher-Key'', appKey),
                                         (''X-Pusher-Signature'', HmacSignature data appSecret)]\<rparr>
                in case hl_Do lib req of
                     Inl err \<Rightarrow> (Some req, Some err)
                   | Inr (status, text) \<Rightarrow> (Some req, if status \<noteq> 200 then Some text else None))))"

subsection \<open>SNS\<close>

record SnsWebhook =
  sns_SnsClient :: bool
  sns_Region :: string
  sns_MessageEventNameKey :: string
  sns_MessageEventNameValue :: string

definition snsEventKeyName :: string where
  "snsEventKeyName = ''EventName''"

definition snsEventKeyValue :: string where
  "snsEventKeyValue = ''pusher-webhook''"

definition sns_defaults :: "SnsWebhook \<Rightarrow> SnsWebhook" where
  "sns_defaults s =
     (let s = (if sns_MessageEventNameKey s = [] then s\<lparr>sns_MessageEventNameKey := snsEventKeyName\<rparr> else s)
      in if sns_MessageEventNameValue s = [] then s\<lparr>sns_MessageEventNameValue := snsEventKeyValue\<rparr> else s)"

text \<open>\<open>cfg_error\<close> is the error of loading the AWS configuration of the region, if any.\<close>

definition NewSnsWebhook :: "(string \<Rightarrow> string option) \<Rightarrow> string \<Rightarrow> string + SnsWebhook" where
  "NewSnsWebhook cfg_error region =
     (let snsWebhook = \<lparr>sns_SnsClient = False, sns_Region = region, sns_MessageEventNameKey = [], sns_MessageEventNameValue = []\<rparr>
      in case cfg_error (sns_Region snsWebhook) of
           Some err \<Rightarrow> Inl err
         | None \<Rightarrow> Inr (sns_defaults (snsWebhook\<lparr>sns_SnsClient := True\<rparr>)))"

text \<open>\<open>SnsWebhook.Send\<close>: what it published, if anything, its error, and itself.\<close>

definition SnsWebhook_Send ::
  "SenderLib \<Rightarrow> int \<Rightarrow> WebhookEvent \<Rightarrow> string \<Rightarrow> SnsWebhook \<Rightarrow> PublishInput option \<times> string option \<times> SnsWebhook" where
  "SnsWebhook_Send lib timeMs event snsTopicArn s =
     (if \<not> sns_SnsClient s then (None, Some ''SNS client not initialized'', s)
      else
        let s = sns_defaults s
        in if snsTopicArn = [] then (None, Some ''SNS Topic ARN not specified'', s)
           else case hl_marshal lib timeMs event of
             Inl mErr \<Rightarrow> (None, Some mErr, s)
           | Inr message \<Rightarrow>
               (let input = \<lparr>pi_Message = message, pi_TopicArn = snsTopicArn,
                             pi_MessageAttributes = [(sns_MessageEventNameKey s, ''String'', sns_MessageEventNameValue s)]\<rparr>
                in (Some input, sl_Publish lib input, s)))"

subsection \<open>One job\<close>

datatype delivery = HttpDelivery HttpReq | SnsDelivery PublishInput

record WebhookSender =
  whs_HttpSender :: bool
  whs_SNSSender :: "SnsWebhook option"

definition send_http :: "SenderLib \<Rightarrow> int \<Rightarrow> QueuedJobData \<Rightarrow> delivery list" where
  "send_http lib timeMs data =
     (if wh_URL (jd_Webhook data) = [] then []
      else case fst (HttpWebhook_Send lib timeMs (jd_Payload data) (wh_URL (jd_Webhook data)) (jd_AppKey data) (jd_AppSecret data)) of
             None \<Rightarrow> [] | Some req \<Rightarrow> [HttpDelivery req])"

definition send_sns :: "SenderLib \<Rightarrow> int \<Rightarrow> QueuedJobData \<Rightarrow> WebhookSender \<Rightarrow> delivery list \<times> WebhookSender" where
  "send_sns lib timeMs data whs =
     (if wh_SNSTopicARN (jd_Webhook data) = [] then ([], whs)
      else case whs_SNSSender whs of
        None \<Rightarrow> ([], whs)
      | Some sns \<Rightarrow>
          (let (published, _, sns) = SnsWebhook_Send lib timeMs (jd_Payload data) (wh_SNSTopicARN (jd_Webhook data)) sns
           in (case published of None \<Rightarrow> [] | Some input \<Rightarrow> [SnsDelivery input], whs\<lparr>whs_SNSSender := Some sns\<rparr>)))"

definition WebhookSender_Send ::
  "SenderLib \<Rightarrow> int \<Rightarrow> QueuedJobData \<Rightarrow> WebhookSender \<Rightarrow> delivery list \<times> WebhookSender" where
  "WebhookSender_Send lib timeMs data whs =
     (if wh_URL (jd_Webhook data) \<noteq> [] \<and> \<not> whs_HttpSender whs then ([], whs)
      else apfst ((@) (send_http lib timeMs data)) (send_sns lib timeMs data whs))"

definition sendWebhook ::
  "SenderLib \<Rightarrow> int \<Rightarrow> QueuedJobData \<Rightarrow> WebhookSender \<Rightarrow> delivery list \<times> WebhookSender" where
  "sendWebhook lib timeMs data whs = WebhookSender_Send lib timeMs data whs"

fun sendWebhooks ::
  "SenderLib \<Rightarrow> (int \<times> QueuedJobData) list \<Rightarrow> WebhookSender \<Rightarrow> delivery list \<times> WebhookSender" where
  "sendWebhooks lib [] whs = ([], whs)"
| "sendWebhooks lib ((timeMs, data) # jobs) whs =
     (let (out, whs) = sendWebhook lib timeMs data whs in apfst ((@) out) (sendWebhooks lib jobs whs))"

subsection \<open>What is delivered\<close>

definition sns_deliveries :: "SenderLib \<Rightarrow> int \<Rightarrow> QueuedJobData \<Rightarrow> SnsWebhook \<Rightarrow> delivery list" where
  "sns_deliveries lib timeMs data sns = fst (send_sns lib timeMs data \<lparr>whs_HttpSender = True, whs_SNSSender = Some sns\<rparr>)"

definition ready_sender :: "WebhookSender \<Rightarrow> bool" where
  "ready_sender whs = (whs_HttpSender whs \<and> (case whs_SNSSender whs of None \<Rightarrow> False | Some sns \<Rightarrow> sns_SnsClient sns))"

fun http_requests :: "delivery list \<Rightarrow> HttpReq list" where
  "http_requests [] = []"
| "http_requests (HttpDelivery req # ds) = req # http_requests ds"
| "http_requests (SnsDelivery _ # ds) = http_requests ds"

fun sns_messages :: "delivery list \<Rightarrow> PublishInput list" where
  "sns_messages [] = []"
| "sns_messages (HttpDelivery _ # ds) = sns_messages ds"
| "sns_messages (SnsDelivery input # ds) = input # sns_messages ds"

lemma requests_append [simp]:
  "http_requests (ds @ es) = http_requests ds @ http_requests es"
  "sns_messages (ds @ es) = sns_messages ds @ sns_messages es"
  by (induction ds rule: http_requests.induct) auto

text \<open>The request that is due for a job, signed with the secret of its app.\<close>

definition signed_request :: "QueuedJobData \<Rightarrow> string \<Rightarrow> HttpReq" where
  "signed_request job text =
     \<lparr>hr_url = wh_URL (jd_Webhook job), hr_body = text,
      hr_headers = [(''Content-Type'', ''application/json''), (''X-Pusher-Key'', jd_AppKey job),
                    (''X-Pusher-Signature'', HmacSignature text (jd_AppSecret job))]\<rparr>"

definition json_of :: "SenderLib \<Rightarrow> int \<times> QueuedJobData \<Rightarrow> string" where
  "json_of lib x = (case x of (timeMs, job) \<Rightarrow> (case hl_marshal lib timeMs (jd_Payload job) of Inl _ \<Rightarrow> [] | Inr text \<Rightarrow> text))"

lemma send_one:
  assumes "ready_sender whs" "hl_marshal lib timeMs (jd_Payload job) = Inr text"
    and "wh_URL (jd_Webhook job) \<noteq> [] \<Longrightarrow> hl_NewRequest lib (wh_URL (jd_Webhook job)) = None"
    and "sendWebhook lib timeMs job whs = (out, whs')"
  shows "ready_sender whs'"
    "http_requests out = (if wh_URL (jd_Webhook job) = [] then [] else [signed_request job text])"
    "map (\<lambda>m. (pi_TopicArn m, pi_Message m)) (sns_messages out) =
       (if wh_SNSTopicARN (jd_Webhook job) = [] then [] else [(wh_SNSTopicARN (jd_Webhook job), text)])"
  using assms
  by (auto simp: sendWebhook_def WebhookSender_Send_def send_http_def send_sns_def HttpWebhook_Send_def SnsWebhook_Send_def
      ready_sender_def sns_defaults_def signed_request_def Let_def split: option.splits if_splits sum.splits)

lemma send_all:
  assumes "ready_sender whs" "\<And>t e. \<exists>text. hl_marshal lib t e = Inr text"
    and "\<forall>x \<in> set jobs. wh_URL (jd_Webhook (snd x)) \<noteq> [] \<longrightarrow> hl_NewRequest lib (wh_URL (jd_Webhook (snd x))) = None"
  shows "http_requests (fst (sendWebhooks lib jobs whs)) =
      map (\<lambda>x. signed_request (snd x) (json_of lib x)) (filter (\<lambda>x. wh_URL (jd_Webhook (snd x)) \<noteq> []) jobs)
    \<and> map (\<lambda>m. (pi_TopicArn m, pi_Message m)) (sns_messages (fst (sendWebhooks lib jobs whs))) =
      map (\<lambda>x. (wh_SNSTopicARN (jd_Webhook (snd x)), json_of lib x)) (filter (\<lambda>x. wh_SNSTopicARN (jd_Webhook (snd x)) \<noteq> []) jobs)"
  using assms(1,3)
proof (induction jobs arbitrary: whs)
  case (Cons x jobs)
  obtain t job where x: "x = (t, job)" by (cases x)
  from assms(2) obtain m where m: "hl_marshal lib t (jd_Payload job) = Inr m" by blast
  obtain out whs' where s: "sendWebhook lib t job whs = (out, whs')" by (cases "sendWebhook lib t job whs")
  from Cons.prems(2) x have "wh_URL (jd_Webhook job) \<noteq> [] \<Longrightarrow> hl_NewRequest lib (wh_URL (jd_Webhook job)) = None" by simp
  note one = send_one [OF Cons.prems(1) m this s]
  from Cons.IH [OF one(1)] Cons.prems(2) one(2,3) s x m show ?case by (simp add: json_of_def)
qed simp

lemma idle_sent:
  assumes "sync_run es SyncQueue_Init = Some s" "work_left s = 0"
  shows "snd ` set (sq_sent s) = set (added es)"
proof -
  have "mset (map snd (sq_sent s)) = mset (added es)"
    using sync_ok_run [OF assms(1)] assms(2) by (simp add: sync_ok_def work_left_def)
  from mset_eq_setD [OF this] show ?thesis by simp
qed

text \<open>C25
  Once the local queue has nothing left to do, every webhook of the jobs that were added has been served exactly
  once: one HTTP request for each job whose webhook has a URL, to this URL, with the key of the app and signed with its
  secret, and one SNS message for each job with a topic. This does not depend on what the requests and the messages were
  answered: an answer that is an error has no effect on any other delivery, and none is repeated.
\<close>
theorem webhooks_delivered:
  assumes "sync_run es SyncQueue_Init = Some s" "work_left s = 0" "ready_sender whs"
    and "\<And>t e. \<exists>text. hl_marshal lib t e = Inr text"
    and "\<And>job. job \<in> set (added es) \<Longrightarrow> wh_URL (jd_Webhook job) \<noteq> [] \<Longrightarrow> hl_NewRequest lib (wh_URL (jd_Webhook job)) = None"
    and "sendWebhooks lib (sq_sent s) whs = (out, whs')"
  shows "image_mset (\<lambda>r. (hr_url r, map_of (hr_headers r) ''X-Pusher-Key'')) (mset (http_requests out))
      = image_mset (\<lambda>job. (wh_URL (jd_Webhook job), Some (jd_AppKey job))) (filter_mset (\<lambda>job. wh_URL (jd_Webhook job) \<noteq> []) (mset (added es)))
    \<and> (\<forall>r \<in> set (http_requests out). \<exists>job \<in> set (added es). r = signed_request job (hr_body r))
    \<and> image_mset pi_TopicArn (mset (sns_messages out))
      = image_mset (\<lambda>job. wh_SNSTopicARN (jd_Webhook job)) (filter_mset (\<lambda>job. wh_SNSTopicARN (jd_Webhook job) \<noteq> []) (mset (added es)))"
proof -
  have sent: "mset (map snd (sq_sent s)) = mset (added es)"
    using sync_ok_run [OF assms(1)] assms(2) by (simp add: sync_ok_def work_left_def)
  have set_eq: "snd ` set (sq_sent s) = set (added es)" by (rule idle_sent [OF assms(1,2)])
  with assms(5) have "\<forall>x \<in> set (sq_sent s). wh_URL (jd_Webhook (snd x)) \<noteq> [] \<longrightarrow> hl_NewRequest lib (wh_URL (jd_Webhook (snd x))) = None"
    by blast
  from send_all [OF assms(3,4) this] assms(6) have
    h: "http_requests out = map (\<lambda>x. signed_request (snd x) (json_of lib x)) (filter (\<lambda>x. wh_URL (jd_Webhook (snd x)) \<noteq> []) (sq_sent s))"
    and n: "map (\<lambda>m. (pi_TopicArn m, pi_Message m)) (sns_messages out) =
      map (\<lambda>x. (wh_SNSTopicARN (jd_Webhook (snd x)), json_of lib x)) (filter (\<lambda>x. wh_SNSTopicARN (jd_Webhook (snd x)) \<noteq> []) (sq_sent s))"
    by simp_all
  have f: "filter_mset P (mset (added es)) = image_mset snd (filter_mset (P \<circ> snd) (mset (sq_sent s)))" for P
    by (simp add: filter_mset_image_mset comp_def flip: sent)
  have "image_mset pi_TopicArn (mset (sns_messages out)) = mset (map fst (map (\<lambda>m. (pi_TopicArn m, pi_Message m)) (sns_messages out)))"
    by (simp add: comp_def)
  moreover have "\<dots> = image_mset (\<lambda>x. wh_SNSTopicARN (jd_Webhook (snd x))) (mset (filter (\<lambda>x. wh_SNSTopicARN (jd_Webhook (snd x)) \<noteq> []) (sq_sent s)))"
    unfolding n by (simp add: comp_def)
  moreover have "\<exists>job \<in> set (added es). r = signed_request job (hr_body r)" if "r \<in> set (http_requests out)" for r
  proof -
    from that h obtain x where x: "x \<in> set (sq_sent s)" "r = signed_request (snd x) (json_of lib x)" by auto
    from x(1) set_eq have "snd x \<in> set (added es)" by blast
    with x(2) show ?thesis by (auto simp: signed_request_def)
  qed
  ultimately show ?thesis unfolding f h by (simp add: image_mset.compositionality comp_def signed_request_def)
qed

definition demo_senders :: SenderLib where
  "demo_senders = \<lparr>hl_marshal = (\<lambda>_ event. Inr (we_Name event)), hl_NewRequest = (\<lambda>_. None),
     hl_Do = (\<lambda>_. Inl ''refused''), sl_Publish = (\<lambda>_. None)\<rparr>"

definition demo_sender :: WebhookSender where
  "demo_sender = \<lparr>whs_HttpSender = True, whs_SNSSender = Some \<lparr>sns_SnsClient = True, sns_Region = [],
     sns_MessageEventNameKey = [], sns_MessageEventNameValue = []\<rparr>\<rparr>"

text \<open>Both requests are made, although the first is refused.\<close>

theorem webhooks_delivered_witness:
  "image_mset (\<lambda>r. (hr_url r, map_of (hr_headers r) ''X-Pusher-Key''))
     (mset (http_requests (fst (sendWebhooks demo_senders [(7, demo_job), (8, demo_job2)] demo_sender)))) = {# (''u'', Some ''k''), (''u'', Some ''k'') #}"
proof -
  let ?s = "SyncQueue_Init\<lparr>sq_sent := [(7, demo_job), (8, demo_job2)]\<rparr>"
  have r: "sync_run ([Adds demo_job, Adds demo_job2, Receives 0] @ [Sends 7, Receives 0, Sends 8]) SyncQueue_Init = Some ?s"
    by (simp only: sync_run_append demo_queue_run)
      (simp add: demo_queue_def SyncQueue_Init_def sync_receive_def sync_sendWebhook_def)
  have w: "work_left ?s = 0" "ready_sender demo_sender"
    by (simp_all add: work_left_def in_work_def SyncQueue_Init_def ready_sender_def demo_sender_def)
  have l: "\<exists>text. hl_marshal demo_senders t e = Inr text" "hl_NewRequest demo_senders url = None" for t e url
    by (simp_all add: demo_senders_def)
  obtain out whs' where out: "sendWebhooks demo_senders (sq_sent ?s) demo_sender = (out, whs')" by (cases "sendWebhooks demo_senders (sq_sent ?s) demo_sender")
  from webhooks_delivered [OF r w l out] out show ?thesis by (simp add: demo_job_def demo_job2_def)
qed

end
