(* ===== verification/Webhook_Path.thy ===== *)
theory Webhook_Path
  imports Occupancy Senders
begin

text \<open>
  The whole way of a webhook: from the subscription of a client through the flap detector
  (\<open>queues/flapDetector.go\<close>), the jobs of \<open>queueAbstract.go\<close> and the goroutine of the local queue (\<open>queueSync.go\<close>) to the
  request that a webhook server receives (\<open>webhooks/http.go\<close>).
\<close>

text \<open>A request for this event to a webhook of the app, signed with the secret of the app.\<close>

definition announces :: "SenderLib \<Rightarrow> App \<Rightarrow> WebhookEvent \<Rightarrow> Webhook \<Rightarrow> HttpReq \<Rightarrow> bool" where
  "announces lib app event wh r =
     (hr_url r = wh_URL wh \<and> (\<exists>timeMs. hl_marshal lib timeMs event = Inr (hr_body r))
      \<and> map_of (hr_headers r) ''X-Pusher-Key'' = Some (app_Key app)
      \<and> map_of (hr_headers r) ''X-Pusher-Signature'' = Some (HmacSignature (hr_body r) (app_Secret app)))"

lemma job_announced:
  assumes "sync_run es SyncQueue_Init = Some s" "work_left s = 0" "ready_sender whs"
    and "\<And>t e. \<exists>text. hl_marshal lib t e = Inr text"
    and "\<And>job. job \<in> set (added es) \<Longrightarrow> wh_URL (jd_Webhook job) \<noteq> [] \<Longrightarrow> hl_NewRequest lib (wh_URL (jd_Webhook job)) = None"
    and "wh \<in> set (webhooks_of app)" "webhook_wants event wh" "wh_URL wh \<noteq> []" "set (jobs_of (app, event)) \<subseteq> set (added es)"
  shows "\<exists>r \<in> set (http_requests (fst (sendWebhooks lib (sq_sent s) whs))). announces lib app event wh r"
proof -
  let ?job = "\<lparr>jd_Webhook = wh, jd_Payload = event, jd_AppID = app_ID app, jd_AppKey = app_Key app, jd_AppSecret = app_Secret app\<rparr>"
  have "?job \<in> set (jobs_of (app, event))" using assms(6,7) by (simp add: jobs_of_def)
  with assms(9) have "?job \<in> set (added es)" by blast
  moreover have sent: "snd ` set (sq_sent s) = set (added es)" by (rule idle_sent [OF assms(1,2)])
  ultimately obtain t where t: "(t, ?job) \<in> set (sq_sent s)" by force
  from assms(5) sent have "\<forall>x \<in> set (sq_sent s). wh_URL (jd_Webhook (snd x)) \<noteq> [] \<longrightarrow> hl_NewRequest lib (wh_URL (jd_Webhook (snd x))) = None"
    by blast
  from send_all [OF assms(3,4) this] t assms(8)
  have "signed_request ?job (json_of lib (t, ?job)) \<in> set (http_requests (fst (sendWebhooks lib (sq_sent s) whs)))" by force
  moreover from assms(4) obtain m where "hl_marshal lib t event = Inr m" by blast
  then have "announces lib app event wh (signed_request ?job (json_of lib (t, ?job)))"
    by (auto simp: announces_def signed_request_def json_of_def)
  ultimately show ?thesis by blast
qed



end
