(* ===== verification/Shutdown.thy ===== *)
theory Shutdown
  imports Server
begin

text \<open>
  The life of the process in \<open>internal/server.go\<close>: \<open>Run\<close> up to the point where it waits, \<open>handlePanic\<close>,
  and \<open>attemptGracefulShutdown\<close> as a state machine. Its goroutines are tasks that run in any order,
  between them \<open>cancel\<close>, the goroutine of the local queue (\<open>queueSync.go\<close>), which sends one job after
  the other and stops when it sees the cancelled context, and the timers of the flap detector. The
  process exits when all tasks are done or at the deadline of ten seconds. Stopping the HTTP
  servers and the cache has no effect on the state.
\<close>

subsection \<open>Run\<close>

datatype run_outcome = RunError string | Serving bool World \<comment> \<open>with a metrics server?\<close>

definition Run ::
  "bool \<Rightarrow> string + ServerConfig \<Rightarrow> (ServerConfig \<Rightarrow> string + World) \<Rightarrow> run_outcome" where
  "Run parentCtx loaded newServer =
     (if \<not> parentCtx then RunError ''parent context is nil''
      else case loaded of
        Inl err \<Rightarrow> RunError (''failed to load config: '' @ err)
      | Inr serverConfig \<Rightarrow>
          (case newServer serverConfig of
             Inl err \<Rightarrow> RunError (''failed to create server: '' @ err)
           | Inr w \<Rightarrow> Serving (sc_MetricsEnabled serverConfig) w))"

subsection \<open>The tasks of a shutdown\<close>

datatype task = ShutdownHTTP | ShutdownMetrics | CloseSockets | ShutdownCache | ShutdownQueue

text \<open>What there is to shut down; a nil web server makes its task panic.\<close>

record Parts =
  pt_webServer :: bool
  pt_metricsServer :: bool
  pt_cache :: bool
  pt_queue :: bool
  pt_cancel :: bool \<comment> \<open>does \<open>cancel\<close> cancel the context of the server?\<close>

datatype exit = Orderly | Deadline | Crashed

record Shutdown =
  sd_world :: World
  sd_done :: "task set"
  sd_cancelled :: bool
  sd_monitor :: bool \<comment> \<open>does \<open>monitorQueue\<close> still run?\<close>
  sd_sent :: nat \<comment> \<open>jobs it has taken from the channel\<close>
  sd_exit :: "exit option"

definition unsent :: "Shutdown \<Rightarrow> QueuedJobData list" where
  "unsent s = drop (sd_sent s) (q_jobs (w_queue (sd_world s)))"

definition tasks :: "Parts \<Rightarrow> task set" where
  "tasks p = {ShutdownHTTP, CloseSockets} \<union> (if pt_metricsServer p then {ShutdownMetrics} else {})
     \<union> (if pt_cache p then {ShutdownCache} else {}) \<union> (if pt_queue p then {ShutdownQueue} else {})"

definition attemptGracefulShutdown :: "nat \<Rightarrow> World \<Rightarrow> Shutdown" where
  "attemptGracefulShutdown sent w =
     \<lparr>sd_world = w\<lparr>w_Closing := True\<rparr>, sd_done = {}, sd_cancelled = False, sd_monitor = True, sd_sent = sent, sd_exit = None\<rparr>"

text \<open>After a panic there is no web server to shut down, and nothing is cancelled.\<close>

definition handlePanic :: "nat \<Rightarrow> World \<Rightarrow> Parts \<times> Shutdown" where
  "handlePanic sent w =
     (\<lparr>pt_webServer = False, pt_metricsServer = False, pt_cache = True, pt_queue = True,
       pt_cancel = False\<rparr>,
      attemptGracefulShutdown sent (w\<lparr>w_Closing := True\<rparr>))"

definition did :: "task \<Rightarrow> Shutdown \<Rightarrow> Shutdown" where
  "did t s = s\<lparr>sd_done := insert t (sd_done s)\<rparr>"

inductive shutdown_step :: "Parts \<Rightarrow> Shutdown \<Rightarrow> Shutdown \<Rightarrow> bool" for p where
  http: "\<lbrakk>sd_exit s = None; ShutdownHTTP \<notin> sd_done s; pt_webServer p\<rbrakk> \<Longrightarrow> shutdown_step p s (did ShutdownHTTP s)"
| http_nil: "\<lbrakk>sd_exit s = None; ShutdownHTTP \<notin> sd_done s; \<not> pt_webServer p\<rbrakk> \<Longrightarrow>
     shutdown_step p s (s\<lparr>sd_exit := Some Crashed\<rparr>)"
| metrics: "\<lbrakk>sd_exit s = None; ShutdownMetrics \<notin> sd_done s; pt_metricsServer p\<rbrakk> \<Longrightarrow> shutdown_step p s (did ShutdownMetrics s)"
| sockets: "\<lbrakk>sd_exit s = None; CloseSockets \<notin> sd_done s; CloseAllLocalSockets (sd_world s) = Some w\<rbrakk> \<Longrightarrow>
     shutdown_step p s (did CloseSockets (s\<lparr>sd_world := w\<rparr>))"
| cache: "\<lbrakk>sd_exit s = None; ShutdownCache \<notin> sd_done s; pt_cache p\<rbrakk> \<Longrightarrow> shutdown_step p s (did ShutdownCache s)"
| queue: "\<lbrakk>sd_exit s = None; ShutdownQueue \<notin> sd_done s; pt_queue p; CloseSockets \<in> sd_done s; unsent s = []\<rbrakk> \<Longrightarrow>
     shutdown_step p s (did ShutdownQueue s)"
| cancel: "sd_exit s = None \<Longrightarrow> shutdown_step p s (s\<lparr>sd_cancelled := True\<rparr>)"
| send: "\<lbrakk>sd_exit s = None; sd_monitor s; unsent s \<noteq> []\<rbrakk> \<Longrightarrow> shutdown_step p s (s\<lparr>sd_sent := sd_sent s + 1\<rparr>)"
| stop: "\<lbrakk>sd_exit s = None; sd_cancelled s; pt_cancel p\<rbrakk> \<Longrightarrow> shutdown_step p s (s\<lparr>sd_monitor := False\<rparr>)"
| flap: "sd_exit s = None \<Longrightarrow>
     shutdown_step p s (s\<lparr>sd_world := on_queue (queue_timer (w_now (sd_world s)) t) (sd_world s)\<rparr>)"
| orderly: "\<lbrakk>sd_exit s = None; sd_cancelled s; tasks p \<subseteq> sd_done s\<rbrakk> \<Longrightarrow> shutdown_step p s (s\<lparr>sd_exit := Some Orderly\<rparr>)"
| deadline: "\<lbrakk>sd_exit s = None; sd_cancelled s\<rbrakk> \<Longrightarrow> shutdown_step p s (s\<lparr>sd_exit := Some Deadline\<rparr>)"

inductive_cases shutdown_stepE: "shutdown_step p s s'"

subsection \<open>Order\<close>

text \<open>The sockets registered at the start are closed and the adapter is empty.\<close>

definition all_closed :: "World \<Rightarrow> World \<Rightarrow> bool" where
  "all_closed w0 w = (namespaces w = [] \<and> (\<forall>p i a. registered w0 p i = Some a \<longrightarrow> ws_closed (w_heap w a)))"

definition in_order :: "Parts \<Rightarrow> World \<Rightarrow> Shutdown \<Rightarrow> bool" where
  "in_order p w0 s =
     ((CloseSockets \<in> sd_done s \<longrightarrow> all_closed w0 (sd_world s)) \<and> (ShutdownQueue \<in> sd_done s \<longrightarrow> CloseSockets \<in> sd_done s)
      \<and> (CloseSockets \<notin> sd_done s \<longrightarrow> world_ok (sd_world s) \<and> registered (sd_world s) = registered w0)
      \<and> (sd_exit s = Some Orderly \<longrightarrow> tasks p \<subseteq> sd_done s))"

lemma all_closed_on_queue [simp]: "all_closed w0 (on_queue f w) = all_closed w0 w"
  by (simp add: all_closed_def on_queue_def namespaces_def)

lemma world_ok_on_queue: "world_ok w \<Longrightarrow> world_ok (on_queue f w) \<and> registered (on_queue f w) = registered w"
  using world_ok_transfer [of w "on_queue f w"] same_namespaces [of "on_queue f w" w]
  by (auto simp: on_queue_def same_id_def world_okD(1))

lemma CloseAll_closes:
  "world_ok w \<Longrightarrow> CloseAllLocalSockets w = Some w' \<Longrightarrow> registered w = registered w0 \<Longrightarrow> all_closed w0 w'"
  using close_all_runs [of w] by (simp add: all_closed_def)

lemma in_order_step:
  assumes "shutdown_step p s s'" "in_order p w0 s"
  shows "in_order p w0 s'"
  using assms
proof (cases rule: shutdown_step.cases)
  case (sockets w)
  with assms(2) have "all_closed w0 w" by (auto simp: in_order_def intro: CloseAll_closes)
  with sockets assms(2) show ?thesis by (simp add: in_order_def did_def)
next
  case (flap t)
  with assms(2) world_ok_on_queue [of "sd_world s"] show ?thesis by (auto simp: in_order_def)
qed (use assms(2) in \<open>auto simp: in_order_def did_def\<close>)

lemma in_order_steps: "(shutdown_step p)\<^sup>*\<^sup>* s s' \<Longrightarrow> in_order p w0 s \<Longrightarrow> in_order p w0 s'"
  by (induction rule: rtranclp_induct) (auto intro: in_order_step)

lemma world_ok_Closing: "world_ok w \<Longrightarrow> world_ok (w\<lparr>w_Closing := True\<rparr>) \<and> registered (w\<lparr>w_Closing := True\<rparr>) = registered w"
  using world_ok_transfer [of w "w\<lparr>w_Closing := True\<rparr>"] same_namespaces [of "w\<lparr>w_Closing := True\<rparr>" w]
  by (auto simp: same_id_def world_okD(1))

lemma in_order_start: "world_ok w \<Longrightarrow> in_order p w (attemptGracefulShutdown sent w)"
  using world_ok_Closing by (simp add: in_order_def attemptGracefulShutdown_def)

text \<open>The queue's goroutine can send what is in the channel.\<close>

lemma drain:
  assumes "sd_exit s = None" "sd_monitor s"
  shows "\<exists>n. (shutdown_step p)\<^sup>*\<^sup>* s (s\<lparr>sd_sent := n\<rparr>) \<and> unsent (s\<lparr>sd_sent := n\<rparr>) = []"
  using assms
proof (induction "length (unsent s)" arbitrary: s)
  case 0
  then have "unsent (s\<lparr>sd_sent := sd_sent s\<rparr>) = []" by simp
  then show ?case by (intro exI [of _ "sd_sent s"]) simp
next
  case (Suc k)
  let ?s = "s\<lparr>sd_sent := sd_sent s + 1\<rparr>"
  from Suc.hyps(2) have "unsent s \<noteq> []" by auto
  with Suc.prems have st: "shutdown_step p s ?s" by (intro shutdown_step.send) simp_all
  from Suc.hyps(2) have "k = length (unsent ?s)" by (simp add: unsent_def)
  from Suc.hyps(1) [OF this] Suc.prems obtain n where "(shutdown_step p)\<^sup>*\<^sup>* ?s (?s\<lparr>sd_sent := n\<rparr>)" "unsent (?s\<lparr>sd_sent := n\<rparr>) = []"
    by auto
  with st show ?case by (intro exI [of _ n]) (simp add: converse_rtranclp_into_rtranclp unsent_def)
qed



end
