(* ===== verification/Redis_Cache.thy ===== *)
theory Redis_Cache
  imports Cache
begin

text \<open>
  \<open>internal/cache/redisCache.go\<close>: the cache kept in Redis, and the key prefix of
  \<open>internal/clients/redis.go\<close>. The Redis client is a parameter: its commands \<open>GET\<close>, \<open>SET\<close> with an
  expiry in nanoseconds (0 for none), \<open>DEL\<close> and \<open>EXISTS\<close> on a store, at a time.
\<close>

record 's redis =
  rd_Get :: "int \<Rightarrow> 's \<Rightarrow> string \<Rightarrow> string option"
  rd_Set :: "int \<Rightarrow> 's \<Rightarrow> string \<Rightarrow> string \<Rightarrow> int \<Rightarrow> 's"
  rd_Del :: "'s \<Rightarrow> string \<Rightarrow> 's"
  rd_Exists :: "int \<Rightarrow> 's \<Rightarrow> string \<Rightarrow> int"

definition GetKey :: "string \<Rightarrow> string \<Rightarrow> string" where
  "GetKey pref key = pref @ '':'' @ key"

definition getKey :: "string \<Rightarrow> string \<Rightarrow> string" where
  "getKey pref key = pref @ '':cache:'' @ key"

definition rc_Init :: "bool \<Rightarrow> string option" where
  "rc_Init client = (if \<not> client then Some ''redis Client is not initialized'' else None)"

definition rc_Get :: "'s redis \<Rightarrow> string \<Rightarrow> int \<Rightarrow> 's \<Rightarrow> string \<Rightarrow> string option" where
  "rc_Get rd pref now s key = rd_Get rd now s (getKey pref key)"

definition rc_Set :: "'s redis \<Rightarrow> string \<Rightarrow> int \<Rightarrow> 's \<Rightarrow> string \<Rightarrow> string \<Rightarrow> 's" where
  "rc_Set rd pref now s key v = rd_Set rd now s (getKey pref key) v 0"

definition rc_SetEx :: "'s redis \<Rightarrow> string \<Rightarrow> int \<Rightarrow> 's \<Rightarrow> string \<Rightarrow> string \<Rightarrow> int \<Rightarrow> 's" where
  "rc_SetEx rd pref now s key v ttl = rd_Set rd now s (getKey pref key) v ttl"

definition rc_Delete :: "'s redis \<Rightarrow> string \<Rightarrow> 's \<Rightarrow> string \<Rightarrow> 's" where
  "rc_Delete rd pref s key = rd_Del rd s (getKey pref key)"

definition rc_Remember ::
  "'s redis \<Rightarrow> string \<Rightarrow> int \<Rightarrow> 's \<Rightarrow> string \<Rightarrow> int \<Rightarrow> string + string \<Rightarrow> (string + string) \<times> 's" where
  "rc_Remember rd pref now s key ttl callback =
     (case rd_Get rd now s (getKey pref key) of
        Some val \<Rightarrow> (Inr val, s)
      | None \<Rightarrow>
          (case callback of
             Inl err \<Rightarrow> (Inl err, s)
           | Inr val \<Rightarrow> (Inr val, rd_Set rd now s (getKey pref key) val (ttl * 1000000000))))"

definition rc_Has :: "'s redis \<Rightarrow> string \<Rightarrow> int \<Rightarrow> 's \<Rightarrow> string \<Rightarrow> bool" where
  "rc_Has rd pref now s key = (rd_Exists rd now s (getKey pref key) > 0)"

definition rc_Update :: "'s redis \<Rightarrow> string \<Rightarrow> int \<Rightarrow> 's \<Rightarrow> string \<Rightarrow> string \<Rightarrow> 's" where
  "rc_Update rd pref now s key v =
     (case rd_Get rd now s (getKey pref key) of
        None \<Rightarrow> s | Some _ \<Rightarrow> rd_Set rd now s (getKey pref key) v 0)"

subsection \<open>The two caches answer alike\<close>

text \<open>What the code relies on: the documented behaviour of the four commands.\<close>

definition redis_laws :: "'s redis \<Rightarrow> bool" where
  "redis_laws rd =
     ((\<forall>t now s k v k'. rd_Get rd t (rd_Set rd now s k v 0) k' = (if k' = k then Some v else rd_Get rd t s k'))
      \<and> (\<forall>t now s k v ttl k'. 0 < ttl \<longrightarrow> rd_Get rd t (rd_Set rd now s k v ttl) k' =
           (if k' = k then (if t < now + ttl then Some v else None) else rd_Get rd t s k'))
      \<and> (\<forall>t s k k'. rd_Get rd t (rd_Del rd s k) k' = (if k' = k then None else rd_Get rd t s k'))
      \<and> (\<forall>t s k. rd_Exists rd t s k = (if rd_Get rd t s k = None then 0 else 1)))"

datatype cache_op =
    OpGet string | OpHas string | OpSet string string | OpSetEx string string int | OpDelete string
  | OpRemember string int "string + string" | OpUpdate string string

datatype cache_out = Value "string option" | Truth bool | Remembered "string + string" | Done

fun local_op :: "int \<Rightarrow> cache_op \<Rightarrow> LocalCache \<Rightarrow> cache_out \<times> LocalCache" where
  "local_op now (OpGet k) l = (Value (cache_Get now l k), l)"
| "local_op now (OpHas k) l = (Truth (cache_Has now l k), l)"
| "local_op now (OpSet k v) l = (Done, cache_Set l k v)"
| "local_op now (OpSetEx k v ttl) l = (Done, cache_SetEx now l k v ttl)"
| "local_op now (OpDelete k) l = (Done, cache_Delete l k)"
| "local_op now (OpRemember k ttl cb) l = apfst Remembered (cache_Remember now l k ttl cb)"
| "local_op now (OpUpdate k v) l = (Done, cache_Update now l k v)"

fun redis_op :: "'s redis \<Rightarrow> string \<Rightarrow> int \<Rightarrow> cache_op \<Rightarrow> 's \<Rightarrow> cache_out \<times> 's" where
  "redis_op rd pref now (OpGet k) s = (Value (rc_Get rd pref now s k), s)"
| "redis_op rd pref now (OpHas k) s = (Truth (rc_Has rd pref now s k), s)"
| "redis_op rd pref now (OpSet k v) s = (Done, rc_Set rd pref now s k v)"
| "redis_op rd pref now (OpSetEx k v ttl) s = (Done, rc_SetEx rd pref now s k v ttl)"
| "redis_op rd pref now (OpDelete k) s = (Done, rc_Delete rd pref s k)"
| "redis_op rd pref now (OpRemember k ttl cb) s = apfst Remembered (rc_Remember rd pref now s k ttl cb)"
| "redis_op rd pref now (OpUpdate k v) s = (Done, rc_Update rd pref now s k v)"

fun run_ops :: "(int \<Rightarrow> cache_op \<Rightarrow> 's \<Rightarrow> cache_out \<times> 's) \<Rightarrow> (int \<times> cache_op) list \<Rightarrow> 's \<Rightarrow> cache_out list" where
  "run_ops exec [] s = []"
| "run_ops exec ((now, x) # xs) s = (case exec now x s of (out, s') \<Rightarrow> out # run_ops exec xs s')"

definition ttl_positive :: "cache_op \<Rightarrow> bool" where
  "ttl_positive x = (case x of OpSetEx k v ttl \<Rightarrow> 0 < ttl | OpRemember k ttl cb \<Rightarrow> 0 < ttl | _ \<Rightarrow> True)"

text \<open>The caches hold the same at every time.\<close>

definition same_content :: "'s redis \<Rightarrow> string \<Rightarrow> 's \<Rightarrow> LocalCache \<Rightarrow> bool" where
  "same_content rd pref s l = (\<forall>t k. rd_Get rd t s (getKey pref k) = cache_Get t l k)"

lemma getKey_eq [simp]: "getKey pref k = getKey pref k' \<longleftrightarrow> k = k'"
  by (simp add: getKey_def)

lemma existsAndNotExpired_None: "existsAndNotExpired now l k = None \<longleftrightarrow> cache_Get now l k = None"
  by (simp add: cache_Get_def)

lemma cache_Remember_Get:
  "cache_Remember now l k ttl cb =
     (case cache_Get now l k of
        Some v \<Rightarrow> (Inr v, l)
      | None \<Rightarrow> (case cb of Inl err \<Rightarrow> (Inl err, l) | Inr v \<Rightarrow> (Inr v, cache_SetEx now l k v (ttl * 1000000000))))"
  by (simp add: cache_Remember_def cache_Get_def split: option.split)

lemma op_agrees:
  assumes "redis_laws rd" "same_content rd pref s l" "ttl_positive x"
  shows "\<exists>out s' l'. redis_op rd pref now x s = (out, s') \<and> local_op now x l = (out, l') \<and> same_content rd pref s' l'"
proof -
  from assms(1) have laws:
    "rd_Get rd t (rd_Set rd n u k v 0) k' = (if k' = k then Some v else rd_Get rd t u k')"
    "0 < ttl \<Longrightarrow> rd_Get rd t (rd_Set rd n u k v ttl) k' = (if k' = k then (if t < n + ttl then Some v else None) else rd_Get rd t u k')"
    "rd_Get rd t (rd_Del rd u k) k' = (if k' = k then None else rd_Get rd t u k')"
    "rd_Exists rd t u k = (if rd_Get rd t u k = None then 0 else 1)" for t n u k v k' ttl
    by (simp_all add: redis_laws_def)
  have g: "rd_Get rd t s (getKey pref k) = cache_Get t l k" for t k using assms(2) by (simp add: same_content_def)
  have set_: "same_content rd pref (rd_Set rd now s (getKey pref k) v 0) (cache_Set l k v)" for k v
    by (simp add: same_content_def laws(1) g lc.get_put)
  have setex: "same_content rd pref (rd_Set rd now s (getKey pref k) v ttl) (cache_SetEx now l k v ttl)" if "0 < ttl" for k v ttl
    by (simp add: same_content_def laws(2) [OF that] g lc.get_setex)
  show ?thesis
  proof (cases x)
    case (OpRemember k ttl cb)
    with assms(3) have "0 < ttl * 1000000000" by (simp add: ttl_positive_def)
    from setex [OF this] show ?thesis
      using OpRemember assms(2) by (auto simp: rc_Remember_def cache_Remember_Get g split: option.split sum.split)
  next
    case (OpUpdate k v)
    then show ?thesis
      using assms(2) set_ by (auto simp: rc_Update_def cache_Update_def g existsAndNotExpired_None split: option.split)
  qed (use assms(2,3) set_ setex in \<open>auto simp: rc_Get_def rc_Has_def rc_Set_def rc_SetEx_def rc_Delete_def cache_Has_def
      existsAndNotExpired_None g laws ttl_positive_def same_content_def lc.get_delete\<close>)
qed


definition demo_redis :: "LocalCache redis" where
  "demo_redis = \<lparr>rd_Get = cache_Get, rd_Set = (\<lambda>now s k v ttl. if ttl = 0 then cache_Set s k v else cache_SetEx now s k v ttl),
     rd_Del = cache_Delete, rd_Exists = (\<lambda>t s k. if cache_Get t s k = None then 0 else 1)\<rparr>"


end
