(* ===== verification/Redis_Client.thy ===== *)
theory Redis_Client
  imports Redis_Cache
begin

text \<open>
  \<open>internal/clients/redis.go\<close>: the options of a Redis client from the configured URLs, and its initialisation.
  Parsing a URL, reaching the server (\<open>PING\<close>) and the TLS configuration are those of the libraries and parameters; a client is
  represented by the options it was made with.
\<close>

record 't RedisOptions =
  ro_Addr :: string
  ro_DB :: int
  ro_Password :: string
  ro_PoolSize :: int
  ro_PoolTimeout :: int
  ro_TLSConfig :: "'t option"

record 't UniversalOptions =
  uo_Addrs :: "string list"
  uo_DB :: int
  uo_Password :: string
  uo_PoolSize :: int
  uo_PoolTimeout :: int
  uo_TLSConfig :: "'t option"

record 't RedisLib =
  ParseURL :: "string \<Rightarrow> string + 't RedisOptions"
  MinTLS12 :: 't \<comment> \<open>\<open>tls.Config\<close> with a minimal version of 1.2\<close>
  PingResult :: "'t UniversalOptions \<Rightarrow> string option" \<comment> \<open>the error of a \<open>PING\<close>\<close>

record 't RedisClient =
  rcl_Client :: "'t UniversalOptions option"
  rcl_Prefix :: string

definition GetClient :: "'t RedisClient \<Rightarrow> 't UniversalOptions option" where
  "GetClient r = rcl_Client r"

definition ParseUrlAndGetOptions :: "'t RedisLib \<Rightarrow> string \<Rightarrow> bool \<Rightarrow> string + 't UniversalOptions" where
  "ParseUrlAndGetOptions lib redisURL forceTls =
     (case ParseURL lib redisURL of
        Inl err \<Rightarrow> Inl (''failed to parse redis url '' @ redisURL @ '': '' @ err)
      | Inr redisOptions \<Rightarrow>
          (let opts = \<lparr>uo_Addrs = [ro_Addr redisOptions], uo_DB = ro_DB redisOptions, uo_Password = ro_Password redisOptions,
                       uo_PoolSize = ro_PoolSize redisOptions, uo_PoolTimeout = ro_PoolTimeout redisOptions,
                       uo_TLSConfig = ro_TLSConfig redisOptions\<rparr>
           in Inr (if forceTls \<and> uo_TLSConfig opts = None then opts\<lparr>uo_TLSConfig := Some (MinTLS12 lib)\<rparr> else opts)))"

definition initRedisClient ::
  "'t RedisLib \<Rightarrow> string \<Rightarrow> bool \<Rightarrow> 't RedisClient \<Rightarrow> string option \<times> 't RedisClient" where
  "initRedisClient lib redisURL useTls r =
     (case ParseUrlAndGetOptions lib redisURL useTls of
        Inl err \<Rightarrow> (Some err, r)
      | Inr universalOptions \<Rightarrow>
          (let r = r\<lparr>rcl_Client := Some universalOptions\<rparr> in (PingResult lib universalOptions, r)))"

text \<open>The addresses of all URLs, or the error of the first that cannot be parsed.\<close>

fun cluster_nodes :: "'t RedisLib \<Rightarrow> bool \<Rightarrow> string list \<Rightarrow> string + string list" where
  "cluster_nodes lib useTls [] = Inr []"
| "cluster_nodes lib useTls (redisURL # redisURLs) =
     (case ParseUrlAndGetOptions lib redisURL useTls of
        Inl pErr \<Rightarrow> Inl pErr
      | Inr uniOptions \<Rightarrow>
          (case cluster_nodes lib useTls redisURLs of
             Inl pErr \<Rightarrow> Inl pErr
           | Inr nodes \<Rightarrow> Inr (uo_Addrs uniOptions ! 0 # nodes)))"

definition initClusterRedisClient ::
  "'t RedisLib \<Rightarrow> string list \<Rightarrow> bool \<Rightarrow> 't RedisClient \<Rightarrow> string option \<times> 't RedisClient" where
  "initClusterRedisClient lib redisURLs useTls r =
     (case ParseUrlAndGetOptions lib (redisURLs ! 0) useTls of
        Inl err \<Rightarrow> (Some (''failed to parse redis url '' @ redisURLs ! 0 @ '': '' @ err), r)
      | Inr universalOptions \<Rightarrow>
          (case cluster_nodes lib useTls redisURLs of
             Inl pErr \<Rightarrow> (Some pErr, r)
           | Inr nodes \<Rightarrow>
               (let universalOptions = universalOptions\<lparr>uo_Addrs := nodes\<rparr>;
                    r = r\<lparr>rcl_Client := Some universalOptions\<rparr>
                in (PingResult lib universalOptions, r))))"

definition InitRedis ::
  "'t RedisLib \<Rightarrow> string \<Rightarrow> bool \<Rightarrow> bool \<Rightarrow> 't RedisClient \<Rightarrow> string option \<times> 't RedisClient" where
  "InitRedis lib redisUrl redisCluster useTls r =
     (if rcl_Client r = None then
        let redisURLs = Split redisUrl (CHR '','') in
        if length redisURLs > 1 \<or> redisCluster then initClusterRedisClient lib redisURLs useTls r
        else initRedisClient lib (redisURLs ! 0) useTls r
      else (None, r))"

subsection \<open>The client\<close>

lemma cluster_nodes_ok:
  assumes "\<And>u. u \<in> set urls \<Longrightarrow> ParseURL lib u = Inr (opts u)"
  shows "cluster_nodes lib useTls urls = Inr (map (\<lambda>u. ro_Addr (opts u)) urls)"
  using assms by (induction urls) (auto simp: ParseUrlAndGetOptions_def Let_def)

lemma cluster_nodes_bad:
  "u \<in> set urls \<Longrightarrow> ParseURL lib u = Inl err \<Longrightarrow> \<exists>e. cluster_nodes lib useTls urls = Inl e"
  by (induction urls) (auto simp: ParseUrlAndGetOptions_def Let_def split: sum.split)

text \<open>The options of a client for these URLs.\<close>

definition client_options :: "'t RedisLib \<Rightarrow> (string \<Rightarrow> 't RedisOptions) \<Rightarrow> bool \<Rightarrow> string list \<Rightarrow> 't UniversalOptions" where
  "client_options lib opts useTls urls =
     (let first = opts (hd urls) in
      \<lparr>uo_Addrs = map (\<lambda>u. ro_Addr (opts u)) urls, uo_DB = ro_DB first, uo_Password = ro_Password first,
       uo_PoolSize = ro_PoolSize first, uo_PoolTimeout = ro_PoolTimeout first,
       uo_TLSConfig = (if useTls \<and> ro_TLSConfig first = None then Some (MinTLS12 lib) else ro_TLSConfig first)\<rparr>)"

text \<open>
  The Redis client that \<open>InitRedis\<close> makes: with a URL list of which every URL can be parsed, the client has the addresses of all of
  them in order and the remaining options of the first, TLS included, whether or not a cluster was asked for, and its result is that of the ping. If some
  URL cannot be parsed there is an error and no client. If the ping fails there is an error, but the client stays, and the next
  \<open>InitRedis\<close> reports success without asking the server again.
\<close>
theorem InitRedis_decides:
  assumes "rcl_Client r = None"
  shows "(\<forall>opts. (\<forall>u \<in> set (Split redisUrl (CHR '','')). ParseURL lib u = Inr (opts u)) \<longrightarrow>
       (let c = client_options lib opts useTls (Split redisUrl (CHR '',''))
        in InitRedis lib redisUrl redisCluster useTls r = (PingResult lib c, r\<lparr>rcl_Client := Some c\<rparr>)
           \<and> InitRedis lib redisUrl redisCluster useTls (r\<lparr>rcl_Client := Some c\<rparr>) = (None, r\<lparr>rcl_Client := Some c\<rparr>)))
    \<and> ((\<exists>u \<in> set (Split redisUrl (CHR '','')). \<exists>e. ParseURL lib u = Inl e) \<longrightarrow>
       (\<exists>e. InitRedis lib redisUrl redisCluster useTls r = (Some e, r)))"
proof -
  define urls where "urls = Split redisUrl (CHR '','')"
  have ne: "urls \<noteq> []" by (simp add: urls_def)
  then obtain u us where us: "urls = u # us" by (cases urls) auto
  have good: "InitRedis lib redisUrl redisCluster useTls r = (PingResult lib c, r\<lparr>rcl_Client := Some c\<rparr>)"
    if "\<forall>u \<in> set urls. ParseURL lib u = Inr (opts u)" "c = client_options lib opts useTls urls" for opts c
  proof -
    have n: "cluster_nodes lib useTls urls = Inr (map (\<lambda>u. ro_Addr (opts u)) urls)" using that(1) by (intro cluster_nodes_ok) simp
    have h: "ParseURL lib u = Inr (opts u)" using that(1) us by simp
    show ?thesis
      using assms h n that(2) us
      by (cases us) (auto simp: InitRedis_def urls_def [symmetric] initClusterRedisClient_def initRedisClient_def
          ParseUrlAndGetOptions_def client_options_def Let_def)
  qed
  have bad: "\<exists>e. InitRedis lib redisUrl redisCluster useTls r = (Some e, r)" if "v \<in> set urls" "ParseURL lib v = Inl e" for v e
  proof (cases "length urls > 1 \<or> redisCluster")
    case True
    with cluster_nodes_bad [OF that, of useTls] assms show ?thesis
      by (auto simp: InitRedis_def urls_def [symmetric] initClusterRedisClient_def Let_def split: sum.split)
  next
    case False
    with us that assms show ?thesis
      by (auto simp: InitRedis_def urls_def [symmetric] initRedisClient_def ParseUrlAndGetOptions_def Let_def)
  qed
  show ?thesis unfolding urls_def [symmetric] Let_def using good bad by (auto simp: InitRedis_def)
qed

definition demo_redis_lib :: "unit RedisLib" where
  "demo_redis_lib = \<lparr>ParseURL = (\<lambda>u. if u = [] then Inl ''empty'' else Inr \<lparr>ro_Addr = u, ro_DB = 0, ro_Password = [], ro_PoolSize = 0,
      ro_PoolTimeout = 0, ro_TLSConfig = None\<rparr>), MinTLS12 = (), PingResult = (\<lambda>_. Some ''unreachable'')\<rparr>"

text \<open>The server cannot be reached; the client has both addresses.\<close>

theorem InitRedis_decides_witness:
  "fst (InitRedis demo_redis_lib ''a,b'' False True \<lparr>rcl_Client = None, rcl_Prefix = ''p''\<rparr>) = Some ''unreachable''
    \<and> map_option uo_Addrs (rcl_Client (snd (InitRedis demo_redis_lib ''a,b'' False True \<lparr>rcl_Client = None, rcl_Prefix = ''p''\<rparr>)))
      = Some [''a'', ''b'']"
proof -
  let ?r = "\<lparr>rcl_Client = None, rcl_Prefix = ''p''\<rparr> :: unit RedisClient"
  let ?opts = "\<lambda>u. \<lparr>ro_Addr = u, ro_DB = 0, ro_Password = [], ro_PoolSize = 0, ro_PoolTimeout = 0, ro_TLSConfig = None\<rparr> :: unit RedisOptions"
  let ?c = "client_options demo_redis_lib ?opts True (Split ''a,b'' (CHR '',''))"
  have 1: "rcl_Client ?r = None" and 2: "\<forall>u \<in> set (Split ''a,b'' (CHR '','')). ParseURL demo_redis_lib u = Inr (?opts u)"
    by (simp_all add: demo_redis_lib_def)
  from InitRedis_decides [OF 1, THEN conjunct1, THEN spec, THEN mp, OF 2, unfolded Let_def, THEN conjunct1]
  have "InitRedis demo_redis_lib ''a,b'' False True ?r = (PingResult demo_redis_lib ?c, ?r\<lparr>rcl_Client := Some ?c\<rparr>)"
    .
  then show ?thesis by (simp add: client_options_def demo_redis_lib_def Let_def)
qed

end
