(* ===== verification/Process.thy ===== *)
theory Process
  imports Shutdown Redis_Client
begin

text \<open>
  How the process starts: \<open>cmd/main.go\<close>, the environment (\<open>env/fetch.go\<close>), the logger (\<open>log/logrus.go\<close>) and the sources of
  the configuration (\<open>config/config.go\<close>, steps 3 to 6 and 10), composed with the configuration, the Redis client, the server and \<open>Run\<close>.
  The flags, the file system, godotenv, viper and logrus are the parameters of the record \<open>Host\<close>.
\<close>

subsection \<open>The environment\<close>

type_synonym environment = "string \<rightharpoonup> string"

definition env_Lookup :: "environment \<Rightarrow> string \<Rightarrow> string \<times> bool" where
  "env_Lookup env key = (case env key of None \<Rightarrow> ([], False) | Some v \<Rightarrow> (v, True))"

definition env_Get :: "environment \<Rightarrow> string \<Rightarrow> string list \<Rightarrow> string" where
  "env_Get env key fallback =
     (let fb = (if length fallback > 0 then fallback ! 0 else []);
          (s, ok) = env_Lookup env key
      in if \<not> ok then fb else s)"

definition env_GetString :: "environment \<Rightarrow> string \<Rightarrow> string list \<Rightarrow> string" where
  "env_GetString env key fallback = env_Get env key fallback"

text \<open>\<open>os.Getenv\<close>\<close>

definition Getenv :: "environment \<Rightarrow> string \<Rightarrow> string" where
  "Getenv env key = fst (env_Lookup env key)"

subsection \<open>The logger\<close>

datatype formatter = JSONFormatter | TextFormatter

record 'l Logger =
  lg_Formatter :: formatter
  lg_Level :: 'l

definition PRODUCTION :: string where
  "PRODUCTION = ''production''"

text \<open>\<open>ParseLevel\<close> of logrus gives a level and whether the text was one.\<close>

definition initLogger :: "(string \<Rightarrow> 'l \<times> bool) \<Rightarrow> 'l \<Rightarrow> environment \<Rightarrow> 'l Logger" where
  "initLogger ParseLevel InfoLevel env =
     (let format = (if env_GetString env ''APP_ENV'' [PRODUCTION] = PRODUCTION then JSONFormatter else TextFormatter);
          (lvl, ok) = ParseLevel (env_GetString env ''LOG_LEVEL'' [''info''])
      in \<lparr>lg_Formatter = format, lg_Level = (if \<not> ok then InfoLevel else lvl)\<rparr>)"

text \<open>Step 10 of the configuration.\<close>

definition configure_logger :: "(string \<Rightarrow> 'l \<times> bool) \<Rightarrow> ServerConfig \<Rightarrow> 'l Logger \<Rightarrow> 'l Logger" where
  "configure_logger ParseLevel cfg logger =
     (let (lvl, _) = ParseLevel (sc_LogLevel cfg);
          logger = logger\<lparr>lg_Level := lvl\<rparr>
      in if sc_Env cfg \<noteq> PRODUCTION then logger\<lparr>lg_Formatter := TextFormatter\<rparr> else logger)"

subsection \<open>The sources of the configuration\<close>

record Host =
  ho_Args0 :: string
  ho_Flag :: "string \<Rightarrow> string" \<comment> \<open>\<open>pflag.Lookup(name).Value.String()\<close>\<close>
  ho_Stat :: "string \<Rightarrow> string option" \<comment> \<open>the error, if there is no such file\<close>
  ho_LoadEnv :: "string \<Rightarrow> environment \<Rightarrow> string + environment" \<comment> \<open>\<open>godotenv.Load\<close>\<close>
  ho_ReadConfig :: "string \<Rightarrow> string option"
  ho_BindFlags :: "string option"
  ho_Unmarshal :: "environment \<Rightarrow> string \<Rightarrow> string + ServerConfig"
  ho_Viper :: "environment \<Rightarrow> string \<Rightarrow> Viper"

definition isTest :: "Host \<Rightarrow> environment \<Rightarrow> bool" where
  "isTest h env = (HasSuffix (ho_Args0 h) ''.test'' \<or> Getenv env ''GO_TEST'' \<noteq> [])"

definition envFile :: "Host \<Rightarrow> environment \<Rightarrow> string" where
  "envFile h env =
     (let f = ho_Flag h ''env-file'';
          f = (if f = [] then Getenv env ''ENV_FILE'' else f)
      in if f = [] then ''./.env'' else f)"

definition load_env :: "Host \<Rightarrow> environment \<Rightarrow> string + environment" where
  "load_env h env =
     (if \<not> isTest h env \<or> Getenv env ''TEST_WITH_ENV_FILE'' = ''true'' then
        let f = envFile h env in
        case ho_Stat h f of
          None \<Rightarrow>
            (case ho_LoadEnv h f env of
               Inl err \<Rightarrow> Inl (''error loading .env file ('' @ f @ ''): '' @ err)
             | Inr env \<Rightarrow> Inr env)
        | Some err \<Rightarrow>
            if isTest h env then Inl (''error finding .env file ('' @ f @ ''): '' @ err) else Inr env
      else Inr env)"

definition cfgPath :: "Host \<Rightarrow> environment \<Rightarrow> string" where
  "cfgPath h env =
     (let f = ho_Flag h ''config-file'' in
      if f \<noteq> [] then f
      else let f = Getenv env ''CONFIG_FILE'' in if f \<noteq> [] then f else [])"

definition read_config :: "Host \<Rightarrow> environment \<Rightarrow> string + string" where
  "read_config h env =
     (let path = cfgPath h env in
      if path = [] then Inr path
      else case ho_ReadConfig h path of
             Some err \<Rightarrow> Inl (''error reading config file: '' @ err)
           | None \<Rightarrow> Inr path)"

definition unmarshal_config :: "Host \<Rightarrow> environment \<Rightarrow> string \<Rightarrow> string + ServerConfig" where
  "unmarshal_config h env path =
     (case ho_BindFlags h of
        Some err \<Rightarrow> Inl (''error binding flags: '' @ err)
      | None \<Rightarrow>
          (case ho_Unmarshal h env path of
             Inl err \<Rightarrow> Inl (''error unmarshalling config: '' @ err)
           | Inr cfg \<Rightarrow> Inr cfg))"

text \<open>Step 9, the Redis client of a configuration.\<close>

definition redis_of :: "'t RedisLib \<Rightarrow> ServerConfig \<Rightarrow> string option \<times> 't RedisClient" where
  "redis_of lib cfg =
     InitRedis lib (sc_RedisUrl cfg) (sc_RedisClusterMode cfg) (sc_RedisTls cfg)
       \<lparr>rcl_Client = None, rcl_Prefix = sc_RedisPrefix cfg\<rparr>"

text \<open>The environment as the file has left it, the configuration file and what was unmarshalled.\<close>

definition load_sources :: "Host \<Rightarrow> environment \<Rightarrow> string + (environment \<times> string \<times> ServerConfig)" where
  "load_sources h env =
     (case load_env h env of
        Inl err \<Rightarrow> Inl err
      | Inr env \<Rightarrow>
          (case read_config h env of
             Inl err \<Rightarrow> Inl err
           | Inr path \<Rightarrow>
               (case unmarshal_config h env path of
                  Inl err \<Rightarrow> Inl err
                | Inr cfg \<Rightarrow> Inr (env, path, cfg))))"

definition loadConfig :: "Host \<Rightarrow> 't RedisLib \<Rightarrow> environment \<Rightarrow> string + ServerConfig" where
  "loadConfig h lib env =
     (case load_sources h env of
        Inl err \<Rightarrow> Inl err
      | Inr (env, path, cfg) \<Rightarrow> InitializeServerConfig (ho_Viper h env path) (Inr cfg) (fst (redis_of lib cfg)))"

subsection \<open>The process\<close>

datatype process =
    Exits nat string \<comment> \<open>with this code and text\<close>
  | Panics
  | Serves bool World \<comment> \<open>with a metrics server?\<close>

text \<open>\<open>new\<close> is \<open>NewServer\<close>, of which \<open>None\<close> is a panic; a Redis client or a driver may refuse.\<close>

definition main_process ::
  "Host \<Rightarrow> 't RedisLib \<Rightarrow> (ServerConfig \<Rightarrow> (string + World) option) \<Rightarrow> environment \<Rightarrow> process" where
  "main_process h lib new env =
     (if ho_Flag h ''version'' = ''true'' then Exits 0 ''SocketRush Version: unknown''
      else
        let loaded = loadConfig h lib env in
        if (case loaded of Inl _ \<Rightarrow> False | Inr cfg \<Rightarrow> new cfg = None) then Panics
        else case Run True loaded (\<lambda>cfg. the (new cfg)) of
               RunError err \<Rightarrow> Exits 1 (''run server failed: '' @ err)
             | Serving metrics w \<Rightarrow> Serves metrics w)"

definition new_server :: "register \<Rightarrow> string option \<Rightarrow> string option \<Rightarrow> heap \<Rightarrow> int \<Rightarrow> Lib \<Rightarrow> ServerConfig \<Rightarrow> (string + World) option" where
  "new_server must_register driver_error sns heap now lib cfg =
     map_option (map_sum id (\<lambda>(_, _, _, w). w)) (NewServer must_register driver_error sns heap now lib (Some cfg))"

subsection \<open>A process that serves\<close>

lemma InitRedis_success:
  assumes "InitRedis lib url cluster tls r = (None, r')" "rcl_Client r = None"
  obtains c where "rcl_Client r' = Some c" "PingResult lib c = None"
  using assms
  by (auto simp: InitRedis_def initClusterRedisClient_def initRedisClient_def Let_def split: if_splits sum.splits)


subsection \<open>Examples\<close>

text \<open>A host without files, whose configuration has one app and keeps the cache in Redis.\<close>

definition demo_host :: "Host" where
  "demo_host = \<lparr>ho_Args0 = ''server'', ho_Flag = (\<lambda>_. []), ho_Stat = (\<lambda>_. Some ''no such file''), ho_LoadEnv = (\<lambda>_ env. Inr env),
     ho_ReadConfig = (\<lambda>_. None), ho_BindFlags = None, ho_Unmarshal = (\<lambda>_ _. Inr (demo_config\<lparr>sc_RedisUrl := ''r''\<rparr>)),
     ho_Viper = (\<lambda>_ _. demo_viper)\<rparr>"

definition demo_unreachable :: "unit RedisLib" where
  "demo_unreachable = \<lparr>ParseURL = (\<lambda>u. Inr \<lparr>ro_Addr = u, ro_DB = 0, ro_Password = [], ro_PoolSize = 0, ro_PoolTimeout = 0, ro_TLSConfig = None\<rparr>),
     MinTLS12 = (), PingResult = (\<lambda>_. Some ''unreachable'')\<rparr>"


end
