(* ===== verification/Api_Events.thy ===== *)
theory Api_Events
  imports Http_Api Requests
begin

text \<open>
  What the REST interface (\<open>internal/apiEvents.go\<close>, \<open>internal/apiChannels.go\<close>,
  \<open>internal/httpMiddlewares.go\<close>) does: who may use it, who receives a triggered event, what a
  batch does that contains a bad event, and what it answers about a channel.
\<close>

subsection \<open>Delivery of an event\<close>

text \<open>The sockets an event reaches; the one with the given id is left out.\<close>

definition event_audience :: "AppID \<Rightarrow> ChannelName \<Rightarrow> SocketID \<Rightarrow> World \<Rightarrow> addr set" where
  "event_audience p c except w =
     {b. live w b \<and> (\<exists>j. (c, j) \<in> la_subs p w \<and> registered w p j = Some b \<and> \<not> (except \<noteq> [] \<and> j = except))}"

lemma la_Send_event:
  assumes ok: "world_ok w" and c: "\<not> HasPrefix c SocketRushServerToUserPrefix"
  shows "\<exists>err w'. la_Send p c msg [e] w = Some (err, w') \<and> send_frame w' w
    \<and> (\<forall>b. wire w' b = wire w b @ (if b \<in> event_audience p c e w then [msg] else []))"
proof (cases "ns_of w p")
  case None
  then have "event_audience p c e w = {}" by (simp add: event_audience_def registered_def)
  with None c show ?thesis by (simp add: la_Send_def)
next
  case (Some n)
  have aud: "b \<in> subscribers n c [e] \<and> live w b \<longleftrightarrow> b \<in> event_audience p c e w" for b
    using Some by (auto simp: subscribers_def event_audience_def la_subs_IsInChannel [OF Some] registered_def)
  have "\<forall>b \<in> subscribers n c [e]. sane w b"
    using world_okD(3) [OF ok, of p] Some by (auto simp: subscribers_def registered_def)
  then have "\<exists>w'. la_Send p c msg [e] w = Some (None, w') \<and> send_frame w' w
      \<and> (\<forall>b. wire w' b = wire w b @ (if b \<in> subscribers n c [e] \<and> live w b then [msg] else []))"
    by (rule la_Send_channel [OF Some world_ok_sockets [OF ok Some] c, where msg = msg]) (intro exI conjI allI)
  then show ?thesis unfolding aud by blast
qed

lemma broadcast_one_spec:
  assumes ok: "world_ok w" and c: "\<not> HasPrefix c SocketRushServerToUserPrefix"
  shows "\<exists>w'. broadcast_one m app c w = Some w' \<and> w_Namespaces w' = w_Namespaces w
    \<and> (\<forall>b. wire w' b = wire w b @ (if b \<in> event_audience (app_ID app) c (am_SocketID m) w
         then [ToJson (w_lib w) False (api_event m c)] else []))
    \<and> (IsCacheChannel c \<longrightarrow> w_now w' = w_now w \<and> (\<forall>t. cache_Get t (w_cache w') (GetChannelCacheKey (app_ID app) c)
         = (if t < w_now w + 30 * 60 * Second then Some (ToJson (w_lib w) False (api_event m c)) else None)))"
proof -
  let ?t = "ToJson (w_lib w) False (api_event m c)"
  from la_Send_event [OF ok c, of "app_ID app" ?t "am_SocketID m"] obtain err w1 where
    w1: "la_Send (app_ID app) c ?t [am_SocketID m] w = Some (err, w1)" "send_frame w1 w"
    "\<And>b. wire w1 b = wire w b @ (if b \<in> event_audience (app_ID app) c (am_SocketID m) w then [?t] else [])" by blast
  have k: "w_now w1 = w_now w" "w_Namespaces w1 = w_Namespaces w" using w1(2) by (simp_all add: send_frame_def)
  have x: "wire (on_cache f w1) b = wire w1 b" "w_Namespaces (on_cache f w1) = w_Namespaces w1"
    "w_cache (on_cache f w1) = f (w_cache w1)" "w_now (on_cache f w1) = w_now w1" for f b
    by (simp_all add: wire_def on_cache_def)
  show ?thesis
  proof (cases "IsCacheChannel c")
    case True
    with w1(1) have "broadcast_one m app c w = Some (on_cache (\<lambda>c'. cache_SetEx (w_now w) c'
        (GetChannelCacheKey (app_ID app) c) ?t (30 * 60 * Second)) w1)"
      using k(1) by (simp add: broadcast_one_def Let_def)
    with w1(3) k x show ?thesis by (simp add: lc.get_setex)
  next
    case False
    with w1 k show ?thesis by (simp add: broadcast_one_def Let_def)
  qed
qed


definition demo_message :: PusherApiMessage where
  "demo_message = \<lparr>am_Name = ''e'', am_Data = ''x'', am_Channel = ''c'', am_Channels = None, am_SocketID = ''1.1''\<rparr>"

lemma demo_message_ok: "checkMessageToBroadcast demo_app demo_message = None" "message_channels demo_message = [''c'']"
proof -
  show c: "message_channels demo_message = [''c'']" by (simp add: message_channels_def demo_message_def)
  have "ValidChannel ''c'' 100" by code_simp
  then show "checkMessageToBroadcast demo_app demo_message = None"
    by (simp add: checkMessageToBroadcast_def c) (simp add: demo_message_def)
qed

lemma demo_audience: "event_audience ''1'' ''c'' ''1.1'' demo_world = {2}"
  by (auto simp: event_audience_def demo_subs demo_registered live_def demo_conn_def)


subsection \<open>Access\<close>

lemma backendGroup_cases:
  "backendGroup req w =
    (case FindByID (w_apps w) (ar_AppID req) of
       Inl err \<Rightarrow> Some (api_error 404 err, w)
     | Inr app \<Rightarrow> (case Verify (unix_now w) (ar_Http req) (app_ID app) (app_Secret app) of
         Inl err \<Rightarrow> Some (api_error 401 err, w)
       | Inr _ \<Rightarrow> route (ar_Http req) app (ar_Call req) w))"
  by (simp add: backendGroup_def AppMiddleware_def SignatureMiddleware_def cong: sum.case_cong)

text \<open>
  Nothing happens, and nothing is answered but an error, without the secret of the app: a request
  that changes the state or is answered with 200 names an app of the server and carries the
  signature of its method, path and query under that app's secret, in version 1.0.
\<close>
theorem api_requires_signature:
  assumes "backendGroup req w = Some (resp, w')" "w' \<noteq> w \<or> rs_Status resp = 200"
  shows "\<exists>app. map_of (w_apps w) (ar_AppID req) = Some app
    \<and> Values_Get (rq_Query (ar_Http req)) ''auth_signature'' = HmacSignature (stringToSign (ar_Http req)) (app_Secret app)
    \<and> Values_Get (rq_Query (ar_Http req)) ''auth_version'' = ''1.0''"
  using assms
  by (auto simp: backendGroup_cases FindByID_def api_error_def Verify_Inr split: option.splits sum.splits)

definition demo_unsigned :: HttpRequest where
  "demo_unsigned = \<lparr>rq_Method = ''GET'', rq_Path = ''/apps/1/channels'',
     rq_Query = [(''auth_timestamp'', [''0'']), (''auth_version'', [''1.0''])]\<rparr>"

definition demo_signed :: ApiRequest where
  "demo_signed = \<lparr>ar_Http = demo_unsigned\<lparr>rq_Query :=
       (''auth_signature'', [HmacSignature (stringToSign demo_unsigned) ''s'']) # rq_Query demo_unsigned\<rparr>,
     ar_AppID = ''1'', ar_Call = GetChannels\<rparr>"

lemma demo_verify: "Verify 0 (ar_Http demo_signed) ''1'' ''s'' = Inr ()"
proof -
  have s: "stringToSign (ar_Http demo_signed) = stringToSign demo_unsigned"
    by (simp add: stringToSign_def demo_signed_def demo_unsigned_def)
  have t: "fst (Str2Int64 ''0'') = 0" "checkTimestamp 0 0 600" by code_simp+
  show ?thesis
    unfolding Verify_Inr s using t by (simp add: demo_signed_def demo_unsigned_def Values_Get_def)
qed

theorem api_requires_signature_witness:
  "\<exists>resp. backendGroup demo_signed demo_world = Some (resp, demo_world) \<and> rs_Status resp = 200
    \<and> Values_Get (rq_Query (ar_Http demo_signed)) ''auth_signature'' = HmacSignature (stringToSign (ar_Http demo_signed)) ''s''"
proof -
  have q: "Query (ar_Http demo_signed) ''info'' = []" "Query (ar_Http demo_signed) ''filter_by_prefix'' = []"
    by (simp_all add: Query_def demo_signed_def demo_unsigned_def Values_Get_def)
  have "''user_count'' \<notin> set (FieldsFunc [] (CHR '',''))" by (simp add: FieldsFunc_def)
  then have "\<exists>resp. backendGroup demo_signed demo_world = Some (resp, demo_world) \<and> rs_Status resp = 200"
    using demo_verify q
    by (simp add: backendGroup_cases FindByID_def unix_now_def demo_signed_def ChannelIndex_def Let_def)
  then show ?thesis using api_requires_signature [of demo_signed demo_world] by (auto simp: demo_signed_def)
qed

subsection \<open>Batches\<close>

text \<open>
  A batch is not all or nothing: when its second event is bad the client gets only the error of that
  event, yet the first event has been written to every subscriber of its channel.
\<close>
theorem batch_partial:
  assumes "world_ok w" "checkMessageToBroadcast app m = None" "message_channels m = [c]"
    and "\<not> HasPrefix c SocketRushServerToUserPrefix" "checkMessageToBroadcast app bad = Some resp"
  shows "\<exists>w'. BatchEventTrigger app (Inr (Some m # Some bad # rest)) w = Some (resp, w') \<and> rs_Status resp \<noteq> 200
    \<and> (\<forall>b. wire w' b = wire w b @ (if b \<in> event_audience (app_ID app) c (am_SocketID m) w
         then [ToJson (w_lib w) False (api_event m c)] else []))"
proof -
  from broadcast_one_spec [OF assms(1,4), of m app] obtain w1 where "broadcast_one m app c w = Some w1"
    "\<forall>b. wire w1 b = wire w b @ (if b \<in> event_audience (app_ID app) c (am_SocketID m) w
         then [ToJson (w_lib w) False (api_event m c)] else [])" by blast
  moreover have "rs_Status resp \<noteq> 200"
    using assms(5) by (auto simp: checkMessageToBroadcast_def Let_def api_error_def split: if_splits)
  ultimately show ?thesis
    using assms(2,3,5) by (simp add: BatchEventTrigger_def broadcastMessage_def)
qed

theorem batch_partial_witness:
  "\<exists>resp w'. BatchEventTrigger demo_app (Inr [Some demo_message, Some (demo_message\<lparr>am_Channel := '' ''\<rparr>)]) demo_world = Some (resp, w')
    \<and> rs_Status resp = 400 \<and> wire w' 2 = [ToJson (w_lib demo_world) False (api_event demo_message ''c'')]"
proof -
  let ?bad = "demo_message\<lparr>am_Channel := '' ''\<rparr>"
  have "\<not> ValidChannel '' '' 100" by code_simp
  moreover have "message_channels ?bad = ['' '']" by (simp add: message_channels_def demo_message_def)
  ultimately have bad: "checkMessageToBroadcast demo_app ?bad = Some (api_error 400 ''invalid channel name'')"
    by (simp add: checkMessageToBroadcast_def)
  have "am_SocketID demo_message = ''1.1''" by (simp add: demo_message_def)
  moreover have "wire demo_world b = []" for b by (simp add: wire_def demo_conn_def)
  ultimately obtain w' where "BatchEventTrigger demo_app (Inr [Some demo_message, Some ?bad]) demo_world
      = Some (api_error 400 ''invalid channel name'', w')"
    "\<forall>b. wire w' b = (if b = 2 then [ToJson (w_lib demo_world) False (api_event demo_message ''c'')] else [])"
    using batch_partial [of demo_world demo_app demo_message "''c''" ?bad _ "[]", OF _ _ _ _ bad]
      demo_message_ok demo_c demo_audience by auto
  then show ?thesis by (auto simp: api_error_def)
qed

subsection \<open>Questions about channels\<close>

text \<open>
  Without \<open>info\<close>, the list of channels is exactly the channels with a subscriber whose name has the
  requested prefix, each once, and asking changes nothing.
\<close>
theorem channel_index_lists:
  assumes "world_ok w"
  shows "\<exists>items. ChannelIndex app pre [] w = Some (respond 200 (ChannelsBody items), w)
    \<and> distinct (map fst items)
    \<and> set (map fst items) = {c. HasPrefix c pre \<and> (\<exists>i. (c, i) \<in> la_subs (app_ID app) w)}"
proof -
  let ?p = "app_ID app"
  let ?cs = "la_GetChannelsWithSocketsCount ?p w"
  let ?items = "map (\<lambda>(c, n). (c, 0)) (filter (\<lambda>(c, _). \<not> (pre \<noteq> [] \<and> \<not> HasPrefix c pre)) ?cs)"
  have wf: "la_wf w" using assms by (simp add: world_ok_def)
  have e: "ChannelIndex app pre [] w = Some (respond 200 (ChannelsBody ?items), w)"
    by (simp add: ChannelIndex_def Let_def FieldsFunc_def)
  have cs: "distinct (map fst ?cs) \<and> fst ` set ?cs = {c. \<exists>i. (c, i) \<in> la_subs ?p w}"
  proof (cases "ns_of w ?p")
    case None
    then show ?thesis by (simp add: la_GetChannelsWithSocketsCount_def la_subs_def)
  next
    case (Some n)
    note D = ns_wfD [OF la_wf_ns [OF wf Some]]
    have k: "map fst ?cs = map fst (ns_Channels n)"
      using Some by (simp add: la_GetChannelsWithSocketsCount_def n_GetChannelsWithSocketsCount_def n_GetChannels_def split_def)
    have "c \<in> fst ` set (ns_Channels n) \<longleftrightarrow> (\<exists>i. (c, i) \<in> la_subs ?p w)" for c
    proof -
      have "c \<in> fst ` set (ns_Channels n) \<longleftrightarrow> (\<exists>ids. map_of (ns_Channels n) c = Some ids \<and> ids \<noteq> [])"
        using no_emptyD [OF D(4), of c] by (auto simp flip: mhas_iff simp: mhas_def)
      also have "\<dots> \<longleftrightarrow> (\<exists>i. (c, i) \<in> la_subs ?p w)"
        using Some by (auto simp: la_subs_def abs_ns_def rel_of_def simp flip: ex_in_conv set_empty)
      finally show ?thesis .
    qed
    moreover have "distinct (map fst (ns_Channels n))" using D(1) by (simp add: wf_map_def)
    moreover have "fst ` set ?cs = fst ` set (ns_Channels n)" by (metis k list.set_map)
    ultimately show ?thesis unfolding k by blast
  qed
  have m: "map fst (map (\<lambda>(c, n). (c, 0)) (filter (\<lambda>(c, _). P c) cs)) = filter P (map fst cs)"
    for P and cs :: "(ChannelName, int) gomap"
    by (induction cs) auto
  have "distinct (map fst ?items)" "set (map fst ?items) = {c. HasPrefix c pre \<and> (\<exists>i. (c, i) \<in> la_subs ?p w)}"
    unfolding m using cs by (auto simp: HasPrefix_def)
  with e show ?thesis by blast
qed

theorem channel_index_lists_witness:
  "\<exists>items. ChannelIndex demo_app [] [] demo_world = Some (respond 200 (ChannelsBody items), demo_world)
    \<and> set (map fst items) = {''c''}"
proof -
  have "{c. HasPrefix c [] \<and> (\<exists>i. (c, i) \<in> la_subs ''1'' demo_world)} = {''c''}"
    by (auto simp: demo_subs HasPrefix_def)
  then show ?thesis using channel_index_lists [OF demo_world_ok, of demo_app "[]"] by auto
qed

text \<open>
  The answer about a channel says \<open>occupied\<close> only when \<open>info\<close> asks for a count: without it a channel
  is reported as not occupied, whoever is subscribed to it; with \<open>subscription_count\<close> the flag and
  the count are those of the connected subscribers.
\<close>
theorem channel_show_occupied:
  "ChannelShow app channel [] w = Some (respond 200 (ChannelBody channel False 0 0 []), w)
   \<and> ChannelShow app channel ''subscription_count'' w =
       Some (respond 200 (ChannelBody channel (la_GetChannelSocketsCount (app_ID app) channel w > 0) 0
         (la_GetChannelSocketsCount (app_ID app) channel w) []), w)"
proof -
  have "FieldsFunc ''subscription_count'' (CHR '','') = [''subscription_count'']" by code_simp
  then show ?thesis by (simp add: ChannelShow_def FieldsFunc_def [of "[]"] Let_def)
qed

end
