(* ===== verification/Web.thy ===== *)
theory Web
  imports Api_Events Server
begin

text \<open>
  The HTTP side as a whole: the routes of \<open>LoadWebServer\<close> (\<open>internal/serve.go\<close>) in front of the handshake
  and the REST interface, the access log of \<open>LoggerMiddleware\<close> (\<open>internal/httpMiddlewares.go\<close>), and the metrics server
  (\<open>internal/metrics/http.go\<close>, \<open>serveMetrics\<close> of \<open>internal/server.go\<close>). Whether a path is an instance of a
  pattern, and with which parameters, is decided by Gin; what it does so is the parameter \<open>match\<close>.
\<close>

subsection \<open>The routes\<close>

datatype backend_route = EventsRoute | BatchEventsRoute | ChannelsRoute | ChannelRoute | ChannelUsersRoute | TerminateRoute

datatype endpoint = Backend backend_route | AppEndpoint | HealthEndpoint

text \<open>Method, pattern and handler, in the order of the code; \<open>backendGroup\<close> puts its prefix in front.\<close>

definition backend_routes :: "(string \<times> string \<times> endpoint) list" where
  "backend_routes = map (\<lambda>(m, p, e). (m, ''/apps'' @ p, Backend e))
     [(''POST'', ''/:app_id/events'', EventsRoute),
      (''POST'', ''/:app_id/batch_events'', BatchEventsRoute),
      (''GET'', ''/:app_id/channels'', ChannelsRoute),
      (''GET'', ''/:app_id/channels/:channel_name'', ChannelRoute),
      (''GET'', ''/:app_id/channels/:channel_name/users'', ChannelUsersRoute),
      (''POST'', ''/:app_id/users/:user_id/terminate_connections'', TerminateRoute)]"

definition LoadWebServer :: "(string \<times> string \<times> endpoint) list" where
  "LoadWebServer = backend_routes @ [(''GET'', ''/app/:key'', AppEndpoint), (''GET'', ''/health'', HealthEndpoint)]"

type_synonym Params = "(string \<times> string) list"

text \<open>\<open>c.Param\<close>\<close>

definition Param :: "Params \<Rightarrow> string \<Rightarrow> string" where
  "Param ps key = (case map_of ps key of None \<Rightarrow> [] | Some v \<Rightarrow> v)"

fun find_route ::
  "(string \<Rightarrow> string \<Rightarrow> Params option) \<Rightarrow> (string \<times> string \<times> endpoint) list \<Rightarrow> string \<Rightarrow> string \<Rightarrow> (endpoint \<times> Params) option" where
  "find_route match [] method path = None"
| "find_route match ((m, pattern, e) # routes) method path =
     (case (if m = method then match pattern path else None) of
        Some ps \<Rightarrow> Some (e, ps)
      | None \<Rightarrow> find_route match routes method path)"

subsection \<open>Handlers\<close>

text \<open>A request, with what binding its body and upgrading its connection gives.\<close>

record WebRequest =
  wr_Http :: HttpRequest
  wr_Event :: "PusherApiMessage bound"
  wr_Batch :: "string + PusherApiMessage option list"
  wr_Upgrade :: "Conn option"

datatype WebReply =
    Api Response
  | Socket ServeOutcome
  | Healthy
  | NotFound

fun api_call :: "backend_route \<Rightarrow> Params \<Rightarrow> WebRequest \<Rightarrow> ApiCall" where
  "api_call EventsRoute ps r = PostEvents (wr_Event r)"
| "api_call BatchEventsRoute ps r = PostBatchEvents (wr_Batch r)"
| "api_call ChannelsRoute ps r = GetChannels"
| "api_call ChannelRoute ps r = GetChannel (Param ps ''channel_name'')"
| "api_call ChannelUsersRoute ps r = GetChannelUsers (Param ps ''channel_name'')"
| "api_call TerminateRoute ps r = PostTerminate (Param ps ''user_id'')"

definition api_request :: "backend_route \<Rightarrow> Params \<Rightarrow> WebRequest \<Rightarrow> ApiRequest" where
  "api_request e ps r = \<lparr>ar_Http = wr_Http r, ar_AppID = Param ps ''app_id'', ar_Call = api_call e ps r\<rparr>"

text \<open>
  The middlewares of the backend hand the app over in the context of the request. A handler of the chain
  either lets the rest of the chain run (\<open>c.Next\<close>) or aborts with an answer.
\<close>

datatype context_value = AppValue App | OtherValue

record Context =
  cx_Params :: Params
  cx_Keys :: "(string, context_value) gomap"

type_synonym chain = "Context \<Rightarrow> api_handler"

definition getAppFromContext :: "Context \<Rightarrow> App option \<times> bool" where
  "getAppFromContext c =
     (case map_of (cx_Keys c) ''app'' of
        None \<Rightarrow> (None, False)
      | Some (AppValue app) \<Rightarrow> (Some app, True)
      | Some OtherValue \<Rightarrow> (None, False))"

definition no_app :: Response where
  "no_app = api_error 500 ''App not found in context''"

definition CorsMiddleware :: "chain \<Rightarrow> chain" where
  "CorsMiddleware next_handler = next_handler"

definition RateLimiterMiddleware :: "chain \<Rightarrow> chain" where
  "RateLimiterMiddleware next_handler = next_handler"

definition app_middleware :: "chain \<Rightarrow> chain" where
  "app_middleware next_handler c w =
     (case FindByID (w_apps w) (Param (cx_Params c) ''app_id'') of
        Inl err \<Rightarrow> Some (api_error 404 err, w)
      | Inr app \<Rightarrow> next_handler (c\<lparr>cx_Keys := mput ''app'' (AppValue app) (cx_Keys c)\<rparr>) w)"

definition signature_middleware :: "HttpRequest \<Rightarrow> chain \<Rightarrow> chain" where
  "signature_middleware r next_handler c w =
     (let (app_ptr, exists) = getAppFromContext c in
      if \<not> exists then Some (no_app, w)
      else
        do { app \<leftarrow> app_ptr;
             (case Verify (unix_now w) r (app_ID app) (app_Secret app) of
                Inr _ \<Rightarrow> next_handler c w
              | Inl err \<Rightarrow> Some (api_error 401 err, w)) })"

text \<open>Every handler of the group begins by taking the app out of the context.\<close>

definition backend_handler :: "backend_route \<Rightarrow> WebRequest \<Rightarrow> chain" where
  "backend_handler e r c w =
     (let (app_ptr, exists) = getAppFromContext c in
      if \<not> exists then Some (no_app, w)
      else do { app \<leftarrow> app_ptr; route (wr_Http r) app (api_call e (cx_Params c) r) w })"

definition backend_chain :: "backend_route \<Rightarrow> WebRequest \<Rightarrow> chain" where
  "backend_chain e r =
     CorsMiddleware (app_middleware (signature_middleware (wr_Http r) (RateLimiterMiddleware (backend_handler e r))))"

text \<open>
  Because the app comes early in the chain, no later handler misses it: the chain is the group of the REST
  interface.
\<close>

lemma backend_chain_group:
  "backend_chain e r \<lparr>cx_Params = ps, cx_Keys = []\<rparr> w = backendGroup (api_request e ps r) w"
  by (simp add: backend_chain_def CorsMiddleware_def RateLimiterMiddleware_def app_middleware_def signature_middleware_def
      backend_handler_def getAppFromContext_def backendGroup_cases api_request_def split: sum.split)

text \<open>The handler of \<open>/app/:key\<close>; \<open>a\<close> and \<open>i\<close> are the address and the id a new socket gets.\<close>

definition app_handler :: "addr \<Rightarrow> SocketID \<Rightarrow> Params \<Rightarrow> WebRequest \<Rightarrow> World \<Rightarrow> (WebReply \<times> World) option" where
  "app_handler a i ps r w =
     (if w_Closing w then Some (Api (api_error 503 ''Server is not accepting connections''), w)
      else
        do { let appKey = Param ps ''key'';
             let protocol = Query (wr_Http r) ''protocol'';
             (out, w) \<leftarrow> serveWs a i (wr_Upgrade r) appKey protocol w;
             Some (Socket out, w) })"

definition ServeHTTP ::
  "(string \<Rightarrow> string \<Rightarrow> Params option) \<Rightarrow> addr \<Rightarrow> SocketID \<Rightarrow> WebRequest \<Rightarrow> World \<Rightarrow> (WebReply \<times> World) option" where
  "ServeHTTP match a i r w =
     (case find_route match LoadWebServer (rq_Method (wr_Http r)) (rq_Path (wr_Http r)) of
        None \<Rightarrow> Some (NotFound, w)
      | Some (Backend e, ps) \<Rightarrow>
          map_option (apfst Api) (backend_chain e r \<lparr>cx_Params = ps, cx_Keys = []\<rparr> w)
      | Some (AppEndpoint, ps) \<Rightarrow> app_handler a i ps r w
      | Some (HealthEndpoint, ps) \<Rightarrow> Some (Healthy, w))"

subsection \<open>The access log\<close>

datatype log_level = ErrorLevel | WarnLevel | InfoLevel

text \<open>What Gin knows of a request once its handlers have returned.\<close>

record Exchange =
  ex_Method :: string
  ex_Path :: string
  ex_Start :: string      \<comment> \<open>the time it began, formatted\<close>
  ex_Nanoseconds :: int
  ex_Status :: int
  ex_ClientIP :: string
  ex_UserAgent :: string
  ex_Referer :: string
  ex_Size :: int
  ex_Errors :: nat
  ex_PrivateErrors :: string \<comment> \<open>\<open>c.Errors.ByType(gin.ErrorTypePrivate).String()\<close>\<close>

record LogEntry =
  le_Level :: log_level
  le_Message :: string
  le_statusCode :: int
  le_latency :: int
  le_clientIP :: string
  le_method :: string
  le_path :: string
  le_referer :: string
  le_dataLength :: int
  le_userAgent :: string
  le_req_at :: string

text \<open>
  Milliseconds, rounded up. The code divides floating-point numbers, which are exact enough for any
  duration of a request.
\<close>

definition latency_ms :: "int \<Rightarrow> int" where
  "latency_ms ns = - (- ns div 1000000)"

definition access_message :: "Exchange \<Rightarrow> int \<Rightarrow> int \<Rightarrow> string" where
  "access_message x dataLength latency =
     ex_ClientIP x @ '' ['' @ ex_Start x @ ''] '' @ [CHR 34] @ ex_Method x @ '' '' @ ex_Path x @ [CHR 34] @ '' ''
       @ Itoa (ex_Status x) @ '' '' @ Itoa dataLength @ '' '' @ [CHR 34] @ ex_Referer x @ [CHR 34] @ '' ''
       @ [CHR 34] @ ex_UserAgent x @ [CHR 34] @ '' ('' @ Itoa latency @ ''ms)''"

definition LoggerMiddleware :: "Exchange \<Rightarrow> LogEntry" where
  "LoggerMiddleware x =
     (let latency = latency_ms (ex_Nanoseconds x);
          statusCode = ex_Status x;
          dataLength = (if ex_Size x < 0 then 0 else ex_Size x);
          entry = (\<lambda>level msg. \<lparr>le_Level = level, le_Message = msg, le_statusCode = statusCode,
                     le_latency = latency, le_clientIP = ex_ClientIP x, le_method = ex_Method x, le_path = ex_Path x,
                     le_referer = ex_Referer x, le_dataLength = dataLength, le_userAgent = ex_UserAgent x,
                     le_req_at = ex_Start x\<rparr>)
      in if ex_Errors x > 0 then entry ErrorLevel (ex_PrivateErrors x)
         else
           let msg = access_message x dataLength latency
           in if statusCode > 499 then entry ErrorLevel msg
              else if statusCode > 399 then entry WarnLevel msg
              else entry InfoLevel msg)"

text \<open>A request that was refused never hides among the informational lines, and its latency is rounded up.\<close>

lemma refused_logged: "ex_Status x > 399 \<Longrightarrow> le_Level (LoggerMiddleware x) \<noteq> InfoLevel"
  by (simp add: LoggerMiddleware_def Let_def)

lemma latency_ms_bounds: "ns \<le> latency_ms ns * 1000000" "latency_ms ns * 1000000 < ns + 1000000"
  by (simp_all add: latency_ms_def)

subsection \<open>The metrics server\<close>

record HttpAnswer =
  ha_Status :: int
  ha_ContentType :: string
  ha_Body :: string

text \<open>
  The registry gathers families of metrics, or fails; a family has a text form. Both are the Prometheus
  client's. \<open>promhttp\<close> answers for the first route.
\<close>

definition GetMetricsAsPlainText :: "(string + 'f list) \<Rightarrow> ('f \<Rightarrow> string) \<Rightarrow> string" where
  "GetMetricsAsPlainText gathered FamilyToText =
     (case gathered of
        Inl err \<Rightarrow> ''# Error gathering metrics: '' @ err
      | Inr metricFamilies \<Rightarrow> concat (map FamilyToText metricFamilies))"

definition TextHandler :: "string \<Rightarrow> HttpAnswer" where
  "TextHandler plainText = \<lparr>ha_Status = 200, ha_ContentType = ''text/plain'', ha_Body = plainText\<rparr>"

definition JSONHandler :: "int \<Rightarrow> PrometheusMetrics \<Rightarrow> HttpAnswer" where
  "JSONHandler now pm = \<lparr>ha_Status = 200, ha_ContentType = ''application/json'', ha_Body = pm_GetMetricsAsJson now pm\<rparr>"

text \<open>A mux pattern without a trailing slash matches its path only.\<close>

definition SetupMetricsRoutes :: "HttpAnswer \<Rightarrow> int \<Rightarrow> PrometheusMetrics \<Rightarrow> string \<Rightarrow> (string \<times> HttpAnswer) list" where
  "SetupMetricsRoutes prometheusAnswer now pm plainText =
     [(''/metrics'', prometheusAnswer), (''/metrics/json'', JSONHandler now pm), (''/metrics/text'', TextHandler plainText)]"

definition serveMetrics :: "string \<Rightarrow> (string \<times> HttpAnswer) list" where
  "serveMetrics plainText = [(''/metrics'', TextHandler plainText)]"

subsection \<open>Every request is answered\<close>

definition bodies_ok :: "WebRequest \<Rightarrow> bool" where
  "bodies_ok r = (wr_Event r \<noteq> Inr None \<and> (\<forall>batch. wr_Batch r = Inr batch \<longrightarrow> None \<notin> set batch))"

lemma api_call_ok: "bodies_ok r \<Longrightarrow> bound_ok (api_call e ps r)"
  by (cases e; cases "wr_Event r"; cases "wr_Batch r") (auto simp: bodies_ok_def)

lemma find_route_in:
  "find_route match routes method path = Some (e, ps) \<Longrightarrow> \<exists>pattern. (method, pattern, e) \<in> set routes \<and> match pattern path = Some ps"
  by (induction routes) (auto split: option.splits if_splits)

definition signed_for :: "ArrayAppManager \<Rightarrow> AppID \<Rightarrow> HttpRequest \<Rightarrow> bool" where
  "signed_for apps p r =
     (\<exists>app. map_of apps p = Some app \<and> Values_Get (rq_Query r) ''auth_version'' = ''1.0''
        \<and> Values_Get (rq_Query r) ''auth_signature'' = HmacSignature (stringToSign r) (app_Secret app))"

lemma backend_signed:
  assumes "backendGroup req w = Some (resp, w')" "w' \<noteq> w \<or> rs_Status resp = 200"
  shows "signed_for (w_apps w) (ar_AppID req) (ar_Http req)"
  using assms
  by (auto simp: signed_for_def backendGroup_cases FindByID_def api_error_def Verify_Inr split: option.splits sum.splits)

text \<open>What an answer says about the state before and after.\<close>

fun answer_ok :: "(string \<Rightarrow> string \<Rightarrow> Params option) \<Rightarrow> addr \<Rightarrow> SocketID \<Rightarrow> WebRequest \<Rightarrow> World \<Rightarrow> World \<Rightarrow> WebReply \<Rightarrow> bool" where
  "answer_ok match a i r w w' (Api resp) =
     (w' \<noteq> w \<or> rs_Status resp = 200 \<longrightarrow>
        (\<exists>e pattern ps. (rq_Method (wr_Http r), pattern, Backend e) \<in> set LoadWebServer
           \<and> match pattern (rq_Path (wr_Http r)) = Some ps \<and> signed_for (w_apps w) (Param ps ''app_id'') (wr_Http r)))"
| "answer_ok match a i r w w' (Socket out) =
     (\<not> w_Closing w \<and> (if out = Accepted
        then \<exists>ps app. match ''/app/:key'' (rq_Path (wr_Http r)) = Some ps \<and> app \<in> snd ` set (w_apps w)
               \<and> app_Key app = Param ps ''key'' \<and> app_Enabled app
               \<and> registered w' = (registered w)(app_ID app := (registered w (app_ID app))(i \<mapsto> a))
        else registered w' = registered w))"
| "answer_ok match a i r w w' Healthy = (w' = w \<and> match ''/health'' (rq_Path (wr_Http r)) \<noteq> None)"
| "answer_ok match a i r w w' NotFound =
     (w' = w \<and> (\<forall>pattern e. (rq_Method (wr_Http r), pattern, e) \<in> set LoadWebServer \<longrightarrow> match pattern (rq_Path (wr_Http r)) = None))"

lemma find_route_None:
  "find_route match routes method path = None \<longleftrightarrow> (\<forall>pattern e. (method, pattern, e) \<in> set routes \<longrightarrow> match pattern path = None)"
  by (induction routes) (auto split: option.splits if_splits)

lemma app_answer:
  assumes ok: "world_ok w" and a: "a \<noteq> 0" "free w a" and c: "\<not> w_Closing w" and m: "match ''/app/:key'' (rq_Path (wr_Http r)) = Some ps"
    and h: "serveWs a i (wr_Upgrade r) (Param ps ''key'') proto w = Some (out, w')"
  shows "answer_ok match a i r w w' (Socket out)"
proof (cases "out = Accepted")
  case True
  with serveWs_runs [OF ok a, of i "wr_Upgrade r" "Param ps ''key''" proto] h obtain app where
    app: "validateApp (w_apps w) (Param ps ''key'') = Inr app" "accepted a app i w w'" by (auto simp: runs_iff)
  from app(1) have k: "FindByKey (w_apps w) (Param ps ''key'') = Inr app" "app_Enabled app"
    by (auto simp: validateApp_def split: sum.splits if_splits)
  from FindByKey_Inr [OF k(1)] have "app \<in> snd ` set (w_apps w)" "app_Key app = Param ps ''key''" by (auto simp: GetAllApps_def)
  moreover have "registered w' = (registered w)(app_ID app := (registered w (app_ID app))(i \<mapsto> a))"
    using app(2) by (auto simp: accepted_def fun_eq_iff)
  ultimately show ?thesis using True c m k(2) by auto
next
  case False
  with serveWs_runs [OF ok a, of i "wr_Upgrade r" "Param ps ''key''" proto] h c show ?thesis by (auto simp: runs_iff)
qed


text \<open>A client that connects to a fresh server.\<close>

definition demo_match :: "string \<Rightarrow> string \<Rightarrow> Params option" where
  "demo_match pattern path = (if pattern = ''/app/:key'' \<and> path = ''/app/k'' then Some [(''key'', ''k'')] else None)"

definition demo_web_request :: WebRequest where
  "demo_web_request = \<lparr>wr_Http = \<lparr>rq_Method = ''GET'', rq_Path = ''/app/k'', rq_Query = [(''protocol'', [''7''])]\<rparr>,
     wr_Event = Inl [], wr_Batch = Inl [], wr_Upgrade = Some demo_conn\<rparr>"

lemma demo_route: "find_route demo_match LoadWebServer ''GET'' ''/app/k'' = Some (AppEndpoint, [(''key'', ''k'')])"
  by (simp add: LoadWebServer_def backend_routes_def demo_match_def)


end
