(* ===== verification/Horizontal.thy ===== *)
theory Horizontal
  imports Requests
begin

text \<open>
  \<open>internal/adaptersHorizontal.go\<close> and \<open>internal/adaptersRedis.go\<close>: a node of a cluster. A node
  has a local adapter (the \<open>World\<close>) and shares Redis channels with the other nodes: one on which
  it broadcasts messages for sockets, one for requests to the other nodes and one for their
  responses. What it publishes is the list \<open>nd_published\<close>; what Redis and the clock do to a request
  while it waits is the list of events it is given, and the id \<open>uuid.NewString()\<close> draws for it is
  an argument. Broadcasts and requests travel as their JSON text. A response travels as its
  value, with the addresses of the socket copies that decoding it allocates in the receiver's heap.
  A panic and a wait that is not over are both \<open>None\<close>.
\<close>

subsection \<open>Requests and responses\<close>

datatype HorizontalRequestType =
    SOCKETS | CHANNELS | CHANNEL_SOCKETS | CHANNEL_MEMBERS | SOCKETS_COUNT | CHANNEL_MEMBERS_COUNT
  | CHANNEL_SOCKETS_COUNT | SOCKET_EXISTS_IN_CHANNEL | CHANNELS_WITH_SOCKETS_COUNT
  | TERMINATE_USER_CONNECTIONS | PRESENCE_CHANNELS_WITH_USERS_COUNT

definition request_types :: "(int, HorizontalRequestType) gomap" where
  "request_types =
     [(0, SOCKETS), (1, CHANNELS), (2, CHANNEL_SOCKETS), (3, CHANNEL_MEMBERS), (4, SOCKETS_COUNT),
      (5, CHANNEL_MEMBERS_COUNT), (6, CHANNEL_SOCKETS_COUNT), (7, SOCKET_EXISTS_IN_CHANNEL),
      (8, CHANNELS_WITH_SOCKETS_COUNT), (9, TERMINATE_USER_CONNECTIONS),
      (10, PRESENCE_CHANNELS_WITH_USERS_COUNT)]"

primrec type_code :: "HorizontalRequestType \<Rightarrow> int" where
  "type_code SOCKETS = 0" | "type_code CHANNELS = 1" | "type_code CHANNEL_SOCKETS = 2"
| "type_code CHANNEL_MEMBERS = 3" | "type_code SOCKETS_COUNT = 4" | "type_code CHANNEL_MEMBERS_COUNT = 5"
| "type_code CHANNEL_SOCKETS_COUNT = 6" | "type_code SOCKET_EXISTS_IN_CHANNEL = 7"
| "type_code CHANNELS_WITH_SOCKETS_COUNT = 8" | "type_code TERMINATE_USER_CONNECTIONS = 9"
| "type_code PRESENCE_CHANNELS_WITH_USERS_COUNT = 10"

lemma request_types_code [simp]: "map_of request_types (type_code ty) = Some ty"
  by (cases ty) (simp_all add: request_types_def)

text \<open>A nil map is \<open>None\<close>. \<open>HorizontalRequest\<close> embeds \<open>HorizontalRequestExtra\<close>.\<close>

record HorizontalRequestExtra =
  hx_numSub :: int
  hx_msgCount :: int
  hx_sockets :: "(SocketID, addr) gomap option"
  hx_members :: "(UserID, MemberData) gomap option"
  hx_channels :: "(ChannelName, SocketID list) gomap option"
  hx_channelsWithSocketsCount :: "(ChannelName, int) gomap option"
  hx_totalCount :: int

record HorizontalRequest = HorizontalRequestExtra +
  hq_requestID :: string
  hq_appID :: AppID
  hq_requestType :: HorizontalRequestType

record HorizontalRequestBody =
  hb_Type :: int
  hb_RequestID :: string
  hb_AppID :: AppID
  hb_Opts :: "(string, string) gomap option"

record HorizontalResponse =
  hr_RequestID :: string
  hr_Sockets :: "(SocketID, addr) gomap option"
  hr_Members :: "(UserID, MemberData) gomap option"
  hr_Channels :: "(ChannelName, SocketID list) gomap option"
  hr_ChannelsWithSocketsCount :: "(ChannelName, int) gomap option"
  hr_TotalCount :: int
  hr_Exists :: bool

record AdapterMessageToSend =
  ms_Uuid :: string
  ms_AppID :: AppID
  ms_Channel :: ChannelName
  ms_Data :: string
  ms_ExceptingId :: SocketID

record horizontalPubsubBroadcastedMessage =
  pm_Uuid :: string
  pm_AppID :: AppID
  pm_Channel :: ChannelName
  pm_Data :: json \<comment> \<open>an \<open>any\<close>: \<open>JNull\<close> is nil\<close>
  pm_ExceptingIds :: SocketID

definition extra :: "int \<Rightarrow> HorizontalRequestExtra" where
  "extra numSub = \<lparr>hx_numSub = numSub, hx_msgCount = 0, hx_sockets = None, hx_members = None,
     hx_channels = None, hx_channelsWithSocketsCount = None, hx_totalCount = 0\<rparr>"

definition response :: "string \<Rightarrow> HorizontalResponse" where
  "response requestID = \<lparr>hr_RequestID = requestID, hr_Sockets = None, hr_Members = None,
     hr_Channels = None, hr_ChannelsWithSocketsCount = None, hr_TotalCount = 0, hr_Exists = False\<rparr>"

text \<open>What is published: a text, a response, or the text \<open>{"success": true}\<close>.\<close>

datatype Payload = Text string | Response HorizontalResponse | Success

record Node =
  nd_world :: World
  nd_uuid :: string
  nd_Channel :: string
  nd_requestChannel :: string
  nd_responseChannel :: string
  nd_requests :: "(string, HorizontalRequest) gomap"
  nd_published :: "(string \<times> Payload) list"

definition on_world :: "(World \<Rightarrow> World) \<Rightarrow> Node \<Rightarrow> Node" where
  "on_world f nd = nd\<lparr>nd_world := f (nd_world nd)\<rparr>"

definition on_metrics :: "(MetricsManager \<Rightarrow> MetricsManager) \<Rightarrow> Node \<Rightarrow> Node" where
  "on_metrics f = on_world (\<lambda>w. w\<lparr>w_metrics := f (w_metrics w)\<rparr>)"

definition lift_world :: "Node \<Rightarrow> World option \<Rightarrow> Node option" where
  "lift_world nd m = map_option (\<lambda>w. nd\<lparr>nd_world := w\<rparr>) m"

subsection \<open>Construction\<close>

definition NewHorizontalAdapter :: "bool \<Rightarrow> string \<Rightarrow> string \<Rightarrow> World \<Rightarrow> string + Node" where
  "NewHorizontalAdapter adapter uuid channel w =
     (if \<not> adapter then Inl ''adapter cannot be nil''
      else Inr \<lparr>nd_world = la_Init w, nd_uuid = uuid, nd_Channel = channel, nd_requestChannel = [],
                nd_responseChannel = [], nd_requests = [], nd_published = []\<rparr>)"

definition redis_Init :: "bool \<Rightarrow> string \<Rightarrow> Node \<Rightarrow> string + Node" where
  "redis_Init client pref nd =
     (if \<not> client then Inl ''redis client not initialized''
      else
        let nd = (if pref \<noteq> [] then nd\<lparr>nd_Channel := pref @ ''#'' @ nd_Channel nd\<rparr> else nd)
        in Inr (nd\<lparr>nd_requestChannel := nd_Channel nd @ ''#comms#req'',
                   nd_responseChannel := nd_Channel nd @ ''#comms#res''\<rparr>))"

definition NewRedisAdapter :: "bool \<Rightarrow> string \<Rightarrow> string \<Rightarrow> string \<Rightarrow> World \<Rightarrow> string + Node" where
  "NewRedisAdapter client pref channel uuid w =
     (case NewHorizontalAdapter True uuid channel w of Inl err \<Rightarrow> Inl err | Inr nd \<Rightarrow> redis_Init client pref nd)"

subsection \<open>The driver (HorizontalInterface)\<close>

definition GetChannelName :: "Node \<Rightarrow> string" where
  "GetChannelName nd = nd_Channel nd"

definition broadcastToChannel :: "string \<Rightarrow> Payload \<Rightarrow> Node \<Rightarrow> Node" where
  "broadcastToChannel channel data nd = nd\<lparr>nd_published := nd_published nd @ [(channel, data)]\<rparr>"

text \<open>The reply of Redis to \<open>PUBSUB NUMSUB\<close> is a map, or an error.\<close>

definition getNumSub :: "(string, int) gomap option \<Rightarrow> Node \<Rightarrow> int option" where
  "getNumSub res nd = map_option (\<lambda>numSub. mget0 0 numSub (nd_requestChannel nd)) res"

subsection \<open>Texts\<close>

definition message_json :: "AdapterMessageToSend \<Rightarrow> json" where
  "message_json msg =
     JObj [(''Uuid'', JStr (ms_Uuid msg)), (''AppID'', JStr (ms_AppID msg)), (''Channel'', JStr (ms_Channel msg)),
           (''Data'', JStr (ms_Data msg)), (''ExceptingId'', JStr (ms_ExceptingId msg))]"

definition opts_json :: "(string, string) gomap option \<Rightarrow> json" where
  "opts_json opts =
     (case opts of None \<Rightarrow> JNull | Some m \<Rightarrow> JObj (map (\<lambda>(k, v). (k, JStr v)) (sort_key fst m)))"

definition body_json :: "HorizontalRequestBody \<Rightarrow> json" where
  "body_json hrb =
     JObj [(''Type'', JNum (Itoa (hb_Type hrb))), (''RequestID'', JStr (hb_RequestID hrb)),
           (''AppID'', JStr (hb_AppID hrb)), (''Opts'', opts_json (hb_Opts hrb))]"

definition body_ToJson :: "HorizontalRequestBody \<Rightarrow> string" where
  "body_ToJson hrb = marshal (body_json hrb)"

fun set_int :: "json \<Rightarrow> int \<Rightarrow> int option" where
  "set_int (JNum s) old = ParseInt s"
| "set_int JNull old = Some old"
| "set_int _ old = None"

fun decode_opts :: "json \<Rightarrow> (string, string) gomap option \<Rightarrow> (string, string) gomap option option" where
  "decode_opts JNull old = Some None"
| "decode_opts (JObj kvs) old =
     map_option Some (decode_keys (\<lambda>k v m. map_option (\<lambda>s. mput k s m) (set_str v [])) kvs
       (case old of None \<Rightarrow> [] | Some m \<Rightarrow> m))"
| "decode_opts _ old = None"

definition decode_body :: "string \<Rightarrow> HorizontalRequestBody option" where
  "decode_body msg =
     do { v \<leftarrow> json_parse msg;
          decode_obj (\<lambda>k v st.
            if key_matches ''Type'' k then map_option (\<lambda>i. st\<lparr>hb_Type := i\<rparr>) (set_int v (hb_Type st))
            else if key_matches ''RequestID'' k then field_str k hb_RequestID hb_RequestID_update v st
            else if key_matches ''AppID'' k then field_str k hb_AppID hb_AppID_update v st
            else if key_matches ''Opts'' k then map_option (\<lambda>m. st\<lparr>hb_Opts := m\<rparr>) (decode_opts v (hb_Opts st))
            else Some st) v \<lparr>hb_Type = 0, hb_RequestID = [], hb_AppID = [], hb_Opts = None\<rparr> }"

definition decode_broadcast :: "string \<Rightarrow> horizontalPubsubBroadcastedMessage option option" where
  "decode_broadcast =
     decode_ptr (\<lambda>z v. decode_obj (\<lambda>k v st.
         if key_matches ''Uuid'' k then field_str k pm_Uuid pm_Uuid_update v st
         else if key_matches ''AppID'' k then field_str k pm_AppID pm_AppID_update v st
         else if key_matches ''Channel'' k then field_str k pm_Channel pm_Channel_update v st
         else if key_matches ''Data'' k then Some (st\<lparr>pm_Data := v\<rparr>)
         else if key_matches ''ExceptingIds'' k then field_str k pm_ExceptingIds pm_ExceptingIds_update v st
         else Some st) v z)
       \<lparr>pm_Uuid = [], pm_AppID = [], pm_Channel = [], pm_Data = JNull, pm_ExceptingIds = []\<rparr>"

subsection \<open>Broadcasting\<close>

definition sendLocally ::
  "AppID \<Rightarrow> ChannelName \<Rightarrow> string \<Rightarrow> SocketID list \<Rightarrow> Node \<Rightarrow> Node option" where
  "sendLocally appId channel data exceptingIds nd =
     lift_world nd (map_option snd (la_Send appId channel data exceptingIds (nd_world nd)))"

definition h_Send :: "AppID \<Rightarrow> ChannelName \<Rightarrow> string \<Rightarrow> SocketID list \<Rightarrow> Node \<Rightarrow> Node option" where
  "h_Send appId channel data exceptingIds nd =
     (let exceptId = (if length exceptingIds > 0 then exceptingIds ! 0 else []);
          text = marshal (message_json \<lparr>ms_Uuid = nd_uuid nd, ms_AppID = appId, ms_Channel = channel,
                                        ms_Data = data, ms_ExceptingId = exceptId\<rparr>);
          nd = broadcastToChannel (GetChannelName nd) (Text text) nd
      in sendLocally appId channel data exceptingIds nd)"

text \<open>
  A message on the pattern subscription. A response or a success message is an object without
  any of the fields of a broadcast, so its \<open>AppID\<close> is empty and it is dropped.
\<close>

definition onMessage :: "string \<Rightarrow> Payload \<Rightarrow> Node \<Rightarrow> Node option" where
  "onMessage redisChannel message nd =
     (if \<not> HasPrefix redisChannel (nd_Channel nd) then Some nd
      else
        case message of
          Text text \<Rightarrow>
            (case decode_broadcast text of
               None \<Rightarrow> Some nd
             | Some None \<Rightarrow> None
             | Some (Some decodedMessage) \<Rightarrow>
                 if nd_uuid nd = pm_Uuid decodedMessage \<or> pm_AppID decodedMessage = []
                    \<or> pm_Channel decodedMessage = [] \<or> pm_Data decodedMessage = JStr [] then Some nd
                 else
                   (case pm_Data decodedMessage of
                      JStr data \<Rightarrow>
                        sendLocally (pm_AppID decodedMessage) (pm_Channel decodedMessage) data
                          [pm_ExceptingIds decodedMessage] nd
                    | _ \<Rightarrow> None))
        | _ \<Rightarrow> Some nd)"

subsection \<open>Merging responses\<close>

definition the_map :: "('k, 'v) gomap option \<Rightarrow> ('k, 'v) gomap" where
  "the_map m = (case m of None \<Rightarrow> [] | Some m \<Rightarrow> m)"

fun add_sockets :: "heap \<Rightarrow> (SocketID, addr) gomap \<Rightarrow> (SocketID, addr) gomap \<Rightarrow> (SocketID, addr) gomap option" where
  "add_sockets h [] m = Some m"
| "add_sockets h ((k, a) # ss) m = do { s \<leftarrow> deref h a; add_sockets h ss (mput (ws_ID s) a m) }"

fun add_members :: "(UserID, MemberData) gomap \<Rightarrow> (UserID, MemberData) gomap \<Rightarrow> (UserID, MemberData) gomap" where
  "add_members [] m = m"
| "add_members ((i, member) # ms) m = add_members ms (mput i member m)"

fun add_channels ::
  "(ChannelName, SocketID list) gomap \<Rightarrow> (ChannelName, SocketID list) gomap \<Rightarrow> (ChannelName, SocketID list) gomap" where
  "add_channels [] m = m"
| "add_channels ((ch, sockets) # cs) m =
     (let m = (if mhas m ch then m else mput ch [] m)
      in add_channels cs (mput ch (mget0 [] m ch @ sockets) m))"

fun add_counts :: "(ChannelName, int) gomap \<Rightarrow> (ChannelName, int) gomap \<Rightarrow> (ChannelName, int) gomap" where
  "add_counts [] m = m"
| "add_counts ((channel, cnt) # cs) m =
     add_counts cs (mput channel (case map_of m channel of Some existing \<Rightarrow> existing + cnt | None \<Rightarrow> cnt) m)"

definition merge_sockets :: "heap \<Rightarrow> HorizontalResponse \<Rightarrow> HorizontalResponse \<Rightarrow> HorizontalResponse option" where
  "merge_sockets h r fin =
     (case hr_Sockets r of
        None \<Rightarrow> Some fin
      | Some ss \<Rightarrow> map_option (\<lambda>m. fin\<lparr>hr_Sockets := Some m\<rparr>) (add_sockets h ss (the_map (hr_Sockets fin))))"

definition merge_counts :: "HorizontalResponse \<Rightarrow> HorizontalResponse \<Rightarrow> HorizontalResponse" where
  "merge_counts r fin =
     (case hr_ChannelsWithSocketsCount r of
        None \<Rightarrow> fin
      | Some cs \<Rightarrow> fin\<lparr>hr_ChannelsWithSocketsCount := Some (add_counts cs (the_map (hr_ChannelsWithSocketsCount fin)))\<rparr>)"

definition merge_channels :: "HorizontalResponse \<Rightarrow> HorizontalResponse \<Rightarrow> HorizontalResponse" where
  "merge_channels r fin =
     (case hr_Channels r of
        None \<Rightarrow> fin | Some cs \<Rightarrow> fin\<lparr>hr_Channels := Some (add_channels cs (the_map (hr_Channels fin)))\<rparr>)"

definition merge_members :: "HorizontalResponse \<Rightarrow> HorizontalResponse \<Rightarrow> HorizontalResponse" where
  "merge_members r fin =
     (case hr_Members r of
        None \<Rightarrow> fin | Some ms \<Rightarrow> fin\<lparr>hr_Members := Some (add_members ms (the_map (hr_Members fin)))\<rparr>)"

definition merge_total :: "HorizontalResponse \<Rightarrow> HorizontalResponse \<Rightarrow> HorizontalResponse" where
  "merge_total r fin =
     (if hr_TotalCount r \<noteq> 0 then fin\<lparr>hr_TotalCount := hr_TotalCount fin + hr_TotalCount r\<rparr> else fin)"

fun merge ::
  "HorizontalRequestType \<Rightarrow> heap \<Rightarrow> HorizontalResponse \<Rightarrow> HorizontalResponse \<Rightarrow> HorizontalResponse option" where
  "merge SOCKETS h r fin = merge_sockets h r fin"
| "merge CHANNEL_SOCKETS h r fin = merge_sockets h r fin"
| "merge CHANNELS h r fin = Some (merge_channels r fin)"
| "merge CHANNELS_WITH_SOCKETS_COUNT h r fin = Some (merge_counts r fin)"
| "merge CHANNEL_MEMBERS h r fin = Some (merge_members r fin)"
| "merge SOCKETS_COUNT h r fin = Some (merge_total r fin)"
| "merge CHANNEL_MEMBERS_COUNT h r fin = Some (merge_total r fin)"
| "merge CHANNEL_SOCKETS_COUNT h r fin = Some (merge_total r fin)"
| "merge SOCKET_EXISTS_IN_CHANNEL h r fin = Some (if hr_Exists r then fin\<lparr>hr_Exists := True\<rparr> else fin)"
| "merge PRESENCE_CHANNELS_WITH_USERS_COUNT h r fin = Some (merge_counts r fin)"
| "merge TERMINATE_USER_CONNECTIONS h r fin = Some fin"

subsection \<open>Sending a request\<close>

text \<open>
  While a request waits, messages arrive on the response channel (with the copies of sockets that
  decoding one allocates) until the timer, which every message for the request restarts, runs out.
\<close>

datatype wait_event = Timeout | Arrives Payload "(addr \<times> WebSocket) list"

record Env =
  e_numsub :: "(string, int) gomap option"
  e_uuid :: string
  e_events :: "wait_event list"
  e_resolveTime :: int

fun put_copies :: "(addr \<times> WebSocket) list \<Rightarrow> heap \<Rightarrow> heap" where
  "put_copies [] h = h"
| "put_copies ((a, s) # cs) h = put_copies cs (h(a := s))"

text \<open>The pending request a response is handed to, if any.\<close>

definition onResponse ::
  "HorizontalResponse \<Rightarrow> (addr \<times> WebSocket) list \<Rightarrow> Node \<Rightarrow> HorizontalRequest option \<times> Node" where
  "onResponse resp copies nd =
     (let nd = on_world (\<lambda>w. w\<lparr>w_heap := put_copies copies (w_heap w)\<rparr>) nd in
      case map_of (nd_requests nd) (hr_RequestID resp) of
        Some req \<Rightarrow>
          (Some req, on_metrics (MarkHorizontalAdapterRequestReceived (hq_appID req)) nd)
      | None \<Rightarrow> (None, nd))"

definition received :: "Payload \<Rightarrow> HorizontalResponse option" where
  "received data = (case data of Text _ \<Rightarrow> None | Response r \<Rightarrow> Some r | Success \<Rightarrow> Some (response []))"

definition initial_response :: "HorizontalRequest \<Rightarrow> HorizontalResponse" where
  "initial_response req =
     \<lparr>hr_RequestID = hq_requestID req, hr_Sockets = hx_sockets req, hr_Members = hx_members req,
      hr_Channels = hx_channels req, hr_ChannelsWithSocketsCount = hx_channelsWithSocketsCount req,
      hr_TotalCount = hx_totalCount req, hr_Exists = False\<rparr>"

fun wait_loop ::
  "HorizontalRequest \<Rightarrow> int \<Rightarrow> HorizontalResponse \<Rightarrow> wait_event list \<Rightarrow> Node
     \<Rightarrow> (HorizontalResponse \<times> Node) option" where
  "wait_loop req cnt fin [] nd = None"
| "wait_loop req cnt fin (Timeout # es) nd =
     Some (fin, on_metrics (TrackHorizontalAdapterResolvedPromises (hq_appID req) False) nd)"
| "wait_loop req cnt fin (Arrives data copies # es) nd =
     (case received data of
        None \<Rightarrow> wait_loop req cnt fin es nd
      | Some r \<Rightarrow>
          (case onResponse r copies nd of
             (None, nd) \<Rightarrow> wait_loop req cnt fin es nd
           | (Some q, nd) \<Rightarrow>
               if hq_requestID q \<noteq> hq_requestID req then wait_loop req cnt fin es nd
               else
                 do { fin \<leftarrow> merge (hq_requestType req) (w_heap (nd_world nd)) r fin;
                      if hq_requestType req = SOCKET_EXISTS_IN_CHANNEL \<and> hr_Exists r then Some (fin, nd)
                      else if cnt + 1 = hx_numSub req - 1 then Some (fin, nd)
                      else wait_loop req (cnt + 1) fin es nd }))"

definition waitForResponse ::
  "HorizontalRequest \<Rightarrow> wait_event list \<Rightarrow> Node \<Rightarrow> (HorizontalResponse \<times> Node) option" where
  "waitForResponse req es nd = wait_loop req 0 (initial_response req) es nd"

definition newRequest ::
  "string \<Rightarrow> AppID \<Rightarrow> HorizontalRequestType \<Rightarrow> HorizontalRequestExtra \<Rightarrow> HorizontalRequest" where
  "newRequest requestID appId requestType requestExtra =
     \<lparr>hx_numSub = hx_numSub requestExtra, hx_msgCount = hx_msgCount requestExtra,
      hx_sockets = Some (the_map (hx_sockets requestExtra)),
      hx_members = Some (the_map (hx_members requestExtra)),
      hx_channels = Some (the_map (hx_channels requestExtra)),
      hx_channelsWithSocketsCount = Some (the_map (hx_channelsWithSocketsCount requestExtra)),
      hx_totalCount = hx_totalCount requestExtra,
      hq_requestID = requestID, hq_appID = appId, hq_requestType = requestType\<rparr>"

definition sendRequest ::
  "Env \<Rightarrow> AppID \<Rightarrow> HorizontalRequestType \<Rightarrow> HorizontalRequestExtra \<Rightarrow> (string, string) gomap option
     \<Rightarrow> Node \<Rightarrow> (HorizontalResponse \<times> Node) option" where
  "sendRequest env appId requestType requestExtra opts nd =
     (let requestID = e_uuid env;
          req = newRequest requestID appId requestType requestExtra;
          nd = nd\<lparr>nd_requests := mput requestID req (nd_requests nd)\<rparr>;
          body = \<lparr>hb_Type = type_code requestType, hb_RequestID = requestID, hb_AppID = appId, hb_Opts = opts\<rparr>;
          nd = broadcastToChannel (nd_requestChannel nd) (Text (body_ToJson body)) nd;
          nd = on_metrics (MarkHorizontalAdapterRequestSent appId) nd
      in do { (resp, nd) \<leftarrow> waitForResponse req (e_events env) nd;
              let nd = on_metrics (TrackHorizontalAdapterResolveTime appId (e_resolveTime env)) nd;
              let nd = on_metrics (TrackHorizontalAdapterResolvedPromises appId True) nd;
              Some (resp, nd\<lparr>nd_requests := mdel requestID (nd_requests nd)\<rparr>) })"

subsection \<open>Queries\<close>

text \<open>The number of nodes to ask, if the others are asked at all.\<close>

definition others :: "Env \<Rightarrow> bool \<Rightarrow> Node \<Rightarrow> int option" where
  "others env onlyLocal nd =
     (if onlyLocal then None
      else case getNumSub (e_numsub env) nd of
             None \<Rightarrow> None
           | Some numSub \<Rightarrow> if numSub \<le> 1 then None else Some numSub)"

text \<open>
  \<open>GetSockets\<close> and \<open>GetChannels\<close> of a namespace return its own map, so what the responses add to
  it is added to the namespace.
\<close>

definition h_GetSockets :: "Env \<Rightarrow> AppID \<Rightarrow> bool \<Rightarrow> Node \<Rightarrow> ((SocketID, addr) gomap \<times> Node) option" where
  "h_GetSockets env appID onlyLocal nd =
     (let localSockets = la_GetSockets appID (nd_world nd) in
      case others env onlyLocal nd of
        None \<Rightarrow> Some (localSockets, nd)
      | Some numSub \<Rightarrow>
          do { (resp, nd) \<leftarrow> sendRequest env appID SOCKETS ((extra numSub)\<lparr>hx_sockets := Some localSockets\<rparr>) None nd;
               let sockets = the_map (hr_Sockets resp);
               let nd = on_world (\<lambda>w. case ns_of w appID of None \<Rightarrow> w | Some n \<Rightarrow> set_ns appID (n\<lparr>ns_Sockets := sockets\<rparr>) w) nd;
               Some (sockets, nd) })"

definition h_GetSocketsCount :: "Env \<Rightarrow> AppID \<Rightarrow> bool \<Rightarrow> Node \<Rightarrow> (int \<times> Node) option" where
  "h_GetSocketsCount env appID onlyLocal nd =
     (let socketCount = la_GetSocketsCount appID (nd_world nd) in
      case others env onlyLocal nd of
        None \<Rightarrow> Some (socketCount, nd)
      | Some numSub \<Rightarrow>
          do { (resp, nd) \<leftarrow> sendRequest env appID SOCKETS_COUNT ((extra numSub)\<lparr>hx_totalCount := socketCount\<rparr>) None nd;
               Some (hr_TotalCount resp, nd) })"

definition h_GetChannels ::
  "Env \<Rightarrow> AppID \<Rightarrow> bool \<Rightarrow> Node \<Rightarrow> ((ChannelName, SocketID list) gomap option \<times> Node) option" where
  "h_GetChannels env appId onlyLocal nd =
     (let localChannels = la_GetChannels appId (nd_world nd) in
      case others env onlyLocal nd of
        None \<Rightarrow> Some (localChannels, nd)
      | Some numSub \<Rightarrow>
          do { (resp, nd) \<leftarrow> sendRequest env appId CHANNELS ((extra numSub)\<lparr>hx_channels := localChannels\<rparr>) None nd;
               let channels = the_map (hr_Channels resp);
               let nd = on_world (\<lambda>w. case ns_of w appId of None \<Rightarrow> w | Some n \<Rightarrow> set_ns appId (n\<lparr>ns_Channels := channels\<rparr>) w) nd;
               Some (hr_Channels resp, nd) })"

definition h_GetChannelsWithSocketsCount ::
  "Env \<Rightarrow> AppID \<Rightarrow> bool \<Rightarrow> Node \<Rightarrow> ((ChannelName, int) gomap \<times> Node) option" where
  "h_GetChannelsWithSocketsCount env appID onlyLocal nd =
     (let localSocketCount = la_GetChannelsWithSocketsCount appID (nd_world nd) in
      case others env onlyLocal nd of
        None \<Rightarrow> Some (localSocketCount, nd)
      | Some numSub \<Rightarrow>
          do { (resp, nd) \<leftarrow> sendRequest env appID CHANNELS_WITH_SOCKETS_COUNT
                 ((extra numSub)\<lparr>hx_channelsWithSocketsCount := Some localSocketCount\<rparr>) None nd;
               Some (the_map (hr_ChannelsWithSocketsCount resp), nd) })"

definition h_GetChannelSockets ::
  "Env \<Rightarrow> AppID \<Rightarrow> ChannelName \<Rightarrow> bool \<Rightarrow> Node \<Rightarrow> ((SocketID, addr) gomap \<times> Node) option" where
  "h_GetChannelSockets env appID channel onlyLocal nd =
     (let localChannelSockets = la_GetChannelSockets appID channel (nd_world nd) in
      case others env onlyLocal nd of
        None \<Rightarrow> Some (localChannelSockets, nd)
      | Some numSub \<Rightarrow>
          do { (resp, nd) \<leftarrow> sendRequest env appID CHANNEL_SOCKETS
                 ((extra numSub)\<lparr>hx_sockets := Some localChannelSockets\<rparr>) (Some [(''channel'', channel)]) nd;
               Some (the_map (hr_Sockets resp), nd) })"

definition h_GetChannelSocketsCount ::
  "Env \<Rightarrow> AppID \<Rightarrow> ChannelName \<Rightarrow> bool \<Rightarrow> Node \<Rightarrow> (int \<times> Node) option" where
  "h_GetChannelSocketsCount env appId channel onlyLocal nd =
     (let localChannelSocketCount = la_GetChannelSocketsCount appId channel (nd_world nd) in
      case others env onlyLocal nd of
        None \<Rightarrow> Some (localChannelSocketCount, nd)
      | Some numSub \<Rightarrow>
          do { (resp, nd) \<leftarrow> sendRequest env appId CHANNEL_SOCKETS_COUNT
                 ((extra numSub)\<lparr>hx_totalCount := localChannelSocketCount\<rparr>) (Some [(''channel'', channel)]) nd;
               Some (hr_TotalCount resp, nd) })"

definition h_GetChannelMembers ::
  "Env \<Rightarrow> AppID \<Rightarrow> ChannelName \<Rightarrow> bool \<Rightarrow> Node \<Rightarrow> ((UserID, MemberData) gomap \<times> Node) option" where
  "h_GetChannelMembers env appID channel onlyLocal nd =
     do { localChannelMembers \<leftarrow> la_GetChannelMembers appID channel (nd_world nd);
          (case others env onlyLocal nd of
             None \<Rightarrow> Some (localChannelMembers, nd)
           | Some numSub \<Rightarrow>
               do { (resp, nd) \<leftarrow> sendRequest env appID CHANNEL_MEMBERS
                      ((extra numSub)\<lparr>hx_members := Some localChannelMembers\<rparr>) (Some [(''channel'', channel)]) nd;
                    Some (the_map (hr_Members resp), nd) }) }"

definition h_GetChannelMembersCount ::
  "Env \<Rightarrow> AppID \<Rightarrow> ChannelName \<Rightarrow> bool \<Rightarrow> Node \<Rightarrow> (int \<times> Node) option" where
  "h_GetChannelMembersCount env appID channel onlyLocal nd =
     do { localChannelMemberCount \<leftarrow> la_GetChannelMembersCount appID channel (nd_world nd);
          (case others env onlyLocal nd of
             None \<Rightarrow> Some (localChannelMemberCount, nd)
           | Some numSub \<Rightarrow>
               do { (resp, nd) \<leftarrow> sendRequest env appID CHANNEL_MEMBERS_COUNT
                      ((extra numSub)\<lparr>hx_totalCount := localChannelMemberCount\<rparr>) (Some [(''channel'', channel)]) nd;
                    Some (hr_TotalCount resp, nd) }) }"

definition h_IsInChannel ::
  "Env \<Rightarrow> AppID \<Rightarrow> ChannelName \<Rightarrow> SocketID \<Rightarrow> bool \<Rightarrow> Node \<Rightarrow> (bool \<times> Node) option" where
  "h_IsInChannel env appId channel wsID onlyLocal nd =
     (let localIsInChannel = la_IsInChannel appId channel wsID (nd_world nd) in
      case others env onlyLocal nd of
        None \<Rightarrow> Some (localIsInChannel, nd)
      | Some numSub \<Rightarrow>
          do { (resp, nd) \<leftarrow> sendRequest env appId SOCKET_EXISTS_IN_CHANNEL (extra numSub)
                 (Some [(''channel'', channel), (''socketId'', wsID)]) nd;
               Some (hr_Exists resp, nd) })"

definition h_GetPresenceChannelsWithUsersCount ::
  "Env \<Rightarrow> AppID \<Rightarrow> bool \<Rightarrow> Node \<Rightarrow> ((ChannelName, int) gomap \<times> Node) option" where
  "h_GetPresenceChannelsWithUsersCount env appID onlyLocal nd =
     do { localCounts \<leftarrow> la_GetPresenceChannelsWithUsersCount appID (nd_world nd);
          (case others env onlyLocal nd of
             None \<Rightarrow> Some (localCounts, nd)
           | Some numSub \<Rightarrow>
               do { (resp, nd) \<leftarrow> sendRequest env appID PRESENCE_CHANNELS_WITH_USERS_COUNT
                      ((extra numSub)\<lparr>hx_channelsWithSocketsCount := Some localCounts\<rparr>) None nd;
                    Some (the_map (hr_ChannelsWithSocketsCount resp), nd) }) }"

definition terminateLocalUserConnections :: "AppID \<Rightarrow> UserID \<Rightarrow> Node \<Rightarrow> Node option" where
  "terminateLocalUserConnections appId userId nd =
     lift_world nd (la_TerminateUserConnections appId userId (nd_world nd))"

definition h_TerminateUserConnections :: "Env \<Rightarrow> AppID \<Rightarrow> UserID \<Rightarrow> Node \<Rightarrow> Node option" where
  "h_TerminateUserConnections env appId userId nd =
     (case getNumSub (e_numsub env) nd of
        None \<Rightarrow> Some nd
      | Some numSub \<Rightarrow>
          do { (_, nd) \<leftarrow> sendRequest env appId TERMINATE_USER_CONNECTIONS (extra numSub) (Some [(''userId'', userId)]) nd;
               terminateLocalUserConnections appId userId nd })"

subsection \<open>Answering a request\<close>

definition answer :: "('r \<times> Node) option \<Rightarrow> ('r \<Rightarrow> HorizontalResponse) \<Rightarrow> (Payload option \<times> Node) option" where
  "answer m f = map_option (\<lambda>(r, nd). (Some (Response (f r)), nd)) m"

text \<open>
  The answer to a request of another node, \<open>None\<close> for none. Copying the channels writes to a nil map,
  which panics unless there is nothing to copy.
\<close>

definition process_request ::
  "Env \<Rightarrow> HorizontalRequestType \<Rightarrow> HorizontalRequestBody \<Rightarrow> Node \<Rightarrow> (Payload option \<times> Node) option" where
  "process_request env ty req nd =
     (let appId = hb_AppID req;
          resp = response (hb_RequestID req);
          opt = map_of (the_map (hb_Opts req))
      in case ty of
        SOCKETS \<Rightarrow> answer (h_GetSockets env appId True nd) (\<lambda>ss. resp\<lparr>hr_Sockets := Some ss\<rparr>)
      | CHANNEL_SOCKETS \<Rightarrow>
          (case opt ''channel'' of
             None \<Rightarrow> Some (None, nd)
           | Some ch \<Rightarrow> answer (h_GetChannelSockets env appId ch True nd) (\<lambda>ss. resp\<lparr>hr_Sockets := Some ss\<rparr>))
      | CHANNELS \<Rightarrow>
          do { (localChannels, nd) \<leftarrow> h_GetChannels env appId True nd;
               if the_map localChannels = [] then Some (Some (Response resp), nd) else None }
      | CHANNELS_WITH_SOCKETS_COUNT \<Rightarrow>
          answer (h_GetChannelsWithSocketsCount env appId True nd) (\<lambda>cs. resp\<lparr>hr_ChannelsWithSocketsCount := Some cs\<rparr>)
      | CHANNEL_MEMBERS \<Rightarrow>
          (case opt ''channel'' of
             None \<Rightarrow> Some (None, nd)
           | Some ch \<Rightarrow> answer (h_GetChannelMembers env appId ch True nd) (\<lambda>ms. resp\<lparr>hr_Members := Some ms\<rparr>))
      | SOCKETS_COUNT \<Rightarrow> answer (h_GetSocketsCount env appId True nd) (\<lambda>k. resp\<lparr>hr_TotalCount := k\<rparr>)
      | CHANNEL_MEMBERS_COUNT \<Rightarrow>
          (case opt ''channel'' of
             None \<Rightarrow> Some (None, nd)
           | Some ch \<Rightarrow> answer (h_GetChannelMembersCount env appId ch True nd) (\<lambda>k. resp\<lparr>hr_TotalCount := k\<rparr>))
      | CHANNEL_SOCKETS_COUNT \<Rightarrow>
          (case opt ''channel'' of
             None \<Rightarrow> Some (None, nd)
           | Some ch \<Rightarrow> answer (h_GetChannelSocketsCount env appId ch True nd) (\<lambda>k. resp\<lparr>hr_TotalCount := k\<rparr>))
      | SOCKET_EXISTS_IN_CHANNEL \<Rightarrow>
          (case (opt ''channel'', opt ''socketId'') of
             (Some ch, Some wsId) \<Rightarrow> answer (h_IsInChannel env appId ch wsId True nd) (\<lambda>x. resp\<lparr>hr_Exists := x\<rparr>)
           | _ \<Rightarrow> Some (None, nd))
      | TERMINATE_USER_CONNECTIONS \<Rightarrow>
          (case opt ''userId'' of
             None \<Rightarrow> Some (None, nd)
           | Some uid \<Rightarrow> map_option (\<lambda>nd. (Some Success, nd)) (h_TerminateUserConnections env appId uid nd))
      | PRESENCE_CHANNELS_WITH_USERS_COUNT \<Rightarrow>
          answer (h_GetPresenceChannelsWithUsersCount env appId True nd) (\<lambda>cs. resp\<lparr>hr_ChannelsWithSocketsCount := Some cs\<rparr>))"

definition onRequest :: "Env \<Rightarrow> string \<Rightarrow> Node \<Rightarrow> (Payload option \<times> Node) option" where
  "onRequest env msg nd =
     (case decode_body msg of
        None \<Rightarrow> Some (None, nd)
      | Some req \<Rightarrow>
          if mhas (nd_requests nd) (hb_RequestID req) then Some (None, nd)
          else
            (case map_of request_types (hb_Type req) of
               None \<Rightarrow> Some (None, nd)
             | Some ty \<Rightarrow> process_request env ty req nd))"

text \<open>A message on one of the two direct subscriptions.\<close>

definition processMessage ::
  "Env \<Rightarrow> string \<Rightarrow> Payload \<Rightarrow> (addr \<times> WebSocket) list \<Rightarrow> Node \<Rightarrow> Node option" where
  "processMessage env redisChannel message copies nd =
     (if HasPrefix redisChannel (nd_responseChannel nd) then
        (case received message of
           None \<Rightarrow> Some nd | Some r \<Rightarrow> Some (snd (onResponse r copies nd)))
      else if HasPrefix redisChannel (nd_requestChannel nd) then
        (case message of
           Text text \<Rightarrow>
             do { (dataToSend, nd) \<leftarrow> onRequest env text nd;
                  (case dataToSend of
                     None \<Rightarrow> Some nd
                   | Some data \<Rightarrow> Some (broadcastToChannel (nd_responseChannel nd) data nd)) }
         | _ \<Rightarrow> Some nd)
      else Some nd)"

subsection \<open>Subscribing\<close>

text \<open>
  The pattern and the channels a node subscribes to, and the two goroutines that read what Redis
  delivers: any other kind of message is skipped, an error ends the loop.
\<close>

definition psubscribe :: "Node \<Rightarrow> string \<times> string list" where
  "psubscribe nd = (nd_Channel nd @ ''*'', [nd_responseChannel nd, nd_requestChannel nd])"

datatype redis_msg = Message string Payload "(addr \<times> WebSocket) list" Env | OtherMessage | ReceiveError

fun psub_loop :: "redis_msg list \<Rightarrow> Node \<Rightarrow> Node option" where
  "psub_loop [] nd = Some nd"
| "psub_loop (ReceiveError # ms) nd = Some nd"
| "psub_loop (OtherMessage # ms) nd = psub_loop ms nd"
| "psub_loop (Message channel data copies env # ms) nd = do { nd \<leftarrow> onMessage channel data nd; psub_loop ms nd }"

fun direct_loop :: "redis_msg list \<Rightarrow> Node \<Rightarrow> Node option" where
  "direct_loop [] nd = Some nd"
| "direct_loop (ReceiveError # ms) nd = Some nd"
| "direct_loop (OtherMessage # ms) nd = direct_loop ms nd"
| "direct_loop (Message channel data copies env # ms) nd =
     do { nd \<leftarrow> processMessage env channel data copies nd; direct_loop ms nd }"

end
