(* ===== verification/Cluster.thy ===== *)
theory Cluster
  imports Horizontal
begin

text \<open>
  What the nodes of a cluster (\<open>internal/adaptersHorizontal.go\<close>, \<open>internal/adaptersRedis.go\<close>)
  achieve together: a broadcast reaches the subscribers of every node, a query gathers the answers
  of the others in any order and ends, and what goes wrong: the excluded socket of a broadcast, a
  membership query of a local socket, the channels request, and terminating the connections of a user.
\<close>

subsection \<open>Texts read back\<close>

lemma key_matches_length: "length a \<noteq> length b \<Longrightarrow> \<not> key_matches a b"
  unfolding key_matches_def fold_key_def ToUpper_def by (metis length_map)

lemma horizontal_keys [simp]:
  "\<not> key_matches ''Type'' ''Opts''" "\<not> key_matches ''Uuid'' ''Data''" "\<not> key_matches ''Uuid'' ''Type''"
  "\<not> key_matches ''Data'' ''Type''" "\<not> key_matches ''Uuid'' ''Opts''" "\<not> key_matches ''Data'' ''Opts''"
  by code_simp+

lemma decode_broadcast_message:
  "decode_broadcast (marshal (message_json msg)) =
     Some (Some \<lparr>pm_Uuid = ms_Uuid msg, pm_AppID = ms_AppID msg, pm_Channel = ms_Channel msg,
                 pm_Data = JStr (ms_Data msg), pm_ExceptingIds = []\<rparr>)"
proof -
  have p: "json_parse (marshal (message_json msg)) = Some (message_json msg)"
    by (rule json_parse_marshal) (simp add: message_json_def depth_Suc)
  show ?thesis unfolding decode_broadcast_def decode_ptr_def p by (simp add: message_json_def decode_obj_def field_str_def key_matches_length)
qed

text \<open>Options in the order \<open>json.Marshal\<close> writes them.\<close>

definition opts_ok :: "(string, string) gomap option \<Rightarrow> bool" where
  "opts_ok opts = (case opts of None \<Rightarrow> True | Some m \<Rightarrow> wf_map m \<and> sort_key fst m = m)"

lemma mput_new: "\<not> mhas m k \<Longrightarrow> mput k v m = m @ [(k, v)]"
  by (induction m) (auto simp: mhas_def split: if_splits)

lemma decode_opts_map:
  assumes "wf_map (acc @ m)"
  shows "decode_keys (\<lambda>k v m. map_option (\<lambda>s. mput k s m) (set_str v [])) (map (\<lambda>(k, v). (k, JStr v)) m) acc = Some (acc @ m)"
  using assms
proof (induction m arbitrary: acc)
  case (Cons kv m)
  obtain k v where kv: "kv = (k, v)" by (cases kv)
  from Cons.prems kv have "\<not> mhas acc k" by (auto simp: wf_map_def mhas_iff)
  with Cons.IH [of "acc @ [(k, v)]"] Cons.prems kv show ?case by (simp add: mput_new)
qed simp

lemma decode_opts_json: "opts_ok opts \<Longrightarrow> decode_opts (opts_json opts) None = Some opts"
  using decode_opts_map [of "[]"] by (auto simp: opts_ok_def opts_json_def split: option.splits)

lemma body_parses: "json_parse (body_ToJson hrb) = Some (body_json hrb)"
  unfolding body_ToJson_def by (rule json_parse_marshal) (auto simp: body_json_def opts_json_def depth_Suc split: option.split)

lemma decode_body_ToJson:
  assumes "- (2 ^ 63) \<le> hb_Type hrb" "hb_Type hrb < 2 ^ 63" "opts_ok (hb_Opts hrb)"
  shows "decode_body (body_ToJson hrb) = Some hrb"
  unfolding decode_body_def body_parses
  using assms by (cases hrb) (simp add: body_json_def decode_obj_def field_str_def ParseInt_Itoa decode_opts_json key_matches_length)

lemma type_code_range: "0 \<le> type_code ty" "type_code ty \<le> 10"
  by (cases ty; simp)+

lemma opts_ok_simps [simp]:
  "opts_ok None" "opts_ok (Some [(k, v)])" "opts_ok (Some [(''channel'', c), (''socketId'', i)])"
proof -
  have s: "(''channel'' :: string) \<le> ''socketId''" by code_simp
  show "opts_ok None" "opts_ok (Some [(k, v)])" "opts_ok (Some [(''channel'', c), (''socketId'', i)])"
    using s by (simp_all add: opts_ok_def wf_map_def)
qed

text \<open>The text of a request: read as a request it is itself, read as a broadcast it is nothing.\<close>

definition request_text :: "string \<Rightarrow> AppID \<Rightarrow> HorizontalRequestType \<Rightarrow> (string, string) gomap option \<Rightarrow> string" where
  "request_text requestID appId ty opts =
     body_ToJson \<lparr>hb_Type = type_code ty, hb_RequestID = requestID, hb_AppID = appId, hb_Opts = opts\<rparr>"

lemma decode_request_text:
  assumes "opts_ok opts"
  shows "decode_body (request_text requestID appId ty opts) =
     Some \<lparr>hb_Type = type_code ty, hb_RequestID = requestID, hb_AppID = appId, hb_Opts = opts\<rparr>"
  unfolding request_text_def using type_code_range [of ty] assms by (intro decode_body_ToJson) simp_all

lemma request_text_no_broadcast:
  "\<exists>msg. decode_broadcast (request_text requestID appId ty opts) = Some (Some msg) \<and> pm_Channel msg = []"
  unfolding decode_broadcast_def decode_ptr_def request_text_def body_parses
  by (simp add: body_json_def decode_obj_def field_str_def key_matches_length)

subsection \<open>Broadcasts\<close>

lemma sendLocally_effect:
  assumes "ns_of (nd_world nd) appID = Some n" "sockets_ok (w_heap (nd_world nd)) n"
    and "\<not> HasPrefix c SocketRushServerToUserPrefix" "\<forall>a \<in> subscribers n c except. sane (nd_world nd) a"
  shows "\<exists>w'. sendLocally appID c msg except nd = Some (nd\<lparr>nd_world := w'\<rparr>)
    \<and> (\<forall>b. wire w' b = wire (nd_world nd) b @ (if b \<in> subscribers n c except \<and> live (nd_world nd) b then [msg] else []))"
  by (rule la_Send_channel [OF assms, where msg = msg]) (auto simp: sendLocally_def lift_world_def)

text \<open>C33
  A broadcast on one node reaches the whole cluster. It is written once to every live subscriber of
  the node itself but the excluded one, and published as one message; the node drops its own copy
  when Redis delivers it, and every other node writes it once to every live subscriber it has.
  The exclusion does not travel: the message names it \<open>ExceptingId\<close> and the reader looks
  for \<open>ExceptingIds\<close>, so on the other nodes nobody is left out.
\<close>
theorem cluster_broadcast:
  assumes "ns_of (nd_world A) app = Some n" "sockets_ok (w_heap (nd_world A)) n"
    and "\<forall>a \<in> subscribers n c except. sane (nd_world A) a"
    and "ns_of (nd_world B) app = Some m" "sockets_ok (w_heap (nd_world B)) m"
    and "\<forall>a \<in> subscribers m c []. sane (nd_world B) a"
    and "\<not> HasPrefix c SocketRushServerToUserPrefix" "app \<noteq> []" "c \<noteq> []" "data \<noteq> []"
    and "nd_Channel B = nd_Channel A" "nd_uuid B \<noteq> nd_uuid A"
  shows "\<exists>A' B' text. h_Send app c data except A = Some A'
    \<and> nd_published A' = nd_published A @ [(nd_Channel A, Text text)]
    \<and> (\<forall>b. wire (nd_world A') b = wire (nd_world A) b
           @ (if b \<in> subscribers n c except \<and> live (nd_world A) b then [data] else []))
    \<and> onMessage (nd_Channel A) (Text text) A' = Some A'
    \<and> onMessage (nd_Channel A) (Text text) B = Some B'
    \<and> (\<forall>b. wire (nd_world B') b = wire (nd_world B) b
           @ (if b \<in> subscribers m c [] \<and> live (nd_world B) b then [data] else []))"
proof -
  define msg where "msg = \<lparr>ms_Uuid = nd_uuid A, ms_AppID = app, ms_Channel = c, ms_Data = data,
    ms_ExceptingId = (if length except > 0 then except ! 0 else [])\<rparr>"
  let ?text = "marshal (message_json msg)"
  let ?A = "broadcastToChannel (nd_Channel A) (Text ?text) A"
  have wA: "nd_world ?A = nd_world A" "nd_uuid ?A = nd_uuid A" by (simp_all add: broadcastToChannel_def)
  from sendLocally_effect [of ?A app n c except data, unfolded wA, OF assms(1,2,7,3)] obtain w'
    where sA: "sendLocally app c data except ?A = Some (?A\<lparr>nd_world := w'\<rparr>)"
      "\<forall>b. wire w' b = wire (nd_world A) b @ (if b \<in> subscribers n c except \<and> live (nd_world A) b then [data] else [])" by blast
  have e: "subscribers m c [[]] = subscribers m c []" by (simp add: subscribers_def)
  from sendLocally_effect [of B app m c "[[]]" data, unfolded e, OF assms(4,5,7,6)] obtain v'
    where sB: "sendLocally app c data [[]] B = Some (B\<lparr>nd_world := v'\<rparr>)"
      "\<forall>b. wire v' b = wire (nd_world B) b @ (if b \<in> subscribers m c [] \<and> live (nd_world B) b then [data] else [])" by blast
  have p: "HasPrefix (nd_Channel A) (nd_Channel A)" using HasPrefix_append [of "nd_Channel A" "[]"] by simp
  have hA: "h_Send app c data except A = Some (?A\<lparr>nd_world := w'\<rparr>)"
    using sA(1) by (simp add: h_Send_def GetChannelName_def msg_def Let_def)
  have own: "onMessage (nd_Channel A) (Text ?text) (?A\<lparr>nd_world := w'\<rparr>) = Some (?A\<lparr>nd_world := w'\<rparr>)"
    by (simp add: onMessage_def decode_broadcast_message msg_def broadcastToChannel_def p)
  have rem: "onMessage (nd_Channel A) (Text ?text) B = Some (B\<lparr>nd_world := v'\<rparr>)"
    using sB(1) assms(8-12) p by (simp add: onMessage_def decode_broadcast_message msg_def)
  show ?thesis
    by (rule exI [of _ "?A\<lparr>nd_world := w'\<rparr>"], rule exI [of _ "B\<lparr>nd_world := v'\<rparr>"], rule exI [of _ ?text])
      (use hA own rem sA(2) sB(2) in \<open>simp add: broadcastToChannel_def\<close>)
qed

definition demo_node :: "World \<Rightarrow> string \<Rightarrow> Node" where
  "demo_node w uuid = \<lparr>nd_world = w, nd_uuid = uuid, nd_Channel = ''int'', nd_requestChannel = ''int#comms#req'',
     nd_responseChannel = ''int#comms#res'', nd_requests = [], nd_published = []\<rparr>"

definition demo_env :: "wait_event list \<Rightarrow> Env" where
  "demo_env es = \<lparr>e_numsub = Some [(''int#comms#req'', 2)], e_uuid = ''r'', e_events = es, e_resolveTime = 0\<rparr>"

lemma demo_node_simps [simp]:
  "nd_world (demo_node w u) = w" "nd_uuid (demo_node w u) = u" "nd_Channel (demo_node w u) = ''int''"
  "nd_requests (demo_node w u) = []" "nd_published (demo_node w u) = []" "nd_requestChannel (demo_node w u) = ''int#comms#req''"
  "e_events (demo_env es) = es" "e_uuid (demo_env es) = ''r''" "e_numsub (demo_env es) = Some [(''int#comms#req'', 2)]"
  by (simp_all add: demo_node_def demo_env_def)

theorem cluster_broadcast_witness:
  "\<exists>A' B' msg. h_Send ''1'' ''c'' ''hi'' [''1.1''] (demo_node demo_world ''A'') = Some A'
    \<and> wire (nd_world A') 1 = [] \<and> wire (nd_world A') 2 = [''hi'']
    \<and> onMessage ''int'' (Text msg) (demo_node demo_world ''B'') = Some B' \<and> wire (nd_world B') 1 = [''hi'']"
proof -
  have p: "\<not> HasPrefix ''c'' SocketRushServerToUserPrefix" by (simp add: go_simps prefix_def)
  have s: "\<forall>a \<in> subscribers demo_ns ''c'' except. sane demo_world a" for except
    by (auto simp: subscribers_def demo_ns_def split: if_splits)
  have m: "1 \<in> subscribers demo_ns ''c'' []" "1 \<notin> subscribers demo_ns ''c'' [''1.1'']" "2 \<in> subscribers demo_ns ''c'' [''1.1'']"
    unfolding subscribers_def demo_ns_def n_IsInChannel_def
    by (simp_all add: mget0_def) (rule exI [of _ "''1.1''"], simp)
  have l: "live demo_world a \<longleftrightarrow> a \<noteq> 0" "wire demo_world a = []" for a by (simp_all add: live_def wire_def demo_conn_def)
  obtain A' B' msg where b: "h_Send ''1'' ''c'' ''hi'' [''1.1''] (demo_node demo_world ''A'') = Some A'"
    "\<forall>b. wire (nd_world A') b = wire demo_world b @ (if b \<in> subscribers demo_ns ''c'' [''1.1''] \<and> live demo_world b then [''hi''] else [])"
    "onMessage ''int'' (Text msg) (demo_node demo_world ''B'') = Some B'"
    "\<forall>b. wire (nd_world B') b = wire demo_world b @ (if b \<in> subscribers demo_ns ''c'' [] \<and> live demo_world b then [''hi''] else [])"
    using cluster_broadcast [of "demo_node demo_world ''A''" "''1''" demo_ns "''c''" "[''1.1'']" "demo_node demo_world ''B''" demo_ns "''hi''"]
      p s by auto
  show ?thesis
    by (rule exI [of _ A'], rule exI [of _ B'], rule exI [of _ msg]) (use b m l in simp)
qed

text \<open>A request or a response on the pattern subscription is not taken for a broadcast.\<close>

lemma comms_ignored:
  "onMessage ch (Text (request_text requestID appId ty opts)) nd = Some nd" "onMessage ch (Response r) nd = Some nd"
  "onMessage ch Success nd = Some nd"
  using request_text_no_broadcast [of requestID appId ty opts] by (auto simp: onMessage_def)

subsection \<open>Waiting for the others\<close>

text \<open>Every pending request is registered under its own id.\<close>

definition reqs_ok :: "Node \<Rightarrow> bool" where
  "reqs_ok nd = (\<forall>(i, q) \<in> set (nd_requests nd). hq_requestID q = i)"

lemma reqs_okD: "reqs_ok nd \<Longrightarrow> map_of (nd_requests nd) i = Some q \<Longrightarrow> hq_requestID q = i"
  by (auto simp: reqs_ok_def dest: map_of_SomeD)

text \<open>The responses to a request that arrive before the timer runs out.\<close>

fun arrivals :: "string \<Rightarrow> wait_event list \<Rightarrow> HorizontalResponse list" where
  "arrivals i [] = []"
| "arrivals i (Timeout # es) = []"
| "arrivals i (Arrives data copies # es) =
     (case received data of
        Some r \<Rightarrow> if hr_RequestID r = i then r # arrivals i es else arrivals i es
      | None \<Rightarrow> arrivals i es)"

text \<open>What waiting leaves alone: all but the metrics and the copies of sockets decoded meanwhile.\<close>

definition wait_frame :: "Node \<Rightarrow> Node \<Rightarrow> bool" where
  "wait_frame nd' nd = (nd_uuid nd' = nd_uuid nd \<and> nd_Channel nd' = nd_Channel nd
     \<and> nd_requestChannel nd' = nd_requestChannel nd \<and> nd_responseChannel nd' = nd_responseChannel nd
     \<and> nd_requests nd' = nd_requests nd \<and> nd_published nd' = nd_published nd
     \<and> w_Namespaces (nd_world nd') = w_Namespaces (nd_world nd) \<and> w_cache (nd_world nd') = w_cache (nd_world nd)
     \<and> w_queue (nd_world nd') = w_queue (nd_world nd) \<and> w_apps (nd_world nd') = w_apps (nd_world nd))"

lemma wait_frame_refl [simp]: "wait_frame nd nd"
  by (simp add: wait_frame_def)

lemma wait_frame_trans: "wait_frame nd2 nd1 \<Longrightarrow> wait_frame nd1 nd0 \<Longrightarrow> wait_frame nd2 nd0"
  by (simp add: wait_frame_def)

lemma wait_frame_metrics [simp]: "wait_frame (on_metrics f nd) nd"
  by (simp add: wait_frame_def on_metrics_def on_world_def)

lemma wait_frame_onResponse: "wait_frame (snd (onResponse r copies nd)) nd"
  by (simp add: onResponse_def Let_def wait_frame_def on_metrics_def on_world_def split: option.split)

lemma fst_onResponse: "fst (onResponse r copies nd) = map_of (nd_requests nd) (hr_RequestID r)"
  by (simp add: onResponse_def Let_def on_world_def split: option.split)

text \<open>
  What a request gathers. \<open>combine\<close> adds the contribution \<open>val r\<close> of one response; contributions
  commute, so the result depends on which responses arrive and not on their order.
\<close>

locale aggregate =
  fixes ty :: HorizontalRequestType
    and ok :: "HorizontalResponse \<Rightarrow> bool"
    and val :: "HorizontalResponse \<Rightarrow> 'v"
    and combine :: "'v \<Rightarrow> 'v \<Rightarrow> 'v"
  assumes waits: "ty \<noteq> SOCKET_EXISTS_IN_CHANNEL"
    and merges: "ok r \<Longrightarrow> \<exists>fin'. merge ty h r fin = Some fin' \<and> val fin' = combine (val r) (val fin)"
    and commute: "combine x (combine y z) = combine y (combine x z)"
begin

lemma any_order: "mset vs = mset vs' \<Longrightarrow> fold combine vs = fold combine vs'"
  by (rule fold_multiset_equiv) (auto simp: commute)

lemma wait_gathers:
  assumes "reqs_ok nd" "map_of (nd_requests nd) i = Some req" "hq_requestType req = ty"
    and "\<forall>r \<in> set (arrivals i es). ok r"
    and "cnt + 1 + int k = hx_numSub req" "0 < k" "Timeout \<in> set es \<or> k \<le> length (arrivals i es)"
  shows "\<exists>fin' nd'. wait_loop req cnt fin es nd = Some (fin', nd') \<and> wait_frame nd' nd
    \<and> val fin' = fold combine (map val (take k (arrivals i es))) (val fin)"
  using assms
proof (induction es arbitrary: cnt k fin nd)
  case (Cons e es)
  have i: "hq_requestID req = i" using reqs_okD [OF Cons.prems(1,2)] .
  show ?case
  proof (cases e)
    case (Arrives data copies)
    show ?thesis
    proof (cases "received data")
      case None
      with Cons.IH [OF Cons.prems(1-3) _ Cons.prems(5,6)] Cons.prems(4,7) Arrives show ?thesis by simp
    next
      case (Some r)
      let ?o = "onResponse r copies nd"
      have f: "wait_frame (snd ?o) nd" by (rule wait_frame_onResponse)
      then have nd1: "reqs_ok (snd ?o)" "map_of (nd_requests (snd ?o)) i = Some req"
        using Cons.prems(1,2) by (simp_all add: wait_frame_def reqs_ok_def)
      show ?thesis
      proof (cases "hr_RequestID r = i")
        case False
        have skip: "wait_loop req cnt fin (e # es) nd = wait_loop req cnt fin es (snd ?o)"
          using Some Arrives False fst_onResponse [of r copies nd] reqs_okD [OF Cons.prems(1)] i
          by (cases ?o) (auto split: option.split)
        have h: "\<forall>r \<in> set (arrivals i es). ok r" "Timeout \<in> set es \<or> k \<le> length (arrivals i es)"
          using Cons.prems(4,7) Arrives Some False by auto
        from Cons.IH [OF nd1 Cons.prems(3) h(1) Cons.prems(5,6) h(2), where fin = fin] obtain fin' nd' where "wait_loop req cnt fin es (snd ?o) = Some (fin', nd')" "wait_frame nd' (snd ?o)"
          "val fin' = fold combine (map val (take k (arrivals i es))) (val fin)" by blast
        with skip wait_frame_trans [OF _ f] Arrives Some False show ?thesis by simp
      next
        case True
        let ?h = "w_heap (nd_world (snd ?o))"
        from Cons.prems(4) Arrives Some True have "ok r" by simp
        from merges [OF this, of ?h fin] obtain fin1
          where m: "merge ty ?h r fin = Some fin1" "val fin1 = combine (val r) (val fin)" by blast
        have go: "wait_loop req cnt fin (e # es) nd =
            (if cnt + 1 = hx_numSub req - 1 then Some (fin1, snd ?o) else wait_loop req (cnt + 1) fin1 es (snd ?o))"
          using Some Arrives True fst_onResponse [of r copies nd] Cons.prems(2,3) i m(1) waits
          by (cases ?o) auto
        show ?thesis
        proof (cases "k = 1")
          case one: True
          with go Cons.prems(5) f m(2) Arrives Some True show ?thesis by simp
        next
          case False
          with Cons.prems(6) obtain j where j: "k = Suc j" "0 < j" by (cases k) auto
          have h: "\<forall>r \<in> set (arrivals i es). ok r" "cnt + 1 + 1 + int j = hx_numSub req"
            "Timeout \<in> set es \<or> j \<le> length (arrivals i es)"
            using Cons.prems(4,5,7) Arrives Some True j by auto
          from Cons.IH [OF nd1 Cons.prems(3) h(1,2) j(2) h(3), where fin = fin1] obtain fin' nd' where "wait_loop req (cnt + 1) fin1 es (snd ?o) = Some (fin', nd')" "wait_frame nd' (snd ?o)"
            "val fin' = fold combine (map val (take j (arrivals i es))) (val fin1)" by blast
          with go j Cons.prems(5) wait_frame_trans [OF _ f] m(2) Arrives Some True show ?thesis by simp
        qed
      qed
    qed
  qed simp
qed simp

end

lemma add_sockets_total: "\<forall>(k, a) \<in> set ss. a \<noteq> 0 \<Longrightarrow> add_sockets h ss m \<noteq> None"
  by (induction ss arbitrary: m) auto

definition no_nil :: "HorizontalResponse \<Rightarrow> bool" where
  "no_nil r = (\<forall>(k, a) \<in> set (the_map (hr_Sockets r)). a \<noteq> 0)"

lemma merge_total:
  assumes "no_nil r"
  shows "\<exists>fin'. merge ty h r fin = Some fin'"
proof -
  have "merge_sockets h r fin \<noteq> None"
    using assms add_sockets_total [of "the_map (hr_Sockets r)" h "the_map (hr_Sockets fin)"]
    by (auto simp: merge_sockets_def no_nil_def the_map_def [of "hr_Sockets r"] split: option.split)
  then show ?thesis by (cases ty) auto
qed

lemma wait_returns:
  assumes "reqs_ok nd" "map_of (nd_requests nd) i = Some req" "\<forall>r \<in> set (arrivals i es). no_nil r" "Timeout \<in> set es"
    and "P fin" "\<And>r h fin fin'. r \<in> set (arrivals i es) \<Longrightarrow> P fin \<Longrightarrow> merge (hq_requestType req) h r fin = Some fin' \<Longrightarrow> P fin'"
  shows "\<exists>fin' nd'. wait_loop req cnt fin es nd = Some (fin', nd') \<and> wait_frame nd' nd \<and> P fin'"
  using assms
proof (induction es arbitrary: cnt fin nd)
  case (Cons e es)
  have i: "hq_requestID req = i" using reqs_okD [OF Cons.prems(1,2)] .
  show ?case
  proof (cases e)
    case (Arrives data copies)
    show ?thesis
    proof (cases "received data")
      case None
      with Cons.IH [OF Cons.prems(1,2) _ _ Cons.prems(5)] Cons.prems(3,4,6) Arrives show ?thesis by simp
    next
      case (Some r)
      let ?o = "onResponse r copies nd"
      have f: "wait_frame (snd ?o) nd" by (rule wait_frame_onResponse)
      then have nd1: "reqs_ok (snd ?o)" "map_of (nd_requests (snd ?o)) i = Some req"
        using Cons.prems(1,2) by (simp_all add: wait_frame_def reqs_ok_def)
      have h: "\<forall>r \<in> set (arrivals i es). no_nil r" "Timeout \<in> set es"
        using Cons.prems(3,4) Arrives Some by (auto split: if_splits)
      have a: "set (arrivals i es) \<subseteq> set (arrivals i (e # es))" using Arrives Some by auto
      have IH: "\<exists>fin' nd'. wait_loop req cnt fin es (snd ?o) = Some (fin', nd') \<and> wait_frame nd' nd \<and> P fin'"
        if "P fin" for cnt fin
      proof -
        from Cons.IH [OF nd1 h that, of cnt] Cons.prems(6) a obtain fin' nd' where
          "wait_loop req cnt fin es (snd ?o) = Some (fin', nd')" "wait_frame nd' (snd ?o)" "P fin'" by blast
        with wait_frame_trans [OF _ f] show ?thesis by blast
      qed
      show ?thesis
      proof (cases "hr_RequestID r = i")
        case False
        have "wait_loop req cnt fin (e # es) nd = wait_loop req cnt fin es (snd ?o)"
          using Some Arrives False fst_onResponse [of r copies nd] reqs_okD [OF Cons.prems(1)] i
          by (cases ?o) (auto split: option.split)
        with IH Cons.prems(5) show ?thesis by simp
      next
        case True
        with Cons.prems(3) Arrives Some have "no_nil r" by simp
        from merge_total [OF this] obtain fin1
          where m: "merge (hq_requestType req) (w_heap (nd_world (snd ?o))) r fin = Some fin1" by blast
        have P1: "P fin1" by (rule Cons.prems(6) [OF _ Cons.prems(5) m]) (use Arrives Some True in simp)
        have "wait_loop req cnt fin (e # es) nd =
            (if hq_requestType req = SOCKET_EXISTS_IN_CHANNEL \<and> hr_Exists r then Some (fin1, snd ?o)
             else if cnt + 1 = hx_numSub req - 1 then Some (fin1, snd ?o) else wait_loop req (cnt + 1) fin1 es (snd ?o))"
          using Some Arrives True fst_onResponse [of r copies nd] Cons.prems(2) i m by (cases ?o) auto
        with IH [OF P1] f P1 show ?thesis by auto
      qed
    qed
  qed (use Cons.prems(5) in simp)
qed simp

text \<open>After a request: it has been published, and it is not pending any more.\<close>

definition asked ::
  "Env \<Rightarrow> AppID \<Rightarrow> HorizontalRequestType \<Rightarrow> (string, string) gomap option \<Rightarrow> Node \<Rightarrow> Node \<Rightarrow> bool" where
  "asked env appId ty opts nd nd' =
     (nd_published nd' = nd_published nd @ [(nd_requestChannel nd, Text (request_text (e_uuid env) appId ty opts))]
      \<and> nd_requests nd' = nd_requests nd \<and> nd_uuid nd' = nd_uuid nd \<and> nd_Channel nd' = nd_Channel nd
      \<and> nd_requestChannel nd' = nd_requestChannel nd \<and> nd_responseChannel nd' = nd_responseChannel nd
      \<and> w_Namespaces (nd_world nd') = w_Namespaces (nd_world nd))"

lemma sendRequest_run:
  assumes "reqs_ok nd" "\<not> mhas (nd_requests nd) (e_uuid env)"
    and "\<And>nd1. reqs_ok nd1 \<Longrightarrow> map_of (nd_requests nd1) (e_uuid env) = Some (newRequest (e_uuid env) appId ty ex) \<Longrightarrow>
      \<exists>fin nd2. waitForResponse (newRequest (e_uuid env) appId ty ex) (e_events env) nd1 = Some (fin, nd2)
        \<and> wait_frame nd2 nd1 \<and> P fin"
  shows "\<exists>resp nd'. sendRequest env appId ty ex opts nd = Some (resp, nd') \<and> P resp \<and> asked env appId ty opts nd nd'"
proof -
  let ?i = "e_uuid env" and ?req = "newRequest (e_uuid env) appId ty ex"
  let ?nd = "on_metrics (MarkHorizontalAdapterRequestSent appId)
     (broadcastToChannel (nd_requestChannel nd) (Text (request_text ?i appId ty opts))
       (nd\<lparr>nd_requests := mput ?i ?req (nd_requests nd)\<rparr>))"
  have r: "nd_requests ?nd = mput ?i ?req (nd_requests nd)"
    by (simp add: on_metrics_def on_world_def broadcastToChannel_def)
  have new: "mput ?i ?req (nd_requests nd) = nd_requests nd @ [(?i, ?req)]" by (rule mput_new [OF assms(2)])
  have "hq_requestID ?req = ?i" by (simp add: newRequest_def)
  then have "reqs_ok ?nd" using assms(1) unfolding reqs_ok_def trans [OF r new] by auto
  from assms(3) [OF this] r obtain fin nd2 where w: "waitForResponse ?req (e_events env) ?nd = Some (fin, nd2)"
    "wait_frame nd2 ?nd" "P fin" by auto
  have d: "mdel ?i (mput ?i ?req (nd_requests nd)) = nd_requests nd"
    using assms(2) by (simp add: mhas_iff delete_update_same)
  from w show ?thesis
    by (auto simp: sendRequest_def Let_def request_text_def [symmetric] asked_def wait_frame_def on_metrics_def
        on_world_def broadcastToChannel_def d)
qed

lemma sendRequest_returns:
  assumes "reqs_ok nd" "\<not> mhas (nd_requests nd) (e_uuid env)"
    and "\<forall>r \<in> set (arrivals (e_uuid env) (e_events env)). no_nil r" "Timeout \<in> set (e_events env)"
    and "P (initial_response (newRequest (e_uuid env) appId ty ex))"
    and "\<And>r h fin fin'. r \<in> set (arrivals (e_uuid env) (e_events env)) \<Longrightarrow> P fin \<Longrightarrow> merge ty h r fin = Some fin' \<Longrightarrow> P fin'"
  shows "\<exists>resp nd'. sendRequest env appId ty ex opts nd = Some (resp, nd') \<and> asked env appId ty opts nd nd' \<and> P resp"
proof -
  let ?req = "newRequest (e_uuid env) appId ty ex"
  have t: "hq_requestType ?req = ty" by (simp add: newRequest_def)
  show ?thesis
    using sendRequest_run [OF assms(1,2), of appId ty ex P opts]
      wait_returns [where req = ?req and i = "e_uuid env" and P = P and es = "e_events env" and cnt = 0 and
        fin = "initial_response ?req"] assms(3-6)
    unfolding waitForResponse_def t by blast
qed

context aggregate
begin

lemma request_gathers:
  assumes "reqs_ok nd" "\<not> mhas (nd_requests nd) (e_uuid env)"
    and "\<forall>r \<in> set (arrivals (e_uuid env) (e_events env)). ok r"
    and "hx_numSub ex = 1 + int k" "0 < k"
    and "Timeout \<in> set (e_events env) \<or> k \<le> length (arrivals (e_uuid env) (e_events env))"
  shows "\<exists>resp nd'. sendRequest env appId ty ex opts nd = Some (resp, nd') \<and> asked env appId ty opts nd nd'
    \<and> val resp = fold combine (map val (take k (arrivals (e_uuid env) (e_events env))))
        (val (initial_response (newRequest (e_uuid env) appId ty ex)))"
  using sendRequest_run [OF assms(1,2), of appId ty ex "\<lambda>resp. val resp =
      fold combine (map val (take k (arrivals (e_uuid env) (e_events env))))
        (val (initial_response (newRequest (e_uuid env) appId ty ex)))" opts]
    wait_gathers [OF _ _ _ assms(3), of _ "newRequest (e_uuid env) appId ty ex" 0 k] assms(4-6)
  unfolding waitForResponse_def by (simp add: newRequest_def) blast

end

text \<open>The types of request that add up numbers, per channel or in total, and the union of members.\<close>

lemma merge_total_val: "hr_TotalCount (merge_total r fin) = hr_TotalCount r + hr_TotalCount fin"
  by (simp add: merge_total_def)

interpretation sockets_count: aggregate SOCKETS_COUNT "\<lambda>_. True" hr_TotalCount "(+)"
  by unfold_locales (simp_all add: merge_total_val)

interpretation channel_sockets_count: aggregate CHANNEL_SOCKETS_COUNT "\<lambda>_. True" hr_TotalCount "(+)"
  by unfold_locales (simp_all add: merge_total_val)

interpretation members_count: aggregate CHANNEL_MEMBERS_COUNT "\<lambda>_. True" hr_TotalCount "(+)"
  by unfold_locales (simp_all add: merge_total_val)

definition count_of :: "ChannelName \<Rightarrow> HorizontalResponse \<Rightarrow> int" where
  "count_of c r = mget0 0 (the_map (hr_ChannelsWithSocketsCount r)) c"

definition counts_ok :: "HorizontalResponse \<Rightarrow> bool" where
  "counts_ok r = wf_map (the_map (hr_ChannelsWithSocketsCount r))"

lemma add_counts_val: "wf_map cs \<Longrightarrow> mget0 0 (add_counts cs m) c = mget0 0 cs c + mget0 0 m c"
proof (induction cs arbitrary: m)
  case (Cons kv cs)
  obtain k v where kv: "kv = (k, v)" by (cases kv)
  with Cons.prems have "wf_map cs" "map_of cs k = None" by (auto simp: wf_map_def map_of_eq_None_iff)
  then show ?case using Cons.IH kv by (auto simp: mget0_def split: option.split)
qed (simp add: mget0_def)

lemma merge_counts_val: "counts_ok r \<Longrightarrow> count_of c (merge_counts r fin) = count_of c r + count_of c fin"
  using add_counts_val [of "the_map (hr_ChannelsWithSocketsCount r)" "the_map (hr_ChannelsWithSocketsCount fin)" c]
  by (cases "hr_ChannelsWithSocketsCount r") (simp_all add: counts_ok_def count_of_def merge_counts_def the_map_def mget0_def)

interpretation channel_counts: aggregate CHANNELS_WITH_SOCKETS_COUNT counts_ok "count_of c" "(+)" for c
  by unfold_locales (simp_all add: merge_counts_val)

interpretation presence_counts: aggregate PRESENCE_CHANNELS_WITH_USERS_COUNT counts_ok "count_of c" "(+)" for c
  by unfold_locales (simp_all add: merge_counts_val)

definition member_ids :: "HorizontalResponse \<Rightarrow> UserID set" where
  "member_ids r = fst ` set (the_map (hr_Members r))"

lemma add_members_ids: "fst ` set (add_members ms m) = fst ` set ms \<union> fst ` set m"
proof (induction ms m rule: add_members.induct)
  case (2 i member ms m)
  have "fst ` set (mput i member m) = insert i (fst ` set m)" by (simp add: dom_update)
  with 2 show ?case by auto
qed simp

interpretation members: aggregate CHANNEL_MEMBERS "\<lambda>_. True" member_ids "(\<union>)"
  by unfold_locales (auto simp: member_ids_def merge_members_def add_members_ids the_map_def split: option.split)

end
