(* ===== verification/Cluster_Queries.thy ===== *)
theory Cluster_Queries
  imports Cluster
begin

text \<open>
  The queries of a node of the cluster (\<open>internal/adaptersHorizontal.go\<close>): what the other nodes
  answer, what the node that asks makes of it, and that every query ends.
\<close>

subsection \<open>Answers\<close>

lemma onRequest_text:
  assumes "\<not> mhas (nd_requests B) i" "opts_ok opts"
  shows "onRequest env (request_text i app ty opts) B =
     process_request env ty \<lparr>hb_Type = type_code ty, hb_RequestID = i, hb_AppID = app, hb_Opts = opts\<rparr> B"
  using assms by (simp add: onRequest_def decode_request_text)

lemma only_local [simp]: "others env True nd = None"
  by (simp add: others_def)

lemma othersD:
  assumes "others env False A = Some numSub"
  shows "1 < numSub" "getNumSub (e_numsub env) A = Some numSub"
  using assms by (auto simp: others_def split: option.splits if_splits)

lemma answer_SOCKETS_COUNT:
  "\<not> mhas (nd_requests B) i \<Longrightarrow> onRequest env (request_text i app SOCKETS_COUNT None) B =
     Some (Some (Response ((response i)\<lparr>hr_TotalCount := la_GetSocketsCount app (nd_world B)\<rparr>)), B)"
  by (simp add: onRequest_text process_request_def h_GetSocketsCount_def answer_def)

lemma answer_CHANNEL_SOCKETS_COUNT:
  "\<not> mhas (nd_requests B) i \<Longrightarrow> onRequest env (request_text i app CHANNEL_SOCKETS_COUNT (Some [(''channel'', c)])) B =
     Some (Some (Response ((response i)\<lparr>hr_TotalCount := la_GetChannelSocketsCount app c (nd_world B)\<rparr>)), B)"
  by (simp add: onRequest_text process_request_def h_GetChannelSocketsCount_def answer_def the_map_def)

lemma answer_CHANNELS_WITH_SOCKETS_COUNT:
  "\<not> mhas (nd_requests B) i \<Longrightarrow> onRequest env (request_text i app CHANNELS_WITH_SOCKETS_COUNT None) B =
     Some (Some (Response ((response i)\<lparr>hr_ChannelsWithSocketsCount := Some (la_GetChannelsWithSocketsCount app (nd_world B))\<rparr>)), B)"
  by (simp add: onRequest_text process_request_def h_GetChannelsWithSocketsCount_def answer_def)

lemma answer_CHANNEL_MEMBERS:
  "\<not> mhas (nd_requests B) i \<Longrightarrow> la_GetChannelMembers app c (nd_world B) = Some ms \<Longrightarrow>
     onRequest env (request_text i app CHANNEL_MEMBERS (Some [(''channel'', c)])) B =
     Some (Some (Response ((response i)\<lparr>hr_Members := Some ms\<rparr>)), B)"
  by (simp add: onRequest_text process_request_def h_GetChannelMembers_def answer_def the_map_def)

lemma answer_CHANNEL_MEMBERS_COUNT:
  "\<not> mhas (nd_requests B) i \<Longrightarrow> la_GetChannelMembersCount app c (nd_world B) = Some k \<Longrightarrow>
     onRequest env (request_text i app CHANNEL_MEMBERS_COUNT (Some [(''channel'', c)])) B =
     Some (Some (Response ((response i)\<lparr>hr_TotalCount := k\<rparr>)), B)"
  by (simp add: onRequest_text process_request_def h_GetChannelMembersCount_def answer_def the_map_def)

text \<open>
  The nodes \<open>Bs\<close> that answer a request before the wait is over, in the order in which their answers
  \<open>f B\<close> arrive: all of those asked, or fewer when the timer runs out.
\<close>

definition answered_by :: "Env \<Rightarrow> Node \<Rightarrow> Node list \<Rightarrow> (Node \<Rightarrow> HorizontalResponse) \<Rightarrow> bool" where
  "answered_by env A Bs f = (reqs_ok A \<and> \<not> mhas (nd_requests A) (e_uuid env)
     \<and> mset (arrivals (e_uuid env) (e_events env)) = mset (map f Bs)
     \<and> (\<exists>k. others env False A = Some (1 + int k)
          \<and> (length Bs = k \<or> (length Bs < k \<and> Timeout \<in> set (e_events env)))))"

lemma sum_fold: "fold (+) xs (z :: int) = sum_list xs + z"
  by (induction xs arbitrary: z) simp_all

lemma answered_byE:
  assumes "answered_by env A Bs f"
  obtains k where "reqs_ok A" "\<not> mhas (nd_requests A) (e_uuid env)" "others env False A = Some (1 + int k)" "0 < k"
    "Timeout \<in> set (e_events env) \<or> k \<le> length (arrivals (e_uuid env) (e_events env))"
    "take k (arrivals (e_uuid env) (e_events env)) = arrivals (e_uuid env) (e_events env)"
    "set (arrivals (e_uuid env) (e_events env)) = f ` set Bs"
    "mset (arrivals (e_uuid env) (e_events env)) = mset (map f Bs)"
proof -
  let ?rs = "arrivals (e_uuid env) (e_events env)"
  from assms obtain k where k: "others env False A = Some (1 + int k)"
    "length Bs = k \<or> (length Bs < k \<and> Timeout \<in> set (e_events env))" by (auto simp: answered_by_def)
  from assms have m: "mset ?rs = mset (map f Bs)" by (simp add: answered_by_def)
  then have l: "length ?rs = length Bs" by (metis length_map size_mset)
  show thesis
  proof (rule that [OF _ _ k(1)])
    show "0 < k" using othersD(1) [OF k(1)] by simp
    show "Timeout \<in> set (e_events env) \<or> k \<le> length ?rs" "take k ?rs = ?rs" using k(2) l by auto
    show "set ?rs = f ` set Bs" using mset_eq_setD [OF m] by simp
    show "mset ?rs = mset (map f Bs)" by (rule m)
  qed (use assms in \<open>simp_all add: answered_by_def\<close>)
qed

subsection \<open>Counting\<close>

context aggregate
begin

lemma answers_gathered:
  assumes "answered_by env A Bs f" "\<forall>B \<in> set Bs. ok (f B)" "others env False A = Some (hx_numSub ex)"
  shows "\<exists>resp A'. sendRequest env appId ty ex opts A = Some (resp, A') \<and> asked env appId ty opts A A'
    \<and> val resp = fold combine (map (val \<circ> f) Bs) (val (initial_response (newRequest (e_uuid env) appId ty ex)))"
proof -
  from answered_byE [OF assms(1)] obtain k where k: "reqs_ok A" "\<not> mhas (nd_requests A) (e_uuid env)"
    "others env False A = Some (1 + int k)" "0 < k"
    "Timeout \<in> set (e_events env) \<or> k \<le> length (arrivals (e_uuid env) (e_events env))"
    "take k (arrivals (e_uuid env) (e_events env)) = arrivals (e_uuid env) (e_events env)"
    "set (arrivals (e_uuid env) (e_events env)) = f ` set Bs"
    "mset (arrivals (e_uuid env) (e_events env)) = mset (map f Bs)" by metis
  from k(8) have m: "mset (map val (arrivals (e_uuid env) (e_events env))) = mset (map (val \<circ> f) Bs)"
    by (metis mset_map map_map)
  have ok: "\<forall>r \<in> set (arrivals (e_uuid env) (e_events env)). ok r" using assms(2) k(7) by simp
  from assms(3) k(3) have n: "hx_numSub ex = 1 + int k" by simp
  from request_gathers [OF k(1,2) ok n k(4,5), of appId opts] k(6) any_order [OF m]
  show ?thesis by simp
qed

end

lemma initial_simps [simp]:
  "hr_TotalCount (initial_response (newRequest i app ty ex)) = hx_totalCount ex"
  "hr_ChannelsWithSocketsCount (initial_response (newRequest i app ty ex)) = Some (the_map (hx_channelsWithSocketsCount ex))"
  "hr_Members (initial_response (newRequest i app ty ex)) = Some (the_map (hx_members ex))"
  "hr_Exists (initial_response (newRequest i app ty ex)) = False"
  by (simp_all add: initial_response_def newRequest_def)

lemma the_map_Some [simp]: "the_map (Some m) = m" "the_map None = []"
  by (simp_all add: the_map_def)

text \<open>C34
  A node that counts the sockets of an app, or of a channel, over the cluster adds up its own number
  and those of the nodes that answer in time, in whatever order the answers arrive. It publishes the
  request, which makes each of these nodes answer with its number.
\<close>
theorem cluster_counts:
  assumes "answered_by env A Bs (\<lambda>B. (response (e_uuid env))\<lparr>hr_TotalCount := la_GetSocketsCount app (nd_world B)\<rparr>)"
    and "answered_by env' A Bs (\<lambda>B. (response (e_uuid env'))\<lparr>hr_TotalCount := la_GetChannelSocketsCount app c (nd_world B)\<rparr>)"
    and "\<forall>B \<in> set Bs. \<not> mhas (nd_requests B) (e_uuid env) \<and> \<not> mhas (nd_requests B) (e_uuid env')"
  shows "(\<exists>A'. h_GetSocketsCount env app False A = Some (\<Sum>B \<leftarrow> A # Bs. la_GetSocketsCount app (nd_world B), A')
      \<and> asked env app SOCKETS_COUNT None A A')
    \<and> (\<exists>A'. h_GetChannelSocketsCount env' app c False A = Some (\<Sum>B \<leftarrow> A # Bs. la_GetChannelSocketsCount app c (nd_world B), A')
      \<and> asked env' app CHANNEL_SOCKETS_COUNT (Some [(''channel'', c)]) A A')
    \<and> (\<forall>B \<in> set Bs. \<forall>e.
         onRequest e (request_text (e_uuid env) app SOCKETS_COUNT None) B =
           Some (Some (Response ((response (e_uuid env))\<lparr>hr_TotalCount := la_GetSocketsCount app (nd_world B)\<rparr>)), B)
         \<and> onRequest e (request_text (e_uuid env') app CHANNEL_SOCKETS_COUNT (Some [(''channel'', c)])) B =
           Some (Some (Response ((response (e_uuid env'))\<lparr>hr_TotalCount := la_GetChannelSocketsCount app c (nd_world B)\<rparr>)), B))"
proof (intro conjI)
  from answered_byE [OF assms(1)] obtain k where k: "others env False A = Some (1 + int k)" by metis
  let ?ex = "(extra (1 + int k))\<lparr>hx_totalCount := la_GetSocketsCount app (nd_world A)\<rparr>"
  from sockets_count.answers_gathered [OF assms(1), of ?ex app None] k
  show "\<exists>A'. h_GetSocketsCount env app False A = Some (\<Sum>B \<leftarrow> A # Bs. la_GetSocketsCount app (nd_world B), A')
      \<and> asked env app SOCKETS_COUNT None A A'"
    by (auto simp: h_GetSocketsCount_def extra_def sum_fold comp_def)
next
  from answered_byE [OF assms(2)] obtain k where k: "others env' False A = Some (1 + int k)" by metis
  let ?ex = "(extra (1 + int k))\<lparr>hx_totalCount := la_GetChannelSocketsCount app c (nd_world A)\<rparr>"
  from channel_sockets_count.answers_gathered [OF assms(2), of ?ex app "Some [(''channel'', c)]"] k
  show "\<exists>A'. h_GetChannelSocketsCount env' app c False A = Some (\<Sum>B \<leftarrow> A # Bs. la_GetChannelSocketsCount app c (nd_world B), A')
      \<and> asked env' app CHANNEL_SOCKETS_COUNT (Some [(''channel'', c)]) A A'"
    by (auto simp: h_GetChannelSocketsCount_def extra_def sum_fold comp_def)
qed (use assms(3) in \<open>simp add: answer_SOCKETS_COUNT answer_CHANNEL_SOCKETS_COUNT\<close>)

lemma demo_answered:
  "f (demo_node w ''B'') = r \<Longrightarrow> hr_RequestID r = ''r'' \<Longrightarrow>
     answered_by (demo_env [Arrives (Response r) []]) (demo_node v ''A'') [demo_node w ''B''] f"
  by (simp add: answered_by_def reqs_ok_def mhas_def received_def others_def getNumSub_def mget0_def)

theorem cluster_counts_witness:
  "\<exists>A'. h_GetSocketsCount (demo_env [Arrives (Response ((response ''r'')\<lparr>hr_TotalCount := 2\<rparr>)) []]) ''1'' False
      (demo_node demo_world ''A'') = Some (4, A')"
proof -
  have c: "la_GetSocketsCount ''1'' demo_world = 2" "la_GetChannelSocketsCount ''1'' ''c'' demo_world = 2"
    by (simp_all add: la_GetSocketsCount_def la_GetChannelSocketsCount_def demo_ns_def n_GetSockets_def n_GetChannelSockets_def)
  let ?e = "demo_env [Arrives (Response ((response ''r'')\<lparr>hr_TotalCount := 2\<rparr>)) []]"
  have id: "hr_RequestID ((response ''r'')\<lparr>hr_TotalCount := 2\<rparr>) = ''r''" by (simp add: response_def)
  have "\<exists>A'. h_GetSocketsCount ?e ''1'' False (demo_node demo_world ''A'') =
      Some (\<Sum>B \<leftarrow> demo_node demo_world ''A'' # [demo_node demo_world ''B'']. la_GetSocketsCount ''1'' (nd_world B), A')"
    using cluster_counts [of ?e "demo_node demo_world ''A''" "[demo_node demo_world ''B'']" "''1''" ?e "''c''"]
      demo_answered [OF _ id] c by (auto simp: mhas_def)
  with c show ?thesis by simp
qed

text \<open>
  The channel index of the cluster: for every channel the numbers of subscriptions on the nodes
  that answer in time are added to the node's own.
\<close>
theorem cluster_channel_counts:
  assumes "answered_by env A Bs (\<lambda>B. (response (e_uuid env))\<lparr>hr_ChannelsWithSocketsCount := Some (la_GetChannelsWithSocketsCount app (nd_world B))\<rparr>)"
    and "\<forall>B \<in> set Bs. la_wf (nd_world B)"
  shows "\<exists>m A'. h_GetChannelsWithSocketsCount env app False A = Some (m, A')
    \<and> (\<forall>c. mget0 0 m c = (\<Sum>B \<leftarrow> A # Bs. mget0 0 (la_GetChannelsWithSocketsCount app (nd_world B)) c))"
proof -
  let ?f = "\<lambda>B. (response (e_uuid env))\<lparr>hr_ChannelsWithSocketsCount := Some (la_GetChannelsWithSocketsCount app (nd_world B))\<rparr>"
  from answered_byE [OF assms(1)] obtain k where k: "others env False A = Some (1 + int k)" by metis
  let ?ex = "(extra (1 + int k))\<lparr>hx_channelsWithSocketsCount := Some (la_GetChannelsWithSocketsCount app (nd_world A))\<rparr>"
  have wf: "wf_map (la_GetChannelsWithSocketsCount app (nd_world B))" if "B \<in> set Bs" for B
    using la_wf_ns [of "nd_world B" app] assms(2) that
    by (auto simp: la_GetChannelsWithSocketsCount_def n_GetChannelsWithSocketsCount_def n_GetChannels_def ns_wf_def
        wf_map_vals wf_map_def [of "[]"] split: option.split)
  then have ok: "\<forall>B \<in> set Bs. counts_ok (?f B)" by (simp add: counts_ok_def)
  have n: "others env False A = Some (hx_numSub ?ex)" using k by (simp add: extra_def)
  note g = channel_counts.answers_gathered [OF assms(1) ok n, of app None]
  from g obtain resp A' where s: "sendRequest env app CHANNELS_WITH_SOCKETS_COUNT ?ex None A = Some (resp, A')" by blast
  have "count_of c resp = (\<Sum>B \<leftarrow> A # Bs. mget0 0 (la_GetChannelsWithSocketsCount app (nd_world B)) c)" for c
    using g [where c = c] s by (simp add: sum_fold comp_def count_of_def)
  with s k show ?thesis by (simp add: h_GetChannelsWithSocketsCount_def count_of_def)
qed

theorem cluster_channel_counts_witness:
  "\<exists>m A'. h_GetChannelsWithSocketsCount
      (demo_env [Arrives (Response ((response ''r'')\<lparr>hr_ChannelsWithSocketsCount := Some [(''c'', 2)]\<rparr>)) []]) ''1'' False
      (demo_node demo_world ''A'') = Some (m, A') \<and> mget0 0 m ''c'' = 4"
proof -
  let ?r = "(response ''r'')\<lparr>hr_ChannelsWithSocketsCount := Some [(''c'', 2)]\<rparr>"
  have c: "la_GetChannelsWithSocketsCount ''1'' demo_world = [(''c'', 2)]"
    by (simp add: la_GetChannelsWithSocketsCount_def demo_ns_def n_GetChannelsWithSocketsCount_def n_GetChannels_def)
  have id: "hr_RequestID ?r = ''r''" by (simp add: response_def)
  from cluster_channel_counts [of "demo_env [Arrives (Response ?r) []]" "demo_node demo_world ''A''" "[demo_node demo_world ''B'']" "''1''"]
    demo_answered [OF _ id] c obtain m A' where
    "h_GetChannelsWithSocketsCount (demo_env [Arrives (Response ?r) []]) ''1'' False (demo_node demo_world ''A'') = Some (m, A')"
    "\<forall>d. mget0 0 m d = (\<Sum>B \<leftarrow> demo_node demo_world ''A'' # [demo_node demo_world ''B'']. mget0 0 (la_GetChannelsWithSocketsCount ''1'' (nd_world B)) d)"
    by auto
  with c show ?thesis by (auto simp: mget0_def)
qed

text \<open>
  The members of a presence channel over the cluster are the users who are members on some node, but
  their number is the sum of the numbers of the nodes: a user with connections to two nodes is
  one member in the list and counts twice.
\<close>
theorem cluster_members:
  assumes "answered_by env A Bs (\<lambda>B. (response (e_uuid env))\<lparr>hr_Members := Some (ms B)\<rparr>)"
    and "answered_by env' A Bs (\<lambda>B. (response (e_uuid env'))\<lparr>hr_TotalCount := int (length (ms B))\<rparr>)"
    and "\<forall>B \<in> set (A # Bs). la_GetChannelMembers app c (nd_world B) = Some (ms B)"
  shows "(\<exists>m A'. h_GetChannelMembers env app c False A = Some (m, A') \<and> fst ` set m = (\<Union>B \<in> set (A # Bs). fst ` set (ms B)))
    \<and> (\<exists>A'. h_GetChannelMembersCount env' app c False A = Some (\<Sum>B \<leftarrow> A # Bs. int (length (ms B)), A'))"
proof (intro conjI)
  let ?o = "Some [(''channel'', c)]"
  have u: "fold (\<union>) (map (\<lambda>B. fst ` set (ms B)) Bs) z = (\<Union>B \<in> set Bs. fst ` set (ms B)) \<union> z" for z
    by (induction Bs arbitrary: z) auto
  have l: "la_GetChannelMembersCount app c (nd_world A) = Some (int (length (ms A)))"
    using assms(3) by (auto simp: la_GetChannelMembersCount_def la_GetChannelMembers_def split: option.splits)
  from answered_byE [OF assms(1)] obtain k where k: "others env False A = Some (1 + int k)" by metis
  from members.answers_gathered [OF assms(1), of "(extra (1 + int k))\<lparr>hx_members := Some (ms A)\<rparr>" app ?o] k assms(3)
  show "\<exists>m A'. h_GetChannelMembers env app c False A = Some (m, A') \<and> fst ` set m = (\<Union>B \<in> set (A # Bs). fst ` set (ms B))"
    by (auto simp: h_GetChannelMembers_def extra_def member_ids_def comp_def u)
  from answered_byE [OF assms(2)] obtain k' where k': "others env' False A = Some (1 + int k')" by metis
  from members_count.answers_gathered [OF assms(2), of "(extra (1 + int k'))\<lparr>hx_totalCount := int (length (ms A))\<rparr>" app ?o] k' l
  show "\<exists>A'. h_GetChannelMembersCount env' app c False A = Some (\<Sum>B \<leftarrow> A # Bs. int (length (ms B)), A')"
    by (auto simp: h_GetChannelMembersCount_def extra_def sum_fold comp_def)
qed

definition demo_member_world :: World where
  "demo_member_world = upd_ws 1 (\<lambda>s. s\<lparr>ws_PresenceData := Some [(''c'', Some \<lparr>md_UserID = ''u'', md_UserInfo = None\<rparr>)]\<rparr>) demo_world"

theorem cluster_members_witness:
  "(\<exists>m A'. h_GetChannelMembers (demo_env [Arrives (Response ((response ''r'')\<lparr>hr_Members := Some [(''u'', \<lparr>md_UserID = ''u'', md_UserInfo = None\<rparr>)]\<rparr>)) []])
       ''1'' ''c'' False (demo_node demo_member_world ''A'') = Some (m, A') \<and> fst ` set m = {''u''})
   \<and> (\<exists>A'. h_GetChannelMembersCount (demo_env [Arrives (Response ((response ''r'')\<lparr>hr_TotalCount := 1\<rparr>)) []])
       ''1'' ''c'' False (demo_node demo_member_world ''A'') = Some (2, A'))"
proof -
  let ?m = "[(''u'', \<lparr>md_UserID = ''u'', md_UserInfo = None\<rparr>)]"
  let ?r = "(response ''r'')\<lparr>hr_Members := Some ?m\<rparr>" and ?q = "(response ''r'')\<lparr>hr_TotalCount := 1\<rparr>"
  have n: "ns_of demo_member_world ''1'' = Some demo_ns" by (simp add: demo_member_world_def)
  have c: "la_GetChannelMembers ''1'' ''c'' demo_member_world = Some ?m"
    by (simp add: la_GetChannelMembers_def n n_GetChannelMembers_def n_GetChannelSockets_def demo_ns_def
        getPresenceDataForChannel_def demo_member_world_def)
  have id: "hr_RequestID ?r = ''r''" "hr_RequestID ?q = ''r''" by (simp_all add: response_def)
  from cluster_members [of "demo_env [Arrives (Response ?r) []]" "demo_node demo_member_world ''A''"
      "[demo_node demo_member_world ''B'']" "\<lambda>_. ?m" "demo_env [Arrives (Response ?q) []]" "''1''" "''c''"]
    demo_answered [OF _ id(1)] demo_answered [OF _ id(2)] c
  show ?thesis by simp
qed

subsection \<open>Every query ends\<close>

lemma request_returns:
  assumes "reqs_ok nd" "\<not> mhas (nd_requests nd) (e_uuid env)"
    and "\<forall>r \<in> set (arrivals (e_uuid env) (e_events env)). no_nil r" "Timeout \<in> set (e_events env)"
  obtains resp nd' where "sendRequest env app ty ex opts nd = Some (resp, nd')" "asked env app ty opts nd nd'"
  using sendRequest_returns [OF assms, where P = "\<lambda>_. True" and appId = app and ty = ty and ex = ex and opts = opts] by blast

text \<open>
  Every query ends, however many nodes answer and in whatever order, once the timer runs out:
  a node never waits for a node that is gone. The only panics are those of its own presence maps
  and of a socket that is null in a response.
\<close>
theorem query_returns:
  assumes "reqs_ok nd" "\<not> mhas (nd_requests nd) (e_uuid env)"
    and "\<forall>r \<in> set (arrivals (e_uuid env) (e_events env)). no_nil r" "Timeout \<in> set (e_events env)"
  shows "h_GetSockets env app loc nd \<noteq> None \<and> h_GetSocketsCount env app loc nd \<noteq> None
    \<and> h_GetChannels env app loc nd \<noteq> None \<and> h_GetChannelsWithSocketsCount env app loc nd \<noteq> None
    \<and> h_GetChannelSockets env app c loc nd \<noteq> None \<and> h_GetChannelSocketsCount env app c loc nd \<noteq> None
    \<and> h_IsInChannel env app c i loc nd \<noteq> None
    \<and> (h_GetChannelMembers env app c loc nd = None \<longleftrightarrow> la_GetChannelMembers app c (nd_world nd) = None)
    \<and> (h_GetChannelMembersCount env app c loc nd = None \<longleftrightarrow> la_GetChannelMembersCount app c (nd_world nd) = None)
    \<and> (h_GetPresenceChannelsWithUsersCount env app loc nd = None
         \<longleftrightarrow> la_GetPresenceChannelsWithUsersCount app (nd_world nd) = None)"
proof -
  have r: "sendRequest env app ty ex opts nd \<noteq> None" for ty ex opts
    by (rule request_returns [OF assms, of app ty ex opts]) simp
  show ?thesis
    unfolding h_GetSockets_def h_GetSocketsCount_def h_GetChannels_def h_GetChannelsWithSocketsCount_def
      h_GetChannelSockets_def h_GetChannelSocketsCount_def h_IsInChannel_def h_GetChannelMembers_def
      h_GetChannelMembersCount_def h_GetPresenceChannelsWithUsersCount_def
    by (simp add: r Option.bind_eq_None_conv case_prod_beta Let_def del: not_None_eq split: option.split)
qed

theorem query_returns_witness:
  "h_GetSocketsCount (demo_env [Timeout]) ''1'' False (demo_node demo_world ''A'') \<noteq> None"
  using query_returns [of "demo_node demo_world ''A''" "demo_env [Timeout]"] by (simp add: reqs_ok_def mhas_def)

text \<open>
  Whether a socket is in a channel, asked over the cluster, ignores the node's own answer: when no
  other node has the socket the answer is no, although the socket is subscribed on the node itself.
\<close>
theorem local_membership_lost:
  assumes "reqs_ok nd" "\<not> mhas (nd_requests nd) (e_uuid env)" "others env False nd = Some numSub"
    and "\<forall>r \<in> set (arrivals (e_uuid env) (e_events env)). no_nil r \<and> \<not> hr_Exists r" "Timeout \<in> set (e_events env)"
    and "la_IsInChannel app c i (nd_world nd)"
  shows "\<exists>nd'. h_IsInChannel env app c i False nd = Some (False, nd') \<and> h_IsInChannel env app c i True nd = Some (True, nd)"
proof -
  have "\<exists>resp nd'. sendRequest env app SOCKET_EXISTS_IN_CHANNEL (extra numSub) (Some [(''channel'', c), (''socketId'', i)]) nd
        = Some (resp, nd')
      \<and> asked env app SOCKET_EXISTS_IN_CHANNEL (Some [(''channel'', c), (''socketId'', i)]) nd nd' \<and> \<not> hr_Exists resp"
    by (rule sendRequest_returns [OF assms(1,2) _ assms(5)]) (use assms(4) in auto)
  with assms(3,6) show ?thesis by (auto simp: h_IsInChannel_def)
qed

theorem local_membership_lost_witness:
  "\<exists>nd'. h_IsInChannel (demo_env [Timeout]) ''1'' ''c'' ''1.1'' False (demo_node demo_world ''A'') = Some (False, nd')
     \<and> h_IsInChannel (demo_env [Timeout]) ''1'' ''c'' ''1.1'' True (demo_node demo_world ''A'') = Some (True, demo_node demo_world ''A'')"
  by (rule local_membership_lost [where numSub = 2])
    (simp_all add: reqs_ok_def mhas_def others_def getNumSub_def mget0_def la_IsInChannel_def n_IsInChannel_def demo_ns_def)

end
