(* ===== verification/Cluster_Faults.thy ===== *)
theory Cluster_Faults
  imports Cluster_Queries
begin

text \<open>
  Two requests that a node of the cluster (\<open>internal/adaptersHorizontal.go\<close>) answers wrongly: asking
  for its channels stops it, and terminating the connections of a user never comes to rest.
\<close>

text \<open>
  A request for the channels of an app brings down every other node that has a channel of the app:
  the copy of its channels is written to a nil map. Only a node without channels answers.
\<close>
theorem channels_request_panics:
  assumes "\<not> mhas (nd_requests B) i"
  shows "onRequest env (request_text i app CHANNELS None) B =
     (case ns_of (nd_world B) app of
        None \<Rightarrow> Some (Some (Response (response i)), B)
      | Some n \<Rightarrow> if ns_Channels n = [] then Some (Some (Response (response i)), B) else None)"
  using assms
  by (simp add: onRequest_text process_request_def h_GetChannels_def la_GetChannels_def n_GetChannels_def split: option.split)

theorem channels_request_panics_witness:
  "onRequest (demo_env []) (request_text ''q'' ''1'' CHANNELS None) (demo_node demo_world ''B'') = None"
  using channels_request_panics [of "demo_node demo_world ''B''" "''q''" "demo_env []" "''1''"]
  by (simp add: mhas_def demo_ns_def)

subsection \<open>Terminating the connections of a user\<close>

definition terminate_text :: "string \<Rightarrow> AppID \<Rightarrow> UserID \<Rightarrow> string" where
  "terminate_text i app user = request_text i app TERMINATE_USER_CONNECTIONS (Some [(''userId'', user)])"

text \<open>A node that can serve requests: its own pending ones are in order and its adapter is well-formed.\<close>

definition serving :: "Node \<Rightarrow> bool" where
  "serving nd = (reqs_ok nd \<and> nd_requests nd = [] \<and> world_ok (nd_world nd))"

definition quiet_env :: "Env \<Rightarrow> bool" where
  "quiet_env env = (e_numsub env \<noteq> None \<and> e_events env = [Timeout])"

lemma world_ok_on_metrics [simp]: "world_ok (nd_world (on_metrics f nd)) = world_ok (nd_world nd)"
  using world_ok_transfer [of "nd_world nd" "nd_world (on_metrics f nd)"]
    world_ok_transfer [of "nd_world (on_metrics f nd)" "nd_world nd"]
    same_namespaces [of "nd_world (on_metrics f nd)" "nd_world nd"]
  by (auto simp: on_metrics_def on_world_def same_id_def world_okD(1))

lemma terminate_answer:
  assumes "serving B" "quiet_env env"
  shows "\<exists>B'. onRequest env (terminate_text i app user) B = Some (Some Success, B') \<and> serving B'
    \<and> nd_published B' = nd_published B @ [(nd_requestChannel B, Text (terminate_text (e_uuid env) app user))]
    \<and> nd_requestChannel B' = nd_requestChannel B
    \<and> (\<forall>j b. registered (nd_world B') app j = Some b \<longrightarrow> ws_userID (w_heap (nd_world B') b) \<noteq> user)"
proof -
  let ?o = "Some [(''userId'', user)]"
  from assms(2) obtain numSub where ns: "getNumSub (e_numsub env) B = Some numSub" and ev: "e_events env = [Timeout]"
    by (auto simp: quiet_env_def getNumSub_def)
  have "sendRequest env app TERMINATE_USER_CONNECTIONS (extra numSub) ?o B \<noteq> None"
    by (rule request_returns [of B env app TERMINATE_USER_CONNECTIONS "extra numSub" ?o])
      (use assms(1) ev in \<open>simp_all add: serving_def mhas_def\<close>)
  then obtain resp B1 where s: "sendRequest env app TERMINATE_USER_CONNECTIONS (extra numSub) ?o B = Some (resp, B1)" by auto
  have a: "asked env app TERMINATE_USER_CONNECTIONS ?o B B1"
    by (rule request_returns [of B env app TERMINATE_USER_CONNECTIONS "extra numSub" ?o])
      (use assms(1) ev s in \<open>simp_all add: serving_def mhas_def\<close>)
  have w: "world_ok (nd_world B1)"
  proof -
    have "world_ok (nd_world B)" using assms(1) by (simp add: serving_def)
    moreover have "w_heap (nd_world B1) = w_heap (nd_world B)" using s ev
      by (auto simp: Let_def sendRequest_def waitForResponse_def on_metrics_def on_world_def broadcastToChannel_def)
    ultimately show ?thesis
      using world_ok_transfer [of "nd_world B" "nd_world B1"] same_namespaces [of "nd_world B1" "nd_world B"] a
      by (auto simp: asked_def same_id_def world_okD(1))
  qed
  from terminate_runs [OF w, of app user] obtain v where v: "la_TerminateUserConnections app user (nd_world B1) = Some v"
    "world_ok v" "\<forall>j b. registered v app j = Some b \<longrightarrow> ws_userID (w_heap v b) \<noteq> user"
    by (auto simp: runs_iff thinned_def)
  have e: "onRequest env (terminate_text i app user) B = Some (Some Success, B1\<lparr>nd_world := v\<rparr>)"
    using assms(1) ns s v(1)
    by (simp add: terminate_text_def onRequest_text serving_def mhas_def process_request_def h_TerminateUserConnections_def
        terminateLocalUserConnections_def lift_world_def)
  show ?thesis
    by (rule exI [of _ "B1\<lparr>nd_world := v\<rparr>"])
      (use e a v assms(1) in \<open>simp add: serving_def asked_def terminate_text_def reqs_ok_def\<close>)
qed

text \<open>
  Two nodes, each of which is delivered the last request of the other, starting with the request \<open>i\<close>
  on its way to the second. Every delivery has its own environment.
\<close>

fun storm :: "Env list \<Rightarrow> string \<Rightarrow> AppID \<Rightarrow> UserID \<Rightarrow> Node \<Rightarrow> Node \<Rightarrow> (Node \<times> Node) option" where
  "storm [] i app user A B = Some (A, B)"
| "storm (env # envs) i app user A B =
     do { (_, B) \<leftarrow> onRequest env (terminate_text i app user) B; storm envs (e_uuid env) app user B A }"

lemma storm_runs:
  assumes "serving A" "serving B" "\<forall>env \<in> set envs. quiet_env env"
  shows "\<exists>A' B'. storm envs i app user A B = Some (A', B') \<and> serving A' \<and> serving B'
    \<and> length (nd_published A') + length (nd_published B') = length (nd_published A) + length (nd_published B) + length envs"
  using assms
proof (induction envs arbitrary: i A B)
  case (Cons env envs)
  from terminate_answer [OF Cons.prems(2), of env i app user] Cons.prems(3) obtain B1 where B1:
    "onRequest env (terminate_text i app user) B = Some (Some Success, B1)" "serving B1"
    "nd_published B1 = nd_published B @ [(nd_requestChannel B, Text (terminate_text (e_uuid env) app user))]" by auto
  from Cons.IH [OF B1(2) Cons.prems(1), of "e_uuid env"] Cons.prems(3) obtain A' B' where
    "storm envs (e_uuid env) app user B1 A = Some (A', B')" "serving A'" "serving B'"
    "length (nd_published A') + length (nd_published B') = length (nd_published B1) + length (nd_published A) + length envs"
    by auto
  with B1 show ?case by simp
qed simp

text \<open>C35
  Terminating the connections of a user never comes to rest in a cluster. A node that receives the
  request ends the user's local connections, but it also publishes a new request of its own
  to do the same, and the success message it answers with resolves no request. So two nodes that
  deliver each other's requests publish one more for every one they handle, without end.
\<close>
theorem terminate_storm:
  assumes "serving A" "serving B" "quiet_env env" "\<forall>e \<in> set envs. quiet_env e"
  shows "(\<exists>B'. onRequest env (terminate_text i app user) B = Some (Some Success, B')
      \<and> nd_published B' = nd_published B @ [(nd_requestChannel B, Text (terminate_text (e_uuid env) app user))]
      \<and> (\<forall>j b. registered (nd_world B') app j = Some b \<longrightarrow> ws_userID (w_heap (nd_world B') b) \<noteq> user))
    \<and> received Success = Some (response []) \<and> fst (onResponse (response []) [] A) = None
    \<and> (\<exists>A' B'. storm envs i app user A B = Some (A', B')
         \<and> length (nd_published A') + length (nd_published B') =
             length (nd_published A) + length (nd_published B) + length envs)"
  using terminate_answer [OF assms(2,3), of i app user] storm_runs [OF assms(1,2,4), of i app user]
  assms(1)
  by (auto simp: fst_onResponse received_def response_def serving_def)

theorem terminate_storm_witness:
  "\<exists>A' B'. storm (replicate 1000 (demo_env [Timeout])) ''q'' ''1'' ''u'' (demo_node demo_world ''A'') (demo_node demo_world ''B'')
       = Some (A', B') \<and> length (nd_published A') + length (nd_published B') = 1000"
proof -
  have s: "serving (demo_node demo_world u)" for u by (simp add: serving_def reqs_ok_def)
  have q: "quiet_env (demo_env [Timeout])" by (simp add: quiet_env_def)
  from terminate_storm [OF s s q, of "replicate 1000 (demo_env [Timeout])" "''q''" "''1''" "''u''" "''B''" "''A''"] q
  show ?thesis by auto
qed

subsection \<open>A lost subscription\<close>

text \<open>
  The goroutines that receive from Redis end with the first error of \<open>Receive\<close> and nothing starts them
  again: whatever other nodes publish afterwards has no effect on the node.
\<close>

lemma deaf_after_error:
  "psub_loop (ms @ ReceiveError # rest) nd = psub_loop ms nd"
  "direct_loop (ms @ ReceiveError # rest) nd = direct_loop ms nd"
proof -
  show "psub_loop (ms @ ReceiveError # rest) nd = psub_loop ms nd"
    by (induction ms nd rule: psub_loop.induct) (auto split: Option.bind_split)
  show "direct_loop (ms @ ReceiveError # rest) nd = direct_loop ms nd"
    by (induction ms nd rule: direct_loop.induct) (auto split: Option.bind_split)
qed

end
