(* ===== verification/Redis_Queue.thy ===== *)
theory Redis_Queue
  imports Sync_Queue Redis_Cache
begin

text \<open>
  \<open>internal/queues/queueRedis.go\<close>: the webhook queue kept in two Redis lists, the queue itself and the
  jobs being worked on. The Redis client is a parameter (\<open>LPUSH\<close>, \<open>BRPOPLPUSH\<close>, \<open>LREM\<close>, and reading a
  list, in which the laws are stated), as is the JSON text of a job, which holds a structure of
  the Pusher library. One round of \<open>monitorQueue\<close> takes one job or finds the queue empty. It is \<open>None\<close> when
  it panics, which nothing recovers.
\<close>

record 's redis_lists =
  rl_LRange :: "'s \<Rightarrow> string \<Rightarrow> string list"
  rl_LPush :: "'s \<Rightarrow> string \<Rightarrow> string \<Rightarrow> 's"
  rl_BRPopLPush :: "'s \<Rightarrow> string \<Rightarrow> string \<Rightarrow> string option \<times> 's"
  rl_LRem :: "'s \<Rightarrow> string \<Rightarrow> string \<Rightarrow> 's"

text \<open>A job as it is read back: its two pointers may be nil.\<close>

record DecodedJob =
  dj_Webhook :: "Webhook option"
  dj_Payload :: "WebhookEvent option"
  dj_AppID :: AppID
  dj_AppKey :: string
  dj_AppSecret :: string

record job_text =
  jt_marshal :: "QueuedJobData \<Rightarrow> string option"
  jt_unmarshal :: "string \<Rightarrow> DecodedJob option"

definition queueName :: "string \<Rightarrow> string" where
  "queueName pref = GetKey pref ''webhook_queue''"

definition workingQueue :: "string \<Rightarrow> string" where
  "workingQueue pref = queueName pref @ ''_working''"

definition rq_Init :: "bool \<Rightarrow> string option" where
  "rq_Init client = (if \<not> client then Some ''redis client is not initialized'' else None)"

definition NewRedisQueue :: "bool \<Rightarrow> bool \<Rightarrow> bool \<Rightarrow> string + Queue" where
  "NewRedisQueue ctx client sender =
     (if \<not> client then Inl ''redis client is nil'' else NewAbstractQueue ctx True sender True (3 * Second) (rq_Init client))"

definition rq_addToQueue :: "'s redis_lists \<Rightarrow> job_text \<Rightarrow> string \<Rightarrow> QueuedJobData \<Rightarrow> 's \<Rightarrow> 's" where
  "rq_addToQueue rl jt pref jobData s =
     (case jt_marshal jt jobData of
        None \<Rightarrow> s
      | Some eventData \<Rightarrow> rl_LPush rl s (queueName pref) eventData)"

definition removeEventFromQueue :: "'s redis_lists \<Rightarrow> string \<Rightarrow> string \<Rightarrow> 's \<Rightarrow> 's" where
  "removeEventFromQueue rl pref rawEventString s = rl_LRem rl s (workingQueue pref) rawEventString"

text \<open>
  The job whose webhook is sent, if any: \<open>WebhookSender.Send\<close> refuses a nil webhook. \<open>NewAbstractQueue\<close> starts \<open>monitorQueue\<close> before
  \<open>NewRedisQueue\<close> has stored the \<open>AbstractQueue\<close> in the Redis queue: until then (\<open>aq\<close> false) \<open>sendWebhook\<close> is called
  on a nil pointer.
\<close>

definition sent_job :: "DecodedJob \<Rightarrow> WebhookEvent \<Rightarrow> QueuedJobData list" where
  "sent_job job event =
     (case dj_Webhook job of
        None \<Rightarrow> []
      | Some webhook \<Rightarrow> [\<lparr>jd_Webhook = webhook, jd_Payload = event, jd_AppID = dj_AppID job,
                          jd_AppKey = dj_AppKey job, jd_AppSecret = dj_AppSecret job\<rparr>])"

definition processEvent ::
  "bool \<Rightarrow> 's redis_lists \<Rightarrow> job_text \<Rightarrow> string \<Rightarrow> string \<Rightarrow> 's \<Rightarrow> (QueuedJobData list \<times> 's) option" where
  "processEvent aq rl jt pref rawEventString s =
     (case jt_unmarshal jt rawEventString of
        None \<Rightarrow> Some ([], removeEventFromQueue rl pref rawEventString s)
      | Some job \<Rightarrow>
          (case dj_Payload job of
             None \<Rightarrow> None
           | Some event \<Rightarrow>
               if \<not> aq then None
               else
                 Some (sent_job job event, removeEventFromQueue rl pref rawEventString s)))"

definition rq_round ::
  "bool \<Rightarrow> 's redis_lists \<Rightarrow> job_text \<Rightarrow> string \<Rightarrow> 's \<Rightarrow> (QueuedJobData list \<times> 's) option" where
  "rq_round aq rl jt pref s =
     (case rl_BRPopLPush rl s (queueName pref) (workingQueue pref) of
        (None, s) \<Rightarrow> Some ([], s)
      | (Some eventData, s) \<Rightarrow> processEvent aq rl jt pref eventData s)"

fun rq_monitorQueue ::
  "bool \<Rightarrow> 's redis_lists \<Rightarrow> job_text \<Rightarrow> string \<Rightarrow> nat \<Rightarrow> 's \<Rightarrow> (QueuedJobData list \<times> 's) option" where
  "rq_monitorQueue aq rl jt pref 0 s = Some ([], s)"
| "rq_monitorQueue aq rl jt pref (Suc n) s =
     (case rq_round aq rl jt pref s of
        None \<Rightarrow> None
      | Some (out, s) \<Rightarrow> map_option (apfst ((@) out)) (rq_monitorQueue aq rl jt pref n s))"

text \<open>\<open>Shutdown\<close> polls the working list: it may return when the list is empty.\<close>

definition rq_drained :: "'s redis_lists \<Rightarrow> string \<Rightarrow> 's \<Rightarrow> bool" where
  "rq_drained rl pref s = (length (rl_LRange rl s (workingQueue pref)) = 0)"

subsection \<open>Delivery\<close>

definition list_laws :: "'s redis_lists \<Rightarrow> bool" where
  "list_laws rl =
     ((\<forall>s k v k'. rl_LRange rl (rl_LPush rl s k v) k' = (if k' = k then v # rl_LRange rl s k else rl_LRange rl s k'))
      \<and> (\<forall>s k v k'. rl_LRange rl (rl_LRem rl s k v) k' = (if k' = k then remove1 v (rl_LRange rl s k) else rl_LRange rl s k'))
      \<and> (\<forall>s k d. rl_LRange rl s k = [] \<longrightarrow> rl_BRPopLPush rl s k d = (None, s))
      \<and> (\<forall>s k d v vs. rl_LRange rl s k = vs @ [v] \<longrightarrow> k \<noteq> d \<longrightarrow>
           (\<exists>s'. rl_BRPopLPush rl s k d = (Some v, s') \<and> rl_LRange rl s' k = vs
              \<and> rl_LRange rl s' d = v # rl_LRange rl s d)))"

text \<open>The text of a job can be read back.\<close>

definition whole_job :: "QueuedJobData \<Rightarrow> DecodedJob" where
  "whole_job job = \<lparr>dj_Webhook = Some (jd_Webhook job), dj_Payload = Some (jd_Payload job), dj_AppID = jd_AppID job,
                    dj_AppKey = jd_AppKey job, dj_AppSecret = jd_AppSecret job\<rparr>"

definition text_law :: "job_text \<Rightarrow> QueuedJobData \<Rightarrow> bool" where
  "text_law jt job = (\<exists>t. jt_marshal jt job = Some t \<and> jt_unmarshal jt t = Some (whole_job job))"

lemma queue_not_working: "workingQueue pref \<noteq> queueName pref" "queueName pref \<noteq> workingQueue pref"
  by (simp_all add: workingQueue_def)

lemma list_lawsD:
  assumes "list_laws rl"
  shows "rl_LRange rl (rl_LPush rl s k v) k' = (if k' = k then v # rl_LRange rl s k else rl_LRange rl s k')"
    "rl_LRange rl (rl_LRem rl s k v) k' = (if k' = k then remove1 v (rl_LRange rl s k) else rl_LRange rl s k')"
    "rl_LRange rl s k = [] \<Longrightarrow> rl_BRPopLPush rl s k d = (None, s)"
  using assms by (simp_all add: list_laws_def)

lemma takes_oldest:
  assumes "list_laws rl" "rl_LRange rl s (queueName pref) = vs @ [v]"
  obtains s' where "rl_BRPopLPush rl s (queueName pref) (workingQueue pref) = (Some v, s')"
    "rl_LRange rl s' (queueName pref) = vs" "rl_LRange rl s' (workingQueue pref) = v # rl_LRange rl s (workingQueue pref)"
  using assms queue_not_working unfolding list_laws_def by metis

text \<open>
  The queue meets the interface: it waits for the jobs whose texts are in the list, each of which is
  one of the jobs whose text can be read back, and works on those in \<open>ws\<close>.
\<close>

definition text_jobs :: "job_text \<Rightarrow> string \<Rightarrow> QueuedJobData list" where
  "text_jobs jt t =
     (case jt_unmarshal jt t of
        None \<Rightarrow> []
      | Some job \<Rightarrow> (case dj_Payload job of None \<Rightarrow> [] | Some event \<Rightarrow> sent_job job event))"

definition rq_waiting :: "'s redis_lists \<Rightarrow> job_text \<Rightarrow> string \<Rightarrow> 's \<Rightarrow> QueuedJobData list" where
  "rq_waiting rl jt pref s =
     concat (map (text_jobs jt) (rev (rl_LRange rl s (queueName pref))))"

definition rq_serves :: "'s redis_lists \<Rightarrow> job_text \<Rightarrow> string \<Rightarrow> string list \<Rightarrow> 's \<Rightarrow> bool" where
  "rq_serves rl jt pref ws s =
     (list_laws rl \<and> (\<forall>t \<in> set (rl_LRange rl s (queueName pref)). \<exists>job. jt_unmarshal jt t = Some (whole_job job))
      \<and> rl_LRange rl s (workingQueue pref) = ws)"

lemma whole_job_eq [simp]: "whole_job job = whole_job job' \<longleftrightarrow> job = job'"
  by (cases job; cases job') (simp add: whole_job_def)

lemma text_jobs_whole: "jt_unmarshal jt t = Some (whole_job job) \<Longrightarrow> text_jobs jt t = [job]"
  by (cases job) (simp add: text_jobs_def sent_job_def whole_job_def)

lemma rq_add:
  assumes "rq_serves rl jt pref ws s" "text_law jt job"
  shows "rq_serves rl jt pref ws (rq_addToQueue rl jt pref job s)
    \<and> rq_waiting rl jt pref (rq_addToQueue rl jt pref job s) = rq_waiting rl jt pref s @ [job]"
proof -
  from assms(2) obtain t where t: "jt_marshal jt job = Some t" "jt_unmarshal jt t = Some (whole_job job)"
    by (auto simp: text_law_def)
  from assms(1) have laws: "list_laws rl" by (simp add: rq_serves_def)
  from assms(1) t show ?thesis
    by (simp add: rq_serves_def rq_waiting_def text_jobs_whole rq_addToQueue_def list_lawsD(1) [OF laws] queue_not_working)
qed

lemma rq_work:
  assumes "rq_serves rl jt pref ws s" "rq_waiting rl jt pref s = job # jobs"
  shows "\<exists>s'. rq_round True rl jt pref s = Some ([job], s') \<and> rq_serves rl jt pref ws s' \<and> rq_waiting rl jt pref s' = jobs"
proof -
  from assms(1) have laws: "list_laws rl" by (simp add: rq_serves_def)
  from assms(2) obtain v vs where vs: "rev (rl_LRange rl s (queueName pref)) = v # vs"
    by (cases "rev (rl_LRange rl s (queueName pref))") (auto simp: rq_waiting_def)
  then have v: "rl_LRange rl s (queueName pref) = rev vs @ [v]" by (simp add: rev_swap)
  with assms(1) obtain job' where job': "jt_unmarshal jt v = Some (whole_job job')" by (auto simp: rq_serves_def)
  with assms(2) vs have job: "jt_unmarshal jt v = Some (whole_job job)" and jobs: "concat (map (text_jobs jt) vs) = jobs"
    by (auto simp: rq_waiting_def text_jobs_whole)
  from takes_oldest [OF laws v] obtain s' where s': "rl_BRPopLPush rl s (queueName pref) (workingQueue pref) = (Some v, s')"
    "rl_LRange rl s' (queueName pref) = rev vs" "rl_LRange rl s' (workingQueue pref) = v # rl_LRange rl s (workingQueue pref)" .
  let ?s = "rl_LRem rl s' (workingQueue pref) v"
  have "rq_round True rl jt pref s = Some ([job], ?s)"
    using s'(1) job by (cases job) (simp add: rq_round_def processEvent_def whole_job_def sent_job_def removeEventFromQueue_def)
  moreover have "rq_serves rl jt pref ws ?s" "rq_waiting rl jt pref ?s = jobs"
    using assms(1) v s' jobs by (auto simp: rq_serves_def rq_waiting_def list_lawsD(2) [OF laws] queue_not_working)
  ultimately show ?thesis by blast
qed

lemma rq_waits_for_none:
  "rq_serves rl jt pref ws s \<Longrightarrow> rq_waiting rl jt pref s = [] \<longleftrightarrow> rl_LRange rl s (queueName pref) = []"
  by (cases "rev (rl_LRange rl s (queueName pref))") (auto simp: rq_serves_def rq_waiting_def text_jobs_whole)

lemma rq_idle: "rq_serves rl jt pref ws s \<Longrightarrow> rq_waiting rl jt pref s = [] \<Longrightarrow> rq_round aq rl jt pref s = Some ([], s)"
  by (simp add: rq_waits_for_none, simp add: rq_serves_def rq_round_def list_lawsD(3))

interpretation rq: webhook_queue "rq_addToQueue rl jt pref" "rq_round True rl jt pref" "rq_waiting rl jt pref"
    "rq_serves rl jt pref ws" "\<lambda>job _. text_law jt job"
  for rl jt pref ws
  by unfold_locales (rule rq_add rq_idle rq_work; assumption)+

lemma rq_rounds: "rq.rounds rl jt pref n s = rq_monitorQueue True rl jt pref n s"
  by (induction n arbitrary: s) (auto split: option.split)

lemma rq_accepts_all: "list_all (text_law jt) jobs \<Longrightarrow> rq.accepts_all rl jt pref jobs s"
  by (induction jobs arbitrary: s) auto

lemma rq_empty: "list_laws rl \<Longrightarrow> rl_LRange rl s (queueName pref) = [] \<Longrightarrow>
    rq_serves rl jt pref (rl_LRange rl s (workingQueue pref)) s \<and> rq_waiting rl jt pref s = []"
  by (simp add: rq_serves_def rq_waiting_def)

fun rq_add_all :: "'s redis_lists \<Rightarrow> job_text \<Rightarrow> string \<Rightarrow> QueuedJobData list \<Rightarrow> 's \<Rightarrow> 's" where
  "rq_add_all rl jt pref [] s = s"
| "rq_add_all rl jt pref (job # jobs) s = rq_add_all rl jt pref jobs (rq_addToQueue rl jt pref job s)"

lemma rq_add_all: "rq.add_all rl jt pref jobs s = rq_add_all rl jt pref jobs s"
  by (induction jobs arbitrary: s) auto

text \<open>
  Jobs that are added to the Redis queue are sent once each, in the order in which they were added,
  by as many rounds as there are jobs, and the working list is then what it was. A job that is in the
  working list, as after a crash, is never taken up again, and while it is there a shutdown waits
  until its time runs out.
\<close>
theorem redis_queue_delivers:
  assumes "list_laws rl" "list_all (text_law jt) jobs" "rl_LRange rl s (queueName pref) = []"
  shows "\<exists>s'. rq_monitorQueue True rl jt pref (length jobs) (rq_add_all rl jt pref jobs s) = Some (jobs, s')
    \<and> rl_LRange rl s' (queueName pref) = [] \<and> rl_LRange rl s' (workingQueue pref) = rl_LRange rl s (workingQueue pref)
    \<and> (rq_drained rl pref s' \<longleftrightarrow> rq_drained rl pref s)"
proof -
  note e = rq_empty [OF assms(1,3)]
  from rq.delivers [OF conjunct1 [OF e] conjunct2 [OF e] rq_accepts_all [OF assms(2)] order_refl] obtain s' where
    "rq_monitorQueue True rl jt pref (length jobs) (rq_add_all rl jt pref jobs s) = Some (jobs, s')"
    "rq_serves rl jt pref (rl_LRange rl s (workingQueue pref)) s'" "rq_waiting rl jt pref s' = []"
    unfolding rq_rounds rq_add_all by blast
  then show ?thesis by (intro exI [of _ s'] conjI) (simp_all add: rq_waits_for_none, simp_all add: rq_serves_def rq_drained_def)
qed

text \<open>C27
  The two drivers of the webhook queue are interchangeable: up to a hundred jobs that are handed to the local queue, and the
  same jobs handed to the Redis queue, are sent alike, all of them in the order in which they were added, and neither
  queue's goroutine panics.
\<close>
theorem queue_drivers_agree:
  assumes "list_laws rl" "list_all (text_law jt) jobs" "rl_LRange rl s (queueName pref) = []" "length jobs \<le> 100" "length jobs \<le> n"
  shows "map_option fst (rq_monitorQueue True rl jt pref n (rq_add_all rl jt pref jobs s)) = Some jobs
    \<and> map_option fst (sync_monitorQueue timeMs n (sync_add_all jobs SyncQueue_Init)) = Some jobs"
proof
  show "map_option fst (rq_monitorQueue True rl jt pref n (rq_add_all rl jt pref jobs s)) = Some jobs"
  proof -
    note e = rq_empty [OF assms(1,3)]
    from rq.delivers [OF conjunct1 [OF e] conjunct2 [OF e] rq_accepts_all [OF assms(2)] assms(5)] show ?thesis
      unfolding rq_rounds rq_add_all by (elim exE conjE) simp
  qed
  show "map_option fst (sync_monitorQueue timeMs n (sync_add_all jobs SyncQueue_Init)) = Some jobs"
    using sync_delivers [OF assms(4,5), of timeMs] by (elim exE conjE) simp
qed

subsection \<open>A panic of the queue\<close>

text \<open>C40
  The goroutine of the Redis queue panics, and with it the process, on a job whose text has no payload, and on any job that
  waits in Redis when the server starts, if it is taken before the constructor has stored the \<open>AbstractQueue\<close>. The job
  then stays in the working list, so that no later shutdown finds this list empty.
\<close>
theorem redis_queue_panics:
  assumes "list_laws rl" "rl_LRange rl s (queueName pref) = ts @ [t]" "jt_unmarshal jt t = Some job"
    and "dj_Payload job = None \<or> \<not> aq"
  shows "rq_round aq rl jt pref s = None
    \<and> (\<exists>s'. rl_BRPopLPush rl s (queueName pref) (workingQueue pref) = (Some t, s') \<and> \<not> rq_drained rl pref s')"
proof -
  obtain s' where s': "rl_BRPopLPush rl s (queueName pref) (workingQueue pref) = (Some t, s')"
    "rl_LRange rl s' (workingQueue pref) = t # rl_LRange rl s (workingQueue pref)" by (rule takes_oldest [OF assms(1,2)])
  with assms(3,4) show ?thesis by (auto simp: rq_round_def processEvent_def rq_drained_def split: option.split)
qed

subsection \<open>Examples\<close>

text \<open>Lists by name, as an instance of the parameter.\<close>

definition demo_lists :: "(string \<Rightarrow> string list) redis_lists" where
  "demo_lists = \<lparr>rl_LRange = (\<lambda>s k. s k), rl_LPush = (\<lambda>s k v. s(k := v # s k)),
     rl_BRPopLPush = (\<lambda>s k d. if s k = [] then (None, s) else (Some (last (s k)), (s(k := butlast (s k)))(d := last (s k) # s d))),
     rl_LRem = (\<lambda>s k v. s(k := remove1 v (s k)))\<rparr>"

definition demo_text :: job_text where
  "demo_text = \<lparr>jt_marshal = (\<lambda>_. Some ''j''), jt_unmarshal = (\<lambda>_. Some (whole_job demo_job))\<rparr>"

lemma demo_list_laws: "list_laws demo_lists"
  by (auto simp: list_laws_def demo_lists_def)

lemma demo_text_law: "list_all (text_law demo_text) [demo_job, demo_job]" "rl_LRange demo_lists (\<lambda>_. []) k = []"
  by (simp_all add: text_law_def demo_text_def demo_lists_def)

theorem redis_queue_delivers_witness:
  "map_option fst (rq_monitorQueue True demo_lists demo_text ''p'' 2
     (rq_add_all demo_lists demo_text ''p'' [demo_job, demo_job] (\<lambda>_. []))) = Some [demo_job, demo_job]"
  using redis_queue_delivers [OF demo_list_laws demo_text_law, of "''p''"] by (auto simp: numeral_2_eq_2 simp del: rq_monitorQueue.simps)

theorem queue_drivers_agree_witness:
  "map_option fst (sync_monitorQueue 5 3 (sync_add_all [demo_job, demo_job] SyncQueue_Init)) = Some [demo_job, demo_job]"
  using queue_drivers_agree [OF demo_list_laws demo_text_law, of 3 "''p''" 5] by simp

theorem redis_queue_panics_witness:
  "rq_round False demo_lists demo_text ''p'' ((\<lambda>_. [])(queueName ''p'' := [''j''])) = None"
  using redis_queue_panics [OF demo_list_laws, of "(\<lambda>_. [])(queueName ''p'' := [''j''])" "''p''" "[]" "''j''" demo_text "whole_job demo_job" False]
  by (simp add: demo_lists_def demo_text_def)

end
