(* ===== verification/Spec2Isabelle.thy ===== *)
theory Spec2Isabelle
  imports Identity Gauge Webhook_Path Process Web Cluster_Faults Redis_Queue
begin

text \<open>
  \<^bold>\<open>The program.\<close> A server that speaks the Pusher Channels protocol. A client opens a WebSocket
  (\<open>internal/serve.go\<close>), its frames are dispatched by the read loop \<open>Listen\<close>
  (\<open>internal/websocket.go\<close>): it subscribes to channels, sends client events and signs in as a user.
  The sockets, channels and users of an app are kept in a namespace (\<open>internal/namespace.go\<close>) that
  an adapter owns: the local one (\<open>internal/adaptersLocal.go\<close>), or one that asks and tells the other
  nodes over Redis (\<open>internal/adaptersHorizontal.go\<close>, \<open>adaptersRedis.go\<close>). A backend triggers
  events and asks about channels through a signed REST interface (\<open>internal/apiEvents.go\<close>,
  \<open>apiChannels.go\<close>, \<open>httpMiddlewares.go\<close>). What happens on channels is reported to webhooks
  (\<open>internal/queues\<close>, \<open>internal/webhooks\<close>), after a detector has removed what cancels out. Caches
  (\<open>internal/cache\<close>) hold the last event of a cache channel, metrics (\<open>internal/metrics\<close>) count.
  \<open>internal/server.go\<close> builds all of it from the configuration (\<open>internal/config\<close>), runs it and
  shuts it down; \<open>cmd/main.go\<close> calls it.

  \<^bold>\<open>Conventions.\<close> A Go string is a list of bytes. A Go map is an association list with distinct
  keys; a loop over a map walks the list, and the theorems hold for every order of it. A run-time
  panic is \<open>None\<close>; an error is a value, \<open>Inl\<close> of a sum or \<open>Some\<close> of an optional error as the code
  has it. Sockets are shared, mutable objects: they live in a heap (\<open>w_heap\<close> of the record
  \<open>World\<close>) and maps hold their addresses. \<open>World\<close> is also what the handlers of one node share: the
  namespaces, the cache, the metrics, the webhook queue with its flap detector, the flags of the
  server. An operation that holds a lock in the code is one atomic step; where the code gives up
  its locks between two steps (timers, watchers, the check of a limit and what depends on it, waiting
  for other nodes, the shutdown) the steps are separate, and the lemmas quantify over their order.
  Integers are mathematical where the code only counts and compares; timestamps of signatures
  are 64-bit words and wrap. What is random, the clock, and the result of a library call are
  arguments of the operation that uses them.

  \<^bold>\<open>Theories, in the order of the code's layers.\<close>
  \<^item> Prelude: Go maps, slices and strings, panics as options, shared rewriting.
  \<^item> Crypto, Util, Signature: SHA-256, HMAC and hexadecimal text of Go's library, executable;
    \<open>util/utils.go\<close>, \<open>util/errors.go\<close>, \<open>constants/constants.go\<close>; \<open>util/signature.go\<close>. The order
    of the query parameters does not matter to \<open>Verify\<close>, it accepts exactly the requests that were
    signed with the secret and are fresh, and a timestamp from long ago passes by wrap-around.
  \<^item> Json, Json_Roundtrip, Payloads: the part of \<open>encoding/json\<close> the code uses, that the decoder
    reads back what the encoder writes; \<open>payloads/payload.go\<close>, whose messages are read back.
  \<^item> Metrics, Apps, Config: \<open>metrics\<close>, \<open>apps/app.go\<close> with \<open>appManagerArray.go\<close>, \<open>config/config.go\<close>:
    a configuration makes the limits it leaves out positive and its drivers known ones.
  \<^item> Cache, Redis_Cache: the contract \<open>cache_contract\<close> over what \<open>Get\<close> answers at a time, met by
    \<open>cache/localCache.go\<close>; \<open>cache/redisCache.go\<close> agrees with it on every run of commands.
  \<^item> Flap, Queues: \<open>queues/flapDetector.go\<close> as an interleaving of calls and timers; \<open>queueAbstract.go\<close>, which turns
    events into jobs.
  \<^item> Sync_Queue, Redis_Queue, Senders: the contract \<open>webhook_queue\<close> of \<open>queueInterface.go\<close>, which both drivers
    meet, so that they send the same jobs in the same order; \<open>queueSync.go\<close> as events of the goroutines around its bounded
    channel, of which none loses a job while \<open>monitorQueue\<close> runs; \<open>queueRedis.go\<close> over two Redis lists, with
    the jobs on which it panics; the senders of \<open>internal/webhooks\<close>, which serve every webhook of the queue's jobs once.
  \<^item> Types, NamespaceM, Local_Adapter, Channels: the records of \<open>channels.go\<close>, \<open>websocket.go\<close>,
    \<open>namespace.go\<close>; every operation of a namespace refines an operation on its relation between
    channels and sockets; the adapter over namespaces; joining and leaving over the contract
    \<open>channel_adapter\<close>, which the local adapter meets.
  \<^item> Websockets, Sessions, Closing, Dispatch: the handlers of \<open>websocket.go\<close>, and that each keeps
    the invariant \<open>world_ok\<close> (every registered socket is registered under its own id, in the namespace
    of its own app, and has its server) and does not panic on an attached socket (\<open>session_ok\<close>).
    Handlers are composed with the rules of \<open>runs\<close>: the computation returns and its result satisfies
    the predicate. Closing a connection leaves nothing of it behind; the read loop ends.
  \<^item> Handlers, Requests: what a request does for the client and what others see of it: who may
    subscribe, who receives a message, whose identity a socket can take, what a cache channel replays.
  \<^item> Serve, Http_Api, Api_Events: \<open>serve.go\<close> and the watcher for authentication; the routes of the
    REST interface, that they need a valid signature, whom an event reaches, what a query lists.
  \<^item> Web: all routes of the web server over the handshake and the REST interface, with the chain of
    middlewares and the context it hands on, which is the composition of Http_Api: every request is answered,
    and reaches the backend only signed; the access log; the metrics server.
  \<^item> Server, Shutdown: \<open>server.go\<close>. Server has the inductive relation \<open>server_step\<close>, a step being
    one atomic piece of work of one goroutine, and the invariant \<open>server_ok\<close> of every reachable
    state, from which no piece of work panics. Shutdown has \<open>Run\<close>, the panic handler and the
    graceful shutdown, whose goroutines are tasks of the relation \<open>shutdown_step\<close> in any order.
  \<^item> Presence, Occupancy, Webhook_Path: what a presence channel shows: who is present after a member joins or leaves and
    who is told; which events a subscription and its end hand to the webhook queue, and what becomes
    of them in the flap detector: a visit shorter than its window is not reported, a longer one is,
    once for every webhook whose filter lets the channel through, whose server gets a signed request.
  \<^item> Broker, Broker_Steps, Broker_Server, Broker_Safety: the server seen from outside. \<open>Broker\<close> is the specification:
    who is connected and who is subscribed to what, with four events. \<open>coherent\<close> ties the channels
    that a socket tracks itself to the subscriptions the adapter keeps for it; every handler is a run of
    the broker that keeps it (\<open>follows\<close>), and every step of the server, labelled with the work it does
    (\<open>works\<close>), a run with the events \<open>allowed\<close> for that work. So a subscription is only ever added by a
    frame of the socket itself with a token that is right. Broker_Safety carries this to whole runs: every
    subscription has the frame that made it in its past, apps do not touch one another, and, brokers being
    ordered by what they hold, a server that is closing only goes down.
  \<^item> Identity: the same for the users of sockets: in a run of the server every user id a socket has was
    proved by a frame of that socket.
  \<^item> Gauge: the metrics count the connections: the gauge and the counters move with the registered sockets in every step.
  \<^item> Redis_Client, Process: \<open>clients/redis.go\<close>; the environment, the logger, the sources of the configuration and
    \<open>main\<close>, composed with the configuration, the server and \<open>Run\<close>: a process that serves is ready to.
  \<^item> Horizontal, Cluster, Cluster_Queries, Cluster_Faults: the adapters of a cluster: a node is a
    local adapter and the lists of what it publishes; a broadcast reaches the subscribers of every
    node; a query combines the answers of the others by one of six merges, all of them instances of the
    locale \<open>aggregate\<close>, which shows that the order of the answers does not matter; a query ends,
    after all answers or by its timeout; and the queries and requests that go wrong.

  \<^bold>\<open>Interfaces.\<close> \<open>cache_contract\<close> (Cache) is interpreted on the local cache; \<open>channel_adapter\<close>
  (Channels) on the local adapter; \<open>webhook_queue\<close> (Sync_Queue) on the local queue and the Redis queue; \<open>total_refinement\<close> (Prelude), a simulation by operations that may
  panic, on the namespace; \<open>aggregate\<close> (Cluster) on the six merges of answers.

  \<^bold>\<open>Parameters.\<close> The JSON form of \<open>MemberData\<close> and \<open>Webhook\<close>, which the Pusher client library
  defines; sending an HTTP request and an SNS message; the upgrade of a connection; Gin's binding of a
  request body and its matching of a path with a pattern; the commands of a Redis client; what viper, pflag, logrus and godotenv read and decide; parsing a Redis URL and a ping; registering a
  Prometheus metric; fresh ids and the clock. The laws asked of the Redis client are those of its
  documentation (a key holds what was last set until it expires, lists are first in, first out).

  \<^bold>\<open>Bounds.\<close> The nesting of a JSON text is limited to 10000, the library's own limit; the loop over
  the elements of an array or object carries the length of its input as fuel, of which each round uses
  at least one character. The events a waiting request sees are a list, which ends with all
  answers or the timeout. No other definition is bounded.

  \<^bold>\<open>What modelling showed.\<close> Some theorems state a behaviour the code does not seem to intend: a
  client that subscribes to a presence channel with a valid token and no member stops the server;
  two connections can pass the limit together; a request for the channels of an app stops the other
  nodes; terminating the connections of a user over the cluster repeats its own request without
  end; the answer about a socket's own membership is lost over the cluster; a broadcast excludes the
  sender on its own node only; a user connected to two nodes counts twice; a timestamp from long
  ago counts as fresh; a repeated event escapes the flap detector; an app cannot be disabled;
  at shutdown the queue stops before the webhooks that are held back; a Redis job whose process dies
  stays where nothing takes it up, and one it cannot read stops the process; the local queue can stop before
  its channel is empty; a log level that cannot be parsed silences the log; a node that loses its
  subscription to Redis stays deaf; the gauges of channels show one app.

  \<^bold>\<open>Not modelled.\<close> Calls that only log; the text form of a metric; listening on sockets and on signals; the ticker of the cache's cleanup job (one run of it is
  modelled); Go interfaces and the rate limiter, which has no implementation. In the state of the
  server the webhook queue is the list of the jobs it was given; what becomes of them is in Sync_Queue and Senders. The handlers of a node run over
  its local adapter; the adapters of a cluster are modelled beside them, on the same state. A response
  between nodes travels as its value, not as its text. Invalid UTF-8 and the characters that
  \<open>encoding/json\<close> escapes beyond ASCII are outside the model of strings.
\<close>

end
